(* ===== verification/Prelude.thy ===== *)
theory Prelude
  imports Main "HOL-Library.Sublist"
begin

text \<open>
  Shared vocabulary of the development: the three-way outcome of a fallible Rust function
  (a panic, an error value, a result), the named collections the component proofs use, and
  the generic facts on lists that several components need.
\<close>

section \<open>Outcomes\<close>

text \<open>
  A Rust function returning \<open>Result<T, E>\<close> can also panic (slice out of range, index out of
  range). The panic is a value of the model, so that \<open>does not panic\<close> is a statement.
\<close>

datatype ('e, 'a) outcome = Panic | Err 'e | Ok 'a

fun bind_outcome :: "('e, 'a) outcome \<Rightarrow> ('a \<Rightarrow> ('e, 'b) outcome) \<Rightarrow> ('e, 'b) outcome" where
  "bind_outcome Panic f = Panic"
| "bind_outcome (Err e) f = Err e"
| "bind_outcome (Ok a) f = f a"

fun or_panic :: "'a option \<Rightarrow> ('e, 'a) outcome" where
  "or_panic None = Panic"
| "or_panic (Some a) = Ok a"

lemma bind_outcome_Ok_iff:
  "bind_outcome m f = Ok b \<longleftrightarrow> (\<exists>a. m = Ok a \<and> f a = Ok b)"
  by (cases m) auto

lemma bind_outcome_Panic_iff:
  "bind_outcome m f = Panic \<longleftrightarrow> m = Panic \<or> (\<exists>a. m = Ok a \<and> f a = Panic)"
  by (cases m) auto

section \<open>Collections used by the component proofs\<close>

named_theorems span_simps \<open>facts on match spans and splicing\<close>
named_theorems offset_simps \<open>facts on offset translation tables\<close>
named_theorems traversal_simps \<open>facts on graph traversals\<close>

section \<open>Lists\<close>

text \<open>\<open>slice::partition_point\<close> on a slice that is partitioned by the predicate.\<close>

definition partition_point :: "('a \<Rightarrow> bool) \<Rightarrow> 'a list \<Rightarrow> nat" where
  "partition_point P xs = length (takeWhile P xs)"

lemma partition_point_Nil [simp]: "partition_point P [] = 0"
  by (simp add: partition_point_def)

lemma partition_point_Cons [simp]:
  "partition_point P (x # xs) = (if P x then Suc (partition_point P xs) else 0)"
  by (simp add: partition_point_def)

lemma partition_point_le: "partition_point P xs \<le> length xs"
  by (simp add: partition_point_def length_takeWhile_le)

lemma partition_point_before: "i < partition_point P xs \<Longrightarrow> P (xs ! i)"
  by (metis nth_mem partition_point_def set_takeWhileD takeWhile_nth)

lemma partition_point_at: "partition_point P xs < length xs \<Longrightarrow> \<not> P (xs ! partition_point P xs)"
  unfolding partition_point_def by (rule nth_length_takeWhile)

lemma partition_point_map: "partition_point P (map f xs) = partition_point (\<lambda>x. P (f x)) xs"
  by (induction xs) auto

text \<open>Bounded association lists, newest entry first: what a hash map lookup and insert do.\<close>

fun alookup :: "'k \<Rightarrow> ('k \<times> 'v) list \<Rightarrow> 'v option" where
  "alookup k [] = None"
| "alookup k ((k', v) # xs) = (if k = k' then Some v else alookup k xs)"

definition aremove :: "'k \<Rightarrow> ('k \<times> 'v) list \<Rightarrow> ('k \<times> 'v) list" where
  "aremove k xs = filter (\<lambda>(k', _). k' \<noteq> k) xs"

definition ainsert :: "'k \<Rightarrow> 'v \<Rightarrow> ('k \<times> 'v) list \<Rightarrow> ('k \<times> 'v) list" where
  "ainsert k v xs = (k, v) # aremove k xs"

lemma alookup_aremove [simp]: "alookup k' (aremove k xs) = (if k = k' then None else alookup k' xs)"
  by (induction xs) (auto simp: aremove_def)

lemma alookup_ainsert [simp]: "alookup k' (ainsert k v xs) = (if k' = k then Some v else alookup k' xs)"
  by (auto simp: ainsert_def)

lemma alookup_None_iff: "alookup k xs = None \<longleftrightarrow> k \<notin> fst ` set xs"
  by (induction xs) (auto split: if_splits)

lemma alookup_Some_in: "alookup k xs = Some v \<Longrightarrow> (k, v) \<in> set xs"
  by (induction xs) (auto split: if_splits)

lemma distinct_aremove: "distinct (map fst xs) \<Longrightarrow> distinct (map fst (aremove k xs))"
  by (induction xs) (auto simp: aremove_def)

lemma fst_aremove: "fst ` set (aremove k xs) = fst ` set xs - {k}"
  by (auto simp: aremove_def image_iff)

lemma distinct_ainsert: "distinct (map fst xs) \<Longrightarrow> distinct (map fst (ainsert k v xs))"
  using fst_aremove[of k xs] by (simp add: ainsert_def distinct_aremove)

lemma length_aremove:
  "distinct (map fst xs) \<Longrightarrow>
   length (aremove k xs) = (if k \<in> fst ` set xs then length xs - 1 else length xs)"
proof (induction xs)
  case Nil
  then show ?case by (simp add: aremove_def)
next
  case (Cons x xs)
  obtain k' v where x: "x = (k', v)" by (cases x)
  show ?case
  proof (cases "k' = k")
    case True
    then have "k \<notin> fst ` set xs" using Cons.prems x by auto
    then have "aremove k xs = xs"
      by (force simp: aremove_def filter_id_conv)
    then show ?thesis using True x by (simp add: aremove_def)
  next
    case False
    then have "length (aremove k (x # xs)) = Suc (length (aremove k xs))"
      using x by (simp add: aremove_def)
    moreover have "k \<in> fst ` set xs \<Longrightarrow> length xs \<noteq> 0" by auto
    ultimately show ?thesis using Cons False x by auto
  qed
qed

lemma length_ainsert:
  "distinct (map fst xs) \<Longrightarrow>
   length (ainsert k v xs) = (if k \<in> fst ` set xs then length xs else Suc (length xs))"
proof -
  assume d: "distinct (map fst xs)"
  have "k \<in> fst ` set xs \<Longrightarrow> 0 < length xs" by (cases xs) auto
  then show ?thesis using length_aremove[OF d, of k] by (auto simp: ainsert_def)
qed

end
