(* ===== verification/RustStr.thy ===== *)
theory RustStr
  imports Prelude
begin

text \<open>
  Rust's \<open>str\<close> as the list of its UTF-8 bytes (HOL's \<open>string\<close>, whose characters are the 256
  byte values), with the standard-library operations the program uses: boundaries and slicing
  (which panic), substring search, line splitting and trimming. Byte offsets are \<open>nat\<close>.
\<close>

section \<open>Bytes, char boundaries, slices\<close>

abbreviation byte :: "char \<Rightarrow> nat" where "byte c \<equiv> of_char c"

abbreviation LF :: char where "LF \<equiv> CHR 0x0A"
abbreviation CR :: char where "CR \<equiv> CHR 0x0D"
abbreviation TAB :: char where "TAB \<equiv> CHR 0x09"

definition is_cont :: "char \<Rightarrow> bool" where
  "is_cont c \<longleftrightarrow> 128 \<le> byte c \<and> byte c < 192"

text \<open>\<open>str::is_char_boundary\<close>.\<close>

definition boundary :: "string \<Rightarrow> nat \<Rightarrow> bool" where
  "boundary s i \<longleftrightarrow> i = 0 \<or> i = length s \<or> (i < length s \<and> \<not> is_cont (s ! i))"

text \<open>\<open>&s[a..b]\<close>: \<open>None\<close> is the panic.\<close>

definition str_slice :: "string \<Rightarrow> nat \<Rightarrow> nat \<Rightarrow> string option" where
  "str_slice s a b =
     (if a \<le> b \<and> boundary s a \<and> boundary s b then Some (take (b - a) (drop a s)) else None)"

definition str_from :: "string \<Rightarrow> nat \<Rightarrow> string option" where
  "str_from s a = str_slice s a (length s)"

lemma boundary_0 [simp]: "boundary s 0" by (simp add: boundary_def)
lemma boundary_length [simp]: "boundary s (length s)" by (simp add: boundary_def)

lemma boundary_le: "boundary s i \<Longrightarrow> i \<le> length s"
  by (auto simp: boundary_def)

lemma str_slice_Some:
  "str_slice s a b = Some t \<longleftrightarrow> a \<le> b \<and> boundary s a \<and> boundary s b \<and> t = take (b - a) (drop a s)"
  by (auto simp: str_slice_def)

section \<open>Well-formed UTF-8\<close>

text \<open>
  The length of the first encoded scalar value, \<open>None\<close> when the bytes do not start with a
  well-formed sequence (no overlong forms, no surrogates, nothing above U+10FFFF).
\<close>

definition cont_at :: "string \<Rightarrow> nat \<Rightarrow> bool" where
  "cont_at s i \<longleftrightarrow> i < length s \<and> is_cont (s ! i)"

definition second_in :: "string \<Rightarrow> nat \<Rightarrow> nat \<Rightarrow> bool" where
  "second_in s lo hi \<longleftrightarrow> 1 < length s \<and> lo \<le> byte (s ! 1) \<and> byte (s ! 1) \<le> hi"

fun utf8_len :: "string \<Rightarrow> nat option" where
  "utf8_len [] = None"
| "utf8_len (c # cs) =
     (let b = byte c; s = c # cs in
      if b < 128 then Some 1
      else if 194 \<le> b \<and> b \<le> 223 then (if cont_at s 1 then Some 2 else None)
      else if b = 224 then (if second_in s 160 191 \<and> cont_at s 2 then Some 3 else None)
      else if b = 237 then (if second_in s 128 159 \<and> cont_at s 2 then Some 3 else None)
      else if 225 \<le> b \<and> b \<le> 239 then (if cont_at s 1 \<and> cont_at s 2 then Some 3 else None)
      else if b = 240 then
        (if second_in s 144 191 \<and> cont_at s 2 \<and> cont_at s 3 then Some 4 else None)
      else if 241 \<le> b \<and> b \<le> 243 then
        (if cont_at s 1 \<and> cont_at s 2 \<and> cont_at s 3 then Some 4 else None)
      else if b = 244 then
        (if second_in s 128 143 \<and> cont_at s 2 \<and> cont_at s 3 then Some 4 else None)
      else None)"

declare utf8_len.simps [simp del]

lemma second_in_cont:
  "second_in s lo hi \<Longrightarrow> 128 \<le> lo \<Longrightarrow> hi \<le> 191 \<Longrightarrow> cont_at s 1"
  by (auto simp: second_in_def cont_at_def is_cont_def)

lemma utf8_len_Some:
  assumes "utf8_len s = Some n"
  shows "0 < n \<and> n \<le> length s \<and> n \<le> 4 \<and> \<not> is_cont (s ! 0) \<and> (\<forall>i. 0 < i \<and> i < n \<longrightarrow> is_cont (s ! i))"
proof -
  obtain c cs where s: "s = c # cs" using assms by (cases s) (auto simp: utf8_len.simps)
  have conts: "(\<forall>i. 0 < i \<and> i < n \<longrightarrow> cont_at s i) \<and> 0 < n \<and> n \<le> 4 \<and> \<not> is_cont c"
  proof -
    have "\<not> is_cont c"
      using assms by (auto simp: s utf8_len.simps is_cont_def Let_def split: if_splits)
    moreover have "n = 1 \<or> (n = 2 \<and> cont_at s 1) \<or> (n = 3 \<and> cont_at s 1 \<and> cont_at s 2) \<or>
        (n = 4 \<and> cont_at s 1 \<and> cont_at s 2 \<and> cont_at s 3)"
      using assms
      by (auto simp: s utf8_len.simps Let_def split: if_splits dest: second_in_cont)
    ultimately show ?thesis
      by (auto simp: less_Suc_eq numeral_eq_Suc)
  qed
  then have "n \<le> length s"
    by (cases n; cases "n = 1") (auto simp: cont_at_def s dest!: spec[of _ "n - 1"])
  then show ?thesis using conts by (auto simp: cont_at_def s)
qed

lemma utf8_len_pos [simp]: "utf8_len s = Some n \<Longrightarrow> 0 < n"
  using utf8_len_Some by blast

function utf8_valid :: "string \<Rightarrow> bool" where
  "utf8_valid s = (if s = [] then True else
     (case utf8_len s of None \<Rightarrow> False | Some n \<Rightarrow> utf8_valid (drop n s)))"
  by pat_completeness auto
termination by (relation "measure length") (auto dest: utf8_len_Some)

declare utf8_valid.simps [simp del]

lemma utf8_valid_Nil [simp]: "utf8_valid []"
  by (simp add: utf8_valid.simps)

lemma utf8_valid_Cons_lead: "utf8_valid (c # cs) \<Longrightarrow> \<not> is_cont c"
  using utf8_len_Some[of "c # cs"] by (auto simp: utf8_valid.simps[of "c # cs"] split: option.splits)

lemma cont_at_append: "cont_at u i \<Longrightarrow> cont_at (u @ v) i"
  by (simp add: cont_at_def nth_append)

lemma second_in_append: "second_in u lo hi \<Longrightarrow> second_in (u @ v) lo hi"
  by (simp add: second_in_def nth_append)

lemma utf8_len_append:
  assumes "utf8_len u = Some n"
  shows "utf8_len (u @ v) = Some n"
proof -
  obtain c cs where u: "u = c # cs" using assms by (cases u) (auto simp: utf8_len.simps)
  have app: "cont_at (c # cs @ v) i" if "cont_at (c # cs) i" for i
    using cont_at_append[OF that] by simp
  have app2: "second_in (c # cs @ v) lo hi" if "second_in (c # cs) lo hi" for lo hi
    using second_in_append[OF that] by simp
  show ?thesis using assms app app2 unfolding u
    by (simp add: utf8_len.simps Let_def split: if_split_asm)
qed

text \<open>A well-formed prefix leaves a well-formed rest: the encoding is a prefix code.\<close>

lemma utf8_valid_append:
  "utf8_valid u \<Longrightarrow> utf8_valid (u @ v) = utf8_valid v"
proof (induction u rule: utf8_valid.induct)
  case (1 u)
  show ?case
  proof (cases "u = []")
    case False
    with "1.prems" obtain n where n: "utf8_len u = Some n" "utf8_valid (drop n u)"
      by (auto simp: utf8_valid.simps[of u] split: option.splits)
    have "drop n (u @ v) = drop n u @ v" using utf8_len_Some[OF n(1)] by simp
    then show ?thesis
      using "1.IH"[OF False n(1) n(2)] utf8_len_append[OF n(1), of v] False
      by (simp add: utf8_valid.simps[of "u @ v"])
  qed simp
qed

text \<open>Cutting a well-formed string before a byte that starts a scalar leaves both halves well-formed.\<close>

lemma utf8_valid_split_lead:
  "utf8_valid (u @ v) \<Longrightarrow> v \<noteq> [] \<Longrightarrow> \<not> is_cont (hd v) \<Longrightarrow> utf8_valid u \<and> utf8_valid v"
proof (induction u rule: length_induct)
  case (1 u)
  show ?case
  proof (cases "u = []")
    case True
    then show ?thesis using "1.prems" by simp
  next
    case False
    with "1.prems"(1) obtain n where n: "utf8_len (u @ v) = Some n" "utf8_valid (drop n (u @ v))"
      by (auto simp: utf8_valid.simps[of "u @ v"] split: option.splits)
    note p = utf8_len_Some[OF n(1)]
    have le: "n \<le> length u"
    proof (rule ccontr)
      assume "\<not> n \<le> length u"
      moreover have "0 < length u" using False by simp
      ultimately have "is_cont ((u @ v) ! length u)" using p by (meson not_le)
      then show False using "1.prems"(2,3) by (simp add: nth_append hd_conv_nth)
    qed
    have rest: "utf8_valid (drop n u) \<and> utf8_valid v"
      using "1.IH" "1.prems" n(2) le p False
      by (metis diff_less drop_append append_Nil2 diff_is_0_eq' drop0 length_drop length_greater_0_conv)
    have "utf8_len u = Some n"
    proof -
      obtain c cs where u: "u = c # cs" using False by (cases u) auto
      have cont: "cont_at (c # cs @ v) i = cont_at (c # cs) i" if "i < n" for i
        using that le u by (simp add: cont_at_def nth_append flip: append_Cons)
      have second: "second_in (c # cs @ v) lo hi = second_in (c # cs) lo hi" if "1 < n" for lo hi
        using that le u by (cases cs) (simp_all add: second_in_def)
      show ?thesis using n(1) cont second unfolding u
        by (simp add: utf8_len.simps Let_def split: if_split_asm)
    qed
    then have "utf8_valid u" using rest by (simp add: utf8_valid.simps[of u])
    then show ?thesis using rest by simp
  qed
qed

lemma utf8_valid_take_drop:
  assumes "utf8_valid s" "boundary s i"
  shows "utf8_valid (take i s) \<and> utf8_valid (drop i s)"
proof (cases "i = 0 \<or> i = length s")
  case True
  then show ?thesis using assms(1) by auto
next
  case False
  then have "i < length s" "\<not> is_cont (s ! i)" using assms(2) by (auto simp: boundary_def)
  then show ?thesis
    using utf8_valid_split_lead[of "take i s" "drop i s"] assms(1)
    by (simp add: hd_drop_conv_nth)
qed

lemma boundary_take_drop:
  assumes "utf8_valid s" "i \<le> length s"
  shows "boundary s i \<longleftrightarrow> utf8_valid (drop i s)"
proof
  assume "utf8_valid (drop i s)"
  then show "boundary s i"
    using utf8_valid_Cons_lead[of "s ! i" "drop (Suc i) s"] assms(2)
    by (cases "i = length s") (auto simp: boundary_def Cons_nth_drop_Suc)
qed (use utf8_valid_take_drop assms in blast)

text \<open>An ASCII byte can be taken out of, or put into, a well-formed string anywhere between scalars.\<close>

lemma utf8_valid_ascii_mid:
  assumes "byte c < 128"
  shows "utf8_valid (u @ c # v) \<longleftrightarrow> utf8_valid u \<and> utf8_valid v"
proof -
  have "utf8_valid [c]" using assms by (simp add: utf8_valid.simps utf8_len.simps)
  then have c: "utf8_valid (c # v) = utf8_valid v" for v
    using utf8_valid_append[of "[c]" v] by simp
  have "\<not> is_cont c" using assms by (simp add: is_cont_def)
  then show ?thesis
    using utf8_valid_split_lead[of u "c # v"] utf8_valid_append[of u "c # v"] c by auto
qed

lemma ascii_not_cont: "byte c < 128 \<Longrightarrow> \<not> is_cont c"
  by (simp add: is_cont_def)

section \<open>Substring search\<close>

text \<open>
  \<open>str::match_indices\<close> for a non-empty pattern: leftmost, non-overlapping occurrences, as byte
  offsets counted from \<open>off\<close>. (Every caller checks that its pattern is not empty first.)
\<close>

function match_from :: "string \<Rightarrow> nat \<Rightarrow> string \<Rightarrow> nat list" where
  "match_from pat off s =
     (if pat = [] \<or> s = [] then []
      else if prefix pat s then off # match_from pat (off + length pat) (drop (length pat) s)
      else match_from pat (Suc off) (tl s))"
  by pat_completeness auto
termination by (relation "measure (\<lambda>(_, _, s). length s)") auto

declare match_from.simps [simp del]

definition match_indices :: "string \<Rightarrow> string \<Rightarrow> nat list" where
  "match_indices s pat = match_from pat 0 s"

definition str_contains :: "string \<Rightarrow> string \<Rightarrow> bool" where
  "str_contains s pat \<longleftrightarrow> pat = [] \<or> match_indices s pat \<noteq> []"

text \<open>Every reported offset is an occurrence, and occurrences do not overlap.\<close>

lemma match_from_sound:
  "o1 \<in> set (match_from pat off s) \<Longrightarrow>
   off \<le> o1 \<and> o1 - off + length pat \<le> length s \<and> take (length pat) (drop (o1 - off) s) = pat"
proof (induction pat off s rule: match_from.induct)
  case (1 pat off s)
  show ?case
  proof (cases "pat = [] \<or> s = []")
    case True
    then show ?thesis using "1.prems" by (auto simp: match_from.simps[of pat off s])
  next
    case ne: False
    show ?thesis
    proof (cases "prefix pat s")
      case True
      then obtain z where z: "s = pat @ z" by (auto simp: prefix_def)
      have "o1 = off \<or> o1 \<in> set (match_from pat (off + length pat) (drop (length pat) s))"
        using "1.prems" ne True by (auto simp: match_from.simps[of pat off s])
      then show ?thesis
      proof
        assume "o1 = off"
        then show ?thesis using z by simp
      next
        assume m: "o1 \<in> set (match_from pat (off + length pat) (drop (length pat) s))"
        have ih: "off + length pat \<le> o1" "o1 - (off + length pat) + length pat \<le> length z"
          "take (length pat) (drop (o1 - (off + length pat)) z) = pat"
          using "1.IH"(1)[OF ne True m] z by auto
        have "o1 - off = length pat + (o1 - (off + length pat))" using ih(1) by simp
        then show ?thesis using ih z by simp
      qed
    next
      case False
      then have m: "o1 \<in> set (match_from pat (Suc off) (tl s))"
        using "1.prems" ne by (auto simp: match_from.simps[of pat off s])
      have ih: "Suc off \<le> o1" "o1 - Suc off + length pat \<le> length (tl s)"
          "take (length pat) (drop (o1 - Suc off) (tl s)) = pat"
        using "1.IH"(2)[OF ne False m] by auto
      have "drop (o1 - off) s = drop (o1 - Suc off) (tl s)"
        using ih(1) by (metis Suc_diff_le diff_Suc_Suc drop_Suc)
      then show ?thesis using ih ne by (cases s) auto
    qed
  qed
qed

lemma match_from_ge: "o1 \<in> set (match_from pat off s) \<Longrightarrow> off \<le> o1"
  using match_from_sound by blast

lemma match_from_gaps: "sorted_wrt (\<lambda>a b. a + length pat \<le> b) (match_from pat off s)"
proof (induction pat off s rule: match_from.induct)
  case (1 pat off s)
  then show ?case
    by (subst match_from.simps) (auto dest: match_from_ge)
qed

text \<open>Completeness: a string with no reported offset holds no occurrence at all.\<close>

lemma match_from_Nil_iff:
  "pat \<noteq> [] \<Longrightarrow> match_from pat off s = [] \<longleftrightarrow> \<not> sublist pat s"
proof (induction pat off s rule: match_from.induct)
  case (1 pat off s)
  show ?case
  proof (cases s)
    case Nil
    then show ?thesis using "1.prems" by (simp add: match_from.simps)
  next
    case (Cons c cs)
    then show ?thesis using 1
      by (subst match_from.simps) (auto simp: sublist_Cons_right)
  qed
qed

lemma match_indices_Nil_iff: "pat \<noteq> [] \<Longrightarrow> match_indices s pat = [] \<longleftrightarrow> \<not> sublist pat s"
  by (simp add: match_indices_def match_from_Nil_iff)

lemma str_contains_iff: "str_contains s pat \<longleftrightarrow> sublist pat s"
  by (cases "pat = []") (auto simp: str_contains_def match_indices_Nil_iff)

lemma match_indices_sound:
  "o1 \<in> set (match_indices s pat) \<Longrightarrow>
   o1 + length pat \<le> length s \<and> take (length pat) (drop o1 s) = pat"
  using match_from_sound[of o1 pat 0 s] by (simp add: match_indices_def)

lemma match_indices_gaps: "sorted_wrt (\<lambda>a b. a + length pat \<le> b) (match_indices s pat)"
  by (simp add: match_indices_def match_from_gaps)

text \<open>An occurrence of a well-formed pattern in a well-formed string sits on char boundaries.\<close>

lemma utf8_cut:
  assumes "utf8_valid s" "utf8_valid pat" "pat \<noteq> []" "take (length pat) (drop i s) = pat"
    "i + length pat \<le> length s"
  shows "boundary s i \<and> boundary s (i + length pat)"
proof -
  obtain c cs where pat: "pat = c # cs" using assms(3) by (cases pat) auto
  have "i < length s" using assms(5) pat by simp
  moreover have "s ! i = c"
    using assms(4) pat calculation by (metis hd_drop_conv_nth hd_take list.sel(1) list.size(3)
        length_greater_0_conv assms(3))
  moreover have "\<not> is_cont c" using assms(2) pat utf8_valid_Cons_lead by blast
  ultimately have b: "boundary s i" by (simp add: boundary_def)
  then have "utf8_valid (drop i s)" using utf8_valid_take_drop assms(1) by blast
  moreover have "drop i s = pat @ drop (i + length pat) s"
    by (metis assms(4) append_take_drop_id drop_drop add.commute)
  ultimately have "utf8_valid (drop (i + length pat) s)"
    using utf8_valid_append[OF assms(2)] by metis
  then show ?thesis using b boundary_take_drop assms(1,5) by blast
qed

section \<open>Lines\<close>

text \<open>\<open>str::split_inclusive('\\n')\<close>: every piece but the last ends with the newline.\<close>

fun split_inclusive :: "string \<Rightarrow> string list" where
  "split_inclusive [] = []"
| "split_inclusive (c # cs) =
     (if c = LF then [c] # split_inclusive cs
      else case split_inclusive cs of [] \<Rightarrow> [[c]] | l # ls \<Rightarrow> (c # l) # ls)"

definition ends_lf :: "string \<Rightarrow> bool" where
  "ends_lf l \<longleftrightarrow> l \<noteq> [] \<and> last l = LF"

text \<open>\<open>line.strip_suffix('\\n').unwrap_or(line)\<close>.\<close>

definition strip_lf :: "string \<Rightarrow> string" where
  "strip_lf l = (if ends_lf l then butlast l else l)"

text \<open>\<open>str::lines\<close>: the pieces without their \<open>\\n\<close> or \<open>\\r\\n\<close>.\<close>

definition strip_eol :: "string \<Rightarrow> string" where
  "strip_eol l =
     (if ends_lf l then
        (let b = butlast l in if b \<noteq> [] \<and> last b = CR then butlast b else b)
      else l)"

definition str_lines :: "string \<Rightarrow> string list" where
  "str_lines s = map strip_eol (split_inclusive s)"

definition count_lf :: "string \<Rightarrow> nat" where
  "count_lf s = length (filter (\<lambda>c. c = LF) s)"

fun join :: "string \<Rightarrow> string list \<Rightarrow> string" where
  "join sep [] = []"
| "join sep [x] = x"
| "join sep (x # y # xs) = x @ sep @ join sep (y # xs)"

text \<open>\<open>str::split(c)\<close> for one ASCII character.\<close>

fun split_on :: "char \<Rightarrow> string \<Rightarrow> string list" where
  "split_on d [] = [[]]"
| "split_on d (c # cs) =
     (if c = d then [] # split_on d cs
      else case split_on d cs of [] \<Rightarrow> [[c]] | l # ls \<Rightarrow> (c # l) # ls)"

lemma concat_split_inclusive [simp]: "concat (split_inclusive s) = s"
  by (induction s) (auto split: list.splits)

lemma split_inclusive_Nil_iff [simp]: "split_inclusive s = [] \<longleftrightarrow> s = []"
  by (cases s) (auto split: list.splits)

lemma split_inclusive_ne: "l \<in> set (split_inclusive s) \<Longrightarrow> l \<noteq> []"
  by (induction s arbitrary: l) (auto split: list.splits if_splits)

lemma split_on_ne [simp]: "split_on d s \<noteq> []"
  by (cases s) (auto split: list.splits)

lemma join_Cons: "xs \<noteq> [] \<Longrightarrow> join sep (x # xs) = x @ sep @ join sep xs"
  by (cases xs) auto

lemma join_split_on [simp]: "join [d] (split_on d s) = s"
proof (induction s)
  case (Cons c cs)
  obtain l ls where s: "split_on d cs = l # ls" by (cases "split_on d cs") auto
  then show ?case using Cons by (cases ls) (auto simp: join_Cons)
qed simp

lemma split_on_no_sep: "l \<in> set (split_on d s) \<Longrightarrow> d \<notin> set l"
proof (induction s arbitrary: l)
  case (Cons c cs)
  obtain l' ls where s: "split_on d cs = l' # ls" by (cases "split_on d cs") auto
  then show ?case using Cons.prems Cons.IH[of l] Cons.IH[of l']
    by (auto simp: s split: if_splits)
qed simp

lemma count_lf_append [simp]: "count_lf (s @ t) = count_lf s + count_lf t"
  by (simp add: count_lf_def)

text \<open>A line: a non-empty string whose only newline, if any, is its last byte.\<close>

definition is_line :: "string \<Rightarrow> bool" where
  "is_line l \<longleftrightarrow> l \<noteq> [] \<and> LF \<notin> set (butlast l)"

lemma split_inclusive_line: "is_line l \<Longrightarrow> ends_lf l \<Longrightarrow> split_inclusive (l @ s) = l # split_inclusive s"
proof (induction l)
  case (Cons c cs)
  show ?case
  proof (cases "cs = []")
    case True
    then show ?thesis using Cons.prems by (simp add: ends_lf_def)
  next
    case False
    then have "c \<noteq> LF" "is_line cs" "ends_lf cs"
      using Cons.prems by (auto simp: is_line_def ends_lf_def)
    then show ?thesis using Cons.IH False by simp
  qed
qed (simp add: is_line_def)

lemma split_inclusive_last: "is_line l \<Longrightarrow> \<not> ends_lf l \<Longrightarrow> split_inclusive l = [l]"
proof (induction l)
  case (Cons c cs)
  show ?case
  proof (cases "cs = []")
    case True
    then show ?thesis using Cons.prems by (simp add: ends_lf_def)
  next
    case False
    then have "c \<noteq> LF" "is_line cs" "\<not> ends_lf cs"
      using Cons.prems by (auto simp: is_line_def ends_lf_def)
    then show ?thesis using Cons.IH by simp
  qed
qed (simp add: is_line_def)

text \<open>A string is a first line and the rest; the induction the line-wise proofs use.\<close>

lemma line_induct [case_names Nil Last Line]:
  assumes "P []"
    and "\<And>l. is_line l \<Longrightarrow> \<not> ends_lf l \<Longrightarrow> P l"
    and "\<And>l s. is_line l \<Longrightarrow> ends_lf l \<Longrightarrow> P s \<Longrightarrow> P (l @ s)"
  shows "P s"
proof (induction s rule: length_induct)
  case (1 s)
  show ?case
  proof (cases "LF \<in> set s")
    case False
    then have "s = [] \<or> (is_line s \<and> \<not> ends_lf s)"
      by (metis ends_lf_def in_set_butlastD is_line_def last_in_set)
    then show ?thesis using assms(1,2) by blast
  next
    case True
    then obtain u v where s: "s = u @ LF # v" "LF \<notin> set u" by (meson split_list_first)
    then have "is_line (u @ [LF])" "ends_lf (u @ [LF])"
      by (auto simp: is_line_def ends_lf_def)
    moreover have "P v" using 1 s by simp
    ultimately have "P ((u @ [LF]) @ v)" using assms(3) by blast
    then show ?thesis using s by simp
  qed
qed

section \<open>Trimming\<close>

text \<open>
  \<open>str::trim_end\<close> removes Unicode white space. The number of bytes of the white-space character a
  well-formed string ends with, 0 when its last character is none: the ASCII ones, U+0085, U+00A0,
  U+1680, U+2000 to U+200A, U+2028, U+2029, U+202F, U+205F and U+3000.
\<close>

definition ascii_ws :: "char \<Rightarrow> bool" where
  "ascii_ws c \<longleftrightarrow> byte c = 32 \<or> (9 \<le> byte c \<and> byte c \<le> 13)"

definition ws2 :: "char \<Rightarrow> char \<Rightarrow> bool" where
  "ws2 b a \<longleftrightarrow> byte b = 194 \<and> (byte a = 133 \<or> byte a = 160)"

definition ws3 :: "char \<Rightarrow> char \<Rightarrow> char \<Rightarrow> bool" where
  "ws3 c b a \<longleftrightarrow>
     (byte c = 225 \<and> byte b = 154 \<and> byte a = 128)
     \<or> (byte c = 226 \<and> byte b = 128 \<and>
        ((128 \<le> byte a \<and> byte a \<le> 138) \<or> byte a = 168 \<or> byte a = 169 \<or> byte a = 175))
     \<or> (byte c = 226 \<and> byte b = 129 \<and> byte a = 159)
     \<or> (byte c = 227 \<and> byte b = 128 \<and> byte a = 128)"

fun ws_end_rev :: "string \<Rightarrow> nat" where
  "ws_end_rev [] = 0"
| "ws_end_rev [a] = (if ascii_ws a then 1 else 0)"
| "ws_end_rev [a, b] = (if ascii_ws a then 1 else if ws2 b a then 2 else 0)"
| "ws_end_rev (a # b # c # r) =
     (if ascii_ws a then 1 else if ws2 b a then 2 else if ws3 c b a then 3 else 0)"

lemma ws_end_rev_le: "ws_end_rev r \<le> length r"
  by (cases r rule: ws_end_rev.cases) auto

function trim_end_rev :: "string \<Rightarrow> string" where
  "trim_end_rev r = (if ws_end_rev r = 0 then r else trim_end_rev (drop (ws_end_rev r) r))"
  by pat_completeness auto
termination
proof (relation "measure length", goal_cases)
  case (2 r)
  then show ?case using ws_end_rev_le[of r] by simp
qed simp

declare trim_end_rev.simps [simp del]

definition trim_end :: "string \<Rightarrow> string" where
  "trim_end s = rev (trim_end_rev (rev s))"

lemma trim_end_rev_suffix: "\<exists>w. r = w @ trim_end_rev r"
proof (induction r rule: trim_end_rev.induct)
  case (1 r)
  show ?case
  proof (cases "ws_end_rev r = 0")
    case True
    then show ?thesis by (simp add: trim_end_rev.simps[of r])
  next
    case False
    then obtain w where "drop (ws_end_rev r) r = w @ trim_end_rev (drop (ws_end_rev r) r)"
      using 1 by blast
    then have "r = (take (ws_end_rev r) r @ w) @ trim_end_rev r"
      using False by (metis append_assoc append_take_drop_id trim_end_rev.simps)
    then show ?thesis by blast
  qed
qed

lemma trim_end_prefix: "prefix (trim_end s) s"
proof -
  obtain w where "rev s = w @ trim_end_rev (rev s)" using trim_end_rev_suffix by blast
  then have "s = trim_end s @ rev w" by (metis rev_append rev_rev_ident trim_end_def)
  then show ?thesis unfolding prefix_def by blast
qed

lemma trim_end_idem [simp]: "trim_end (trim_end s) = trim_end s"
proof -
  have "ws_end_rev (trim_end_rev r) = 0" for r
    by (induction r rule: trim_end_rev.induct) (metis trim_end_rev.simps)
  then have "trim_end_rev (trim_end_rev r) = trim_end_rev r" for r
    by (metis trim_end_rev.simps)
  then show ?thesis by (simp add: trim_end_def)
qed

lemma trim_end_Nil [simp]: "trim_end [] = []"
  by (simp add: trim_end_def trim_end_rev.simps)

text \<open>\<open>str::trim_start\<close>: the bytes of the white-space character a well-formed string starts with.\<close>

fun ws_start :: "string \<Rightarrow> nat" where
  "ws_start [] = 0"
| "ws_start [a] = (if ascii_ws a then 1 else 0)"
| "ws_start [a, b] = (if ascii_ws a then 1 else if ws2 a b then 2 else 0)"
| "ws_start (a # b # c # r) =
     (if ascii_ws a then 1 else if ws2 a b then 2 else if ws3 a b c then 3 else 0)"

lemma ws_start_le: "ws_start s \<le> length s"
  by (cases s rule: ws_start.cases) auto

function trim_start :: "string \<Rightarrow> string" where
  "trim_start s = (if ws_start s = 0 then s else trim_start (drop (ws_start s) s))"
  by pat_completeness auto
termination
proof (relation "measure length", goal_cases)
  case (2 s)
  then show ?case using ws_start_le[of s] by simp
qed simp

declare trim_start.simps [simp del]

definition trim :: "string \<Rightarrow> string" where
  "trim s = trim_end (trim_start s)"

section \<open>Character boundaries\<close>

text \<open>\<open>str::floor_char_boundary\<close>.\<close>

fun floor_boundary_loop :: "string \<Rightarrow> nat \<Rightarrow> nat" where
  "floor_boundary_loop s 0 = 0"
| "floor_boundary_loop s (Suc n) = (if boundary s (Suc n) then Suc n else floor_boundary_loop s n)"

definition floor_char_boundary :: "string \<Rightarrow> nat \<Rightarrow> nat" where
  "floor_char_boundary s n = (if n \<ge> length s then length s else floor_boundary_loop s n)"

lemma floor_boundary_loop: "boundary s (floor_boundary_loop s n) \<and> floor_boundary_loop s n \<le> n"
  by (induction n) auto

lemma floor_char_boundary: "boundary s (floor_char_boundary s n) \<and> floor_char_boundary s n \<le> n \<and> floor_char_boundary s n \<le> length s"
  using floor_boundary_loop[of s n] by (auto simp: floor_char_boundary_def)

section \<open>Characters and numbers\<close>

text \<open>\<open>str::chars\<close> of a well-formed string, each scalar as its encoding.\<close>

function str_chars :: "string \<Rightarrow> string list" where
  "str_chars s = (case utf8_len s of None \<Rightarrow> [] | Some n \<Rightarrow> take n s # str_chars (drop n s))"
  by pat_completeness auto
termination by (relation "measure length") (auto dest: utf8_len_Some)

declare str_chars.simps [simp del]

text \<open>\<open>usize::to_string\<close>.\<close>

text \<open>\<open>char::is_whitespace\<close> of one scalar's encoding.\<close>

definition char_is_ws :: "string \<Rightarrow> bool" where
  "char_is_ws x \<longleftrightarrow> x \<noteq> [] \<and> ws_start x = length x"

definition digit_char :: "nat \<Rightarrow> char" where
  "digit_char d = char_of (48 + d)"

fun nat_str :: "nat \<Rightarrow> string" where
  "nat_str n = (if n < 10 then [digit_char n] else nat_str (n div 10) @ [digit_char (n mod 10)])"

declare nat_str.simps [simp del]

text \<open>\<open>str::parse::<usize>\<close> on digits (a leading \<open>+\<close> is allowed, the empty string is not).\<close>

definition is_digit :: "char \<Rightarrow> bool" where
  "is_digit c \<longleftrightarrow> 48 \<le> byte c \<and> byte c \<le> 57"

definition digits_value :: "string \<Rightarrow> nat" where
  "digits_value s = foldl (\<lambda>a c. 10 * a + (byte c - 48)) 0 s"

definition parse_nat :: "nat \<Rightarrow> string \<Rightarrow> nat option" where
  "parse_nat bound s =
     (let ds = (if s \<noteq> [] \<and> hd s = CHR ''+'' then tl s else s) in
      if ds \<noteq> [] \<and> list_all is_digit ds \<and> digits_value ds < bound then Some (digits_value ds) else None)"

lemma concat_str_chars: "utf8_valid s \<Longrightarrow> concat (str_chars s) = s"
proof (induction s rule: utf8_valid.induct)
  case (1 s)
  then show ?case
    by (subst str_chars.simps)
      (auto simp: utf8_valid.simps[of s] utf8_len.simps split: option.splits if_splits)
qed

lemma byte_digit_char: "d < 10 \<Longrightarrow> byte (digit_char d) = 48 + d"
  by (simp add: digit_char_def)

lemma digits_value_snoc: "digits_value (s @ [c]) = 10 * digits_value s + (byte c - 48)"
  by (simp add: digits_value_def)

lemma nat_str_digits: "list_all is_digit (nat_str n) \<and> nat_str n \<noteq> []"
proof (induction n rule: nat_str.induct)
  case (1 n)
  have "is_digit (digit_char d)" if "d < 10" for d
    using that by (simp add: is_digit_def byte_digit_char)
  then show ?case using 1 by (subst (1 2) nat_str.simps) auto
qed

lemma digits_value_nat_str: "digits_value (nat_str n) = n"
proof (induction n rule: nat_str.induct)
  case (1 n)
  show ?case
  proof (cases "n < 10")
    case True
    then show ?thesis by (subst nat_str.simps) (simp add: digits_value_def byte_digit_char)
  next
    case False
    have "nat_str n = nat_str (n div 10) @ [digit_char (n mod 10)]"
      using False by (subst nat_str.simps) simp
    then show ?thesis using 1 False by (simp add: digits_value_snoc byte_digit_char)
  qed
qed

text \<open>Printing and parsing a number are inverse, below the bound of the integer type.\<close>

lemma parse_nat_str: "n < bound \<Longrightarrow> parse_nat bound (nat_str n) = Some n"
proof -
  obtain c cs where c: "nat_str n = c # cs" using nat_str_digits[of n] by (cases "nat_str n") auto
  then have "is_digit c" using nat_str_digits[of n] by simp
  then have "c \<noteq> CHR ''+''" by (auto simp: is_digit_def)
  then show "n < bound \<Longrightarrow> parse_nat bound (nat_str n) = Some n"
    using nat_str_digits[of n] digits_value_nat_str[of n] c by (simp add: parse_nat_def Let_def)
qed

lemma nat_str_inject: "nat_str m = nat_str n \<longleftrightarrow> m = n"
  by (metis digits_value_nat_str)

end
