(* ===== verification/Path.thy ===== *)
theory Path
  imports RustStr
begin

text \<open>
  \<open>std::path::Path\<close> on Unix as its component list, and a file system the operations run against:
  which paths are directories, which are files and with which bytes, and which operating-system
  calls fail. The operations return the new file system.
\<close>

section \<open>Paths\<close>

datatype comp = RootDir | CurDir | ParentDir | Normal string

type_synonym path = "comp list"

definition comp_of :: "string \<Rightarrow> comp list" where
  "comp_of p = (if p = [] \<or> p = ''.'' then [] else if p = ''..'' then [ParentDir] else [Normal p])"

text \<open>\<open>Path::new(s).components()\<close>: repeated and trailing slashes and inner dots disappear.\<close>

definition parse_path :: "string \<Rightarrow> path" where
  "parse_path s =
     (if s = [] then []
      else let ps = split_on (CHR ''/'') s in
        if hd s = CHR ''/'' then RootDir # concat (map comp_of ps)
        else if hd ps = ''.'' then CurDir # concat (map comp_of (tl ps))
        else concat (map comp_of ps))"

fun comp_str :: "comp \<Rightarrow> string" where
  "comp_str RootDir = []"
| "comp_str CurDir = ''.''"
| "comp_str ParentDir = ''..''"
| "comp_str (Normal s) = s"

definition path_display :: "path \<Rightarrow> string" where
  "path_display p = (if p = [RootDir] then ''/'' else join ''/'' (map comp_str p))"

definition is_absolute :: "path \<Rightarrow> bool" where
  "is_absolute p \<longleftrightarrow> p \<noteq> [] \<and> hd p = RootDir"

definition path_parent :: "path \<Rightarrow> path option" where
  "path_parent p = (if p = [] \<or> last p = RootDir then None else Some (butlast p))"

definition path_file_name :: "path \<Rightarrow> string option" where
  "path_file_name p = (if p = [] then None else case last p of Normal s \<Rightarrow> Some s | _ \<Rightarrow> None)"

text \<open>\<open>Path::extension\<close>: what follows the last dot of the file name, unless that dot is its first byte.\<close>

definition name_extension :: "string \<Rightarrow> string option" where
  "name_extension s =
     (let ext = rev (takeWhile (\<lambda>c. c \<noteq> CHR ''.'') (rev s)); stem = length s - length ext in
      if s = ''..'' \<or> stem \<le> 1 then None else Some ext)"

definition path_extension :: "path \<Rightarrow> string option" where
  "path_extension p = Option.bind (path_file_name p) name_extension"

definition path_join :: "path \<Rightarrow> path \<Rightarrow> path" where
  "path_join a b =
     (if is_absolute b then b
      else if a \<noteq> [] \<and> b \<noteq> [] \<and> hd b = CurDir then a @ tl b
      else a @ b)"

definition path_starts_with :: "path \<Rightarrow> path \<Rightarrow> bool" where
  "path_starts_with p base = prefix base p"

definition path_strip_prefix :: "path \<Rightarrow> path \<Rightarrow> path option" where
  "path_strip_prefix p base = (if prefix base p then Some (drop (length base) p) else None)"

lemma path_starts_with_refl [simp]: "path_starts_with p p"
  by (simp add: path_starts_with_def)

lemma path_starts_with_trans:
  "path_starts_with p q \<Longrightarrow> path_starts_with q r \<Longrightarrow> path_starts_with p r"
  by (simp add: path_starts_with_def prefix_order.trans)

lemma path_join_starts_with: "\<not> is_absolute b \<Longrightarrow> path_starts_with (path_join a b) a"
  by (auto simp: path_join_def path_starts_with_def)

lemma path_parent_prefix: "path_parent p = Some q \<Longrightarrow> \<exists>c. p = q @ [c] \<and> c \<noteq> RootDir"
  by (auto simp: path_parent_def split: if_splits intro!: exI[of _ "last p"])

section \<open>The file system\<close>

datatype io_op = OpRead | OpCreateDirs | OpTemp | OpWrite | OpPersist | OpCanonicalize

datatype io_error = IoNotFound | IoInvalidInput | IoInvalidData | IoNotADirectory | IoOther io_op

text \<open>
  \<open>fails\<close> says which calls the operating system refuses (permissions, a full disk, a race); a
  directory is never also a file.
\<close>

record fs =
  fs_dir :: "path \<Rightarrow> bool"
  fs_file :: "path \<Rightarrow> string option"
  fs_fails :: "io_op \<Rightarrow> path \<Rightarrow> bool"

text \<open>\<open>std::fs::read_to_string\<close>.\<close>

definition read_to_string :: "fs \<Rightarrow> path \<Rightarrow> (io_error, string) outcome" where
  "read_to_string f p =
     (if fs_fails f OpRead p then Err (IoOther OpRead)
      else case fs_file f p of
        None \<Rightarrow> Err IoNotFound
      | Some bs \<Rightarrow> if utf8_valid bs then Ok bs else Err IoInvalidData)"

text \<open>\<open>std::fs::create_dir_all\<close>: every missing ancestor is made; a file in the way is an error.\<close>

definition create_dir_all :: "fs \<Rightarrow> path \<Rightarrow> (io_error, unit) outcome \<times> fs" where
  "create_dir_all f p =
     (if fs_fails f OpCreateDirs p then (Err (IoOther OpCreateDirs), f)
      else if (\<exists>k \<in> set [0..<Suc (length p)]. fs_file f (take k p) \<noteq> None) then (Err IoNotADirectory, f)
      else (Ok (), f\<lparr>fs_dir := \<lambda>q. prefix q p \<or> fs_dir f q\<rparr>))"

lemma read_to_string_Ok:
  "read_to_string f p = Ok s \<Longrightarrow> fs_file f p = Some s \<and> utf8_valid s"
  by (auto simp: read_to_string_def split: if_splits option.splits)

lemma read_to_string_not_Panic [simp]: "read_to_string f p \<noteq> Panic"
  by (auto simp: read_to_string_def split: option.splits)

lemma create_dir_all_file [simp]: "fs_file (snd (create_dir_all f p)) = fs_file f"
  by (simp add: create_dir_all_def)

end
