(* ===== verification/Edit.thy ===== *)
theory Edit
  imports Path "HOL-Library.Product_Lexorder"
begin

text \<open>
  The file editor, \<open>crates/aptu-coder-core/src/edit.rs\<close>: whole-file overwrite, exact block
  replacement with the per-line trim-end fallback, and the atomic batch. First the CRLF
  normalization and its offset table, then the trim-end index, the splice, and the three operations.
\<close>

section \<open>CRLF normalization and its offset table\<close>

text \<open>\<open>str::replace\<close> for a non-empty pattern.\<close>

function str_replace :: "string \<Rightarrow> string \<Rightarrow> string \<Rightarrow> string" where
  "str_replace pat to s =
     (if pat = [] \<or> s = [] then s
      else if prefix pat s then to @ str_replace pat to (drop (length pat) s)
      else hd s # str_replace pat to (tl s))"
  by pat_completeness auto
termination by (relation "measure (\<lambda>(_, _, s). length s)") auto

declare str_replace.simps [simp del]

definition normalize_for_match :: "string \<Rightarrow> string" where
  "normalize_for_match s = (if CR \<notin> set s then s else str_replace [CR, LF] [LF] s)"

fun crlf_positions_loop :: "nat \<Rightarrow> string \<Rightarrow> nat list" where
  "crlf_positions_loop norm_pos [] = []"
| "crlf_positions_loop norm_pos [c] = []"
| "crlf_positions_loop norm_pos (c # d # cs) =
     (if c = CR \<and> d = LF then norm_pos # crlf_positions_loop (norm_pos + 1) cs
      else crlf_positions_loop (norm_pos + 1) (d # cs))"

definition build_crlf_positions :: "string \<Rightarrow> nat list" where
  "build_crlf_positions original = crlf_positions_loop 0 original"

definition norm_to_original_offset :: "nat \<Rightarrow> nat list \<Rightarrow> nat" where
  "norm_to_original_offset norm_offset crlf_positions =
     (if crlf_positions = [] then norm_offset
      else norm_offset + partition_point (\<lambda>x. x < norm_offset) crlf_positions)"

text \<open>The two functions as one recursion over the text.\<close>

fun crlf_norm :: "string \<Rightarrow> string" where
  "crlf_norm [] = []"
| "crlf_norm [c] = [c]"
| "crlf_norm (c # d # cs) = (if c = CR \<and> d = LF then LF # crlf_norm cs else c # crlf_norm (d # cs))"

fun orig_off :: "string \<Rightarrow> nat \<Rightarrow> nat" where
  "orig_off s 0 = 0"
| "orig_off [] (Suc k) = Suc k"
| "orig_off [c] (Suc k) = Suc k"
| "orig_off (c # d # cs) (Suc k) =
     (if c = CR \<and> d = LF then Suc (Suc (orig_off cs k)) else Suc (orig_off (d # cs) k))"

lemma str_replace_crlf: "str_replace [CR, LF] [LF] s = crlf_norm s"
  by (induction s rule: crlf_norm.induct) (auto simp: str_replace.simps)

lemma crlf_norm_id: "CR \<notin> set s \<Longrightarrow> crlf_norm s = s"
  by (induction s rule: crlf_norm.induct) auto

lemma normalize_for_match_eq: "normalize_for_match s = crlf_norm s"
  by (simp add: normalize_for_match_def str_replace_crlf crlf_norm_id)

lemma crlf_positions_ge: "x \<in> set (crlf_positions_loop p s) \<Longrightarrow> p \<le> x"
  by (induction p s rule: crlf_positions_loop.induct) (auto split: if_splits)

lemma partition_point_none: "\<forall>x\<in>set xs. (k::nat) \<le> x \<Longrightarrow> partition_point (\<lambda>x. x < k) xs = 0"
  by (cases xs) (auto simp: not_less)

lemma crlf_positions_point:
  "k + partition_point (\<lambda>x. x < p + k) (crlf_positions_loop p s) = orig_off s k"
proof (induction p s arbitrary: k rule: crlf_positions_loop.induct)
  case (3 p c d cs)
  show ?case
  proof (cases k)
    case 0
    have "partition_point (\<lambda>x. x < p) (crlf_positions_loop p (c # d # cs)) = 0"
      by (rule partition_point_none) (blast intro: crlf_positions_ge)
    then show ?thesis using 0 by simp
  next
    case (Suc j)
    then show ?thesis using 3(1)[of j] 3(2)[of j] by auto
  qed
qed (case_tac [!] k, auto)

lemma norm_to_original_offset_eq:
  "norm_to_original_offset k (build_crlf_positions s) = orig_off s k"
  using crlf_positions_point[of k 0 s]
  by (auto simp: norm_to_original_offset_def build_crlf_positions_def)

text \<open>Cutting the original at the translated offset cuts its normalization at the offset.\<close>

lemma orig_off_cut [offset_simps]:
  "k \<le> length (crlf_norm s) \<Longrightarrow>
   orig_off s k \<le> length s \<and> crlf_norm (take (orig_off s k) s) = take k (crlf_norm s) \<and>
   crlf_norm (drop (orig_off s k) s) = drop k (crlf_norm s)"
proof (induction s arbitrary: k rule: crlf_norm.induct)
  case (3 c d cs)
  show ?case
  proof (cases k)
    case (Suc j)
    show ?thesis
    proof (cases "c = CR \<and> d = LF")
      case True
      then show ?thesis using 3(1)[OF True, of j] 3(3) Suc by simp
    next
      case False
      have ih: "orig_off (d # cs) j \<le> length (d # cs)"
        "crlf_norm (take (orig_off (d # cs) j) (d # cs)) = take j (crlf_norm (d # cs))"
        "crlf_norm (drop (orig_off (d # cs) j) (d # cs)) = drop j (crlf_norm (d # cs))"
        using 3(2)[OF False, of j] 3(3) Suc False by auto
      have "crlf_norm (c # take (orig_off (d # cs) j) (d # cs))
          = c # crlf_norm (take (orig_off (d # cs) j) (d # cs))"
        using False by (cases "orig_off (d # cs) j") auto
      then show ?thesis using ih Suc False by auto
    qed
  qed simp
qed (case_tac [!] k, auto)

section \<open>The trim-end index\<close>

record trim_end_index =
  trimmed :: string
  line_trim_starts :: "nat list"
  line_norm_starts :: "nat list"
  norm_len :: nat

definition map_to_norm :: "trim_end_index \<Rightarrow> nat \<Rightarrow> nat" where
  "map_to_norm ix off =
     (let idx = partition_point (\<lambda>s. s \<le> off) (line_trim_starts ix) - 1
      in line_norm_starts ix ! idx + (off - line_trim_starts ix ! idx))"

definition map_end_to_norm :: "trim_end_index \<Rightarrow> nat \<Rightarrow> nat" where
  "map_end_to_norm ix off =
     (let at_line_end = off = length (trimmed ix)
            \<or> (off < length (trimmed ix) \<and> trimmed ix ! off = LF)
      in if \<not> at_line_end then map_to_norm ix off
         else let idx = partition_point (\<lambda>s. s \<le> off) (line_trim_starts ix) - 1
              in if idx + 1 < length (line_norm_starts ix) then line_norm_starts ix ! (idx + 1)
                 else norm_len ix)"

text \<open>One turn of the loop over the lines; \<open>trim_line\<close> is what it appends to \<open>trimmed\<close>.\<close>

definition trim_line :: "string \<Rightarrow> string" where
  "trim_line line = trim_end (strip_lf line) @ (if ends_lf line then [LF] else [])"

definition trim_end_lines :: "string \<Rightarrow> string" where
  "trim_end_lines norm = concat (map trim_line (split_inclusive norm))"

fun build_trim_loop :: "string list \<Rightarrow> nat \<Rightarrow> nat \<Rightarrow> trim_end_index \<Rightarrow> trim_end_index" where
  "build_trim_loop [] trim_off norm_off ix = ix"
| "build_trim_loop (line # ls) trim_off norm_off ix =
     (let body = strip_lf line; t = trim_end body;
          trim_off' = trim_off + length t + (if ends_lf line then 1 else 0) in
      build_trim_loop ls trim_off' (norm_off + length line)
        (ix\<lparr>line_trim_starts := line_trim_starts ix @ [trim_off],
            line_norm_starts := line_norm_starts ix @ [norm_off],
            trimmed := trimmed ix @ t @ (if ends_lf line then [LF] else [])\<rparr>))"

definition build_trim_end_index :: "string \<Rightarrow> trim_end_index" where
  "build_trim_end_index norm =
     build_trim_loop (split_inclusive norm) 0 0
       \<lparr>trimmed = [], line_trim_starts = [], line_norm_starts = [], norm_len = length norm\<rparr>"

definition find_trim_end_matches :: "string \<Rightarrow> string \<Rightarrow> nat list \<Rightarrow> (nat \<times> nat) list" where
  "find_trim_end_matches norm_content norm_old crlf_positions =
     (let trimmed_old = trim_end_lines norm_old in
      if trimmed_old = [] then []
      else let index = build_trim_end_index norm_content in
        map (\<lambda>start.
            (norm_to_original_offset (map_to_norm index start) crlf_positions,
             norm_to_original_offset (map_end_to_norm index (start + length trimmed_old)) crlf_positions))
          (match_indices (trimmed index) trimmed_old))"

section \<open>Errors and outputs\<close>

datatype batch_failure_class = EmptyOldText | OldTextNotFound | AmbiguousMatch | OverlappingEdits

fun class_as_str :: "batch_failure_class \<Rightarrow> string" where
  "class_as_str EmptyOldText = ''empty_old_text''"
| "class_as_str OldTextNotFound = ''old_text_not_found''"
| "class_as_str AmbiguousMatch = ''ambiguous_match''"
| "class_as_str OverlappingEdits = ''overlapping_edits''"

text \<open>
  The message of a batch failure is data here: what the code formats into the text (the lines of an
  ambiguous match, the region and the earlier end of an overlap) is kept as values.
\<close>

datatype failure_detail =
    NoDetail | MatchLines "nat list" | OverlapAt nat nat nat

record batch_failure =
  bf_index :: nat
  bf_class :: batch_failure_class
  bf_detail :: failure_detail

datatype edit_error =
    Io io_error
  | InvalidRange nat nat nat
  | NotAFile path
  | NotFound path string
  | Ambiguous nat path "nat list"
  | InvalidParams string
  | StaleContentHash string string path
  | BatchValidationFailed "batch_failure list"

record edit_overwrite_output =
  ow_path :: path
  ow_bytes_written :: nat

record batch_edit_result =
  br_index :: nat
  br_occurrences_replaced :: nat

record edit_replace_output =
  er_path :: path
  er_bytes_before :: nat
  er_bytes_after :: nat
  er_occurrences_replaced :: nat
  er_content_hash :: "string option"
  er_edits :: "batch_edit_result list option"

record batch_edit =
  be_old_text :: string
  be_new_text :: string
  be_replace_all :: "bool option"

type_synonym 'a edit_result = "(edit_error, 'a) outcome"

fun lift_io :: "(io_error, 'a) outcome \<Rightarrow> 'a edit_result" where
  "lift_io Panic = Panic"
| "lift_io (Err e) = Err (Io e)"
| "lift_io (Ok a) = Ok a"

section \<open>The operations\<close>

text \<open>
  \<open>write_file_atomic\<close>: a temporary file in the parent directory, the write, the rename. On each
  failure the temporary file is dropped and the target keeps its bytes.
\<close>

definition write_file_atomic :: "fs \<Rightarrow> path \<Rightarrow> string \<Rightarrow> unit edit_result \<times> fs" where
  "write_file_atomic f p content =
     (case path_parent p of
        None \<Rightarrow> (Err (Io IoInvalidInput), f)
      | Some parent \<Rightarrow>
          if fs_fails f OpTemp parent \<or> \<not> (parent = [] \<or> fs_dir f parent)
          then (Err (Io (IoOther OpTemp)), f)
          else if fs_fails f OpWrite p then (Err (Io (IoOther OpWrite)), f)
          else if fs_fails f OpPersist p \<or> fs_dir f p then (Err (Io (IoOther OpPersist)), f)
          else (Ok (), f\<lparr>fs_file := (fs_file f)(p \<mapsto> content)\<rparr>))"

definition edit_overwrite_content :: "fs \<Rightarrow> path \<Rightarrow> string \<Rightarrow> edit_overwrite_output edit_result \<times> fs" where
  "edit_overwrite_content f p content =
     (if fs_dir f p then (Err (NotAFile p), f)
      else
        let (made, f1) =
          (case path_parent p of
             Some parent \<Rightarrow> if parent \<noteq> [] then create_dir_all f parent else (Ok (), f)
           | None \<Rightarrow> (Ok (), f))
        in case made of
             Panic \<Rightarrow> (Panic, f1)
           | Err e \<Rightarrow> (Err (Io e), f1)
           | Ok _ \<Rightarrow>
               let (written, f2) = write_file_atomic f1 p content
               in (bind_outcome written
                     (\<lambda>_. Ok \<lparr>ow_path = p, ow_bytes_written = length content\<rparr>), f2))"

definition line_number :: "string \<Rightarrow> nat \<Rightarrow> nat option" where
  "line_number content off = map_option (\<lambda>s. count_lf s + 1) (str_slice content 0 off)"

definition exact_spans :: "string \<Rightarrow> string \<Rightarrow> (nat \<times> nat) list" where
  "exact_spans content old_text =
     (let norm_content = normalize_for_match content; norm_old = normalize_for_match old_text;
          crlf_positions = build_crlf_positions content in
      map (\<lambda>offset. (norm_to_original_offset offset crlf_positions,
                     norm_to_original_offset (offset + length norm_old) crlf_positions))
        (match_indices norm_content norm_old))"

text \<open>Exact matches first; the trim-end fallback only when there are none.\<close>

definition find_matches :: "string \<Rightarrow> string \<Rightarrow> (nat \<times> nat) list" where
  "find_matches content old_text =
     (let exact_matches = exact_spans content old_text in
      if exact_matches = []
      then find_trim_end_matches (normalize_for_match content) (normalize_for_match old_text)
             (build_crlf_positions content)
      else exact_matches)"

text \<open>The single-pass splice; \<open>None\<close> is the panic of a slice out of order or inside a character.\<close>

fun splice_loop :: "string \<Rightarrow> string \<Rightarrow> string \<Rightarrow> nat \<Rightarrow> (nat \<times> nat) list \<Rightarrow> string option" where
  "splice_loop content new_text result last_end [] =
     map_option (\<lambda>r. result @ r) (str_from content last_end)"
| "splice_loop content new_text result last_end ((start, end1) # spans) =
     (case str_slice content last_end start of
        None \<Rightarrow> None
      | Some gap \<Rightarrow> splice_loop content new_text (result @ gap @ new_text) end1 spans)"

text \<open>
  The capacity argument is a subtraction on \<open>usize\<close>: spans whose lengths exceed the bytes present
  make it underflow, which panics (checked arithmetic, or the allocator's capacity check).
\<close>

definition splice_all :: "string \<Rightarrow> string \<Rightarrow> (nat \<times> nat) list \<Rightarrow> string option" where
  "splice_all content new_text matches =
     (if \<exists>(s, e) \<in> set matches. e < s then None
      else if length content + length new_text * length matches < (\<Sum>(s, e)\<leftarrow>matches. e - s)
      then None
      else splice_loop content new_text [] 0 matches)"

definition check_content_hash :: "(string \<Rightarrow> string) \<Rightarrow> path \<Rightarrow> string option \<Rightarrow> string \<Rightarrow> edit_error option" where
  "check_content_hash blake3 p expected_content_hash content =
     (case expected_content_hash of
        None \<Rightarrow> None
      | Some expected \<Rightarrow>
          if blake3 content \<noteq> expected then Some (StaleContentHash expected (blake3 content) p)
          else None)"

definition edit_replace_block_inner ::
    "(string \<Rightarrow> string) \<Rightarrow> fs \<Rightarrow> path \<Rightarrow> string \<Rightarrow> string \<Rightarrow> bool \<Rightarrow> string option
      \<Rightarrow> edit_replace_output edit_result \<times> fs" where
  "edit_replace_block_inner blake3 f p old_text new_text replace_all expected_content_hash =
     (if fs_dir f p then (Err (NotAFile p), f)
      else case read_to_string f p of
        Panic \<Rightarrow> (Panic, f)
      | Err e \<Rightarrow> (Err (Io e), f)
      | Ok content \<Rightarrow>
        (case check_content_hash blake3 p expected_content_hash content of
           Some e \<Rightarrow> (Err e, f)
         | None \<Rightarrow>
           if normalize_for_match old_text = []
           then (Err (InvalidParams ''old_text must not be empty''), f)
           else
             let matches = find_matches content old_text; n = length matches in
             if n = 0
             then (Err (NotFound p (join [LF] (take 20 (str_lines content)))), f)
             else if n > 1 \<and> \<not> replace_all
             then (bind_outcome
                     (or_panic (those (map (\<lambda>(start, _). line_number content start) matches)))
                     (\<lambda>match_lines. Err (Ambiguous n p match_lines)), f)
             else case splice_all content new_text matches of
                 None \<Rightarrow> (Panic, f)
               | Some result \<Rightarrow>
                   let (written, f') = write_file_atomic f p result in
                   (bind_outcome written
                      (\<lambda>_. Ok \<lparr>er_path = p, er_bytes_before = length content,
                               er_bytes_after = length result, er_occurrences_replaced = n,
                               er_content_hash = None, er_edits = None\<rparr>), f')))"

definition edit_replace_block ::
    "(string \<Rightarrow> string) \<Rightarrow> fs \<Rightarrow> path \<Rightarrow> string \<Rightarrow> string \<Rightarrow> bool \<Rightarrow> string option
      \<Rightarrow> edit_replace_output edit_result \<times> fs" where
  "edit_replace_block blake3 f p old_text new_text replace_all expected_content_hash =
     edit_replace_block_inner blake3 f p old_text new_text replace_all expected_content_hash"

section \<open>The batch\<close>

definition batch_fail :: "nat \<Rightarrow> batch_failure_class \<Rightarrow> failure_detail \<Rightarrow> batch_failure" where
  "batch_fail i c d = \<lparr>bf_index = i, bf_class = c, bf_detail = d\<rparr>"

definition wants_all :: "batch_edit \<Rightarrow> bool" where
  "wants_all e = (case be_replace_all e of None \<Rightarrow> False | Some b \<Rightarrow> b)"

text \<open>
  One edit of the first loop: the spans it contributes, or the failure it records; the outer option
  is the panic of the line numbering. Ambiguous exact matches are numbered in the normalized
  content, ambiguous trim-end matches in the original.
\<close>

definition collect_edit ::
    "string \<Rightarrow> nat \<Rightarrow> batch_edit \<Rightarrow> (batch_failure + (nat \<times> nat \<times> nat) list) option" where
  "collect_edit content index edit =
     (let norm_content = normalize_for_match content;
          crlf_positions = build_crlf_positions content;
          norm_old = normalize_for_match (be_old_text edit) in
      if norm_old = [] then Some (Inl (batch_fail index EmptyOldText NoDetail))
      else
        let matches = match_indices norm_content norm_old in
        if matches = [] then
          let spans = find_trim_end_matches norm_content norm_old crlf_positions in
          if spans = [] then Some (Inl (batch_fail index OldTextNotFound NoDetail))
          else if length spans > 1 \<and> \<not> wants_all edit then
            map_option (\<lambda>ls. Inl (batch_fail index AmbiguousMatch (MatchLines ls)))
              (those (map (\<lambda>(s, _). line_number content s) spans))
          else Some (Inr (map (\<lambda>(start, end1). (start, end1, index)) spans))
        else if length matches > 1 \<and> \<not> wants_all edit then
          map_option (\<lambda>ls. Inl (batch_fail index AmbiguousMatch (MatchLines ls)))
            (those (map (line_number norm_content) matches))
        else
          Some (Inr (map (\<lambda>norm_start.
              (norm_to_original_offset norm_start crlf_positions,
               norm_to_original_offset (norm_start + length norm_old) crlf_positions, index))
            matches)))"

fun collect_edits ::
    "string \<Rightarrow> nat \<Rightarrow> batch_edit list \<Rightarrow> (nat \<times> nat \<times> nat) list \<Rightarrow> batch_failure list
      \<Rightarrow> ((nat \<times> nat \<times> nat) list \<times> batch_failure list) option" where
  "collect_edits content index [] all_spans failures = Some (all_spans, failures)"
| "collect_edits content index (e # es) all_spans failures =
     (case collect_edit content index e of
        None \<Rightarrow> None
      | Some (Inl fl) \<Rightarrow> collect_edits content (index + 1) es all_spans (failures @ [fl])
      | Some (Inr spans) \<Rightarrow> collect_edits content (index + 1) es (all_spans @ spans) failures)"

fun overlap_loop :: "nat option \<Rightarrow> (nat \<times> nat \<times> nat) list \<Rightarrow> batch_failure list" where
  "overlap_loop last_end [] = []"
| "overlap_loop last_end ((start, end1, index) # spans) =
     (case last_end of
        None \<Rightarrow> overlap_loop (Some end1) spans
      | Some prev_end \<Rightarrow>
          if start < prev_end then
            batch_fail index OverlappingEdits (OverlapAt start end1 prev_end)
              # overlap_loop (Some (max end1 prev_end)) spans
          else overlap_loop (Some (max prev_end end1)) spans)"

text \<open>The splice, with the per-edit counters it increments.\<close>

fun batch_splice_loop ::
    "string \<Rightarrow> batch_edit list \<Rightarrow> string \<Rightarrow> nat \<Rightarrow> nat list \<Rightarrow> (nat \<times> nat \<times> nat) list
      \<Rightarrow> (string \<times> nat list) option" where
  "batch_splice_loop content edits result cursor counts [] =
     map_option (\<lambda>r. (result @ r, counts)) (str_from content cursor)"
| "batch_splice_loop content edits result cursor counts ((start, end1, index) # spans) =
     (case str_slice content cursor start of
        None \<Rightarrow> None
      | Some gap \<Rightarrow>
          if index < length edits then
            batch_splice_loop content edits (result @ gap @ be_new_text (edits ! index)) end1
              (counts[index := counts ! index + 1]) spans
          else None)"

definition edit_replace_batch ::
    "(string \<Rightarrow> string) \<Rightarrow> fs \<Rightarrow> path \<Rightarrow> batch_edit list \<Rightarrow> string option
      \<Rightarrow> edit_replace_output edit_result \<times> fs" where
  "edit_replace_batch blake3 f p edits expected_content_hash =
     (if fs_dir f p then (Err (NotAFile p), f)
      else case read_to_string f p of
        Panic \<Rightarrow> (Panic, f)
      | Err e \<Rightarrow> (Err (Io e), f)
      | Ok content \<Rightarrow>
        (case check_content_hash blake3 p expected_content_hash content of
           Some e \<Rightarrow> (Err e, f)
         | None \<Rightarrow>
           (case collect_edits content 0 edits [] [] of
              None \<Rightarrow> (Panic, f)
            | Some (collected, failures0) \<Rightarrow>
              let all_spans = sort collected;
                  failures = failures0 @ overlap_loop None all_spans in
              if failures \<noteq> []
              then (Err (BatchValidationFailed (sort_key bf_index failures)), f)
              else case batch_splice_loop content edits [] 0 (replicate (length edits) 0) all_spans of
                  None \<Rightarrow> (Panic, f)
                | Some (result, counts) \<Rightarrow>
                    let (written, f') = write_file_atomic f p result in
                    (bind_outcome written
                       (\<lambda>_. Ok \<lparr>er_path = p, er_bytes_before = length content,
                                er_bytes_after = length result,
                                er_occurrences_replaced = sum_list counts,
                                er_content_hash = Some (blake3 result),
                                er_edits = Some (map (\<lambda>i. \<lparr>br_index = i,
                                    br_occurrences_replaced = counts ! i\<rparr>) [0..<length edits])\<rparr>),
                     f'))))"

end
