(* ===== verification/EditSpans.thy ===== *)
theory EditSpans
  imports Edit
begin

text \<open>
  The splice over any well-formed list of spans, the contract of a matcher that finds such spans,
  and the exact matcher as an instance of it.
\<close>

section \<open>Splicing\<close>

fun spans_ok :: "string \<Rightarrow> nat \<Rightarrow> (nat \<times> nat) list \<Rightarrow> bool" where
  "spans_ok c a [] \<longleftrightarrow> boundary c a"
| "spans_ok c a ((s, e) # xs) \<longleftrightarrow> boundary c a \<and> boundary c s \<and> a \<le> s \<and> s \<le> e \<and> spans_ok c e xs"

text \<open>The text between the spans, the text in them, and the two put together again.\<close>

fun gaps_of :: "string \<Rightarrow> nat \<Rightarrow> (nat \<times> nat) list \<Rightarrow> string list" where
  "gaps_of c a [] = [drop a c]"
| "gaps_of c a ((s, e) # xs) = take (s - a) (drop a c) # gaps_of c e xs"

definition cuts_of :: "string \<Rightarrow> (nat \<times> nat) list \<Rightarrow> string list" where
  "cuts_of c xs = map (\<lambda>(s, e). take (e - s) (drop s c)) xs"

fun weave :: "string list \<Rightarrow> string list \<Rightarrow> string" where
  "weave (g # gs) (m # ms) = g @ m @ weave gs ms"
| "weave gs [] = concat gs"
| "weave [] ms = concat ms"

lemma spans_ok_boundary: "spans_ok c a xs \<Longrightarrow> boundary c a \<and> a \<le> length c"
  by (cases xs rule: list.exhaust) (auto dest: boundary_le)

lemma spans_ok_members:
  "spans_ok c a xs \<Longrightarrow> (s, e) \<in> set xs \<Longrightarrow> a \<le> s \<and> s \<le> e \<and> e \<le> length c \<and> boundary c s \<and> boundary c e"
proof (induction xs arbitrary: a)
  case (Cons x xs)
  obtain s' e' where x: "x = (s', e')" by (cases x)
  then show ?case using Cons spans_ok_boundary[of c e' xs] by fastforce
qed simp

lemma weave_cuts [span_simps]:
  "spans_ok c a xs \<Longrightarrow> weave (gaps_of c a xs) (cuts_of c xs) = drop a c"
proof (induction c a xs rule: gaps_of.induct)
  case (2 c a s e xs)
  then have le: "a \<le> s" "s \<le> e" by auto
  have "drop a c = take (s - a) (drop a c) @ drop s c"
    using le by (metis append_take_drop_id drop_drop le_add_diff_inverse2)
  moreover have "drop s c = take (e - s) (drop s c) @ drop e c"
    using le by (metis append_take_drop_id drop_drop le_add_diff_inverse2)
  ultimately show ?case using 2 by (simp add: cuts_of_def)
qed (simp add: cuts_of_def)

lemma splice_loop_weave [span_simps]:
  "spans_ok c a xs \<Longrightarrow>
   splice_loop c new acc a xs = Some (acc @ weave (gaps_of c a xs) (replicate (length xs) new))"
proof (induction xs arbitrary: a acc)
  case (Cons x xs)
  obtain s e where x: "x = (s, e)" by (cases x)
  then show ?case using Cons by (simp add: str_slice_def)
qed (auto simp: str_from_def str_slice_def dest: boundary_le)

lemma spans_total_le: "spans_ok c a xs \<Longrightarrow> (\<Sum>(s, e)\<leftarrow>xs. e - s) + a \<le> length c"
proof (induction xs arbitrary: a)
  case (Cons x xs)
  obtain s e where "x = (s, e)" by (cases x)
  then show ?case using Cons.prems Cons.IH[of e] by auto
qed (auto dest: boundary_le)

lemma splice_all_weave [span_simps]:
  assumes "spans_ok c 0 xs"
  shows "splice_all c new xs = Some (weave (gaps_of c 0 xs) (replicate (length xs) new))"
proof -
  have "\<not> (\<exists>(s, e) \<in> set xs. e < s)" using spans_ok_members[OF assms] by fastforce
  moreover have "(\<Sum>(s, e)\<leftarrow>xs. e - s) \<le> length c" using spans_total_le[OF assms] by simp
  ultimately show ?thesis by (simp add: splice_all_def splice_loop_weave[OF assms])
qed

lemma weave_length [span_simps]:
  "spans_ok c a xs \<Longrightarrow>
   length (weave (gaps_of c a xs) (replicate (length xs) new)) + (\<Sum>(s, e)\<leftarrow>xs. e - s) + a
   = length c + length xs * length new"
proof (induction c a xs rule: gaps_of.induct)
  case (2 c a s e xs)
  then show ?case using spans_ok_boundary[of c e xs] by (auto simp: algebra_simps)
qed (auto dest: boundary_le)

lemma cuts_length:
  "spans_ok c a xs \<Longrightarrow> sum_list (map length (cuts_of c xs)) = (\<Sum>(s, e)\<leftarrow>xs. e - s)"
proof (induction xs arbitrary: a)
  case (Cons x xs)
  obtain s e where x: "x = (s, e)" by (cases x)
  have "e \<le> length c" using spans_ok_members[OF Cons.prems, of s e] by (simp add: x)
  moreover have "spans_ok c e xs" using Cons.prems x by simp
  ultimately show ?case using Cons.IH[of e] x by (simp add: cuts_of_def)
qed (simp add: cuts_of_def)

lemma line_numbers_total:
  "spans_ok c a xs \<Longrightarrow>
   those (map (\<lambda>(s, _). line_number c s) xs) = Some (map (\<lambda>(s, _). count_lf (take s c) + 1) xs)"
proof (induction xs arbitrary: a)
  case (Cons x xs)
  obtain s e where "x = (s, e)" by (cases x)
  then show ?case using Cons.prems Cons.IH[of e] by (auto simp: line_number_def str_slice_def)
qed simp

text \<open>
  What the operations need from a matcher: on the inputs it is meant for, its spans are ordered,
  disjoint and cut at characters, and each span holds text that matches.
\<close>

locale span_finder =
  fixes find :: "string \<Rightarrow> string \<Rightarrow> (nat \<times> nat) list"
    and similar :: "string \<Rightarrow> string \<Rightarrow> bool"
    and admissible :: "string \<Rightarrow> string \<Rightarrow> bool"
  assumes find_spans: "admissible c old \<Longrightarrow> spans_ok c 0 (find c old)"
    and find_similar: "admissible c old \<Longrightarrow> m \<in> set (cuts_of c (find c old)) \<Longrightarrow> similar m old"
begin

lemma splice_succeeds:
  "admissible c old \<Longrightarrow>
   splice_all c new (find c old)
   = Some (weave (gaps_of c 0 (find c old)) (replicate (length (find c old)) new))"
  by (simp add: find_spans splice_all_weave)

lemma splice_decomposition:
  assumes "admissible c old" "splice_all c new (find c old) = Some r"
  shows "\<exists>gaps ms. length ms = length (find c old) \<and> length gaps = Suc (length ms) \<and>
    c = weave gaps ms \<and> r = weave gaps (replicate (length ms) new) \<and> (\<forall>m\<in>set ms. similar m old)"
proof -
  have len: "length (gaps_of c a xs) = Suc (length xs)" for a xs
    by (induction c a xs rule: gaps_of.induct) auto
  show ?thesis
  proof (intro exI conjI)
    show "length (cuts_of c (find c old)) = length (find c old)" by (simp add: cuts_of_def)
    then show "length (gaps_of c 0 (find c old)) = Suc (length (cuts_of c (find c old)))"
      by (simp add: len)
    show "c = weave (gaps_of c 0 (find c old)) (cuts_of c (find c old))"
      by (simp only: weave_cuts[OF find_spans[OF assms(1)]] drop_0)
    show "r = weave (gaps_of c 0 (find c old)) (replicate (length (cuts_of c (find c old))) new)"
      using assms(2) unfolding splice_succeeds[OF assms(1)] cuts_of_def length_map by blast
    show "\<forall>m\<in>set (cuts_of c (find c old)). similar m old"
      using find_similar[OF assms(1)] by blast
  qed
qed

lemma splice_bytes:
  assumes "admissible c old" "splice_all c new (find c old) = Some r"
  shows "length r + sum_list (map length (cuts_of c (find c old)))
         = length c + length (find c old) * length new"
proof -
  have cut_len: "sum_list (map length (cuts_of c xs)) = (\<Sum>(s, e)\<leftarrow>xs. e - s)"
    if "spans_ok c a xs" for a xs by (rule cuts_length[OF that])
  show ?thesis
    using assms splice_succeeds[OF assms(1), of new] weave_length[OF find_spans[OF assms(1)], of new]
      cut_len[OF find_spans[OF assms(1)]] by simp
qed

end

section \<open>The exact matcher\<close>

lemma crlf_norm_append: "CR \<notin> set u \<Longrightarrow> crlf_norm (u @ v) = u @ crlf_norm v"
proof (induction u)
  case (Cons c u)
  then show ?case by (cases "u @ v") auto
qed simp

lemma crlf_norm_CR: "crlf_norm (CR # v) =
    (if v \<noteq> [] \<and> hd v = LF then LF # crlf_norm (tl v) else CR # crlf_norm v)"
  by (cases v) auto

lemma utf8_valid_crlf_norm: "utf8_valid (crlf_norm s) = utf8_valid s"
proof (induction s rule: length_induct)
  case (1 s)
  show ?case
  proof (cases "CR \<in> set s")
    case False
    then show ?thesis by (simp add: crlf_norm_id)
  next
    case True
    then obtain u v where s: "s = u @ CR # v" "CR \<notin> set u" by (meson split_list_first)
    have ih: "utf8_valid (crlf_norm v) = utf8_valid v" "utf8_valid (crlf_norm (tl v)) = utf8_valid (tl v)"
      using 1 s by auto
    show ?thesis
    proof (cases "v \<noteq> [] \<and> hd v = LF")
      case True
      then obtain w where v: "v = LF # w" by (cases v) auto
      have "utf8_valid (LF # w) = utf8_valid w"
        using utf8_valid_ascii_mid[of LF "[]" w] by simp
      then show ?thesis
        using s v ih(2) by (simp add: crlf_norm_append crlf_norm_CR utf8_valid_ascii_mid)
    next
      case False
      then have "crlf_norm s = u @ CR # crlf_norm v"
        using s by (auto simp: crlf_norm_append crlf_norm_CR)
      then show ?thesis using s ih(1) by (simp add: utf8_valid_ascii_mid)
    qed
  qed
qed

lemma orig_off_nth:
  "k < length (crlf_norm s) \<Longrightarrow>
   orig_off s k < length s \<and> (s ! orig_off s k = crlf_norm s ! k \<or> s ! orig_off s k = CR)"
proof (induction s arbitrary: k rule: crlf_norm.induct)
  case (3 c d cs)
  show ?case
  proof (cases k)
    case (Suc j)
    show ?thesis
    proof (cases "c = CR \<and> d = LF")
      case True
      then show ?thesis using 3(1)[OF True, of j] 3(3) Suc by simp
    next
      case False
      then show ?thesis using 3(2)[OF False, of j] 3(3) Suc by auto
    qed
  qed auto
qed auto

lemma crlf_norm_Nil_iff [simp]: "crlf_norm s = [] \<longleftrightarrow> s = []"
  by (cases s rule: crlf_norm.cases) auto

lemma orig_off_length [offset_simps]: "orig_off s (length (crlf_norm s)) = length s"
  using orig_off_cut[of "length (crlf_norm s)" s] by auto

lemma orig_off_boundary [offset_simps]:
  assumes "boundary (crlf_norm s) k"
  shows "boundary s (orig_off s k)"
proof (cases "k < length (crlf_norm s)")
  case True
  have cr: "\<not> is_cont CR" by (simp add: is_cont_def)
  have "k = 0 \<or> \<not> is_cont (crlf_norm s ! k)" using assms True by (auto simp: boundary_def)
  then show ?thesis using orig_off_nth[OF True] cr by (auto simp: boundary_def)
next
  case False
  then have "k = length (crlf_norm s)" using boundary_le[OF assms] by simp
  then show ?thesis by (simp add: offset_simps)
qed

lemma orig_off_mono: "j \<le> k \<Longrightarrow> orig_off s j \<le> orig_off s k"
proof (induction s arbitrary: j k rule: crlf_norm.induct)
  case (3 c d cs)
  then show ?case by (cases j; cases k) auto
qed (case_tac [!] j, case_tac [!] k, auto)

lemma orig_off_add: "orig_off s (j + k) = orig_off s j + orig_off (drop (orig_off s j) s) k"
proof (induction s arbitrary: j rule: crlf_norm.induct)
  case 1
  then show ?case by (cases j; cases k) auto
next
  case (2 c)
  then show ?case by (cases j; cases k) auto
next
  case (3 c d cs)
  then show ?case by (cases j) auto
qed

lemma orig_off_slice [offset_simps]:
  assumes "j \<le> k" "k \<le> length (crlf_norm s)"
  shows "crlf_norm (take (orig_off s k - orig_off s j) (drop (orig_off s j) s))
         = take (k - j) (drop j (crlf_norm s))"
proof -
  let ?d = "drop (orig_off s j) s"
  have j: "crlf_norm ?d = drop j (crlf_norm s)" using orig_off_cut[of j s] assms by simp
  have "orig_off s k = orig_off s j + orig_off ?d (k - j)"
    using orig_off_add[of s j "k - j"] assms(1) by simp
  then show ?thesis using orig_off_cut[of "k - j" ?d] assms j by simp
qed

lemma exact_spans_eq:
  "exact_spans c old =
   map (\<lambda>i. (orig_off c i, orig_off c (i + length (crlf_norm old))))
     (match_indices (crlf_norm c) (crlf_norm old))"
  by (simp add: exact_spans_def Let_def normalize_for_match_eq norm_to_original_offset_eq)

text \<open>Any increasing list of boundary pairs in the normalized text gives well-formed spans.\<close>

lemma spans_ok_translate:
  assumes "boundary (crlf_norm c) a" "spans_ok (crlf_norm c) a xs"
  shows "spans_ok c (orig_off c a) (map (\<lambda>(s, e). (orig_off c s, orig_off c e)) xs)"
  using assms
proof (induction xs arbitrary: a)
  case (Cons x xs)
  obtain s e where x: "x = (s, e)" by (cases x)
  then show ?case
    using Cons.prems Cons.IH[of e] spans_ok_boundary[of "crlf_norm c" e xs]
    by (auto simp: orig_off_boundary intro: orig_off_mono)
qed (simp add: orig_off_boundary)

lemma match_spans_ok:
  assumes "utf8_valid s" "utf8_valid pat" "pat \<noteq> []"
    "sorted_wrt (\<lambda>i j. i + length pat \<le> j) os"
    "\<forall>i\<in>set os. a \<le> i \<and> i + length pat \<le> length s \<and> take (length pat) (drop i s) = pat"
    "boundary s a"
  shows "spans_ok s a (map (\<lambda>i. (i, i + length pat)) os)"
  using assms(4-6)
proof (induction os arbitrary: a)
  case (Cons i os)
  then have "boundary s i \<and> boundary s (i + length pat)"
    using utf8_cut[OF assms(1-3)] by auto
  then show ?case using Cons by auto
qed simp

lemma exact_spans_ok:
  assumes "utf8_valid c" "utf8_valid old" "old \<noteq> []"
  shows "spans_ok c 0 (exact_spans c old)"
proof -
  let ?n = "crlf_norm c" and ?o = "crlf_norm old"
  have "spans_ok ?n 0 (map (\<lambda>i. (i, i + length ?o)) (match_indices ?n ?o))"
    by (rule match_spans_ok)
      (use assms match_indices_sound match_indices_gaps in \<open>auto simp: utf8_valid_crlf_norm\<close>)
  then have "spans_ok c (orig_off c 0)
      (map (\<lambda>(s, e). (orig_off c s, orig_off c e)) (map (\<lambda>i. (i, i + length ?o)) (match_indices ?n ?o)))"
    by (intro spans_ok_translate) auto
  then show ?thesis by (simp add: exact_spans_eq comp_def)
qed

lemma exact_cuts:
  assumes "m \<in> set (cuts_of c (exact_spans c old))"
  shows "crlf_norm m = crlf_norm old"
proof -
  obtain i where i: "i \<in> set (match_indices (crlf_norm c) (crlf_norm old))"
    "m = take (orig_off c (i + length (crlf_norm old)) - orig_off c i) (drop (orig_off c i) c)"
    using assms by (auto simp: exact_spans_eq cuts_of_def)
  then show ?thesis
    using match_indices_sound[OF i(1)] orig_off_slice[of i "i + length (crlf_norm old)" c] by simp
qed

interpretation exact: span_finder exact_spans "\<lambda>m old. crlf_norm m = crlf_norm old"
    "\<lambda>c old. utf8_valid c \<and> utf8_valid old \<and> old \<noteq> []"
  by unfold_locales (use exact_spans_ok exact_cuts in auto)

lemma exact_spans_Nil_iff:
  "old \<noteq> [] \<Longrightarrow> exact_spans c old = [] \<longleftrightarrow> \<not> sublist (crlf_norm old) (crlf_norm c)"
  by (simp add: exact_spans_eq match_indices_Nil_iff)

end
