(* ===== verification/EditTrim.thy ===== *)
theory EditTrim
  imports EditSpans
begin

text \<open>
  The trim-end fallback: its index maps offsets in the trimmed text back to the text, the spans it
  reports are ordered and cut at characters when the trimmed pattern does not begin with a newline,
  and each holds text that agrees with the pattern after per-line trimming.
\<close>

section \<open>Trimming one line\<close>

lemma ws_end_rev_take: "ws_end_rev r \<noteq> 0 \<Longrightarrow> ws_end_rev r \<le> k \<Longrightarrow> ws_end_rev (take k r) = ws_end_rev r"
proof (induction r rule: ws_end_rev.induct)
  case (3 a b)
  obtain j where k: "k = Suc j" using 3 by (cases k) (auto split: if_splits)
  show ?case using 3 by (cases j) (auto simp: k split: if_splits)
next
  case (4 a b c r)
  obtain j where k: "k = Suc j" using 4 by (cases k) (auto split: if_splits)
  show ?case
  proof (cases j)
    case (Suc i)
    then show ?thesis using 4 by (cases i) (auto simp: k split: if_splits)
  qed (use 4 in \<open>auto simp: k split: if_splits\<close>)
qed (auto simp: take_Cons')

lemma ws_end_rev_take0: "ws_end_rev r = 0 \<Longrightarrow> ws_end_rev (take k r) = 0"
proof (induction r rule: ws_end_rev.induct)
  case (4 a b c r)
  then have ws: "\<not> ascii_ws a" "\<not> ws2 b a" "\<not> ws3 c b a" by (auto split: if_splits)
  consider "k = 0" | "k = 1" | "k = 2" | j where "k = Suc (Suc (Suc j))"
    by (metis One_nat_def Suc_1 not0_implies_Suc)
  then show ?case using ws by cases (auto simp: numeral_2_eq_2)
qed (auto simp: take_Cons' split: if_splits)

lemma ws_end_rev_lead: "ws_end_rev r \<noteq> 0 \<Longrightarrow> \<not> is_cont (r ! (ws_end_rev r - 1))"
proof -
  have "ascii_ws a \<Longrightarrow> \<not> is_cont a" "ws2 b a \<Longrightarrow> \<not> is_cont b" "ws3 c b a \<Longrightarrow> \<not> is_cont c" for a b c
    by (auto simp: ascii_ws_def ws2_def ws3_def is_cont_def)
  then show "ws_end_rev r \<noteq> 0 \<Longrightarrow> \<not> is_cont (r ! (ws_end_rev r - 1))"
    by (cases r rule: ws_end_rev.cases) (auto split: if_splits)
qed

lemma trim_end_rev_length: "length (trim_end_rev r) \<le> length r"
  by (metis trim_end_rev_suffix length_append le_add2)

lemma trim_end_rev_take:
  "length r - length (trim_end_rev r) \<le> k \<Longrightarrow>
   trim_end_rev (take k r) = take (k - (length r - length (trim_end_rev r))) (trim_end_rev r)"
proof (induction r arbitrary: k rule: trim_end_rev.induct)
  case (1 r)
  show ?case
  proof (cases "ws_end_rev r = 0")
    case True
    then show ?thesis by (simp add: trim_end_rev.simps[of r] trim_end_rev.simps[of "take k r"] ws_end_rev_take0)
  next
    case False
    let ?n = "ws_end_rev r" and ?r = "drop (ws_end_rev r) r"
    have eq: "trim_end_rev r = trim_end_rev ?r" using False by (simp add: trim_end_rev.simps[of r])
    have n: "?n \<le> length r" by (rule ws_end_rev_le)
    have le: "length (trim_end_rev ?r) \<le> length ?r" by (rule trim_end_rev_length)
    have k: "?n \<le> k" using "1.prems" n le eq by simp
    have "trim_end_rev (take k r) = trim_end_rev (take (k - ?n) ?r)"
      using False ws_end_rev_take[OF False k]
      by (simp add: trim_end_rev.simps[of "take k r"] drop_take)
    also have "\<dots> = take (k - ?n - (length ?r - length (trim_end_rev ?r))) (trim_end_rev ?r)"
      using "1.IH"[OF False, of "k - ?n"] "1.prems" eq by simp
    also have "\<dots> = take (k - (length r - length (trim_end_rev r))) (trim_end_rev r)"
      using eq n le by (simp add: diff_diff_left)
    finally show ?thesis .
  qed
qed

lemma trim_end_length: "length (trim_end s) \<le> length s"
  by (simp add: prefix_length_le trim_end_prefix)

lemma trim_end_take: "trim_end s = take (length (trim_end s)) s"
  by (metis trim_end_prefix append_eq_conv_conj prefix_def)

lemma trim_end_drop: "t \<le> length (trim_end s) \<Longrightarrow> trim_end (drop t s) = drop t (trim_end s)"
proof -
  assume t: "t \<le> length (trim_end s)"
  have le: "length (trim_end_rev (rev s)) \<le> length s"
    using trim_end_rev_length[of "rev s"] by simp
  have "trim_end (drop t s) = rev (trim_end_rev (take (length s - t) (rev s)))"
    by (simp add: trim_end_def rev_drop)
  also have "\<dots> = rev (take (length s - t - (length s - length (trim_end_rev (rev s)))) (trim_end_rev (rev s)))"
    using t le by (subst trim_end_rev_take) (auto simp: trim_end_def)
  also have "\<dots> = drop t (trim_end s)"
    using t le by (simp add: trim_end_def rev_take)
  finally show ?thesis .
qed

lemma trim_end_next_lead:
  assumes "length (trim_end s) < length s"
  shows "\<not> is_cont (s ! length (trim_end s))"
proof -
  have "length (trim_end_rev r) < length r \<Longrightarrow> \<not> is_cont (r ! (length r - length (trim_end_rev r) - 1))" for r
  proof (induction r rule: trim_end_rev.induct)
    case (1 r)
    let ?n = "ws_end_rev r" and ?r = "drop (ws_end_rev r) r"
    have n0: "?n \<noteq> 0" using "1.prems" by (metis less_irrefl trim_end_rev.simps)
    have eq: "trim_end_rev r = trim_end_rev ?r" using n0 by (simp add: trim_end_rev.simps[of r])
    have n: "?n \<le> length r" by (rule ws_end_rev_le)
    show ?case
    proof (cases "length (trim_end_rev ?r) < length ?r")
      case True
      then have "\<not> is_cont (?r ! (length ?r - length (trim_end_rev ?r) - 1))" using 1(1)[OF n0] by simp
      moreover have "?n + (length ?r - length (trim_end_rev ?r) - 1) = length r - length (trim_end_rev r) - 1"
        using True eq n by simp
      ultimately show ?thesis using n by (metis nth_drop)
    next
      case False
      then have "length (trim_end_rev ?r) = length ?r" using trim_end_rev_length[of ?r] by simp
      then show ?thesis using eq n ws_end_rev_lead[OF n0] by simp
    qed
  qed
  from this[of "rev s"] show ?thesis
    using assms by (simp add: trim_end_def rev_nth)
qed

lemma LF_not_in_trim_end: "LF \<notin> set s \<Longrightarrow> LF \<notin> set (trim_end s)"
  by (metis trim_end_take in_set_takeD)

lemma utf8_valid_trim_end: "utf8_valid s \<Longrightarrow> utf8_valid (trim_end s)"
proof -
  assume v: "utf8_valid s"
  have "boundary s (length (trim_end s))"
    using trim_end_next_lead[of s] trim_end_length[of s] by (auto simp: boundary_def)
  then show ?thesis using utf8_valid_take_drop[OF v] by (metis trim_end_take)
qed

section \<open>Lists of lines\<close>

fun lines_ok :: "string list \<Rightarrow> bool" where
  "lines_ok [] \<longleftrightarrow> True"
| "lines_ok [l] \<longleftrightarrow> is_line l"
| "lines_ok (l # ls) \<longleftrightarrow> is_line l \<and> ends_lf l \<and> lines_ok ls"

lemma lines_ok_Cons: "lines_ok (l # ls) \<longleftrightarrow> is_line l \<and> (ls \<noteq> [] \<longrightarrow> ends_lf l) \<and> lines_ok ls"
  by (cases ls) auto

lemma lines_ok_split: "lines_ok (split_inclusive s)"
  by (induction s rule: line_induct)
    (auto simp: split_inclusive_line split_inclusive_last lines_ok_Cons)

lemma split_inclusive_concat: "lines_ok ls \<Longrightarrow> split_inclusive (concat ls) = ls"
proof (induction ls)
  case (Cons l ls)
  then show ?case
    by (cases "ls = []"; cases "ends_lf l")
      (auto simp: lines_ok_Cons split_inclusive_line split_inclusive_last
        dest: split_inclusive_line[of l "[]"])
qed simp

lemma lines_ok_take: "lines_ok ls \<Longrightarrow> lines_ok (take j ls)"
  by (induction ls arbitrary: j) (auto simp: lines_ok_Cons take_Cons' )

lemma trim_end_lines_Nil [simp]: "trim_end_lines [] = []"
  by (simp add: trim_end_lines_def)

lemma trim_end_lines_concat: "lines_ok ls \<Longrightarrow> trim_end_lines (concat ls) = concat (map trim_line ls)"
  by (simp add: trim_end_lines_def split_inclusive_concat)

lemma trim_end_lines_line [simp]:
  "is_line l \<Longrightarrow> ends_lf l \<Longrightarrow> trim_end_lines (l @ s) = trim_line l @ trim_end_lines s"
  by (simp add: trim_end_lines_def split_inclusive_line)

lemma trim_end_lines_last: "is_line l \<Longrightarrow> trim_end_lines l = trim_line l"
  by (cases "ends_lf l") (use split_inclusive_line[of l "[]"] split_inclusive_last[of l] in \<open>auto simp: trim_end_lines_def\<close>)

lemma ends_lf_split: "ends_lf l \<Longrightarrow> l = butlast l @ [LF]"
  by (metis append_butlast_last_id ends_lf_def)

lemma strip_lf_no_LF: "is_line l \<Longrightarrow> LF \<notin> set (strip_lf l)"
  by (metis append_butlast_last_id ends_lf_def insert_iff is_line_def list.set(2) rotate1.simps(2)
      set_rotate1 strip_lf_def)

lemma trim_line_le: "length (trim_line l) \<le> length l"
proof (cases "ends_lf l")
  case True
  then have "length l = Suc (length (butlast l))" by (metis ends_lf_split length_append_singleton)
  then show ?thesis using True trim_end_length[of "butlast l"] by (simp add: trim_line_def strip_lf_def)
next
  case False
  then show ?thesis using trim_end_length[of l] by (simp add: trim_line_def strip_lf_def)
qed

lemma trim_line_ends: "ends_lf l \<Longrightarrow> trim_line l = trim_end (strip_lf l) @ [LF]"
  by (simp add: trim_line_def)

lemma trim_line_is_line: "is_line l \<Longrightarrow> ends_lf l \<Longrightarrow> is_line (trim_line l) \<and> ends_lf (trim_line l)"
  using LF_not_in_trim_end[OF strip_lf_no_LF[of l]]
  by (simp add: trim_line_def is_line_def ends_lf_def)

lemma trim_line_idem: "is_line l \<Longrightarrow> trim_line (trim_line l) = trim_line l"
proof (cases "ends_lf l")
  case True
  then show ?thesis by (simp add: trim_line_def strip_lf_def[of "trim_end (strip_lf l) @ [LF]"] ends_lf_def)
next
  case False
  assume l: "is_line l"
  have "\<not> ends_lf (trim_end l)"
    using LF_not_in_trim_end[OF strip_lf_no_LF[OF l]] False
    by (metis ends_lf_def last_in_set strip_lf_def)
  then show ?thesis using False by (simp add: trim_line_def strip_lf_def)
qed

lemma trim_end_lines_idem [simp]: "trim_end_lines (trim_end_lines s) = trim_end_lines s"
proof (induction s rule: line_induct)
  case (Last l)
  show ?case
  proof (cases "trim_line l = []")
    case False
    have "is_line (trim_line l)"
      using False Last LF_not_in_trim_end[OF strip_lf_no_LF[OF Last(1)]]
      by (metis append_Nil2 in_set_butlastD is_line_def trim_line_def)
    then show ?thesis using Last by (simp add: trim_end_lines_last trim_line_idem)
  qed (use Last in \<open>simp add: trim_end_lines_last\<close>)
next
  case (Line l s)
  then show ?case using trim_line_is_line[of l] by (simp add: trim_line_idem)
qed simp

lemma trim_line_drop: "is_line l \<Longrightarrow> t < length (trim_line l) \<Longrightarrow> trim_line (drop t l) = drop t (trim_line l)"
proof (cases "ends_lf l")
  case True
  assume t: "t < length (trim_line l)"
  let ?b = "butlast l"
  have l: "l = ?b @ [LF]" using ends_lf_split[OF True] .
  have tb: "t \<le> length (trim_end ?b)" using t True by (simp add: trim_line_def strip_lf_def)
  then have "drop t l = drop t ?b @ [LF]" using l trim_end_length[of ?b]
    by (metis append_Nil drop_append drop_0 diff_is_0_eq' le_trans)
  then show ?thesis
    using tb True by (simp add: trim_line_def strip_lf_def ends_lf_def trim_end_drop)
next
  case False
  assume t: "t < length (trim_line l)"
  then have tb: "t < length (trim_end l)" using False by (simp add: trim_line_def strip_lf_def)
  then have "t < length l" using trim_end_length[of l] by simp
  then have "\<not> ends_lf (drop t l)" using False by (auto simp: ends_lf_def)
  then show ?thesis using tb False by (simp add: trim_line_def strip_lf_def trim_end_drop)
qed

section \<open>The offset maps as recursions over the lines\<close>

fun starts :: "nat \<Rightarrow> nat list \<Rightarrow> nat list" where
  "starts a [] = []"
| "starts a (n # ns) = a # starts (a + n) ns"

fun tmap :: "string list \<Rightarrow> nat \<Rightarrow> nat" where
  "tmap [] off = off"
| "tmap (l # ls) off =
     (if ls \<noteq> [] \<and> length (trim_line l) \<le> off then length l + tmap ls (off - length (trim_line l))
      else off)"

fun emap :: "string list \<Rightarrow> nat \<Rightarrow> nat" where
  "emap [] off = 0"
| "emap (l # ls) off =
     (if ls \<noteq> [] \<and> length (trim_line l) \<le> off then length l + emap ls (off - length (trim_line l))
      else length l)"

abbreviation trims :: "string list \<Rightarrow> string" where
  "trims ls \<equiv> concat (map trim_line ls)"

lemma build_trim_loop_eq:
  "build_trim_loop ls a b ix =
     ix\<lparr>trimmed := trimmed ix @ trims ls,
        line_trim_starts := line_trim_starts ix @ starts a (map (\<lambda>l. length (trim_line l)) ls),
        line_norm_starts := line_norm_starts ix @ starts b (map length ls)\<rparr>"
  by (induction ls arbitrary: a b ix) (auto simp: Let_def trim_line_def add.assoc)

lemma trim_index_eq [offset_simps]:
  "trimmed (build_trim_end_index s) = trim_end_lines s"
  "line_trim_starts (build_trim_end_index s) = starts 0 (map (\<lambda>l. length (trim_line l)) (split_inclusive s))"
  "line_norm_starts (build_trim_end_index s) = starts 0 (map length (split_inclusive s))"
  "norm_len (build_trim_end_index s) = length s"
  by (simp_all add: build_trim_end_index_def build_trim_loop_eq trim_end_lines_def)

lemma length_starts [simp]: "length (starts a ns) = length ns"
  by (induction ns arbitrary: a) auto

lemma starts_point0: "off < a \<Longrightarrow> partition_point (\<lambda>s. s \<le> off) (starts a ns) = 0"
  by (cases ns) auto

lemma starts_point_pos: "a \<le> off \<Longrightarrow> ns \<noteq> [] \<Longrightarrow> 0 < partition_point (\<lambda>s. s \<le> off) (starts a ns)"
  by (cases ns) auto

lemma tmap_bridge:
  "ls \<noteq> [] \<Longrightarrow> a \<le> off \<Longrightarrow>
   (let ts = starts a (map (\<lambda>l. length (trim_line l)) ls); idx = partition_point (\<lambda>s. s \<le> off) ts - 1
    in starts b (map length ls) ! idx + (off - ts ! idx) = b + tmap ls (off - a))"
proof (induction ls arbitrary: a b)
  case (Cons l ls)
  let ?n = "length (trim_line l)"
  let ?P = "\<lambda>s. s \<le> off"
  show ?case
  proof (cases "ls \<noteq> [] \<and> a + ?n \<le> off")
    case True
    let ?ts = "starts (a + ?n) (map (\<lambda>l. length (trim_line l)) ls)"
    have pos: "0 < partition_point ?P ?ts" using True by (intro starts_point_pos) auto
    have ih: "starts (b + length l) (map length ls) ! (partition_point ?P ?ts - 1)
        + (off - ?ts ! (partition_point ?P ?ts - 1)) = b + length l + tmap ls (off - (a + ?n))"
      using Cons.IH[of "a + ?n" "b + length l"] True by (simp add: Let_def)
    then show ?thesis using Cons.prems True pos by (auto simp: Let_def nth_Cons' diff_diff_left Suc_diff_le not_less)
  next
    case False
    have "partition_point ?P (starts (a + ?n) (map (\<lambda>l. length (trim_line l)) ls)) = 0"
      using False by (cases "ls = []") (auto intro: starts_point0)
    then show ?thesis using Cons.prems False by (auto simp: Let_def)
  qed
qed simp

lemma emap_bridge:
  "ls \<noteq> [] \<Longrightarrow> a \<le> off \<Longrightarrow>
   (let idx = partition_point (\<lambda>s. s \<le> off) (starts a (map (\<lambda>l. length (trim_line l)) ls)) - 1
    in (if idx + 1 < length ls then starts b (map length ls) ! (idx + 1) else b + length (concat ls))
       = b + emap ls (off - a))"
proof (induction ls arbitrary: a b)
  case (Cons l ls)
  let ?n = "length (trim_line l)"
  let ?P = "\<lambda>s. s \<le> off"
  show ?case
  proof (cases "ls \<noteq> [] \<and> a + ?n \<le> off")
    case True
    let ?ts = "starts (a + ?n) (map (\<lambda>l. length (trim_line l)) ls)"
    have pos: "0 < partition_point ?P ?ts" using True by (intro starts_point_pos) auto
    show ?thesis
      using Cons.IH[of "a + ?n" "b + length l"] Cons.prems True pos
      by (auto simp: Let_def nth_Cons' diff_diff_left Suc_diff_le not_less)
  next
    case False
    have "partition_point ?P (starts (a + ?n) (map (\<lambda>l. length (trim_line l)) ls)) = 0"
      using False by (cases "ls = []") (auto intro: starts_point0)
    then show ?thesis using Cons.prems False by (cases ls) (auto simp: Let_def)
  qed
qed simp

lemma map_to_norm_eq [offset_simps]:
  "s \<noteq> [] \<Longrightarrow> map_to_norm (build_trim_end_index s) off = tmap (split_inclusive s) off"
  using tmap_bridge[of "split_inclusive s" 0 off 0]
  by (simp add: map_to_norm_def trim_index_eq Let_def)

lemma map_end_to_norm_eq [offset_simps]:
  assumes "s \<noteq> []"
  shows "map_end_to_norm (build_trim_end_index s) off =
    (if off = length (trim_end_lines s) \<or> (off < length (trim_end_lines s) \<and> trim_end_lines s ! off = LF)
     then emap (split_inclusive s) off else tmap (split_inclusive s) off)"
proof -
  have e: "(let idx = partition_point (\<lambda>s. s \<le> off) (line_trim_starts (build_trim_end_index s)) - 1
      in if idx + 1 < length (line_norm_starts (build_trim_end_index s))
         then line_norm_starts (build_trim_end_index s) ! (idx + 1)
         else norm_len (build_trim_end_index s)) = emap (split_inclusive s) off"
    using emap_bridge[of "split_inclusive s" 0 off 0] assms
    by (simp only: trim_index_eq Let_def length_starts length_map concat_split_inclusive add_0
        diff_zero split_inclusive_Nil_iff simp_thms le0)
  show ?thesis
    unfolding map_end_to_norm_def e by (auto simp: map_to_norm_eq[OF assms] trim_index_eq)
qed

section \<open>Spans found through the maps\<close>

lemma tmap_le: "lines_ok ls \<Longrightarrow> t < length (trims ls) \<Longrightarrow> tmap ls t < length (concat ls)"
proof (induction ls arbitrary: t)
  case (Cons l ls)
  show ?case
  proof (cases "ls \<noteq> [] \<and> length (trim_line l) \<le> t")
    case True
    then have "tmap ls (t - length (trim_line l)) < length (concat ls)"
      using Cons.IH[of "t - length (trim_line l)"] Cons.prems by (simp add: lines_ok_Cons less_diff_conv2)
    then show ?thesis using True by simp
  next
    case False
    then have "t < length (trim_line l)" using Cons.prems by auto
    then show ?thesis using False trim_line_le[of l] by auto
  qed
qed simp

lemma tmap_mono: "t \<le> t' \<Longrightarrow> tmap ls t \<le> tmap ls t'"
proof (induction ls arbitrary: t t')
  case (Cons l ls)
  have "tmap ls (t - length (trim_line l)) \<le> tmap ls (t' - length (trim_line l))"
    using Cons.prems by (intro Cons.IH) simp
  then show ?case using Cons.prems trim_line_le[of l] by auto
qed simp

lemma trim_line_LF: "is_line l \<Longrightarrow> t < length (trim_line l) \<Longrightarrow> trim_line l ! t = LF
    \<Longrightarrow> ends_lf l \<and> Suc t = length (trim_line l)"
  using LF_not_in_trim_end[OF strip_lf_no_LF[of l]]
  by (auto simp: trim_line_def nth_append in_set_conv_nth less_Suc_eq split: if_splits)

lemma emap_mono:
  "lines_ok ls \<Longrightarrow> t < t' \<Longrightarrow> t' < length (trims ls) \<Longrightarrow> trims ls ! t = LF \<Longrightarrow> emap ls t \<le> tmap ls t'"
proof (induction ls arbitrary: t t')
  case (Cons l ls)
  let ?n = "length (trim_line l)"
  have lines: "is_line l" "lines_ok ls" using Cons.prems(1) by (auto simp: lines_ok_Cons)
  show ?case
  proof (cases "ls \<noteq> [] \<and> ?n \<le> t")
    case True
    then have "emap ls (t - ?n) \<le> tmap ls (t' - ?n)"
      using Cons.prems lines by (intro Cons.IH) (auto simp: nth_append less_diff_conv2)
    then show ?thesis using True Cons.prems by simp
  next
    case False
    have "t < ?n" using False Cons.prems by auto
    then have "Suc t = ?n" using trim_line_LF[OF lines(1)] Cons.prems(4) by (simp add: nth_append)
    then have "?n \<le> t'" "ls \<noteq> []" using Cons.prems by auto
    then show ?thesis using False by auto
  qed
qed simp

text \<open>A cut of the text after the end of a line is a cut of the trimmed text there.\<close>

lemma emap_take:
  "lines_ok ls \<Longrightarrow> ls \<noteq> [] \<Longrightarrow> t \<le> length (trims ls) \<Longrightarrow>
   t = length (trims ls) \<or> trims ls ! t = LF \<Longrightarrow>
   \<exists>j. 0 < j \<and> j \<le> length ls \<and> emap ls t = length (concat (take j ls)) \<and>
     (trims (take j ls) = take t (trims ls) \<or> trims (take j ls) = take t (trims ls) @ [LF])"
proof (induction ls arbitrary: t)
  case (Cons l ls)
  let ?n = "length (trim_line l)"
  have lines: "is_line l" "lines_ok ls" using Cons.prems(1) by (auto simp: lines_ok_Cons)
  show ?case
  proof (cases "ls \<noteq> [] \<and> ?n \<le> t")
    case True
    have "t - ?n = length (trims ls) \<or> trims ls ! (t - ?n) = LF"
      using Cons.prems True by (auto simp: nth_append)
    moreover have "t - ?n \<le> length (trims ls)" using Cons.prems(3) by simp
    ultimately obtain j where j: "0 < j" "j \<le> length ls" "emap ls (t - ?n) = length (concat (take j ls))"
      "trims (take j ls) = take (t - ?n) (trims ls) \<or> trims (take j ls) = take (t - ?n) (trims ls) @ [LF]"
      using Cons.IH[OF lines(2) conjunct1[OF True], of "t - ?n"] by blast
    show ?thesis by (rule exI[of _ "Suc j"]) (use j True in auto)
  next
    case False
    have "trim_line l = take t (trims (l # ls)) \<or> trim_line l = take t (trims (l # ls)) @ [LF]"
    proof (cases "t < ?n")
      case True
      then have "trim_line l ! t = LF" using Cons.prems(3,4) by (auto simp: nth_append)
      then have "Suc t = ?n" "trim_line l ! t = LF" using trim_line_LF[OF lines(1) True] by auto
      then have "trim_line l = take t (trim_line l) @ [LF]"
        by (metis True order_refl take_Suc_conv_app_nth take_all)
      then show ?thesis using True by simp
    next
      case f: False
      then show ?thesis using False Cons.prems by auto
    qed
    then show ?thesis using False by (intro exI[of _ 1]) auto
  qed
qed simp

lemma tmap_drop:
  "lines_ok ls \<Longrightarrow> t < length (trims ls) \<Longrightarrow>
   trim_end_lines (drop (tmap ls t) (concat ls)) = drop t (trims ls)"
proof (induction ls arbitrary: t)
  case (Cons l ls)
  let ?n = "length (trim_line l)"
  have lines: "is_line l" "lines_ok ls" "ls \<noteq> [] \<longrightarrow> ends_lf l"
    using Cons.prems(1) by (auto simp: lines_ok_Cons)
  show ?case
  proof (cases "ls \<noteq> [] \<and> ?n \<le> t")
    case True
    then show ?thesis using Cons.IH[OF lines(2), of "t - ?n"] Cons.prems by (simp add: less_diff_conv2)
  next
    case False
    then have t: "t < ?n" using Cons.prems by auto
    then have tl: "t < length l" using trim_line_le[of l] by simp
    have dl: "is_line (drop t l)" "ends_lf l \<longrightarrow> ends_lf (drop t l)"
      using lines(1) tl by (auto simp: is_line_def ends_lf_def butlast_drop dest: in_set_dropD)
    have "trim_end_lines (drop t l @ concat ls) = trim_line (drop t l) @ trims ls"
      using dl lines by (cases "ls = []") (auto simp: trim_end_lines_last trim_end_lines_concat)
    then show ?thesis using False t tl trim_line_drop[OF lines(1) t] by simp
  qed
qed simp

lemma tmap_take:
  "t < length (trims (take j ls)) \<Longrightarrow> tmap (take j ls) t = tmap ls t"
proof (induction ls arbitrary: t j)
  case (Cons l ls)
  obtain i where j: "j = Suc i" using Cons.prems by (cases j) auto
  show ?case
  proof (cases "length (trim_line l) \<le> t")
    case True
    then have "t - length (trim_line l) < length (trims (take i ls))" using Cons.prems j by auto
    then show ?thesis using Cons.IH[of "t - length (trim_line l)" i] True j by auto
  qed (simp add: j)
qed simp

lemma trim_line_take: "is_line l \<Longrightarrow> t < length (trim_line l) \<Longrightarrow> trim_line l ! t \<noteq> LF \<Longrightarrow> take t l = take t (trim_line l)"
proof -
  assume l: "is_line l" and t: "t < length (trim_line l)" and lf: "trim_line l ! t \<noteq> LF"
  have tb: "t < length (trim_end (strip_lf l))"
    using t lf by (auto simp: trim_line_def nth_append less_Suc_eq split: if_splits)
  have "prefix (strip_lf l) l" by (auto simp: strip_lf_def prefixeq_butlast)
  then have "prefix (trim_end (strip_lf l)) l" using trim_end_prefix prefix_order.trans by blast
  then obtain w where "l = trim_end (strip_lf l) @ w" by (auto simp: prefix_def)
  then have "take t l = take t (trim_end (strip_lf l))" using tb
    by (metis append_Nil2 less_imp_le take_append diff_is_0_eq' take_0)
  then show "take t l = take t (trim_line l)" using tb by (simp add: trim_line_def)
qed

lemma tmap_prefix:
  "lines_ok ls \<Longrightarrow> t < length (trims ls) \<Longrightarrow> trims ls ! t \<noteq> LF \<Longrightarrow>
   trim_end_lines (take t (trims ls)) = take t (trims ls) \<Longrightarrow>
   trim_end_lines (take (tmap ls t) (concat ls)) = take t (trims ls)"
proof (induction ls arbitrary: t)
  case (Cons l ls)
  let ?n = "length (trim_line l)"
  have lines: "is_line l" "lines_ok ls" "ls \<noteq> [] \<longrightarrow> ends_lf l"
    using Cons.prems(1) by (auto simp: lines_ok_Cons)
  show ?case
  proof (cases "ls \<noteq> [] \<and> ?n \<le> t")
    case True
    have "trim_end_lines (take (t - ?n) (trims ls)) = take (t - ?n) (trims ls)"
      using Cons.prems(4) True lines trim_line_is_line[of l] by (simp add: trim_line_idem)
    then show ?thesis
      using Cons.IH[OF lines(2), of "t - ?n"] Cons.prems True lines
      by (simp add: nth_append less_diff_conv2)
  next
    case False
    then have t: "t < ?n" using Cons.prems by auto
    then have "trim_line l ! t \<noteq> LF" using Cons.prems(3) by (simp add: nth_append)
    then have "take t l = take t (trim_line l)" using trim_line_take[OF lines(1) t] by simp
    then show ?thesis using False t Cons.prems(4) trim_line_le[of l] by simp
  qed
qed simp

lemma tmap_slice:
  "lines_ok ls \<Longrightarrow> t0 < t \<Longrightarrow> t < length (trims ls) \<Longrightarrow> trims ls ! t \<noteq> LF \<Longrightarrow>
   trim_end_lines (drop t0 (take t (trims ls))) = drop t0 (take t (trims ls)) \<Longrightarrow>
   trim_end_lines (drop (tmap ls t0) (take (tmap ls t) (concat ls))) = drop t0 (take t (trims ls))"
proof (induction ls arbitrary: t0 t)
  case (Cons l ls)
  let ?n = "length (trim_line l)"
  have lines: "is_line l" "lines_ok ls" "ls \<noteq> [] \<longrightarrow> ends_lf l"
    using Cons.prems(1) by (auto simp: lines_ok_Cons)
  consider (both) "ls \<noteq> []" "?n \<le> t0" | (across) "ls \<noteq> []" "t0 < ?n" "?n \<le> t" | (one) "t < ?n"
    using Cons.prems(2,3) by fastforce
  then show ?case
  proof cases
    case both
    then show ?thesis
      using Cons.IH[OF lines(2), of "t0 - ?n" "t - ?n"] Cons.prems
      by (simp add: nth_append less_diff_conv2 diff_less_mono)
  next
    case across
    have l: "ends_lf l" "is_line (drop t0 l)" "ends_lf (drop t0 l)"
      using lines across trim_line_le[of l]
      by (auto simp: is_line_def ends_lf_def butlast_drop dest: in_set_dropD)
    have tl: "trim_line (drop t0 l) = drop t0 (trim_line l)"
      using trim_line_drop[OF lines(1)] across by simp
    have dl: "is_line (drop t0 (trim_line l))" "ends_lf (drop t0 (trim_line l))"
      using trim_line_is_line[OF l(2,3)] tl by auto
    have "trim_end_lines (take (t - ?n) (trims ls)) = take (t - ?n) (trims ls)"
      using Cons.prems(5) across dl trim_line_idem[OF l(2)] tl by simp
    then have "trim_end_lines (take (tmap ls (t - ?n)) (concat ls)) = take (t - ?n) (trims ls)"
      using tmap_prefix[OF lines(2), of "t - ?n"] Cons.prems across
      by (simp add: nth_append less_diff_conv2)
    then show ?thesis using across l tl trim_line_le[of l] by simp
  next
    case one
    then have "trim_line l ! t \<noteq> LF" using Cons.prems(4) by (simp add: nth_append)
    then have "take t l = take t (trim_line l)" using trim_line_take[OF lines(1) one] by simp
    moreover have "tmap (l # ls) t0 = t0" "tmap (l # ls) t = t" using one Cons.prems(2) by auto
    ultimately show ?thesis using one Cons.prems(5) trim_line_le[of l] by simp
  qed
qed simp

definition span_end :: "string list \<Rightarrow> nat \<Rightarrow> nat" where
  "span_end ls t =
     (if t = length (trims ls) \<or> (t < length (trims ls) \<and> trims ls ! t = LF) then emap ls t
      else tmap ls t)"

lemma concat_take: "concat (take j ls) = take (length (concat (take j ls))) (concat ls)"
  by (metis append_eq_conv_conj append_take_drop_id concat_append)

lemma trim_slice:
  assumes "lines_ok ls" "0 < n" "t + n \<le> length (trims ls)"
    and p: "take n (drop t (trims ls)) = p" "trim_end_lines p = p"
  shows "tmap ls t \<le> span_end ls (t + n) \<and> span_end ls (t + n) \<le> length (concat ls) \<and>
    (let m = drop (tmap ls t) (take (span_end ls (t + n)) (concat ls)) in
      trim_end_lines m = p \<or> trim_end_lines m = p @ [LF])"
proof (cases "t + n = length (trims ls) \<or> (t + n < length (trims ls) \<and> trims ls ! (t + n) = LF)")
  case True
  have ne: "ls \<noteq> []" using assms by auto
  obtain j where j: "emap ls (t + n) = length (concat (take j ls))"
    and tj: "trims (take j ls) = take (t + n) (trims ls) \<or> trims (take j ls) = take (t + n) (trims ls) @ [LF]"
    using emap_take[OF assms(1) ne assms(3)] True by blast
  have tt: "t < length (trims (take j ls))" using tj assms(2,3) by (auto simp: min_def)
  have e: "span_end ls (t + n) = length (concat (take j ls))" using True j by (simp add: span_end_def)
  have "trim_end_lines (drop (tmap ls t) (concat (take j ls))) = drop t (trims (take j ls))"
    using tmap_drop[OF lines_ok_take[OF assms(1)] tt] tmap_take[OF tt] by simp
  moreover have "drop t (trims (take j ls)) = p \<or> drop t (trims (take j ls)) = p @ [LF]"
    using tj p(1) assms(2,3) by (auto simp: drop_take)
  moreover have "tmap ls t < length (concat (take j ls))"
    using tmap_le[OF lines_ok_take[OF assms(1)] tt] tmap_take[OF tt] by simp
  moreover have "length (concat (take j ls)) \<le> length (concat ls)"
    by (metis concat_take length_take min.cobounded1 nat_le_linear take_all_iff)
  ultimately show ?thesis using concat_take[of j ls] by (simp add: e Let_def)
next
  case False
  then have t: "t + n < length (trims ls)" "trims ls ! (t + n) \<noteq> LF" using assms(3) by auto
  have e: "span_end ls (t + n) = tmap ls (t + n)" using t by (simp add: span_end_def)
  have "trim_end_lines (drop (tmap ls t) (take (tmap ls (t + n)) (concat ls))) = p"
    using tmap_slice[OF assms(1) _ t, of t] p assms(2) by (simp add: drop_take)
  then show ?thesis
    using tmap_mono[of t "t + n" ls] tmap_le[OF assms(1) t(1)] by (simp add: e Let_def)
qed

lemma tmap_lead:
  "lines_ok ls \<Longrightarrow> t < length (trims ls) \<Longrightarrow> \<not> is_cont (trims ls ! t) \<Longrightarrow>
   \<not> is_cont (concat ls ! tmap ls t)"
proof (induction ls arbitrary: t)
  case (Cons l ls)
  let ?n = "length (trim_line l)" and ?y = "trim_end (strip_lf l)"
  have lines: "is_line l" "lines_ok ls" using Cons.prems(1) by (auto simp: lines_ok_Cons)
  show ?case
  proof (cases "ls \<noteq> [] \<and> ?n \<le> t")
    case True
    then show ?thesis
      using Cons.IH[OF lines(2), of "t - ?n"] Cons.prems by (simp add: nth_append less_diff_conv2)
  next
    case False
    then have t: "t < ?n" using Cons.prems by auto
    then have tl: "t < length l" using trim_line_le[of l] by simp
    have "\<not> is_cont (l ! t)"
    proof (cases "trim_line l ! t = LF")
      case lf: True
      have lf: "ends_lf l" "Suc t = ?n" using trim_line_LF[OF lines(1) t lf] by auto
      have l: "l = strip_lf l @ [LF]" using lf ends_lf_split by (simp add: strip_lf_def)
      have ty: "t = length ?y" using lf by (simp add: trim_line_def)
      show ?thesis
      proof (cases "t < length (strip_lf l)")
        case True
        then show ?thesis using trim_end_next_lead[of "strip_lf l"] ty l by (metis nth_append)
      next
        case f: False
        then have "t = length (strip_lf l)" using ty trim_end_length[of "strip_lf l"] by simp
        then have "l ! t = LF" using l by (metis nth_append_length)
        then show ?thesis by (simp add: is_cont_def)
      qed
    next
      case nlf: False
      have tk: "take t l = take t (trim_line l)" using trim_line_take[OF lines(1) t nlf] .
      have ty: "t < length ?y" using t nlf
        by (auto simp: trim_line_def nth_append less_Suc_eq split: if_splits)
      have "prefix ?y l"
        using trim_end_prefix[of "strip_lf l"] by (auto simp: strip_lf_def prefixeq_butlast
            intro: prefix_order.trans)
      then obtain zs where "l = ?y @ zs" by (auto simp: prefix_def)
      then have "l ! t = ?y ! t" using ty by (metis nth_append)
      then have "l ! t = trim_line l ! t" using ty by (simp add: trim_line_def nth_append)
      then show ?thesis using Cons.prems(3) t by (simp add: nth_append)
    qed
    then show ?thesis using False tl by (auto simp: nth_append)
  qed
qed simp

lemma ascii_LF: "byte LF < 128"
  by simp

lemma lines_ok_ends: "lines_ok ls \<Longrightarrow> Suc i < length ls \<Longrightarrow> ends_lf (ls ! i)"
proof (induction ls arbitrary: i)
  case (Cons l ls)
  then show ?case by (cases i) (auto simp: lines_ok_Cons)
qed simp

lemma line_start_boundary:
  assumes "utf8_valid (concat ls)" "lines_ok ls" "0 < j" "j \<le> length ls"
  shows "boundary (concat ls) (length (concat (take j ls)))"
proof (cases "j = length ls")
  case False
  obtain i where i: "j = Suc i" using assms(3) by (cases j) auto
  then have len: "Suc i < length ls" using False assms(4) by simp
  have e: "ends_lf (ls ! i)" using lines_ok_ends[OF assms(2) len] .
  have "take j ls = take i ls @ [ls ! i]" using len i by (simp add: take_Suc_conv_app_nth)
  then have "concat (take j ls) = concat (take i ls) @ ls ! i" by simp
  also have "\<dots> = (concat (take i ls) @ butlast (ls ! i)) @ [LF]"
    using ends_lf_split[OF e] by (metis append.assoc)
  finally have "concat (take j ls) = (concat (take i ls) @ butlast (ls ! i)) @ [LF]" .
  moreover have "concat ls = concat (take j ls) @ concat (drop j ls)"
    by (metis append_take_drop_id concat_append)
  ultimately have "utf8_valid (concat (drop j ls))"
    using assms(1) utf8_valid_ascii_mid[of LF "concat (take i ls) @ butlast (ls ! i)" "concat (drop j ls)"]
    by (metis append.assoc append_Cons append_Nil ascii_LF)
  moreover have "drop (length (concat (take j ls))) (concat ls) = concat (drop j ls)"
    by (metis append_eq_conv_conj append_take_drop_id concat_append)
  ultimately show ?thesis
    using boundary_take_drop[OF assms(1), of "length (concat (take j ls))"]
    by (metis append_take_drop_id concat_append le_add1 length_append)
qed simp

lemma utf8_valid_trim_end_lines: "utf8_valid s \<Longrightarrow> utf8_valid (trim_end_lines s)"
proof (induction s rule: line_induct)
  case (Last l)
  then show ?case by (simp add: trim_end_lines_last trim_line_def strip_lf_def utf8_valid_trim_end)
next
  case (Line l s)
  have l: "l = strip_lf l @ [LF]" using ends_lf_split[OF Line(2)] Line(2) by (simp add: strip_lf_def)
  have "utf8_valid (strip_lf l)" "utf8_valid s"
    using Line(4) utf8_valid_ascii_mid[of LF "strip_lf l" s] l by (metis append.assoc append_Cons append_Nil
        ascii_LF)+
  then show ?case
    using Line(1-3) utf8_valid_ascii_mid[of LF "trim_end (strip_lf l)" "trim_end_lines s"]
    by (simp add: trim_line_ends utf8_valid_trim_end)
qed simp

section \<open>The matcher\<close>

definition trim_spans :: "string \<Rightarrow> string \<Rightarrow> (nat \<times> nat) list" where
  "trim_spans content old_text =
     find_trim_end_matches (normalize_for_match content) (normalize_for_match old_text)
       (build_crlf_positions content)"

definition norm_spans :: "string \<Rightarrow> string \<Rightarrow> (nat \<times> nat) list" where
  "norm_spans norm pat =
     map (\<lambda>i. (tmap (split_inclusive norm) i, span_end (split_inclusive norm) (i + length pat)))
       (match_indices (trim_end_lines norm) pat)"

abbreviation trimmed_pattern :: "string \<Rightarrow> string" where
  "trimmed_pattern old \<equiv> trim_end_lines (crlf_norm old)"

lemma match_indices_empty [simp]: "match_indices [] pat = []"
  by (simp add: match_indices_def match_from.simps)

lemma trim_spans_eq:
  "trim_spans c old =
     (if trimmed_pattern old = [] then []
      else map (\<lambda>(s, e). (orig_off c s, orig_off c e)) (norm_spans (crlf_norm c) (trimmed_pattern old)))"
proof (cases "c = []")
  case True
  then show ?thesis
    by (simp add: trim_spans_def find_trim_end_matches_def Let_def normalize_for_match_eq trim_index_eq norm_spans_def)
next
  case False
  then show ?thesis
    by (simp add: trim_spans_def find_trim_end_matches_def Let_def normalize_for_match_eq trim_index_eq norm_spans_def
      norm_to_original_offset_eq map_to_norm_eq map_end_to_norm_eq span_end_def trim_end_lines_def)
qed

text \<open>One span: in bounds, at characters, holding text that trims to the pattern.\<close>

lemma norm_span_ok:
  assumes valid: "utf8_valid norm" "utf8_valid p" and p: "p \<noteq> []" "trim_end_lines p = p"
    and i: "i \<in> set (match_indices (trim_end_lines norm) p)"
  defines "ls \<equiv> split_inclusive norm"
  shows "tmap ls i \<le> span_end ls (i + length p) \<and> span_end ls (i + length p) \<le> length norm \<and>
    boundary norm (tmap ls i) \<and> boundary norm (span_end ls (i + length p)) \<and>
    (let m = drop (tmap ls i) (take (span_end ls (i + length p)) norm) in
      trim_end_lines m = p \<or> trim_end_lines m = p @ [LF])"
proof -
  have ok: "lines_ok ls" and cc: "concat ls = norm" and tt: "trims ls = trim_end_lines norm"
    by (simp_all add: ls_def lines_ok_split trim_end_lines_def)
  have m: "i + length p \<le> length (trims ls)" "take (length p) (drop i (trims ls)) = p"
    using match_indices_sound[OF i] tt by auto
  have slice: "tmap ls i \<le> span_end ls (i + length p)" "span_end ls (i + length p) \<le> length norm"
    "let m = drop (tmap ls i) (take (span_end ls (i + length p)) norm) in
      trim_end_lines m = p \<or> trim_end_lines m = p @ [LF]"
    using trim_slice[OF ok _ m(1) m(2) p(2)] p(1) cc by auto
  have vt: "utf8_valid (trims ls)" using valid(1) tt utf8_valid_trim_end_lines by simp
  have b: "boundary (trims ls) (i + length p)" "boundary (trims ls) i"
    using utf8_cut[OF vt valid(2) p(1)] m by auto
  have lead: "boundary norm (tmap ls t)" if "t < length (trims ls)" "boundary (trims ls) t" for t
  proof -
    have "\<not> is_cont (trims ls ! t)"
      using utf8_valid_take_drop[OF vt that(2)] that(1) by (metis Cons_nth_drop_Suc utf8_valid_Cons_lead)
    then show ?thesis
      using tmap_lead[OF ok that(1)] tmap_le[OF ok that(1)] cc by (auto simp: boundary_def)
  qed
  have s: "boundary norm (tmap ls i)" using lead[OF _ b(2)] m(1) p(1) by (cases p) auto
  have e: "boundary norm (span_end ls (i + length p))"
  proof (cases "i + length p = length (trims ls) \<or> (i + length p < length (trims ls) \<and> trims ls ! (i + length p) = LF)")
    case True
    have "ls \<noteq> []" using m p(1) by auto
    then obtain j where "0 < j" "j \<le> length ls" "emap ls (i + length p) = length (concat (take j ls))"
      using emap_take[OF ok _ m(1)] True by blast
    then show ?thesis
      using line_start_boundary[OF _ ok, of j] valid(1) cc True by (simp add: span_end_def)
  next
    case False
    then have "i + length p < length (trims ls)" "span_end ls (i + length p) = tmap ls (i + length p)"
      using m(1) by (auto simp: span_end_def)
    then show ?thesis using lead b(1) by simp
  qed
  show ?thesis using slice s e by simp
qed

text \<open>All of them are ordered and disjoint when the pattern does not begin with a newline.\<close>

lemma span_end_le_tmap:
  assumes "lines_ok ls" "t \<le> t'" "t' < length (trims ls)" "trims ls ! t' \<noteq> LF"
  shows "span_end ls t \<le> tmap ls t'"
proof (cases "trims ls ! t = LF")
  case True
  then have "t < t'" using assms by (cases "t = t'") auto
  then show ?thesis
    using emap_mono[OF assms(1) _ assms(3) True] True assms(3) by (auto simp: span_end_def)
next
  case False
  then show ?thesis using assms tmap_mono[OF assms(2)] by (auto simp: span_end_def)
qed

lemma norm_spans_ok_aux:
  assumes valid: "utf8_valid norm" "utf8_valid p" and p: "p \<noteq> []" "trim_end_lines p = p" "hd p \<noteq> LF"
  defines "ls \<equiv> split_inclusive norm"
  assumes "set os \<subseteq> set (match_indices (trim_end_lines norm) p)"
    and "sorted_wrt (\<lambda>a b. a + length p \<le> b) os" "\<forall>i\<in>set os. a \<le> i"
    and "boundary norm (span_end ls a)" "os \<noteq> [] \<longrightarrow> span_end ls a \<le> tmap ls (hd os)"
  shows "spans_ok norm (span_end ls a) (map (\<lambda>i. (tmap ls i, span_end ls (i + length p))) os)"
  using assms(7-)
proof (induction os arbitrary: a)
  case (Cons i os)
  have i: "i \<in> set (match_indices (trim_end_lines norm) p)" using Cons.prems(1) by simp
  note sp = norm_span_ok[OF valid p(1,2) i, folded ls_def]
  have next_le: "span_end ls (i + length p) \<le> tmap ls j" if "j \<in> set os" for j
  proof -
    have "j \<in> set (match_indices (trim_end_lines norm) p)" using that Cons.prems(1) by auto
    then have j: "j + length p \<le> length (trim_end_lines norm)" "take (length p) (drop j (trim_end_lines norm)) = p"
      using match_indices_sound by auto
    have tt: "trims ls = trim_end_lines norm" by (simp add: ls_def trim_end_lines_def)
    obtain c cs where pc: "p = c # cs" using p(1) by (cases p) auto
    have jl: "j < length (trims ls)" using j(1) pc tt by simp
    have "trims ls ! j = c" using j(2) jl pc tt
      by (metis hd_drop_conv_nth hd_take length_greater_0_conv list.sel(1) p(1))
    then show ?thesis
      using span_end_le_tmap[of ls "i + length p" j] that Cons.prems(2) jl p(3) pc
      by (auto simp: ls_def lines_ok_split)
  qed
  have "spans_ok norm (span_end ls (i + length p)) (map (\<lambda>i. (tmap ls i, span_end ls (i + length p))) os)"
    using Cons.IH[of "i + length p"] Cons.prems sp next_le by auto
  then show ?case using Cons.prems sp by auto
qed simp

lemma norm_spans_ok:
  assumes "utf8_valid norm" "utf8_valid p" "p \<noteq> []" "trim_end_lines p = p" "hd p \<noteq> LF"
  shows "spans_ok norm 0 (norm_spans norm p)"
proof (cases "match_indices (trim_end_lines norm) p")
  case (Cons i os)
  let ?ls = "split_inclusive norm"
  have i: "i \<in> set (match_indices (trim_end_lines norm) p)" using Cons by simp
  note sp = norm_span_ok[OF assms(1-4) i]
  have srt: "sorted_wrt (\<lambda>a b. a + length p \<le> b) (i # os)"
    using match_indices_gaps[where s = "trim_end_lines norm" and pat = p] Cons by simp
  have "boundary norm (span_end ?ls (i + length p))" using sp by simp
  moreover have "os \<noteq> [] \<longrightarrow> span_end ?ls (i + length p) \<le> tmap ?ls (hd os)"
  proof
    assume "os \<noteq> []"
    then have h: "hd os \<in> set (match_indices (trim_end_lines norm) p)" "i + length p \<le> hd os"
      using Cons srt by auto
    have tt: "trims ?ls = trim_end_lines norm" by (simp add: trim_end_lines_def)
    obtain c cs where pc: "p = c # cs" using assms(3) by (cases p) auto
    have jl: "hd os < length (trims ?ls)" using match_indices_sound[OF h(1)] pc tt by simp
    have "trims ?ls ! hd os = c" using match_indices_sound[OF h(1)] jl pc tt
      by (metis hd_drop_conv_nth hd_take length_greater_0_conv list.sel(1) assms(3))
    then show "span_end ?ls (i + length p) \<le> tmap ?ls (hd os)"
      using span_end_le_tmap[OF lines_ok_split h(2) jl] assms(5) pc by simp
  qed
  ultimately have "spans_ok norm (span_end ?ls (i + length p))
      (map (\<lambda>i. (tmap ?ls i, span_end ?ls (i + length p))) os)"
    using norm_spans_ok_aux[OF assms(1-5), of os "i + length p"] Cons srt by auto
  then show ?thesis using sp Cons by (simp add: norm_spans_def)
qed (simp add: norm_spans_def)

lemma trim_spans_ok:
  assumes "utf8_valid c" "utf8_valid old" "trimmed_pattern old \<noteq> [] \<longrightarrow> hd (trimmed_pattern old) \<noteq> LF"
  shows "spans_ok c 0 (trim_spans c old)"
proof (cases "trimmed_pattern old = []")
  case False
  then have "spans_ok (crlf_norm c) 0 (norm_spans (crlf_norm c) (trimmed_pattern old))"
    using assms by (intro norm_spans_ok) (auto simp: utf8_valid_crlf_norm utf8_valid_trim_end_lines)
  then have "spans_ok c (orig_off c 0)
      (map (\<lambda>(s, e). (orig_off c s, orig_off c e)) (norm_spans (crlf_norm c) (trimmed_pattern old)))"
    by (intro spans_ok_translate) auto
  then show ?thesis using False by (simp add: trim_spans_eq)
qed (simp add: trim_spans_eq)

lemma trim_span_facts:
  assumes "utf8_valid c" "utf8_valid old" "(s, e) \<in> set (trim_spans c old)"
  shows "boundary c s \<and> boundary c e \<and> s \<le> e"
    and "trimmed_pattern (take (e - s) (drop s c)) \<in> {trimmed_pattern old, trimmed_pattern old @ [LF]}"
proof -
  let ?n = "crlf_norm c" and ?p = "trimmed_pattern old"
  let ?ls = "split_inclusive ?n"
  have ne: "?p \<noteq> []" using assms(3) by (auto simp: trim_spans_eq split: if_splits)
  then obtain i where i: "i \<in> set (match_indices (trim_end_lines ?n) ?p)"
    and s: "s = orig_off c (tmap ?ls i)" and e: "e = orig_off c (span_end ?ls (i + length ?p))"
    using assms(3) by (auto simp: trim_spans_eq norm_spans_def)
  have v: "utf8_valid ?n" "utf8_valid ?p"
    using assms by (auto simp: utf8_valid_crlf_norm utf8_valid_trim_end_lines)
  note sp = norm_span_ok[OF v ne trim_end_lines_idem i, unfolded Let_def drop_take]
  show "boundary c s \<and> boundary c e \<and> s \<le> e"
    using sp s e by (auto simp: orig_off_boundary intro: orig_off_mono)
  have "crlf_norm (take (e - s) (drop s c))
      = take (span_end ?ls (i + length ?p) - tmap ?ls i) (drop (tmap ?ls i) ?n)"
    using sp unfolding s e by (intro orig_off_slice) auto
  then show "trimmed_pattern (take (e - s) (drop s c)) \<in> {?p, ?p @ [LF]}" using sp by auto
qed

lemma trim_spans_ok_single:
  assumes "utf8_valid c" "utf8_valid old" "length (trim_spans c old) = 1"
  shows "spans_ok c 0 (trim_spans c old)"
proof -
  obtain s e where "trim_spans c old = [(s, e)]" using assms(3) by (cases "trim_spans c old") auto
  then show ?thesis using trim_span_facts(1)[OF assms(1,2), of s e] by auto
qed

text \<open>
  A pattern whose first line is blank after trimming can make two spans overlap; every other
  pattern gives ordered spans, and so does a single match.
\<close>

definition trim_admissible :: "string \<Rightarrow> string \<Rightarrow> bool" where
  "trim_admissible c old \<longleftrightarrow> utf8_valid c \<and> utf8_valid old \<and>
     (trimmed_pattern old = [] \<or> hd (trimmed_pattern old) \<noteq> LF \<or> length (trim_spans c old) \<le> 1)"

lemma trim_admissible_spans: "trim_admissible c old \<Longrightarrow> spans_ok c 0 (trim_spans c old)"
  using trim_spans_ok[of c old] trim_spans_ok_single[of c old]
  by (cases "trim_spans c old = []") (auto simp: trim_admissible_def le_Suc_eq)

lemma trim_cuts:
  assumes "utf8_valid c" "utf8_valid old" "m \<in> set (cuts_of c (trim_spans c old))"
  shows "trimmed_pattern m \<in> {trimmed_pattern old, trimmed_pattern old @ [LF]}"
  using assms(3) trim_span_facts(2)[OF assms(1,2)] by (auto simp: cuts_of_def)

interpretation trim: span_finder trim_spans
    "\<lambda>m old. trimmed_pattern m \<in> {trimmed_pattern old, trimmed_pattern old @ [LF]}" trim_admissible
proof unfold_locales
  fix c old m
  assume a: "trim_admissible c old"
  then show "spans_ok c 0 (trim_spans c old)" by (rule trim_admissible_spans)
  assume "m \<in> set (cuts_of c (trim_spans c old))"
  then show "trimmed_pattern m \<in> {trimmed_pattern old, trimmed_pattern old @ [LF]}"
    using a trim_cuts unfolding trim_admissible_def by blast
qed

text \<open>The matcher of the operations: exact first, trim-end when there is no exact match.\<close>

lemma find_matches_eq:
  "find_matches c old = (if exact_spans c old = [] then trim_spans c old else exact_spans c old)"
  by (simp add: find_matches_def trim_spans_def Let_def)

definition text_matches :: "string \<Rightarrow> string \<Rightarrow> bool" where
  "text_matches m old \<longleftrightarrow> crlf_norm m = crlf_norm old \<or>
     trimmed_pattern m \<in> {trimmed_pattern old, trimmed_pattern old @ [LF]}"

definition match_admissible :: "string \<Rightarrow> string \<Rightarrow> bool" where
  "match_admissible c old \<longleftrightarrow> utf8_valid c \<and> utf8_valid old \<and> old \<noteq> [] \<and>
     (exact_spans c old \<noteq> [] \<or> trim_admissible c old)"

interpretation matcher: span_finder find_matches text_matches match_admissible
proof unfold_locales
  fix c old m
  assume a: "match_admissible c old"
  then show "spans_ok c 0 (find_matches c old)"
    using exact.find_spans trim.find_spans by (auto simp: find_matches_eq match_admissible_def)
  assume "m \<in> set (cuts_of c (find_matches c old))"
  then show "text_matches m old"
    using a exact.find_similar trim_cuts
    by (auto simp: find_matches_eq match_admissible_def text_matches_def split: if_splits)
qed

end
