(* ===== verification/EditProps.thy ===== *)
theory EditProps
  imports EditTrim
begin

text \<open>
  What the editing operations promise: the shape of a successful edit, when they cannot panic, that
  every failure leaves the file system alone, and which error each bad input gives.
\<close>

section \<open>Block replacement\<close>

lemma splice_loop_spans:
  "splice_loop c new acc a xs = Some r \<Longrightarrow> \<not> (\<exists>(s, e) \<in> set xs. e < s) \<Longrightarrow> spans_ok c a xs"
proof (induction xs arbitrary: acc a)
  case (Cons x xs)
  obtain s e where x: "x = (s, e)" by (cases x)
  then show ?case using Cons by (auto simp: str_slice_def split: if_splits)
qed (auto simp: str_from_def str_slice_def split: if_splits)

lemma splice_all_spans: "splice_all c new xs = Some r \<Longrightarrow> spans_ok c 0 xs"
  by (auto simp: splice_all_def split: if_splits intro: splice_loop_spans)

lemma length_gaps: "length (gaps_of c a xs) = Suc (length xs)"
  by (induction c a xs rule: gaps_of.induct) auto

lemma write_file_atomic_cases:
  "write_file_atomic f p s = (Ok (), f\<lparr>fs_file := (fs_file f)(p \<mapsto> s)\<rparr>) \<or>
   (\<exists>e. write_file_atomic f p s = (Err (Io e), f))"
  by (auto simp: write_file_atomic_def split: option.splits)

lemma write_file_atomic_Ok:
  "write_file_atomic f p s = (Ok u, f') \<Longrightarrow> f' = f\<lparr>fs_file := (fs_file f)(p \<mapsto> s)\<rparr>"
  using write_file_atomic_cases[of f p s] by auto

lemma find_matches_cuts:
  assumes "utf8_valid c" "utf8_valid old" "m \<in> set (cuts_of c (find_matches c old))"
  shows "text_matches m old"
  using assms trim_cuts[OF assms(1,2)] exact_cuts[of m c old]
  by (auto simp: find_matches_eq text_matches_def split: if_splits)

lemma trim_lines_eq:
  assumes "utf8_valid c" "utf8_valid old"
  shows "those (map (\<lambda>(s, _). line_number c s) (trim_spans c old)) =
    Some (map (\<lambda>(start, _). count_lf (take start c) + 1) (trim_spans c old))"
proof -
  have "those (map (\<lambda>(s, _). line_number c s) xs) = Some (map (\<lambda>(start, _). count_lf (take start c) + 1) xs)"
    if "set xs \<subseteq> set (trim_spans c old)" for xs
    using that
  proof (induction xs)
    case (Cons x xs)
    obtain s e where x: "x = (s, e)" by (cases x)
    then show ?case using Cons trim_span_facts(1)[OF assms, of s e]
      by (auto simp: line_number_def str_slice_def)
  qed simp
  then show ?thesis by blast
qed

lemma edit_block_Ok:
  assumes "edit_replace_block h f p old new ra hash = (Ok out, f')"
  obtains c r where "fs_file f p = Some c" "utf8_valid c" "old \<noteq> []" "\<not> fs_dir f p"
    "check_content_hash h p hash c = None"
    "find_matches c old \<noteq> []" "ra \<or> length (find_matches c old) = 1"
    "splice_all c new (find_matches c old) = Some r"
    "f' = f\<lparr>fs_file := (fs_file f)(p \<mapsto> r)\<rparr>"
    "out = \<lparr>er_path = p, er_bytes_before = length c, er_bytes_after = length r,
       er_occurrences_replaced = length (find_matches c old), er_content_hash = None, er_edits = None\<rparr>"
  using assms
  by (auto simp: edit_replace_block_def edit_replace_block_inner_def Let_def normalize_for_match_eq
      bind_outcome_Ok_iff not_less le_Suc_eq
      split: if_splits outcome.splits option.splits prod.splits
      dest!: read_to_string_Ok write_file_atomic_Ok)

lemma edit_block_unfold:
  "read_to_string f p = Ok c \<Longrightarrow>
   edit_replace_block h f p old new ra hash =
     (if fs_dir f p then (Err (NotAFile p), f)
      else case check_content_hash h p hash c of
        Some e \<Rightarrow> (Err e, f)
      | None \<Rightarrow>
        if old = [] then (Err (InvalidParams ''old_text must not be empty''), f)
        else let ms = find_matches c old in
          if ms = [] then (Err (NotFound p (join [LF] (take 20 (str_lines c)))), f)
          else if length ms > 1 \<and> \<not> ra
          then (bind_outcome (or_panic (those (map (\<lambda>(start, _). line_number c start) ms)))
                  (\<lambda>ls. Err (Ambiguous (length ms) p ls)), f)
          else case splice_all c new ms of
              None \<Rightarrow> (Panic, f)
            | Some result \<Rightarrow>
                let (written, f') = write_file_atomic f p result in
                (bind_outcome written
                  (\<lambda>_. Ok \<lparr>er_path = p, er_bytes_before = length c, er_bytes_after = length result,
                     er_occurrences_replaced = length ms, er_content_hash = None, er_edits = None\<rparr>), f'))"
  by (simp add: edit_replace_block_def edit_replace_block_inner_def Let_def normalize_for_match_eq
      split: option.split)

text \<open>A concrete file for the instances: one directory, one file, no fault.\<close>

definition demo_path :: path where
  "demo_path = [RootDir, Normal ''d'', Normal ''f'']"

definition demo_fs :: "string \<Rightarrow> fs" where
  "demo_fs c = \<lparr>fs_dir = (\<lambda>p. p = [RootDir, Normal ''d'']), fs_file = [demo_path \<mapsto> c],
     fs_fails = (\<lambda>_ _. False)\<rparr>"

lemmas run_simps = demo_path_def demo_fs_def edit_replace_block_def edit_replace_block_inner_def
  read_to_string_def check_content_hash_def write_file_atomic_def path_parent_def Let_def
  utf8_valid.simps utf8_len.simps cont_at_def second_in_def is_cont_def
  normalize_for_match_def str_replace.simps find_matches_def exact_spans_def build_crlf_positions_def
  norm_to_original_offset_def match_indices_def match_from.simps str_slice_def str_from_def
  boundary_def splice_all_def

lemma demo_edit_run:
  "edit_replace_block id (demo_fs [CHR ''a'', CR, LF, CHR ''b'', CHR ''c'']) demo_path
     [CHR ''a'', LF, CHR ''b''] ''X'' False None
   = (Ok \<lparr>er_path = demo_path, er_bytes_before = 5, er_bytes_after = 2,
          er_occurrences_replaced = 1, er_content_hash = None, er_edits = None\<rparr>,
      (demo_fs [CHR ''a'', CR, LF, CHR ''b'', CHR ''c''])
        \<lparr>fs_file := [demo_path \<mapsto> ''Xc'']\<rparr>)"
  by (simp add: run_simps)

text \<open>
  C1. A successful block edit rewrites exactly the matched text: the old content is gaps and
  matches woven together, every match agrees with \<open>old_text\<close> up to line endings (or up to trailing
  white space per line), the new content is the same gaps around copies of \<open>new_text\<close>, no other
  file changes, one occurrence is replaced unless \<open>replace_all\<close> is set, and the counts reported are
  those of the edit.
\<close>

theorem edit_block_success:
  assumes "edit_replace_block h f p old new ra hash = (Ok out, f')" "utf8_valid old"
  shows "\<exists>content gaps ms. fs_file f p = Some content \<and> content = weave gaps ms \<and>
    f' = f\<lparr>fs_file := (fs_file f)(p \<mapsto> weave gaps (replicate (length ms) new))\<rparr> \<and>
    length gaps = Suc (length ms) \<and> ms \<noteq> [] \<and> (ra \<or> length ms = 1) \<and>
    (\<forall>m\<in>set ms. text_matches m old) \<and> er_occurrences_replaced out = length ms \<and>
    er_bytes_before out = length content \<and>
    er_bytes_after out + sum_list (map length ms) = length content + length ms * length new"
proof -
  obtain c r where c: "fs_file f p = Some c" "utf8_valid c" "find_matches c old \<noteq> []"
    "ra \<or> length (find_matches c old) = 1" "splice_all c new (find_matches c old) = Some r"
    "f' = f\<lparr>fs_file := (fs_file f)(p \<mapsto> r)\<rparr>"
    "out = \<lparr>er_path = p, er_bytes_before = length c, er_bytes_after = length r,
       er_occurrences_replaced = length (find_matches c old), er_content_hash = None, er_edits = None\<rparr>"
    using assms(1) by (rule edit_block_Ok)
  note ok = splice_all_spans[OF c(5)]
  let ?g = "gaps_of c 0 (find_matches c old)" and ?m = "cuts_of c (find_matches c old)"
  have len: "length ?m = length (find_matches c old)" by (simp add: cuts_of_def)
  have r: "r = weave ?g (replicate (length ?m) new)"
    using c(5) unfolding splice_all_weave[OF ok] len by simp
  have "length r + sum_list (map length ?m) = length c + length ?m * length new"
    unfolding r len using weave_length[OF ok, of new] cuts_length[OF ok] by simp
  moreover have "c = weave ?g ?m" by (simp only: weave_cuts[OF ok] drop_0)
  moreover have "\<forall>m\<in>set ?m. text_matches m old" using find_matches_cuts[OF c(2) assms(2)] by blast
  moreover have "?m \<noteq> []" using c(3) by (simp add: cuts_of_def)
  ultimately show ?thesis
    using c r len length_gaps by (intro exI[of _ c] exI[of _ ?g] exI[of _ ?m]) simp
qed

theorem edit_block_success_witness:
  "\<exists>gaps ms. [CHR ''a'', CR, LF, CHR ''b'', CHR ''c''] = weave gaps ms \<and> ''Xc'' = weave gaps [''X''] \<and>
     length ms = 1 \<and> (\<forall>m\<in>set ms. text_matches m [CHR ''a'', LF, CHR ''b''])"
proof -
  have v: "utf8_valid [CHR ''a'', LF, CHR ''b'']" by (simp add: run_simps)
  obtain content gaps ms where *:
    "fs_file (demo_fs [CHR ''a'', CR, LF, CHR ''b'', CHR ''c'']) demo_path = Some content"
    "content = weave gaps ms" "False \<or> length ms = 1"
    "\<forall>m\<in>set ms. text_matches m [CHR ''a'', LF, CHR ''b'']"
    and f: "(demo_fs [CHR ''a'', CR, LF, CHR ''b'', CHR ''c'']) \<lparr>fs_file := [demo_path \<mapsto> ''Xc'']\<rparr>
      = (demo_fs [CHR ''a'', CR, LF, CHR ''b'', CHR ''c'']) \<lparr>fs_file :=
          (fs_file (demo_fs [CHR ''a'', CR, LF, CHR ''b'', CHR ''c'']))
            (demo_path \<mapsto> weave gaps (replicate (length ms) ''X''))\<rparr>"
    using edit_block_success[OF demo_edit_run v] by blast
  have "weave gaps (replicate (length ms) ''X'') = ''Xc''"
    using arg_cong[OF f, of "\<lambda>f. fs_file f demo_path"] by simp
  moreover have "replicate (length ms) ''X'' = [''X'']" using *(3) by simp
  ultimately show ?thesis
    using * by (intro exI[of _ gaps] exI[of _ ms]) (simp add: demo_fs_def)
qed

text \<open>
  C3. A block edit with a well-formed \<open>old_text\<close> never panics, unless it replaces all occurrences
  through the trim-end fallback of a pattern whose first line is blank after trimming: no slice is
  out of order or inside a character, whatever the file holds and whatever the system refuses.
\<close>

theorem edit_block_no_panic:
  assumes "utf8_valid old"
    and "\<not> ra \<or> trimmed_pattern old = [] \<or> hd (trimmed_pattern old) \<noteq> LF \<or>
      (\<exists>content. fs_file f p = Some content \<and> sublist (crlf_norm old) (crlf_norm content))"
  shows "fst (edit_replace_block h f p old new ra hash) \<noteq> Panic"
proof -
  have ok: "spans_ok c 0 (find_matches c old)"
    if "fs_file f p = Some c" "utf8_valid c" "old \<noteq> []" "ra \<or> length (find_matches c old) \<le> 1" for c
  proof (rule matcher.find_spans)
    show "match_admissible c old"
      using that assms exact_spans_Nil_iff[of old c]
      by (auto simp: match_admissible_def trim_admissible_def find_matches_eq)
  qed
  have lines: "those (map (\<lambda>(s, _). line_number c s) (find_matches c old)) \<noteq> None"
    if "utf8_valid c" "old \<noteq> []" for c
    using that assms(1) line_numbers_total[of c 0 "exact_spans c old"] exact_spans_ok[of c old]
      trim_lines_eq[of c old] by (auto simp: find_matches_eq)
  show ?thesis
  proof (cases "read_to_string f p")
    case (Ok c)
    note c = read_to_string_Ok[OF Ok]
    let ?ms = "find_matches c old"
    consider "fs_dir f p \<or> check_content_hash h p hash c \<noteq> None \<or> old = [] \<or> ?ms = []"
      | (many) "old \<noteq> []" "1 < length ?ms \<and> \<not> ra" | (splice) "old \<noteq> []" "ra \<or> length ?ms \<le> 1"
      by fastforce
    then show ?thesis
    proof cases
      case many
      obtain ls where "those (map (\<lambda>(s, _). line_number c s) ?ms) = Some ls"
        using lines[OF conjunct2[OF c] many(1)] by auto
      then show ?thesis using many
        by (auto simp: edit_block_unfold[OF Ok] Let_def split: option.split)
    next
      case splice
      obtain r where "splice_all c new ?ms = Some r"
        using splice_all_weave[OF ok[OF conjunct1[OF c] conjunct2[OF c] splice]] by blast
      moreover have "\<not> (length ?ms > 1 \<and> \<not> ra)" using splice by auto
      moreover obtain res where "write_file_atomic f p r = res" "fst res \<noteq> Panic"
        using write_file_atomic_cases[of f p r] by auto
      ultimately show ?thesis
        by (cases res; cases "fst res")
          (auto simp: edit_block_unfold[OF Ok] Let_def split: option.split)
    qed (auto simp: edit_block_unfold[OF Ok] Let_def split: option.split)
  qed (auto simp: edit_replace_block_def edit_replace_block_inner_def)
qed

theorem edit_block_no_panic_witness:
  "fst (edit_replace_block id (demo_fs (''a'' @ [LF] @ ''b '' @ [LF] @ ''b '')) demo_path
      ''b'' ''cc'' True (Some ''h'')) \<noteq> Panic"
  by (rule edit_block_no_panic) (simp_all add: run_simps trim_end_lines_def trim_line_def
      strip_lf_def ends_lf_def trim_end_def trim_end_rev.simps ascii_ws_def)

lemmas trim_run_simps = find_trim_end_matches_def trim_end_lines_def trim_line_def strip_lf_def
  ends_lf_def trim_end_def trim_end_rev.simps ascii_ws_def ws2_def ws3_def build_trim_end_index_def
  map_to_norm_def map_end_to_norm_def

text \<open>
  With such a pattern and \<open>replace_all\<close> the trim-end fallback can report overlapping spans, and
  the splice then slices \<open>content[5..3]\<close>: the edit panics instead of returning an error. (The batch
  form rejects the same spans as overlapping.)
\<close>

theorem edit_block_replace_all_panics:
  "edit_replace_block id (demo_fs (''a'' @ [LF] @ ''x '' @ [LF] @ ''x '' @ [LF])) demo_path
     ([LF] @ ''x '' @ [TAB]) ''Y'' True None
   = (Panic, demo_fs (''a'' @ [LF] @ ''x '' @ [LF] @ ''x '' @ [LF]))"
  by (simp add: run_simps trim_run_simps)

lemma edit_block_no_effect:
  assumes "edit_replace_block h f p old new ra hash = (res, f')" "\<forall>out. res \<noteq> Ok out"
  shows "f' = f"
proof (cases "read_to_string f p")
  case (Ok c)
  have w: "f2 = f" if "write_file_atomic f p r = (w, f2)" "\<forall>u. w \<noteq> Ok u" for r w f2
    using that write_file_atomic_cases[of f p r] by auto
  show ?thesis
    using assms unfolding edit_block_unfold[OF Ok]
    by (auto simp: Let_def bind_outcome_Ok_iff split: if_splits option.splits prod.splits
        outcome.splits dest: w)
qed (use assms in \<open>auto simp: edit_replace_block_def edit_replace_block_inner_def split: if_splits\<close>)

text \<open>
  A block edit that does not succeed, by any error or panic, leaves the file system as it was.
\<close>

theorem edit_block_failure_unchanged:
  assumes "edit_replace_block h f p old new ra hash = (res, f')" "\<forall>out. res \<noteq> Ok out"
  shows "f' = f"
  using assms by (rule edit_block_no_effect)

theorem edit_block_failure_unchanged_witness:
  "snd (edit_replace_block id (demo_fs ''ab ab'') demo_path ''ab'' ''X'' False None) = demo_fs ''ab ab''"
proof -
  have "edit_replace_block id (demo_fs ''ab ab'') demo_path ''ab'' ''X'' False None
      = (Err (Ambiguous 2 demo_path [1, 1]), demo_fs ''ab ab'')"
    by (simp add: run_simps line_number_def count_lf_def)
  then show ?thesis using edit_block_failure_unchanged[of id "demo_fs ''ab ab''" demo_path "''ab''" "''X''" False None] by simp
qed

text \<open>
  C5. Which error a block edit of a readable file gives, in the order of the checks: a stale hash
  first; then an empty \<open>old_text\<close>; then, when neither the text nor its trimmed lines occur,
  \<open>NotFound\<close> with the first 20 lines; then, for several matches without \<open>replace_all\<close>, \<open>Ambiguous\<close>
  with the count and the 1-based line of every match.
\<close>

theorem edit_block_errors:
  assumes "fs_file f p = Some c" "utf8_valid c" "utf8_valid old" "\<not> fs_dir f p" "\<not> fs_fails f OpRead p"
  shows "fst (edit_replace_block h f p old new ra hash) =
    (case hash of
       Some expected \<Rightarrow> if h c \<noteq> expected then Err (StaleContentHash expected (h c) p)
         else fst (edit_replace_block h f p old new ra None)
     | None \<Rightarrow>
         if old = [] then Err (InvalidParams ''old_text must not be empty'')
         else if \<not> sublist (crlf_norm old) (crlf_norm c) \<and>
           (trimmed_pattern old = [] \<or> \<not> sublist (trimmed_pattern old) (trimmed_pattern c))
         then Err (NotFound p (join [LF] (take 20 (str_lines c))))
         else if \<not> ra \<and> 1 < length (find_matches c old)
         then Err (Ambiguous (length (find_matches c old)) p
                (map (\<lambda>(start, _). count_lf (take start c) + 1) (find_matches c old)))
         else fst (edit_replace_block h f p old new True None))"
proof -
  have rd: "read_to_string f p = Ok c" using assms by (simp add: read_to_string_def)
  have nf: "find_matches c old = [] \<longleftrightarrow> \<not> sublist (crlf_norm old) (crlf_norm c) \<and>
      (trimmed_pattern old = [] \<or> \<not> sublist (trimmed_pattern old) (trimmed_pattern c))"
    if "old \<noteq> []"
    using that exact_spans_Nil_iff[of old c]
    by (auto simp: find_matches_eq trim_spans_eq norm_spans_def match_indices_Nil_iff)
  have lines: "those (map (\<lambda>(s, _). line_number c s) (find_matches c old)) =
      Some (map (\<lambda>(start, _). count_lf (take start c) + 1) (find_matches c old))" if "old \<noteq> []"
    using that assms(2,3) line_numbers_total[OF exact_spans_ok[of c old]] trim_lines_eq[of c old]
    by (simp add: find_matches_eq)
  show ?thesis
  proof (cases hash)
    case (Some expected)
    then show ?thesis using assms(4) by (simp add: edit_block_unfold[OF rd] check_content_hash_def)
  next
    case None
    show ?thesis
    proof (cases "old = []")
      case True
      then show ?thesis using None assms(4) by (simp add: edit_block_unfold[OF rd] check_content_hash_def)
    next
      case False
      then show ?thesis using None assms(4) lines[OF False] nf[OF False]
        by (auto simp: edit_block_unfold[OF rd] check_content_hash_def Let_def)
    qed
  qed
qed

theorem edit_block_errors_witness:
  "fst (edit_replace_block id (demo_fs (''ab'' @ [LF] @ ''ab'')) demo_path ''ab'' ''X'' False None)
   = Err (Ambiguous 2 demo_path [1, 2])"
  using edit_block_errors[of "demo_fs (''ab'' @ [LF] @ ''ab'')" demo_path "''ab'' @ [LF] @ ''ab''" "''ab''"
      id "''X''" False None]
  by (simp add: run_simps count_lf_def sublist_code)

section \<open>Overwrite\<close>

text \<open>
  Overwriting a file either succeeds, and then the file holds exactly the given bytes, every
  ancestor directory exists and no other file changes, or fails, and then no file changes at all;
  a directory is always refused.
\<close>

theorem overwrite_spec:
  assumes "edit_overwrite_content f p content = (res, f')"
  shows "case res of
      Ok out \<Rightarrow> \<not> fs_dir f p \<and> fs_file f' = (fs_file f)(p \<mapsto> content) \<and>
        ow_bytes_written out = length content \<and> butlast p \<noteq> p \<and>
        (\<forall>k. 0 < k \<and> butlast p \<noteq> [] \<longrightarrow> fs_dir f' (take k (butlast p)))
    | Err e \<Rightarrow> fs_file f' = fs_file f \<and> (fs_dir f p \<longrightarrow> e = NotAFile p \<and> f' = f)
    | Panic \<Rightarrow> False"
proof (cases "fs_dir f p")
  case True
  then show ?thesis using assms by (auto simp: edit_overwrite_content_def)
next
  case False
  show ?thesis
  proof (cases "path_parent p")
    case None
    then have "write_file_atomic f p content = (Err (Io IoInvalidInput), f)"
      by (simp add: write_file_atomic_def)
    then show ?thesis using assms False None by (auto simp: edit_overwrite_content_def Let_def)
  next
    case (Some parent)
    have par: "parent = butlast p" "p \<noteq> []" using Some by (auto simp: path_parent_def split: if_splits)
    then have "butlast p \<noteq> p" by (metis append_butlast_last_id append_self_conv not_Cons_self2)
    obtain made f1 where mk: "(if parent \<noteq> [] then create_dir_all f parent else (Ok (), f)) = (made, f1)"
      by fastforce
    have f1: "fs_file f1 = fs_file f"
      using mk create_dir_all_file[of f parent] by (cases "parent = []") auto
    have dirs: "parent \<noteq> [] \<Longrightarrow> made = Ok () \<Longrightarrow> fs_dir f1 (take k parent)" for k
      using mk by (auto simp: create_dir_all_def take_is_prefix split: if_splits)
    have np: "made \<noteq> Panic" using mk by (auto simp: create_dir_all_def split: if_splits)
    show ?thesis
    proof (cases made)
      case (Ok u)
      have "write_file_atomic f1 p content = (Ok (), f1\<lparr>fs_file := (fs_file f1)(p \<mapsto> content)\<rparr>) \<or>
         (\<exists>e. write_file_atomic f1 p content = (Err (Io e), f1))" by (rule write_file_atomic_cases)
      then show ?thesis
        using assms False Some mk Ok f1 par dirs \<open>butlast p \<noteq> p\<close>
        by (auto simp: edit_overwrite_content_def Let_def)
    qed (use assms False Some mk np f1 in \<open>auto simp: edit_overwrite_content_def Let_def\<close>)
  qed
qed

theorem overwrite_spec_witness:
  "fs_file (snd (edit_overwrite_content (demo_fs ''old'') demo_path ''new'')) = [demo_path \<mapsto> ''new'']"
proof -
  have "fst (edit_overwrite_content (demo_fs ''old'') demo_path ''new'')
      = Ok \<lparr>ow_path = demo_path, ow_bytes_written = 3\<rparr>" by code_simp
  then show ?thesis
    using overwrite_spec[of "demo_fs ''old''" demo_path "''new''"]
    by (cases "edit_overwrite_content (demo_fs ''old'') demo_path ''new''") (simp add: demo_fs_def)
qed

end
