(* ===== verification/EditBatch.thy ===== *)
theory EditBatch
  imports EditProps "HOL-Library.Multiset"
begin

text \<open>
  The batch: what each edit contributes, that the overlap check is what the splice needs, and the
  promises of \<open>edit_replace_batch\<close>.
\<close>

section \<open>Collecting\<close>

lemma count_lf_crlf_norm: "count_lf (crlf_norm s) = count_lf s"
  by (induction s rule: crlf_norm.induct) (auto simp: count_lf_def)

text \<open>The numbering of ambiguous matches is the same in the normalized and the original text.\<close>

lemma exact_lines_eq:
  assumes "utf8_valid c" "utf8_valid old" "old \<noteq> []"
  shows "those (map (line_number (crlf_norm c)) (match_indices (crlf_norm c) (crlf_norm old))) =
    Some (map (\<lambda>(s, _). count_lf (take s c) + 1) (exact_spans c old))"
proof -
  have "those (map (line_number (crlf_norm c)) os) =
      Some (map (\<lambda>(s, _). count_lf (take s c) + 1)
        (map (\<lambda>i. (orig_off c i, orig_off c (i + length (crlf_norm old)))) os))"
    if "set os \<subseteq> set (match_indices (crlf_norm c) (crlf_norm old))" for os
    using that
  proof (induction os)
    case (Cons i os)
    then have i: "i + length (crlf_norm old) \<le> length (crlf_norm c)"
      "take (length (crlf_norm old)) (drop i (crlf_norm c)) = crlf_norm old"
      using match_indices_sound by auto
    have b: "boundary (crlf_norm c) i"
      using utf8_cut[of "crlf_norm c" "crlf_norm old" i] i assms by (simp add: utf8_valid_crlf_norm)
    have "count_lf (take (orig_off c i) c) = count_lf (take i (crlf_norm c))"
      using orig_off_cut[of i c] i(1) count_lf_crlf_norm[of "take (orig_off c i) c"] by simp
    then show ?case using Cons b by (simp add: line_number_def str_slice_def)
  qed simp
  then show ?thesis by (simp add: exact_spans_eq)
qed

definition match_lines :: "string \<Rightarrow> string \<Rightarrow> nat list" where
  "match_lines c old = map (\<lambda>(s, _). count_lf (take s c) + 1) (find_matches c old)"

lemma collect_edit_eq:
  assumes "utf8_valid c" "utf8_valid (be_old_text e)"
  shows "collect_edit c i e = Some (
    let ms = find_matches c (be_old_text e) in
    if be_old_text e = [] then Inl (batch_fail i EmptyOldText NoDetail)
    else if ms = [] then Inl (batch_fail i OldTextNotFound NoDetail)
    else if length ms > 1 \<and> \<not> wants_all e
    then Inl (batch_fail i AmbiguousMatch (MatchLines (match_lines c (be_old_text e))))
    else Inr (map (\<lambda>(s, e1). (s, e1, i)) ms))"
proof (cases "be_old_text e = []")
  case False
  let ?o = "be_old_text e"
  have len: "length (exact_spans c ?o) = length (match_indices (crlf_norm c) (crlf_norm ?o))"
    by (simp add: exact_spans_eq)
  have nil: "exact_spans c ?o = [] \<longleftrightarrow> match_indices (crlf_norm c) (crlf_norm ?o) = []"
    by (simp add: exact_spans_eq)
  have tr: "find_trim_end_matches (crlf_norm c) (crlf_norm ?o) (build_crlf_positions c) = trim_spans c ?o"
    by (simp add: trim_spans_def normalize_for_match_eq)
  have ex: "map (\<lambda>norm_start. (norm_to_original_offset norm_start (build_crlf_positions c),
        norm_to_original_offset (norm_start + length (crlf_norm ?o)) (build_crlf_positions c), i))
      (match_indices (crlf_norm c) (crlf_norm ?o)) = map (\<lambda>(s, e1). (s, e1, i)) (exact_spans c ?o)"
    by (simp add: exact_spans_eq norm_to_original_offset_eq)
  show ?thesis
  proof (cases "exact_spans c ?o = []")
    case True
    then show ?thesis
      using False nil tr trim_lines_eq[OF assms]
      by (simp add: collect_edit_def Let_def normalize_for_match_eq find_matches_eq match_lines_def)
  next
    case f: False
    then show ?thesis
      using False nil len ex exact_lines_eq[OF assms False]
      by (simp add: collect_edit_def Let_def normalize_for_match_eq find_matches_eq match_lines_def)
  qed
qed (simp add: collect_edit_def Let_def normalize_for_match_eq)

definition edit_spans :: "string \<Rightarrow> nat \<Rightarrow> batch_edit list \<Rightarrow> (nat \<times> nat \<times> nat) list" where
  "edit_spans c k es =
     concat (map (\<lambda>(i, e). map (\<lambda>(s, e1). (s, e1, i)) (find_matches c (be_old_text e))) (enumerate k es))"

definition edit_ok :: "string \<Rightarrow> batch_edit \<Rightarrow> bool" where
  "edit_ok c e \<longleftrightarrow> be_old_text e \<noteq> [] \<and> find_matches c (be_old_text e) \<noteq> [] \<and>
     (wants_all e \<or> length (find_matches c (be_old_text e)) = 1)"

lemma collect_edits_total:
  "utf8_valid c \<Longrightarrow> \<forall>e\<in>set es. utf8_valid (be_old_text e) \<Longrightarrow> collect_edits c k es sp fl \<noteq> None"
proof (induction es arbitrary: k sp fl)
  case (Cons e es)
  then show ?case by (auto simp: collect_edit_eq split: option.split sum.split)
qed simp

lemma collect_edits_failures:
  "collect_edits c k es sp fl = Some (sp', fl') \<Longrightarrow> \<exists>more. fl' = fl @ more"
  by (induction c k es sp fl rule: collect_edits.induct) (force split: option.splits sum.splits)+

lemma collect_edits_ok:
  "utf8_valid c \<Longrightarrow> \<forall>e\<in>set es. utf8_valid (be_old_text e) \<Longrightarrow>
   collect_edits c k es sp fl = Some (sp', []) \<Longrightarrow>
   fl = [] \<and> sp' = sp @ edit_spans c k es \<and> (\<forall>e\<in>set es. edit_ok c e)"
proof (induction es arbitrary: k sp fl)
  case (Cons e es)
  show ?case
  proof (cases "collect_edit c k e")
    case (Some r)
    show ?thesis
    proof (cases r)
      case (Inl b)
      then show ?thesis using Cons.prems(3) Some collect_edits_failures by fastforce
    next
      case (Inr s)
      then have "collect_edits c (k + 1) es (sp @ s) fl = Some (sp', [])" using Cons.prems(3) Some by simp
      then have ih: "fl = []" "sp' = (sp @ s) @ edit_spans c (k + 1) es" "\<forall>e\<in>set es. edit_ok c e"
        using Cons.IH[of "k + 1" "sp @ s" fl] Cons.prems(1,2) by simp_all
      have "edit_ok c e \<and> s = map (\<lambda>(s, e1). (s, e1, k)) (find_matches c (be_old_text e))"
        using Some Inr collect_edit_eq[of c e k] Cons.prems(1,2)
        by (auto simp: Let_def edit_ok_def le_Suc_eq not_less split: if_splits)
      then show ?thesis using ih by (simp add: edit_spans_def)
    qed
  qed (use Cons.prems in simp)
qed (simp add: edit_spans_def)

lemma edit_spans_mem:
  "(s, e1, i) \<in> set (edit_spans c k es) \<longleftrightarrow>
   (k \<le> i \<and> i < k + length es \<and> (s, e1) \<in> set (find_matches c (be_old_text (es ! (i - k)))))"
  by (auto simp: edit_spans_def set_zip enumerate_eq_zip) (force intro: exI[of _ "i - k"])+

lemma edit_spans_count:
  "length (filter (\<lambda>x. snd (snd x) = i) (edit_spans c k es)) =
   (if k \<le> i \<and> i < k + length es then length (find_matches c (be_old_text (es ! (i - k)))) else 0)"
proof (induction es arbitrary: k)
  case (Cons e es)
  have 1: "length (filter (\<lambda>x. snd (snd x) = i) (map (\<lambda>(s, e1). (s, e1, k)) xs))
      = (if k = i then length xs else 0)" for xs :: "(nat \<times> nat) list"
    by (simp add: comp_def split_def)
  have "edit_spans c k (e # es)
      = map (\<lambda>(s, e1). (s, e1, k)) (find_matches c (be_old_text e)) @ edit_spans c (Suc k) es"
    by (simp add: edit_spans_def)
  then show ?case using Cons.IH[of "Suc k"] 1 by (auto simp: nth_Cons' simp del: filter_map)
qed (auto simp: edit_spans_def)

section \<open>Overlaps and the splice\<close>

abbreviation spans2 :: "(nat \<times> nat \<times> nat) list \<Rightarrow> (nat \<times> nat) list" where
  "spans2 xs \<equiv> map (\<lambda>(s, e, _). (s, e)) xs"

lemma overlap_free_spans:
  "\<forall>(s, e, i)\<in>set xs. boundary c s \<and> boundary c e \<and> s \<le> e \<Longrightarrow> boundary c a \<Longrightarrow>
   overlap_loop (Some a) xs = [] \<Longrightarrow> spans_ok c a (spans2 xs)"
proof (induction xs arbitrary: a)
  case (Cons x xs)
  obtain s e i where x: "x = (s, e, i)" by (cases x)
  have "a \<le> s" using Cons.prems(3) x by (auto split: if_splits)
  moreover have "s \<le> e" "boundary c e" "boundary c s" using Cons.prems(1) x by auto
  ultimately show ?case using Cons x by (auto simp: max_def split: if_splits)
qed simp

lemma overlap_free_spans0:
  assumes "\<forall>(s, e, i)\<in>set xs. boundary c s \<and> boundary c e \<and> s \<le> e" "overlap_loop None xs = []"
  shows "spans_ok c 0 (spans2 xs)"
proof -
  have "overlap_loop (Some 0) xs = overlap_loop None xs" by (cases xs) auto
  then show ?thesis using overlap_free_spans[OF assms(1), of 0] assms(2) by simp
qed

fun bump :: "nat list \<Rightarrow> nat list \<Rightarrow> nat list" where
  "bump counts [] = counts"
| "bump counts (i # is) = bump (counts[i := counts ! i + 1]) is"

lemma batch_splice_loop_eq:
  "spans_ok c a (spans2 xs) \<Longrightarrow> \<forall>(s, e, i)\<in>set xs. i < length edits \<Longrightarrow>
   batch_splice_loop c edits acc a counts xs =
     Some (acc @ weave (gaps_of c a (spans2 xs)) (map (\<lambda>(_, _, i). be_new_text (edits ! i)) xs),
           bump counts (map (\<lambda>(_, _, i). i) xs))"
proof (induction xs arbitrary: a acc counts)
  case (Cons x xs)
  obtain s e i where x: "x = (s, e, i)" by (cases x)
  then show ?case using Cons by (simp add: str_slice_def)
qed (auto simp: str_from_def str_slice_def dest: boundary_le)

lemma length_bump [simp]: "length (bump counts is) = length counts"
  by (induction counts "is" rule: bump.induct) auto

lemma bump_nth:
  "i < length counts \<Longrightarrow> bump counts is ! i = counts ! i + length (filter (\<lambda>j. j = i) is)"
  by (induction counts "is" rule: bump.induct) (auto simp: nth_list_update)

lemma bump_sum:
  "\<forall>i\<in>set is. i < length counts \<Longrightarrow> sum_list (bump counts is) = sum_list counts + length is"
proof (induction counts "is" rule: bump.induct)
  case (2 counts i "is")
  then show ?case
    using sum_list_update[of i counts "counts ! i + 1"] member_le_sum_list[of "counts ! i" counts] by simp
qed simp

lemma filter_sort_count:
  "length (filter P (sort xs)) = length (filter P xs)"
  by (metis mset_filter mset_sort size_mset)

section \<open>The batch operation\<close>

lemma find_matches_facts:
  assumes "utf8_valid c" "utf8_valid old" "old \<noteq> []" "(s, e) \<in> set (find_matches c old)"
  shows "boundary c s \<and> boundary c e \<and> s \<le> e"
  using assms trim_span_facts(1)[OF assms(1,2)] spans_ok_members[OF exact_spans_ok[OF assms(1-3)]]
  by (auto simp: find_matches_eq split: if_splits)

lemma batch_spans_ok:
  assumes "utf8_valid c" "\<forall>e\<in>set edits. utf8_valid (be_old_text e) \<and> edit_ok c e"
    "overlap_loop None (sort (edit_spans c 0 edits)) = []"
  shows "spans_ok c 0 (spans2 (sort (edit_spans c 0 edits)))"
proof (rule overlap_free_spans0[OF _ assms(3)], clarify)
  fix s e i
  assume "(s, e, i) \<in> set (sort (edit_spans c 0 edits))"
  then have "i < length edits" "(s, e) \<in> set (find_matches c (be_old_text (edits ! i)))"
    by (auto simp: edit_spans_mem)
  moreover from this have "edits ! i \<in> set edits" by simp
  ultimately show "boundary c s \<and> boundary c e \<and> s \<le> e"
    using find_matches_facts[OF assms(1)] assms(2) unfolding edit_ok_def by blast
qed

text \<open>The batch after collection, with the splice in its closed form.\<close>

definition batch_body where
  "batch_body h f p edits hash c collected failures =
     (if fs_dir f p then (Err (NotAFile p), f)
      else case check_content_hash h p hash c of
        Some e \<Rightarrow> (Err e, f)
      | None \<Rightarrow>
        let all_spans = sort collected; failures = failures @ overlap_loop None all_spans in
        if failures \<noteq> [] then (Err (BatchValidationFailed (sort_key bf_index failures)), f)
        else let result = weave (gaps_of c 0 (spans2 all_spans))
                 (map (\<lambda>(_, _, i). be_new_text (edits ! i)) all_spans);
               counts = bump (replicate (length edits) 0) (map (\<lambda>(_, _, i). i) all_spans);
               (written, f') = write_file_atomic f p result in
          (bind_outcome written
             (\<lambda>_. Ok \<lparr>er_path = p, er_bytes_before = length c, er_bytes_after = length result,
                      er_occurrences_replaced = sum_list counts, er_content_hash = Some (h result),
                      er_edits = Some (map (\<lambda>i. \<lparr>br_index = i, br_occurrences_replaced = counts ! i\<rparr>)
                        [0..<length edits])\<rparr>), f'))"

lemma batch_unfold:
  "read_to_string f p = Ok c \<Longrightarrow> \<forall>e\<in>set edits. utf8_valid (be_old_text e) \<Longrightarrow>
   \<exists>collected failures. collect_edits c 0 edits [] [] = Some (collected, failures) \<and>
   edit_replace_batch h f p edits hash = batch_body h f p edits hash c collected failures"
proof -
  assume rd: "read_to_string f p = Ok c" and ev: "\<forall>e\<in>set edits. utf8_valid (be_old_text e)"
  note c = read_to_string_Ok[OF rd]
  obtain collected failures where col: "collect_edits c 0 edits [] [] = Some (collected, failures)"
    using collect_edits_total[of c edits 0 "[]" "[]"] c ev by auto
  have sp: "batch_splice_loop c edits [] 0 (replicate (length edits) 0) (sort collected) =
      Some (weave (gaps_of c 0 (spans2 (sort collected)))
                 (map (\<lambda>(_, _, i). be_new_text (edits ! i)) (sort collected)),
            bump (replicate (length edits) 0) (map (\<lambda>(_, _, i). i) (sort collected)))"
    if "failures = []" "overlap_loop None (sort collected) = []"
  proof -
    have "collected = edit_spans c 0 edits" "\<forall>e\<in>set edits. edit_ok c e"
      using collect_edits_ok[of c edits 0 "[]" "[]" collected] c ev col that(1) by auto
    moreover from this have "spans_ok c 0 (spans2 (sort collected))"
      using batch_spans_ok[of c edits] c ev that(2) by simp
    moreover have "\<forall>(s, e, i)\<in>set (sort (edit_spans c 0 edits)). i < length edits"
      by (auto simp: edit_spans_mem)
    ultimately show ?thesis
      using batch_splice_loop_eq[of c 0 "sort collected" edits "[]"] by simp
  qed
  show ?thesis
    using col sp rd
    by (auto simp: edit_replace_batch_def batch_body_def Let_def split: option.split)
qed

lemma batch_Ok:
  assumes "edit_replace_batch h f p edits hash = (Ok out, f')" "\<forall>e\<in>set edits. utf8_valid (be_old_text e)"
  obtains c result where "fs_file f p = Some c" "utf8_valid c" "\<forall>e\<in>set edits. edit_ok c e"
    "spans_ok c 0 (spans2 (sort (edit_spans c 0 edits)))"
    "result = weave (gaps_of c 0 (spans2 (sort (edit_spans c 0 edits))))
                 (map (\<lambda>(_, _, i). be_new_text (edits ! i)) (sort (edit_spans c 0 edits)))"
    "f' = f\<lparr>fs_file := (fs_file f)(p \<mapsto> result)\<rparr>"
    "er_bytes_before out = length c" "er_bytes_after out = length result"
    "er_content_hash out = Some (h result)"
    "er_occurrences_replaced out = length (edit_spans c 0 edits)"
    "er_edits out = Some (map (\<lambda>i. \<lparr>br_index = i, br_occurrences_replaced =
        length (find_matches c (be_old_text (edits ! i)))\<rparr>) [0..<length edits])"
    "er_path out = p"
proof -
  obtain c where rd: "read_to_string f p = Ok c" and nd: "\<not> fs_dir f p"
    using assms(1) by (cases "read_to_string f p") (auto simp: edit_replace_batch_def split: if_splits)
  note c = read_to_string_Ok[OF rd]
  obtain collected failures where col: "collect_edits c 0 edits [] [] = Some (collected, failures)"
    and eq: "edit_replace_batch h f p edits hash = batch_body h f p edits hash c collected failures"
    using batch_unfold[OF rd assms(2), of h hash] by blast
  have fl: "failures = []" "overlap_loop None (sort collected) = []"
    using assms(1) nd unfolding eq batch_body_def by (auto simp: Let_def split: option.splits if_splits)
  have es: "collected = edit_spans c 0 edits" "\<forall>e\<in>set edits. edit_ok c e"
    using collect_edits_ok[of c edits 0 "[]" "[]" collected] c assms(2) col fl(1) by auto
  let ?xs = "sort (edit_spans c 0 edits)"
  let ?is = "map (\<lambda>(_, _, i). i) ?xs"
  define result where "result = weave (gaps_of c 0 (spans2 ?xs)) (map (\<lambda>(_, _, i). be_new_text (edits ! i)) ?xs)"
  have "spans_ok c 0 (spans2 ?xs)" using batch_spans_ok[of c edits] c assms(2) es fl(2) by simp
  moreover have idx: "\<forall>i\<in>set ?is. i < length (replicate (length edits) (0::nat))"
    by (auto simp: edit_spans_mem)
  moreover have "sum_list (bump (replicate (length edits) 0) ?is) = length (edit_spans c 0 edits)"
    using bump_sum[OF idx] by (simp add: sum_list_replicate)
  moreover have "bump (replicate (length edits) 0) ?is ! i = length (find_matches c (be_old_text (edits ! i)))"
    if "i < length edits" for i
  proof -
    have "length (filter (\<lambda>j. j = i) ?is) = length (filter (\<lambda>x. snd (snd x) = i) ?xs)"
      by (simp add: filter_map comp_def split_def)
    also have "\<dots> = length (find_matches c (be_old_text (edits ! i)))"
      using that unfolding filter_sort_count edit_spans_count by simp
    finally show ?thesis using that by (simp add: bump_nth)
  qed
  moreover have "f' = f\<lparr>fs_file := (fs_file f)(p \<mapsto> result)\<rparr> \<and>
      out = \<lparr>er_path = p, er_bytes_before = length c, er_bytes_after = length result,
                      er_occurrences_replaced = sum_list (bump (replicate (length edits) 0) ?is),
                      er_content_hash = Some (h result),
                      er_edits = Some (map (\<lambda>i. \<lparr>br_index = i, br_occurrences_replaced =
                        bump (replicate (length edits) 0) ?is ! i\<rparr>) [0..<length edits])\<rparr>"
    using assms(1) nd fl es(1) unfolding eq batch_body_def
    by (auto simp: Let_def bind_outcome_Ok_iff result_def[symmetric] split: option.splits prod.splits
        dest!: write_file_atomic_Ok)
  ultimately show ?thesis using that[of c result] c es by (simp add: result_def)
qed

text \<open>
  C2. A successful batch applies every edit to one snapshot: the old content is gaps and matches, each
  match belongs to one edit and agrees with its \<open>old_text\<close>, the new content has that edit's
  \<open>new_text\<close> in its place, every edit is applied at least once and exactly once without
  \<open>replace_all\<close>, and the counts and the hash reported are those of the result.
\<close>

theorem batch_success:
  assumes "edit_replace_batch h f p edits hash = (Ok out, f')" "\<forall>e\<in>set edits. utf8_valid (be_old_text e)"
  shows "\<exists>content gaps ms owners result.
    fs_file f p = Some content \<and> content = weave gaps ms \<and>
    result = weave gaps (map (\<lambda>i. be_new_text (edits ! i)) owners) \<and>
    f' = f\<lparr>fs_file := (fs_file f)(p \<mapsto> result)\<rparr> \<and> length owners = length ms \<and> length gaps = Suc (length ms) \<and>
    (\<forall>k<length ms. owners ! k < length edits \<and> text_matches (ms ! k) (be_old_text (edits ! (owners ! k)))) \<and>
    (\<forall>i<length edits. let n = length (filter (\<lambda>j. j = i) owners) in
       0 < n \<and> (wants_all (edits ! i) \<or> n = 1)) \<and>
    er_edits out = Some (map (\<lambda>i. \<lparr>br_index = i, br_occurrences_replaced =
      length (filter (\<lambda>j. j = i) owners)\<rparr>) [0..<length edits]) \<and>
    er_occurrences_replaced out = length ms \<and> er_bytes_after out = length result \<and>
    er_content_hash out = Some (h result)"
proof -
  obtain c result where r: "fs_file f p = Some c" "utf8_valid c" "\<forall>e\<in>set edits. edit_ok c e"
    "spans_ok c 0 (spans2 (sort (edit_spans c 0 edits)))"
    "result = weave (gaps_of c 0 (spans2 (sort (edit_spans c 0 edits))))
                 (map (\<lambda>(_, _, i). be_new_text (edits ! i)) (sort (edit_spans c 0 edits)))"
    "f' = f\<lparr>fs_file := (fs_file f)(p \<mapsto> result)\<rparr>"
    "er_bytes_before out = length c" "er_bytes_after out = length result"
    "er_content_hash out = Some (h result)"
    "er_occurrences_replaced out = length (edit_spans c 0 edits)"
    "er_edits out = Some (map (\<lambda>i. \<lparr>br_index = i, br_occurrences_replaced =
        length (find_matches c (be_old_text (edits ! i)))\<rparr>) [0..<length edits])"
    using assms by (rule batch_Ok)
  let ?xs = "sort (edit_spans c 0 edits)"
  let ?g = "gaps_of c 0 (spans2 ?xs)" and ?m = "cuts_of c (spans2 ?xs)" and ?o = "map (\<lambda>x. snd (snd x)) ?xs"
  have cnt: "length (filter (\<lambda>j. j = i) ?o) = length (find_matches c (be_old_text (edits ! i)))"
    if "i < length edits" for i
  proof -
    have "length (filter (\<lambda>j. j = i) ?o) = length (filter (\<lambda>x. snd (snd x) = i) ?xs)"
      by (simp add: filter_map comp_def)
    then show ?thesis using that unfolding filter_sort_count edit_spans_count by simp
  qed
  have each: "?o ! k < length edits \<and> text_matches (?m ! k) (be_old_text (edits ! (?o ! k)))"
    if k: "k < length ?m" for k
  proof -
    obtain s e i where x: "?xs ! k = (s, e, i)" by (cases "?xs ! k")
    have kl: "k < length ?xs" using k by (simp add: cuts_of_def)
    then have "(s, e, i) \<in> set (edit_spans c 0 edits)" using x by (metis nth_mem set_sort)
    then have i: "i < length edits" "(s, e) \<in> set (find_matches c (be_old_text (edits ! i)))"
      by (auto simp: edit_spans_mem)
    then have "take (e - s) (drop s c) \<in> set (cuts_of c (find_matches c (be_old_text (edits ! i))))"
      by (force simp: cuts_of_def)
    then have "text_matches (take (e - s) (drop s c)) (be_old_text (edits ! i))"
      using find_matches_cuts[OF r(2)] assms(2) i(1) by auto
    then show ?thesis using i(1) x kl by (simp add: cuts_of_def)
  qed
  have own: "map (\<lambda>(_, _, i). be_new_text (edits ! i)) ?xs = map (\<lambda>i. be_new_text (edits ! i)) ?o"
    by (simp add: split_def)
  have n: "0 < length (filter (\<lambda>j. j = i) ?o) \<and>
      (wants_all (edits ! i) \<or> length (filter (\<lambda>j. j = i) ?o) = 1)" if "i < length edits" for i
    using r(3) nth_mem[OF that] cnt[OF that] unfolding edit_ok_def by (metis length_greater_0_conv)
  have counts: "er_edits out = Some (map (\<lambda>i. \<lparr>br_index = i, br_occurrences_replaced =
      length (filter (\<lambda>j. j = i) ?o)\<rparr>) [0..<length edits])"
    unfolding r(11) using cnt by (intro arg_cong[of _ _ Some] map_cong) auto
  show ?thesis
    by (rule exI[of _ c], rule exI[of _ ?g], rule exI[of _ ?m], rule exI[of _ ?o], rule exI[of _ result])
      (use r(1,5,6,8,9,10) own each n counts weave_cuts[OF r(4)] in
        \<open>simp add: length_gaps cuts_of_def[of c "spans2 ?xs"] Let_def del: filter_map\<close>)
qed

definition demo_edits :: "batch_edit list" where
  "demo_edits = [\<lparr>be_old_text = ''b'', be_new_text = ''X'', be_replace_all = None\<rparr>,
     \<lparr>be_old_text = ''a'', be_new_text = ''YY'', be_replace_all = Some True\<rparr>]"

lemma demo_batch_run:
  "fst (edit_replace_batch id (demo_fs ''aba'') demo_path demo_edits None) =
     Ok \<lparr>er_path = demo_path, er_bytes_before = 3, er_bytes_after = 5, er_occurrences_replaced = 3,
         er_content_hash = Some ''YYXYY'',
         er_edits = Some [\<lparr>br_index = 0, br_occurrences_replaced = 1\<rparr>,
           \<lparr>br_index = 1, br_occurrences_replaced = 2\<rparr>]\<rparr>"
  by code_simp

theorem batch_success_witness:
  "\<exists>gaps ms owners. ''aba'' = weave gaps ms \<and> length owners = length ms \<and>
     (\<forall>i<2::nat. 0 < length (filter (\<lambda>j. j = i) owners)) \<and> length ms = 3"
proof -
  obtain out f' where run: "edit_replace_batch id (demo_fs ''aba'') demo_path demo_edits None = (Ok out, f')"
    and out: "er_occurrences_replaced out = 3"
    using demo_batch_run by (cases "edit_replace_batch id (demo_fs ''aba'') demo_path demo_edits None") auto
  have v: "\<forall>e\<in>set demo_edits. utf8_valid (be_old_text e)" by (simp add: demo_edits_def run_simps)
  obtain content gaps ms owners where "fs_file (demo_fs ''aba'') demo_path = Some content"
    "content = weave gaps ms" "length owners = length ms" "er_occurrences_replaced out = length ms"
    "\<forall>i<length demo_edits. let n = length (filter (\<lambda>j. j = i) owners) in
       0 < n \<and> (wants_all (demo_edits ! i) \<or> n = 1)"
    using batch_success[OF run v] by blast
  then have "''aba'' = weave gaps ms \<and> length owners = length ms \<and>
     (\<forall>i<2::nat. 0 < length (filter (\<lambda>j. j = i) owners)) \<and> length ms = 3"
    using out by (simp add: demo_fs_def demo_edits_def Let_def)
  then show ?thesis by blast
qed

text \<open>
  C4. A batch of edits with well-formed \<open>old_text\<close> never panics: overlapping spans, the trim-end
  ones included, are rejected before the splice, whatever the file and the failing system calls.
\<close>

theorem batch_no_panic:
  assumes "\<forall>e\<in>set edits. utf8_valid (be_old_text e)"
  shows "fst (edit_replace_batch h f p edits hash) \<noteq> Panic"
proof (cases "read_to_string f p")
  case (Ok c)
  have w: "write_file_atomic f p r \<noteq> (Panic, f')" for r f'
    using write_file_atomic_cases[of f p r] by auto
  obtain coll fl where eq: "edit_replace_batch h f p edits hash = batch_body h f p edits hash c coll fl"
    using batch_unfold[OF Ok assms, of h hash] by blast
  show ?thesis
    unfolding eq batch_body_def using w
    by (auto simp: Let_def bind_outcome_Panic_iff split: option.splits prod.splits)
qed (auto simp: edit_replace_batch_def)

theorem batch_no_panic_witness:
  "fst (edit_replace_batch id (demo_fs (''a'' @ [LF] @ ''x '' @ [LF] @ ''x '' @ [LF])) demo_path
     [\<lparr>be_old_text = [LF] @ ''x '' @ [TAB], be_new_text = ''Y'', be_replace_all = Some True\<rparr>] None) \<noteq> Panic"
  by (rule batch_no_panic) (simp add: run_simps)

lemma batch_no_effect:
  assumes "edit_replace_batch h f p edits hash = (res, f')" "\<forall>out. res \<noteq> Ok out"
  shows "f' = f"
proof -
  have w: "f2 = f" if "write_file_atomic f p r = (w, f2)" "\<forall>u. w \<noteq> Ok u" for r w f2
    using that write_file_atomic_cases[of f p r] by auto
  consider "fs_dir f p \<or> (\<forall>c. read_to_string f p \<noteq> Ok c)"
    | c where "\<not> fs_dir f p" "read_to_string f p = Ok c" "check_content_hash h p hash c \<noteq> None"
    | c where "\<not> fs_dir f p" "read_to_string f p = Ok c" "check_content_hash h p hash c = None"
    by blast
  then show ?thesis
  proof cases
    case 1
    then show ?thesis using assms(1)
      by (auto simp: edit_replace_batch_def split: if_splits outcome.splits)
  next
    case 2
    then show ?thesis using assms(1) by (auto simp: edit_replace_batch_def)
  next
    case (3 c)
    show ?thesis
    proof (cases "collect_edits c 0 edits [] []")
      case (Some r)
      obtain sp fl where r: "r = (sp, fl)" by (cases r)
      show ?thesis
      proof (cases "batch_splice_loop c edits [] 0 (replicate (length edits) 0) (sort sp)")
        case None
        then show ?thesis using 3 Some r assms(1) by (auto simp: edit_replace_batch_def Let_def split: if_splits)
      next
        case (Some q)
        obtain res counts where q: "q = (res, counts)" by (cases q)
        obtain wr f2 where wf: "write_file_atomic f p res = (wr, f2)" by (cases "write_file_atomic f p res")
        show ?thesis
          using 3 Some r q wf \<open>collect_edits c 0 edits [] [] = Some r\<close> assms w[OF wf]
          by (cases wr) (auto simp: edit_replace_batch_def Let_def split: if_splits)
      qed
    qed (use 3 assms(1) in \<open>simp add: edit_replace_batch_def\<close>)
  qed
qed

text \<open>
  A batch is all or nothing: with any invalid edit, a stale hash, or a failing write, the file
  system is left as it was.
\<close>

theorem batch_all_or_nothing:
  assumes "edit_replace_batch h f p edits hash = (res, f')" "\<forall>out. res \<noteq> Ok out"
  shows "f' = f"
  using assms by (rule batch_no_effect)

theorem batch_all_or_nothing_witness:
  "snd (edit_replace_batch id (demo_fs ''aba'') demo_path
     (demo_edits @ [\<lparr>be_old_text = ''ab'', be_new_text = ''Z'', be_replace_all = None\<rparr>]) None) = demo_fs ''aba''"
proof (rule batch_all_or_nothing)
  show "edit_replace_batch id (demo_fs ''aba'') demo_path
     (demo_edits @ [\<lparr>be_old_text = ''ab'', be_new_text = ''Z'', be_replace_all = None\<rparr>]) None
   = (Err (BatchValidationFailed [\<lparr>bf_index = 0, bf_class = OverlappingEdits, bf_detail = OverlapAt 1 2 2\<rparr>,
        \<lparr>bf_index = 2, bf_class = OverlappingEdits, bf_detail = OverlapAt 0 2 1\<rparr>]),
      snd (edit_replace_batch id (demo_fs ''aba'') demo_path
     (demo_edits @ [\<lparr>be_old_text = ''ab'', be_new_text = ''Z'', be_replace_all = None\<rparr>]) None))"
    by (rule prod_eqI) (code_simp, simp)
qed simp

end
