(* ===== verification/Validation.thy ===== *)
theory Validation
  imports Path
begin

text \<open>
  Path validation, \<open>crates/aptu-coder/src/validation.rs\<close>. The operating system is a value: how it
  canonicalizes a path (resolving symbolic links), which paths are directories, and the current
  directory.
\<close>

section \<open>Errors\<close>

datatype error_code = INVALID_PARAMS | INTERNAL_ERROR | INVALID_REQUEST | RESOURCE_NOT_FOUND

record error_data =
  ed_code :: error_code
  ed_message :: string
  ed_category :: string
  ed_retryable :: bool
  ed_action :: string

definition error_new :: "error_code \<Rightarrow> string \<Rightarrow> string \<Rightarrow> bool \<Rightarrow> string \<Rightarrow> error_data" where
  "error_new c m cat retry act =
     \<lparr>ed_code = c, ed_message = m, ed_category = cat, ed_retryable = retry, ed_action = act\<rparr>"

definition invalid :: "string \<Rightarrow> string \<Rightarrow> error_data" where
  "invalid m act = error_new INVALID_PARAMS m ''validation'' False act"

lemma error_new_sel [simp]:
  "ed_code (error_new c m cat r a) = c" "ed_message (error_new c m cat r a) = m"
  by (simp_all add: error_new_def)

text \<open>\<open>std::io::ErrorKind\<close> as far as the code looks at it.\<close>

datatype io_kind = KNotFound | KPermissionDenied | KOther

record os =
  os_canonicalize :: "path \<Rightarrow> io_kind + path"
  os_is_dir :: "path \<Rightarrow> bool"
  os_cwd :: "path option"

section \<open>The validators\<close>

definition quoted :: "string \<Rightarrow> string" where
  "quoted s = CHR 0x27 # s @ [CHR 0x27]"

definition io_error_to_path_error :: "io_kind \<Rightarrow> string \<Rightarrow> string \<Rightarrow> error_data" where
  "io_error_to_path_error k path_context suggested_action =
     invalid ((case k of
         KNotFound \<Rightarrow> ''path not found: ''
       | KPermissionDenied \<Rightarrow> ''permission denied: ''
       | KOther \<Rightarrow> ''path is invalid: '') @ path_context) suggested_action"

definition validate_parent_in_root :: "os \<Rightarrow> string \<Rightarrow> path \<Rightarrow> error_data + path" where
  "validate_parent_in_root w s root =
     (let p = parse_path s in
      case path_file_name p of
        None \<Rightarrow> Inl (invalid ''path must include a filename component''
                     (''provide a path with a filename, not ending in '' @ quoted ''..'' @ '' or '' @ quoted ''/''))
      | Some file_name \<Rightarrow>
        let parent = (case path_parent p of None \<Rightarrow> [] | Some q \<Rightarrow> q);
            parent_path = (if parent = [] \<or> parent = [CurDir] then root else path_join root parent) in
        case os_canonicalize w parent_path of
          Inl e \<Rightarrow> Inl (io_error_to_path_error e (path_display parent)
                         ''provide a valid parent directory within the working directory'')
        | Inr canonical_parent \<Rightarrow>
          if \<not> path_starts_with canonical_parent root
          then Inl (invalid ''path is outside the working directory''
                      ''provide a path within the working directory'')
          else if \<not> os_is_dir w canonical_parent
          then Inl (invalid ''parent path is not a directory''
                      ''provide a path whose parent is a directory'')
          else
            let resolved_path = path_join canonical_parent [Normal file_name] in
            if \<not> path_starts_with resolved_path root
            then Inl (invalid ''path is outside the working directory''
                        ''provide a path within the working directory'')
            else Inr resolved_path)"

definition validate_path :: "os \<Rightarrow> string \<Rightarrow> bool \<Rightarrow> error_data + path" where
  "validate_path w s require_exists =
     (case os_cwd w of
        None \<Rightarrow> Inl (invalid ''path is outside the working directory''
                     ''ensure the working directory is accessible'')
      | Some cwd \<Rightarrow>
        case os_canonicalize w cwd of
          Inl _ \<Rightarrow> Inl (invalid ''path is outside the working directory''
                     ''ensure the working directory is accessible'')
        | Inr allowed_root \<Rightarrow>
          case (if require_exists then
                  case os_canonicalize w (path_join cwd (parse_path s)) of
                    Inl k \<Rightarrow> Inl (invalid (case k of
                        KNotFound \<Rightarrow> ''path not found''
                      | KPermissionDenied \<Rightarrow> ''permission denied''
                      | KOther \<Rightarrow> ''path is outside the working directory'')
                        ''provide a valid path within the working directory'')
                  | Inr q \<Rightarrow> Inr q
                else validate_parent_in_root w s allowed_root) of
            Inl e \<Rightarrow> Inl e
          | Inr canonical_path \<Rightarrow>
            if \<not> path_starts_with canonical_path allowed_root
            then Inl (invalid ''path is outside the working directory''
                        ''provide a path within the current working directory'')
            else Inr canonical_path)"

definition canonical_cwd :: "os \<Rightarrow> error_data + path" where
  "canonical_cwd w =
     (case Option.bind (os_cwd w) (\<lambda>cwd. case os_canonicalize w cwd of Inl _ \<Rightarrow> None | Inr q \<Rightarrow> Some q) of
        None \<Rightarrow> Inl (invalid ''current working directory is inaccessible''
                     ''ensure the working directory is accessible'')
      | Some q \<Rightarrow> Inr q)"

definition validate_path_relative_to :: "os \<Rightarrow> string \<Rightarrow> bool \<Rightarrow> path \<Rightarrow> error_data + path" where
  "validate_path_relative_to w s require_exists working_dir =
     (case os_canonicalize w working_dir of
        Inl e \<Rightarrow> Inl (io_error_to_path_error e ''working_dir'' ''provide a valid working directory'')
      | Inr canonical_working_dir \<Rightarrow>
        if \<not> os_is_dir w canonical_working_dir
        then Inl (invalid ''working_dir must be a directory'' ''provide a valid directory path'')
        else if require_exists then
          case os_canonicalize w (path_join canonical_working_dir (parse_path s)) of
            Inl e \<Rightarrow> Inl (io_error_to_path_error e s ''provide a valid path within the working directory'')
          | Inr q \<Rightarrow> Inr q
        else
          case path_file_name (parse_path s) of
            None \<Rightarrow> Inl (invalid ''path must include a filename component''
                         (''provide a path with a filename, not ending in '' @ quoted ''..'' @ '' or '' @ quoted ''/''))
          | Some file_name \<Rightarrow>
            case os_canonicalize w (path_join canonical_working_dir
                (case path_parent (parse_path s) of None \<Rightarrow> [] | Some q \<Rightarrow> q)) of
              Inl e \<Rightarrow> Inl (io_error_to_path_error e s
                             ''provide a path with an existing parent directory'')
            | Inr canonical_parent \<Rightarrow>
              if \<not> os_is_dir w canonical_parent
              then Inl (invalid ''parent path exists but is not a directory''
                          ''provide a path whose parent is an existing directory, not a file'')
              else Inr (path_join canonical_parent [Normal file_name]))"

definition path_error_subtype :: "error_data \<Rightarrow> string" where
  "path_error_subtype e =
     (let msg = ed_message e in
      if prefix ''path not found'' msg then ''path_not_found''
      else if prefix ''permission denied'' msg then ''permission_denied''
      else if prefix ''path is outside the working directory'' msg then ''path_outside_working_dir''
      else if prefix ''path must include a filename component'' msg then ''path_missing_filename''
      else if prefix ''parent path is not a directory'' msg then ''parent_not_directory''
      else ''path_invalid'')"

section \<open>Containment\<close>

lemma path_join_name: "path_join q [Normal n] = q @ [Normal n]"
  by (simp add: path_join_def is_absolute_def)

lemma validate_parent_in_root_Inr:
  assumes "validate_parent_in_root w s root = Inr q"
  shows "\<exists>parent name. q = parent @ [Normal name] \<and> path_starts_with parent root \<and> os_is_dir w parent \<and>
    path_file_name (parse_path s) = Some name \<and>
    (\<exists>raw. os_canonicalize w raw = Inr parent)"
  using assms
  by (auto simp: validate_parent_in_root_def Let_def path_join_name
      split: option.splits sum.splits if_splits)

text \<open>
  C12. Containment. \<open>validate_path\<close> only returns paths inside the canonical current directory:
  the path of an existing file is its canonical form, and the path of a file to be created is one
  plain name below an existing canonical directory inside the root. With the documented form of a
  canonical path (absolute, no dots) the result cannot climb out of the root.
\<close>

theorem validate_path_contained:
  assumes "validate_path w s require_exists = Inr q"
    and canonical: "\<And>p q. os_canonicalize w p = Inr q \<Longrightarrow> ParentDir \<notin> set q \<and> CurDir \<notin> set q"
  shows "\<exists>cwd root. os_cwd w = Some cwd \<and> os_canonicalize w cwd = Inr root \<and> path_starts_with q root \<and>
    ParentDir \<notin> set q \<and> CurDir \<notin> set q \<and>
    (if require_exists then os_canonicalize w (path_join cwd (parse_path s)) = Inr q
     else \<exists>parent name. q = parent @ [Normal name] \<and> os_is_dir w parent \<and> path_starts_with parent root \<and>
       path_file_name (parse_path s) = Some name)"
proof -
  obtain cwd root where c: "os_cwd w = Some cwd" "os_canonicalize w cwd = Inr root" "path_starts_with q root"
    and q: "if require_exists then os_canonicalize w (path_join cwd (parse_path s)) = Inr q
      else validate_parent_in_root w s root = Inr q"
    using assms(1) by (auto simp: validate_path_def split: option.splits sum.splits if_splits)
  show ?thesis
  proof (cases require_exists)
    case True
    then show ?thesis using c q canonical by auto
  next
    case False
    then obtain parent name raw where "q = parent @ [Normal name]" "path_starts_with parent root"
      "os_is_dir w parent" "path_file_name (parse_path s) = Some name" "os_canonicalize w raw = Inr parent"
      using q validate_parent_in_root_Inr[of w s root q] by auto
    then show ?thesis using c False canonical[of raw parent] by auto
  qed
qed

text \<open>A small system for the instances: everything canonicalizes to itself under \<open>/w\<close>.\<close>

definition demo_os :: os where
  "demo_os = \<lparr>os_canonicalize = (\<lambda>p. if ParentDir \<in> set p \<or> CurDir \<in> set p \<or> Normal ''missing'' \<in> set p
       then Inl KNotFound else Inr p),
     os_is_dir = (\<lambda>p. p \<in> {[RootDir, Normal ''w''], [RootDir, Normal ''w'', Normal ''d''], [RootDir, Normal ''etc'']}),
     os_cwd = Some [RootDir, Normal ''w'']\<rparr>"

theorem validate_path_contained_witness:
  "validate_path demo_os ''d/new'' False = Inr [RootDir, Normal ''w'', Normal ''d'', Normal ''new''] \<and>
   path_starts_with [RootDir, Normal ''w'', Normal ''d'', Normal ''new''] [RootDir, Normal ''w''] \<and>
   (\<exists>e. validate_path demo_os ''/etc/x'' False = Inl e)"
proof -
  have run: "validate_path demo_os ''d/new'' False = Inr [RootDir, Normal ''w'', Normal ''d'', Normal ''new'']"
    by code_simp
  have out: "isl (validate_path demo_os ''/etc/x'' False)" by code_simp
  have can: "os_canonicalize demo_os p = Inr q \<Longrightarrow> ParentDir \<notin> set q \<and> CurDir \<notin> set q" for p q
    by (auto simp: demo_os_def split: if_splits)
  have "os_cwd demo_os = Some [RootDir, Normal ''w'']"
    "os_canonicalize demo_os [RootDir, Normal ''w''] = Inr [RootDir, Normal ''w'']"
    by (simp_all add: demo_os_def)
  then have "path_starts_with [RootDir, Normal ''w'', Normal ''d'', Normal ''new''] [RootDir, Normal ''w'']"
    using validate_path_contained[OF run can] by fastforce
  then show ?thesis using run out by (auto simp: isl_def)
qed

lemma subtype_simps:
  "path_error_subtype (invalid ''path not found'' a) = ''path_not_found''"
  "path_error_subtype (invalid ''permission denied'' a) = ''permission_denied''"
  "path_error_subtype (invalid ''path is outside the working directory'' a) = ''path_outside_working_dir''"
  "path_error_subtype (invalid ''path must include a filename component'' a) = ''path_missing_filename''"
  "path_error_subtype (invalid ''parent path is not a directory'' a) = ''parent_not_directory''"
  "path_error_subtype (invalid ''parent path exists but is not a directory'' a) = ''path_invalid''"
  by (simp_all add: path_error_subtype_def invalid_def error_new_def)

text \<open>
  The telemetry subtype of a refused existing path names its cause: an inaccessible root or a target
  outside it, a missing target, a denied target.
\<close>

theorem validate_path_subtype:
  assumes "validate_path w s True = Inl e"
  shows "path_error_subtype e =
    (case Option.bind (os_cwd w) (\<lambda>cwd. case os_canonicalize w cwd of Inl _ \<Rightarrow> None
         | Inr root \<Rightarrow> Some (os_canonicalize w (path_join cwd (parse_path s)))) of
       Some (Inl KNotFound) \<Rightarrow> ''path_not_found''
     | Some (Inl KPermissionDenied) \<Rightarrow> ''permission_denied''
     | _ \<Rightarrow> ''path_outside_working_dir'')"
proof (cases "os_cwd w")
  case None
  then have "e = invalid ''path is outside the working directory'' ''ensure the working directory is accessible''"
    using assms by (simp add: validate_path_def)
  then show ?thesis using None by (simp only: subtype_simps) simp
next
  case cwd: (Some cwd)
  show ?thesis
  proof (cases "os_canonicalize w cwd")
    case (Inl k)
    then have "e = invalid ''path is outside the working directory'' ''ensure the working directory is accessible''"
      using assms cwd by (simp add: validate_path_def)
    then show ?thesis using cwd Inl by (simp only: subtype_simps) simp
  next
    case root: (Inr root)
    let ?t = "os_canonicalize w (path_join cwd (parse_path s))"
    show ?thesis
    proof (cases ?t)
      case (Inl k)
      have "e = invalid (case k of KNotFound \<Rightarrow> ''path not found'' | KPermissionDenied \<Rightarrow> ''permission denied''
          | KOther \<Rightarrow> ''path is outside the working directory'')
          ''provide a valid path within the working directory''"
        using assms cwd root Inl by (simp add: validate_path_def)
      then show ?thesis using cwd root Inl by (cases k) (simp_all only: io_kind.case subtype_simps, simp_all)
    next
      case (Inr q)
      then have "e = invalid ''path is outside the working directory''
          ''provide a path within the current working directory''"
        using assms cwd root by (simp add: validate_path_def split: if_splits)
      then show ?thesis using cwd root Inr by (simp only: subtype_simps) simp
    qed
  qed
qed

theorem validate_path_subtype_witness:
  "\<exists>e. validate_path demo_os ''missing'' True = Inl e \<and> path_error_subtype e = ''path_not_found''"
proof -
  obtain e where e: "validate_path demo_os ''missing'' True = Inl e"
    by (cases "validate_path demo_os ''missing'' True")
      (simp_all add: validate_path_def demo_os_def parse_path_def comp_of_def path_join_def is_absolute_def)
  have "os_canonicalize demo_os (path_join [RootDir, Normal ''w''] (parse_path ''missing'')) = Inl KNotFound"
    by (simp add: demo_os_def parse_path_def comp_of_def path_join_def is_absolute_def)
  then show ?thesis using e validate_path_subtype[OF e] by (simp add: demo_os_def)
qed

text \<open>
  Resolution relative to a working directory has no containment check: an absolute path is resolved
  as it is, whatever the working directory, and a relative one against its canonical form.
\<close>

theorem relative_resolution:
  assumes "validate_path_relative_to w s True wd = Inr q"
  shows "\<exists>base. os_canonicalize w wd = Inr base \<and> os_is_dir w base \<and>
    os_canonicalize w (if is_absolute (parse_path s) then parse_path s else path_join base (parse_path s)) = Inr q"
proof -
  obtain base where base: "os_canonicalize w wd = Inr base" "os_is_dir w base"
    using assms by (cases "os_canonicalize w wd") (auto simp: validate_path_relative_to_def split: if_splits)
  then have "os_canonicalize w (path_join base (parse_path s)) = Inr q"
    using assms
    by (cases "os_canonicalize w (path_join base (parse_path s))") (auto simp: validate_path_relative_to_def)
  moreover have "is_absolute (parse_path s) \<Longrightarrow> path_join base (parse_path s) = parse_path s"
    by (simp add: path_join_def)
  ultimately show ?thesis using base by auto
qed

theorem relative_resolution_witness:
  "\<exists>base. os_canonicalize demo_os [RootDir, Normal ''w''] = Inr base \<and> os_is_dir demo_os base \<and>
    os_canonicalize demo_os (parse_path ''/etc/passwd'') = Inr [RootDir, Normal ''etc'', Normal ''passwd'']"
proof -
  have run: "validate_path_relative_to demo_os ''/etc/passwd'' True [RootDir, Normal ''w'']
      = Inr [RootDir, Normal ''etc'', Normal ''passwd'']" by code_simp
  have "is_absolute (parse_path ''/etc/passwd'')" by code_simp
  then show ?thesis using relative_resolution[OF run] by auto
qed

text \<open>
  A trailing slash is not refused for a file to be created: the file name of \<open>d/new/\<close> is \<open>new\<close>, and
  the path is accepted like \<open>d/new\<close>.
\<close>

theorem trailing_slash_accepted:
  "validate_path demo_os ''d/new/'' False = validate_path demo_os ''d/new'' False \<and>
   path_file_name (parse_path ''d/new/'') = Some ''new''"
  by code_simp

end
