(* ===== verification/EditTool.thy ===== *)
theory EditTool
  imports EditBatch Validation
begin

text \<open>
  The \<open>edit_replace\<close> handler, \<open>crates/aptu-coder/src/tools/edit_replace.rs\<close>: path resolution, the
  choice between the batch and the single form, the per-session stale-context circuit breaker, the
  translation of every \<open>EditError\<close> into a tool result, and the telemetry. The handler's shared state
  (failure counters, emitted metrics, cache invalidations) is threaded through.
\<close>

section \<open>State and results\<close>

record metric =
  m_tool :: string
  m_result :: string
  m_error_type :: "string option"
  m_error_subtype :: "string option"
  m_working_dir_used :: bool
  m_edit_count :: nat

type_synonym counters = "((string \<times> string) \<times> nat) list"

record tool_state =
  ts_fs :: fs
  ts_counts :: counters
  ts_metrics :: "metric list"
  ts_invalidated :: "path list"

datatype tool_result = ToolError error_data | ToolText string edit_replace_output

record edit_params =
  ep_path :: string
  ep_working_dir :: "string option"
  ep_old_text :: "string option"
  ep_new_text :: "string option"
  ep_replace_all :: "bool option"
  ep_expected_content_hash :: "string option"
  ep_edits :: "batch_edit list option"

section \<open>The circuit breaker\<close>

definition EDIT_STALE_THRESHOLD :: nat where "EDIT_STALE_THRESHOLD = 5"
definition EDIT_FAILURE_MAP_CAP :: nat where "EDIT_FAILURE_MAP_CAP = 1024"

definition u8_saturating_inc :: "nat \<Rightarrow> nat" where
  "u8_saturating_inc n = min 255 (n + 1)"

definition guard_increment :: "string \<Rightarrow> string \<Rightarrow> counters \<Rightarrow> bool \<times> counters" where
  "guard_increment sid canonical counts =
     (let counts = (if length counts \<ge> EDIT_FAILURE_MAP_CAP then [] else counts);
          entry = (case alookup (sid, canonical) counts of None \<Rightarrow> 0 | Some n \<Rightarrow> n);
          entry = u8_saturating_inc entry
      in (entry \<ge> EDIT_STALE_THRESHOLD, ainsert (sid, canonical) entry counts))"

definition guard_reset :: "string \<Rightarrow> string \<Rightarrow> counters \<Rightarrow> counters" where
  "guard_reset sid canonical counts = aremove (sid, canonical) counts"

section \<open>Messages\<close>

definition common_prefix_chars :: "string \<Rightarrow> string \<Rightarrow> nat" where
  "common_prefix_chars a b =
     length (takeWhile (\<lambda>(x, y). x = y) (zip (str_chars a) (str_chars b)))"

text \<open>The loop that keeps the first line with the longest common prefix: its index, text and length.\<close>

fun best_line_loop :: "string \<Rightarrow> nat \<Rightarrow> string list \<Rightarrow> nat \<times> string \<times> nat \<Rightarrow> nat \<times> string \<times> nat" where
  "best_line_loop old i [] best = best"
| "best_line_loop old i (l # ls) (idx, line, lcp) =
     (let k = common_prefix_chars l old in
      best_line_loop old (i + 1) ls (if k > lcp then (i, l, k) else (idx, line, lcp)))"

definition hint_window :: "nat \<Rightarrow> nat \<Rightarrow> nat \<times> nat" where
  "hint_window best_line_idx total_lines =
     (let start = best_line_idx - 1; end1 = min (start + 3) total_lines; start' = min (end1 - 3) start
      in (start', end1))"

definition first_or :: "string \<Rightarrow> string list \<Rightarrow> string" where
  "first_or d xs = (case xs of [] \<Rightarrow> d | x # _ \<Rightarrow> x)"

definition reread_advice :: string where
  "reread_advice = ''Re-read the file with analyze_file or analyze_module to obtain the current content, then derive old_text from the live file before retrying.''"

definition build_not_found_message :: "string \<Rightarrow> string \<Rightarrow> string" where
  "build_not_found_message first_20_lines old_text_for_hint =
     (if first_20_lines = [] then ''old_text not found (0 matches). '' @ reread_advice
      else
        let all_lines = str_lines first_20_lines; total_lines = length all_lines;
            first_old_line = first_or [] (str_lines old_text_for_hint);
            (best_line_idx, best_line, best_lcp) =
              best_line_loop first_old_line 0 all_lines (0, first_or [] all_lines, 0);
            (start, end1) = hint_window best_line_idx total_lines;
            shown = filter (\<lambda>(i, _). start + i \<noteq> best_line_idx)
              (enumerate 0 (take (end1 - start) (drop start all_lines)));
            numbered_lines = join [LF]
              (map (\<lambda>(i, line). ''  Line '' @ nat_str (start + i + 1) @ '': '' @ line) shown);
            best_line_num = best_line_idx + 1
        in ''old_text not found (0 matches). File has '' @ nat_str total_lines @ '' lines.'' @ [LF] @
           ''The file around line '' @ nat_str best_line_num @ '':'' @ [LF] @ numbered_lines @ [LF, LF] @
           ''Nearest match: line '' @ nat_str best_line_num @ '' contains '' @ [CHR 0x22] @ best_line @
           [CHR 0x22] @ '' which shares '' @ nat_str best_lcp @ '' characters with the start of old_text.''
           @ [LF] @ reread_advice)"

definition stale_context_error_msg :: "nat \<Rightarrow> string \<Rightarrow> string" where
  "stale_context_error_msg threshold param_path =
     ''EDIT_STALE_CONTEXT: '' @ nat_str threshold @ '' consecutive not_found/ambiguous failures on ''
     @ quoted param_path @ '' in this session. The file content has drifted from your context. Call analyze_file or analyze_module on this path first, then retry edit_replace with old_text taken verbatim from that response. Do not retry edit_replace on this path without re-reading first.''"

section \<open>The error translation\<close>

definition error_metric :: "string \<Rightarrow> string option \<Rightarrow> bool \<Rightarrow> nat \<Rightarrow> metric" where
  "error_metric etype subtype wd n =
     \<lparr>m_tool = ''edit_replace'', m_result = ''error'', m_error_type = Some etype,
      m_error_subtype = subtype, m_working_dir_used = wd, m_edit_count = n\<rparr>"

definition send :: "metric \<Rightarrow> tool_state \<Rightarrow> tool_state" where
  "send m s = s\<lparr>ts_metrics := ts_metrics s @ [m]\<rparr>"

definition stale_context_trip_result :: "string \<Rightarrow> bool \<Rightarrow> nat \<Rightarrow> tool_state \<Rightarrow> tool_result \<times> tool_state" where
  "stale_context_trip_result param_path wd n s =
     (ToolError (error_new INVALID_PARAMS (stale_context_error_msg EDIT_STALE_THRESHOLD param_path)
        ''validation'' False
        ''re-read the file with analyze_file or analyze_module, then retry with old_text from the live content''),
      send (error_metric ''invalid_params'' (Some ''stale_context'') wd n) s)"

definition csv :: "nat list \<Rightarrow> string" where
  "csv ns = join '', '' (map nat_str ns)"

definition failure_line :: "batch_failure \<Rightarrow> string" where
  "failure_line f = ''  edit '' @ nat_str (bf_index f) @ '': '' @ class_as_str (bf_class f)"

definition ambiguous_msg :: "nat \<Rightarrow> nat list \<Rightarrow> string" where
  "ambiguous_msg cnt lines =
     ''old_text matched '' @ nat_str cnt @ '' locations.'' @ [LF] @ ''Occurrences at lines: ''
     @ csv lines @ [LF] @ ''Extend old_text with more surrounding context to make it unique, or re-read with analyze_file to confirm the exact text.''"

definition stale_hash_msg :: "string \<Rightarrow> string \<Rightarrow> string" where
  "stale_hash_msg expected actual =
     ''Content hash mismatch: the file has changed since you last read it.'' @ [LF] @
     ''Expected hash: '' @ expected @ [LF] @ ''Actual hash:   '' @ actual"

definition batch_failed_msg :: "batch_failure list \<Rightarrow> string" where
  "batch_failed_msg failures =
     ''batch edits failed validation; the file was not modified:'' @ [LF] @
     join [LF] (map failure_line failures) @ [LF] @ ''Fix the failed edits and retry.''"

definition invalid_range_msg :: "nat \<Rightarrow> nat \<Rightarrow> nat \<Rightarrow> string" where
  "invalid_range_msg start end1 total_lines =
     ''invalid range: start ('' @ nat_str start @ '') > end ('' @ nat_str end1 @ ''); file has ''
     @ nat_str total_lines @ '' lines''"

text \<open>
  \<open>handle_edit_error\<close>: the result, the state with its metric and, for a missing or ambiguous
  \<open>old_text\<close>, the counter. \<open>sid\<close> is the guard's session, empty when the request has none.
\<close>

definition handle_edit_error ::
    "string \<Rightarrow> edit_error \<Rightarrow> string \<Rightarrow> string \<Rightarrow> bool \<Rightarrow> nat \<Rightarrow> tool_state \<Rightarrow> tool_result \<times> tool_state" where
  "handle_edit_error sid err param_path old_text_for_hint wd n s =
     (case err of
        NotFound p first_20_lines \<Rightarrow>
          let (tripped, counts) = guard_increment sid (path_display p) (ts_counts s);
              s = s\<lparr>ts_counts := counts\<rparr> in
          if tripped then stale_context_trip_result param_path wd n s
          else (ToolError (error_new INVALID_PARAMS (build_not_found_message first_20_lines old_text_for_hint)
                  ''validation'' False
                  ''re-read the file with analyze_file or analyze_module, then derive old_text from the live content''),
                send (error_metric ''invalid_params'' (Some ''not_found'') wd n) s)
      | Ambiguous cnt p lines \<Rightarrow>
          let (tripped, counts) = guard_increment sid (path_display p) (ts_counts s);
              s = s\<lparr>ts_counts := counts\<rparr> in
          if tripped then stale_context_trip_result param_path wd n s
          else (ToolError (error_new INVALID_PARAMS
                  (ambiguous_msg cnt lines)
                  ''validation'' False
                  ''extend old_text with more surrounding context, or re-read with analyze_file to confirm the exact text''),
                send (error_metric ''invalid_params'' (Some ''ambiguous'') wd n) s)
      | NotAFile _ \<Rightarrow>
          (ToolError (error_new INVALID_PARAMS ''path is a directory'' ''validation'' False
             ''provide a file path, not a directory''),
           send (error_metric ''invalid_params'' (Some ''path_not_a_file'') wd n) s)
      | InvalidParams msg \<Rightarrow>
          (ToolError (error_new INVALID_PARAMS msg ''validation'' False
             ''old_text must not be empty when replace_all is true''),
           send (error_metric ''invalid_params'' (Some ''invalid_edit_params'') wd n) s)
      | StaleContentHash expected actual p \<Rightarrow>
          (ToolError (error_new INVALID_PARAMS
             (stale_hash_msg expected actual)
             ''validation'' False
             ''re-read the file with analyze_file or analyze_module, then retry with the current content hash''),
           send (error_metric ''invalid_params'' (Some ''stale_content_hash'') wd n) s)
      | BatchValidationFailed failures \<Rightarrow>
          (ToolError (error_new INVALID_PARAMS
             (batch_failed_msg failures)
             ''validation'' True ''fix the failed edits and retry; the file was not modified''),
           send (error_metric ''invalid_params''
             (Some (case failures of [] \<Rightarrow> ''batch_validation_failed'' | fl # _ \<Rightarrow> class_as_str (bf_class fl)))
             wd n) s)
      | Io k \<Rightarrow>
          (ToolError (error_new INTERNAL_ERROR ''I/O error editing file; check file path and permissions''
             ''resource'' False ''check file path and permissions''),
           send (error_metric ''internal_error'' None wd n) s)
      | InvalidRange start end1 total_lines \<Rightarrow>
          (ToolError (error_new INTERNAL_ERROR
             (invalid_range_msg start end1 total_lines) ''resource'' False ''check file path and permissions''),
           send (error_metric ''internal_error'' None False n) s))"

section \<open>The handler\<close>

definition resolve_edit_path :: "os \<Rightarrow> string \<Rightarrow> string option \<Rightarrow> (error_data \<times> string) + path" where
  "resolve_edit_path w param working_dir =
     (case (case working_dir of
              Some wd \<Rightarrow> validate_path_relative_to w param True (parse_path wd)
            | None \<Rightarrow> (case canonical_cwd w of
                Inl e \<Rightarrow> Inl e
              | Inr cwd \<Rightarrow> validate_path_relative_to w param True cwd)) of
        Inr p \<Rightarrow> Inr p
      | Inl e \<Rightarrow> Inl (e, path_error_subtype e))"

definition or_default :: "'a list option \<Rightarrow> 'a list" where
  "or_default x = (case x of None \<Rightarrow> [] | Some s \<Rightarrow> s)"

definition form_error :: "edit_params \<Rightarrow> string option" where
  "form_error params =
     (if ep_edits params \<noteq> None \<and> ep_old_text params \<noteq> None
      then Some ''invalid params: provide either edits[] (batch) or old_text/new_text (single edit), not both''
      else if ep_edits params = None \<and> ep_old_text params = None
      then Some ''invalid params: provide either edits[] (batch) or old_text/new_text (single edit)''
      else if ep_edits params = Some []
      then Some ''invalid params: edits[] must not be empty when provided''
      else None)"

text \<open>The edit itself, run under the per-path lock: its result and the file system after it.\<close>

definition run_edit :: "(string \<Rightarrow> string) \<Rightarrow> edit_params \<Rightarrow> path \<Rightarrow> fs \<Rightarrow> edit_replace_output edit_result \<times> fs" where
  "run_edit blake3 params p f =
     (case ep_edits params of
        Some edits \<Rightarrow> edit_replace_batch blake3 f p edits (ep_expected_content_hash params)
      | None \<Rightarrow> edit_replace_block blake3 f p (or_default (ep_old_text params))
          (or_default (ep_new_text params)) (ep_replace_all params = Some True)
          (ep_expected_content_hash params))"

definition success_text :: "bool \<Rightarrow> edit_replace_output \<Rightarrow> string" where
  "success_text is_batch out =
     ''Edited '' @ path_display (er_path out) @ '': '' @ nat_str (er_bytes_before out) @ '' bytes -> ''
     @ nat_str (er_bytes_after out) @ '' bytes''
     @ (if is_batch then '' ('' @ nat_str (length (or_default (er_edits out))) @ '' batch edits applied)'' else [])"

fun counts_toward_batch_trip :: "edit_error \<Rightarrow> bool" where
  "counts_toward_batch_trip (BatchValidationFailed _) = True"
| "counts_toward_batch_trip (StaleContentHash _ _ _) = True"
| "counts_toward_batch_trip _ = False"

text \<open>
  The coordinator. A panic of the blocking task is caught by the runtime and becomes an internal
  error. \<open>sid_opt\<close> is the session of the request.
\<close>

definition edit_replace_tool ::
    "(string \<Rightarrow> string) \<Rightarrow> os \<Rightarrow> string option \<Rightarrow> edit_params \<Rightarrow> tool_state \<Rightarrow> tool_result \<times> tool_state" where
  "edit_replace_tool blake3 w sid_opt params s =
     (let param_path = ep_path params; wd = (ep_working_dir params \<noteq> None); sid = or_default sid_opt;
          n = (case ep_edits params of None \<Rightarrow> 1 | Some es \<Rightarrow> length es) in
      case resolve_edit_path w param_path (ep_working_dir params) of
        Inl (e, subtype) \<Rightarrow>
          (ToolError e, send (error_metric ''invalid_params'' (Some subtype) wd n) s)
      | Inr resolved \<Rightarrow>
        (case form_error params of
           Some msg \<Rightarrow> handle_edit_error sid (InvalidParams msg) param_path (or_default (ep_old_text params)) wd n s
         | None \<Rightarrow>
           let (res, f') = run_edit blake3 params resolved (ts_fs s); s = s\<lparr>ts_fs := f'\<rparr>;
               is_batch = (ep_edits params \<noteq> None) in
           (case res of
              Panic \<Rightarrow>
                (ToolError (error_new INTERNAL_ERROR ''task panicked'' ''resource'' False
                   ''check file path and permissions''),
                 send (error_metric ''internal_error'' None wd n) s)
            | Err err \<Rightarrow>
                if is_batch \<and> counts_toward_batch_trip err then
                  let (tripped, counts) = guard_increment sid (path_display resolved) (ts_counts s);
                      s = s\<lparr>ts_counts := counts\<rparr> in
                  if tripped then stale_context_trip_result param_path wd n s
                  else handle_edit_error sid err param_path (or_default (ep_old_text params)) wd n s
                else handle_edit_error sid err param_path (or_default (ep_old_text params)) wd n s
            | Ok out \<Rightarrow>
                (ToolText (success_text is_batch out) out,
                 send \<lparr>m_tool = ''edit_replace'', m_result = ''ok'', m_error_type = None,
                        m_error_subtype = None, m_working_dir_used = wd, m_edit_count = n\<rparr>
                   (s\<lparr>ts_invalidated := ts_invalidated s @ [parse_path param_path],
                      ts_counts := guard_reset sid (path_display (er_path out)) (ts_counts s)\<rparr>)))))"

section \<open>The breaker\<close>

definition counters_ok :: "counters \<Rightarrow> bool" where
  "counters_ok cs \<longleftrightarrow> distinct (map fst cs) \<and> length cs \<le> EDIT_FAILURE_MAP_CAP \<and>
     (\<forall>(k, n) \<in> set cs. 1 \<le> n \<and> n \<le> 255)"

lemma counters_ok_increment:
  assumes "counters_ok cs"
  shows "counters_ok (snd (guard_increment sid c cs))"
proof -
  let ?cs = "if length cs \<ge> EDIT_FAILURE_MAP_CAP then [] else cs"
  have d: "distinct (map fst ?cs)" "length ?cs < EDIT_FAILURE_MAP_CAP"
    using assms by (auto simp: counters_ok_def EDIT_FAILURE_MAP_CAP_def)
  have "length (ainsert k v ?cs) \<le> EDIT_FAILURE_MAP_CAP" for k and v :: nat
    using d length_aremove[OF d(1), of k] by (auto simp: ainsert_def)
  moreover have "distinct (map fst (ainsert k v ?cs))" for k and v :: nat
    by (rule distinct_ainsert[OF d(1)])
  moreover have "\<forall>(k, n) \<in> set (ainsert (sid, c) (u8_saturating_inc m) ?cs). 1 \<le> n \<and> n \<le> 255" for m
    using assms by (auto simp: counters_ok_def ainsert_def aremove_def u8_saturating_inc_def)
  ultimately show ?thesis unfolding guard_increment_def Let_def counters_ok_def snd_conv by blast
qed

lemma counters_ok_reset: "counters_ok cs \<Longrightarrow> counters_ok (guard_reset sid c cs)"
  unfolding counters_ok_def guard_reset_def
  using distinct_aremove[of cs "(sid, c)"]
  by (auto simp: aremove_def intro: order_trans[OF length_filter_le])

lemma guard_increment_room:
  "length cs < EDIT_FAILURE_MAP_CAP \<Longrightarrow>
   guard_increment sid c cs =
     (let n = min 255 (Suc (case alookup (sid, c) cs of None \<Rightarrow> 0 | Some n \<Rightarrow> n))
      in (5 \<le> n, ainsert (sid, c) n cs))"
  by (simp add: guard_increment_def u8_saturating_inc_def EDIT_STALE_THRESHOLD_def Let_def)

fun increments :: "nat \<Rightarrow> string \<Rightarrow> string \<Rightarrow> counters \<Rightarrow> bool \<times> counters" where
  "increments 0 sid c cs = (False, cs)"
| "increments (Suc k) sid c cs = guard_increment sid c (snd (increments k sid c cs))"



end
