(* ===== verification/EditToolProps.thy ===== *)
theory EditToolProps
  imports EditTool
begin

text \<open>
  Promises of the \<open>edit_replace\<close> handler: the counter invariant, one metric per call that agrees with
  the result, failures without effect, the opening of the breaker, and the not-found hint.
\<close>

section \<open>The handler\<close>

definition error_type_of :: "error_data \<Rightarrow> string" where
  "error_type_of e = (if ed_code e = INTERNAL_ERROR then ''internal_error'' else ''invalid_params'')"

text \<open>What every failing call does: one error metric of the result's type, and at most one increment.\<close>

definition counts_step :: "string \<Rightarrow> counters \<Rightarrow> counters \<Rightarrow> bool" where
  "counts_step sid cs cs' \<longleftrightarrow> cs' = cs \<or> (\<exists>c. cs' = snd (guard_increment sid c cs))"

definition error_effect :: "string \<Rightarrow> tool_state \<Rightarrow> tool_result \<Rightarrow> tool_state \<Rightarrow> bool" where
  "error_effect sid s r s' \<longleftrightarrow> (\<exists>e subtype wd n.
     r = ToolError e \<and> ts_metrics s' = ts_metrics s @ [error_metric (error_type_of e) subtype wd n] \<and>
     ts_fs s' = ts_fs s \<and> ts_invalidated s' = ts_invalidated s \<and> counts_step sid (ts_counts s) (ts_counts s'))"

lemma error_effect_send:
  assumes "ts_fs s2 = ts_fs s" "ts_invalidated s2 = ts_invalidated s" "ts_metrics s2 = ts_metrics s"
    "counts_step sid (ts_counts s) (ts_counts s2)" "t = error_type_of e"
  shows "error_effect sid s (ToolError e) (send (error_metric t subtype wd n) s2)"
  using assms unfolding error_effect_def send_def by auto

lemma error_type_simps [simp]:
  "error_type_of (error_new INVALID_PARAMS m c r a) = ''invalid_params''"
  "error_type_of (error_new INTERNAL_ERROR m c r a) = ''internal_error''"
  by (simp_all add: error_type_of_def)

lemma counts_step_simps [simp]:
  "counts_step sid cs cs" "counts_step sid cs (snd (guard_increment sid c cs))"
  by (auto simp: counts_step_def)

lemma counts_step_ok: "counts_step sid cs cs' \<Longrightarrow> counters_ok cs \<Longrightarrow> counters_ok cs'"
  by (auto simp: counts_step_def counters_ok_increment)

lemma trip_effect:
  "counts_step sid (ts_counts s) cs \<Longrightarrow>
   error_effect sid s (fst (stale_context_trip_result p wd n (s\<lparr>ts_counts := cs\<rparr>)))
     (snd (stale_context_trip_result p wd n (s\<lparr>ts_counts := cs\<rparr>)))"
  unfolding stale_context_trip_result_def fst_conv snd_conv by (rule error_effect_send) simp_all

lemma split_effect:
  "(\<And>tr cs. g = (tr, cs) \<Longrightarrow> P (F tr cs)) \<Longrightarrow> P (case g of (tr, cs) \<Rightarrow> F tr cs)"
  by (cases g) simp

text \<open>Everything the error translation does, whatever the error.\<close>

lemma handle_edit_error_effect:
  "error_effect sid s (fst (handle_edit_error sid err param hint wd n s))
     (snd (handle_edit_error sid err param hint wd n s))"
proof -
  have inc: "counts_step sid (ts_counts s) cs" if "guard_increment sid c (ts_counts s) = (tr, cs)" for c tr cs
    using counts_step_simps(2)[of sid "ts_counts s" c] that by simp
  show ?thesis
  proof (cases err)
    case (NotFound p ls)
    show ?thesis unfolding handle_edit_error_def NotFound edit_error.case Let_def
      by (rule split_effect[where P = "\<lambda>r. error_effect sid s (fst r) (snd r)"])
        (auto intro!: trip_effect error_effect_send dest: inc)
  next
    case (Ambiguous k p ls)
    show ?thesis unfolding handle_edit_error_def Ambiguous edit_error.case Let_def
      by (rule split_effect[where P = "\<lambda>r. error_effect sid s (fst r) (snd r)"])
        (auto intro!: trip_effect error_effect_send dest: inc)
  qed (unfold handle_edit_error_def edit_error.case Let_def fst_conv snd_conv,
      auto intro!: error_effect_send)
qed

lemma invalid_code: "ed_code (invalid m a) = INVALID_PARAMS" "ed_code (io_error_to_path_error k c a) = INVALID_PARAMS"
  by (simp_all add: io_error_to_path_error_def invalid_def error_new_def)

lemma relative_error_code:
  assumes "validate_path_relative_to w s b wd = Inl e"
  shows "ed_code e = INVALID_PARAMS"
proof (cases "os_canonicalize w wd")
  case (Inr base)
  show ?thesis
  proof (cases b)
    case True
    then show ?thesis using assms Inr
      by (cases "os_canonicalize w (path_join base (parse_path s))")
        (auto simp: validate_path_relative_to_def invalid_code split: if_splits)
  next
    case False
    show ?thesis
    proof (cases "path_file_name (parse_path s)")
      case (Some nm)
      then show ?thesis using assms Inr False
        by (cases "os_canonicalize w (path_join base (case path_parent (parse_path s) of None \<Rightarrow> [] | Some q \<Rightarrow> q))")
          (auto simp: validate_path_relative_to_def invalid_code split: if_splits)
    qed (use assms Inr False in \<open>auto simp: validate_path_relative_to_def invalid_code split: if_splits\<close>)
  qed
qed (use assms in \<open>auto simp: validate_path_relative_to_def invalid_code\<close>)

lemma resolve_error_code: "resolve_edit_path w param wd = Inl (e, st) \<Longrightarrow> ed_code e = INVALID_PARAMS"
  by (auto simp: resolve_edit_path_def canonical_cwd_def invalid_code
      split: option.splits sum.splits dest!: relative_error_code)

lemma run_edit_unchanged: "run_edit h ps p f = (res, f') \<Longrightarrow> \<forall>out. res \<noteq> Ok out \<Longrightarrow> f' = f"
proof (cases "ep_edits ps")
  case None
  then show "run_edit h ps p f = (res, f') \<Longrightarrow> \<forall>out. res \<noteq> Ok out \<Longrightarrow> f' = f"
    unfolding run_edit_def by (simp add: edit_block_no_effect)
next
  case (Some es)
  then show "run_edit h ps p f = (res, f') \<Longrightarrow> \<forall>out. res \<noteq> Ok out \<Longrightarrow> f' = f"
    unfolding run_edit_def by (simp add: batch_no_effect)
qed

text \<open>Every string of a request is a Rust string, so well-formed UTF-8.\<close>

definition params_ok :: "edit_params \<Rightarrow> bool" where
  "params_ok ps \<longleftrightarrow> utf8_valid (or_default (ep_old_text ps)) \<and>
     (\<forall>e\<in>set (or_default (ep_edits ps)). utf8_valid (be_old_text e))"

lemma run_edit_path:
  assumes "run_edit h ps p f = (Ok out, f')" "params_ok ps"
  shows "er_path out = p \<and> (\<exists>c. f' = f\<lparr>fs_file := (fs_file f)(p \<mapsto> c)\<rparr>)"
proof (cases "ep_edits ps")
  case None
  then have "edit_replace_block h f p (or_default (ep_old_text ps)) (or_default (ep_new_text ps))
      (ep_replace_all ps = Some True) (ep_expected_content_hash ps) = (Ok out, f')"
    using assms by (simp add: run_edit_def)
  then show ?thesis by (rule edit_block_Ok) auto
next
  case (Some es)
  then have "edit_replace_batch h f p es (ep_expected_content_hash ps) = (Ok out, f')"
    using assms by (simp add: run_edit_def)
  moreover have "\<forall>e\<in>set es. utf8_valid (be_old_text e)"
    using assms(2) Some by (simp add: params_ok_def or_default_def)
  ultimately show ?thesis by (rule batch_Ok) auto
qed

lemma handle_keeps_counts:
  "counts_toward_batch_trip err \<Longrightarrow> ts_counts (snd (handle_edit_error sid err param hint wd n s)) = ts_counts s"
  by (cases err) (simp_all add: handle_edit_error_def send_def)

definition ok_metric :: "bool \<Rightarrow> nat \<Rightarrow> metric" where
  "ok_metric wd n = \<lparr>m_tool = ''edit_replace'', m_result = ''ok'', m_error_type = None,
     m_error_subtype = None, m_working_dir_used = wd, m_edit_count = n\<rparr>"

text \<open>The two outcomes of a call: an error with an error's effect, or an applied edit.\<close>

definition success_effect :: "os \<Rightarrow> string \<Rightarrow> edit_params \<Rightarrow> tool_state \<Rightarrow> tool_result \<Rightarrow> tool_state \<Rightarrow> bool" where
  "success_effect w sid ps s r s' \<longleftrightarrow> (\<exists>txt out p c wd n.
     r = ToolText txt out \<and> resolve_edit_path w (ep_path ps) (ep_working_dir ps) = Inr p \<and>
     ts_fs s' = (ts_fs s)\<lparr>fs_file := (fs_file (ts_fs s))(p \<mapsto> c)\<rparr> \<and>
     ts_invalidated s' = ts_invalidated s @ [parse_path (ep_path ps)] \<and>
     ts_counts s' = guard_reset sid (path_display p) (ts_counts s) \<and>
     ts_metrics s' = ts_metrics s @ [ok_metric wd n])"

lemma same_fs: "s\<lparr>ts_fs := ts_fs s, ts_counts := cs\<rparr> = s\<lparr>ts_counts := cs\<rparr>" "s\<lparr>ts_fs := ts_fs s\<rparr> = s"
  by simp_all

lemma error_effect_counts:
  assumes "error_effect sid (s\<lparr>ts_counts := cs\<rparr>) r s'" "ts_counts s' = cs" "counts_step sid (ts_counts s) cs"
  shows "error_effect sid s r s'"
  using assms by (auto simp: error_effect_def)

lemma edit_replace_tool_effect:
  assumes "edit_replace_tool h w sid ps s = (r, s')" "params_ok ps"
  shows "error_effect (or_default sid) s r s' \<or> success_effect w (or_default sid) ps s r s'"
proof (cases "resolve_edit_path w (ep_path ps) (ep_working_dir ps)")
  case (Inl est)
  obtain e st where est: "est = (e, st)" by (cases est)
  have "error_type_of e = ''invalid_params''"
    using resolve_error_code[of w "ep_path ps"] Inl est by (simp add: error_type_of_def)
  then show ?thesis using assms(1) Inl est
    by (auto simp: edit_replace_tool_def Let_def intro!: disjI1 error_effect_send)
next
  case (Inr p)
  let ?wd = "ep_working_dir ps \<noteq> None" and ?n = "case ep_edits ps of None \<Rightarrow> 1 | Some es \<Rightarrow> length es"
  let ?hint = "or_default (ep_old_text ps)" and ?sid = "or_default sid"
  show ?thesis
  proof (cases "form_error ps")
    case (Some msg)
    then show ?thesis
      using assms(1) Inr handle_edit_error_effect[of ?sid s "InvalidParams msg" "ep_path ps" ?hint ?wd ?n]
      by (simp add: edit_replace_tool_def Let_def)
  next
    case None
    obtain res f' where run: "run_edit h ps p (ts_fs s) = (res, f')" by (cases "run_edit h ps p (ts_fs s)")
    show ?thesis
    proof (cases res)
      case Panic
      then have f: "f' = ts_fs s" using run_edit_unchanged[OF run] by simp
      show ?thesis using assms(1) Inr None run Panic f
        by (auto simp: edit_replace_tool_def Let_def intro!: disjI1 error_effect_send)
    next
      case (Ok out)
      then show ?thesis
        using assms(1) Inr None run run_edit_path[OF run[unfolded Ok] assms(2)]
        by (auto simp: edit_replace_tool_def Let_def success_effect_def send_def ok_metric_def)
    next
      case (Err err)
      then have f: "f' = ts_fs s" using run_edit_unchanged[OF run] by simp
      let ?h = "\<lambda>s. handle_edit_error ?sid err (ep_path ps) ?hint ?wd ?n s"
      show ?thesis
      proof (cases "ep_edits ps \<noteq> None \<and> counts_toward_batch_trip err")
        case True
        obtain tr cs where g: "guard_increment ?sid (path_display p) (ts_counts s) = (tr, cs)"
          by (cases "guard_increment ?sid (path_display p) (ts_counts s)")
        have st: "counts_step ?sid (ts_counts s) cs"
          using counts_step_simps(2)[of ?sid "ts_counts s" "path_display p"] g by simp
        have "(if tr then stale_context_trip_result (ep_path ps) ?wd ?n (s\<lparr>ts_counts := cs\<rparr>)
            else ?h (s\<lparr>ts_counts := cs\<rparr>)) = (r, s')"
          using assms(1) Inr None run Err f True g
          by (cases tr) (simp_all add: edit_replace_tool_def Let_def same_fs)
        moreover have "error_effect ?sid s (fst (?h (s\<lparr>ts_counts := cs\<rparr>))) (snd (?h (s\<lparr>ts_counts := cs\<rparr>)))"
          using handle_edit_error_effect[of ?sid "s\<lparr>ts_counts := cs\<rparr>" err "ep_path ps" ?hint ?wd ?n]
            handle_keeps_counts[OF conjunct2[OF True], of ?sid "ep_path ps" ?hint ?wd ?n "s\<lparr>ts_counts := cs\<rparr>"] st
          by (intro error_effect_counts[of ?sid cs s]) auto
        ultimately show ?thesis using trip_effect[OF st, of "ep_path ps" ?wd ?n]
          by (metis fst_conv snd_conv)
      next
        case False
        have "?h s = (r, s')"
          using assms(1) Inr None run Err f False
          by (cases "ep_edits ps") (simp_all add: edit_replace_tool_def Let_def same_fs)
        then show ?thesis using handle_edit_error_effect[of ?sid s err "ep_path ps" ?hint ?wd ?n]
          by (metis fst_conv snd_conv)
      qed
    qed
  qed
qed


text \<open>
  C8. A failing call changes no file and invalidates no cache entry; a successful one writes only the
  resolved path, and clears the session's failure count for that path. The counter map keeps its
  invariant: distinct keys, at most 1024 entries, counts that fit a byte.
\<close>

theorem handler_effects:
  assumes "edit_replace_tool h w sid ps s = (r, s')" "params_ok ps" "counters_ok (ts_counts s)"
  shows "counters_ok (ts_counts s') \<and>
    (case r of ToolError _ \<Rightarrow> ts_fs s' = ts_fs s \<and> ts_invalidated s' = ts_invalidated s
     | ToolText _ _ \<Rightarrow> \<exists>p c. resolve_edit_path w (ep_path ps) (ep_working_dir ps) = Inr p \<and>
         ts_fs s' = (ts_fs s)\<lparr>fs_file := (fs_file (ts_fs s))(p \<mapsto> c)\<rparr> \<and>
         alookup (or_default sid, path_display p) (ts_counts s') = None)"
  using edit_replace_tool_effect[OF assms(1,2)]
proof
  assume "error_effect (or_default sid) s r s'"
  then show ?thesis using counts_step_ok assms(3) by (auto simp: error_effect_def)
next
  assume "success_effect w (or_default sid) ps s r s'"
  then show ?thesis using assms(3)
    by (auto simp: success_effect_def counters_ok_reset) (auto simp: guard_reset_def)
qed

definition tool_start :: "string \<Rightarrow> counters \<Rightarrow> tool_state" where
  "tool_start c cs = \<lparr>ts_fs = (demo_fs c)\<lparr>fs_dir := (\<lambda>p. p \<in> {[RootDir, Normal ''d''], [RootDir, Normal ''w'']})\<rparr>,
     ts_counts = cs, ts_metrics = [], ts_invalidated = []\<rparr>"

definition demo_request :: "string \<Rightarrow> edit_params" where
  "demo_request old = \<lparr>ep_path = ''/d/f'', ep_working_dir = None, ep_old_text = Some old,
     ep_new_text = Some ''X'', ep_replace_all = None, ep_expected_content_hash = None, ep_edits = None\<rparr>"

lemma demo_request_ok: "params_ok (demo_request ''ab'')" "params_ok (demo_request ''q'')"
  by (simp_all add: params_ok_def demo_request_def or_default_def run_simps)


theorem handler_effects_witness:
  "let cs = [(([], ''/d/f''), 3)]; s' = snd (edit_replace_tool id demo_os None (demo_request ''ab'') (tool_start ''abc'' cs))
   in counters_ok (ts_counts s') \<and> alookup ([], ''/d/f'') (ts_counts s') = None"
proof -
  let ?s = "tool_start ''abc'' [(([], ''/d/f''), 3)]"
  obtain r s' where run: "edit_replace_tool id demo_os None (demo_request ''ab'') ?s = (r, s')"
    by (cases "edit_replace_tool id demo_os None (demo_request ''ab'') ?s")
  have "case fst (edit_replace_tool id demo_os None (demo_request ''ab'') ?s) of
      ToolError e \<Rightarrow> False | _ \<Rightarrow> True" by code_simp
  then obtain t out where r: "r = ToolText t out" using run by (cases r) auto
  have p: "resolve_edit_path demo_os ''/d/f'' None = Inr [RootDir, Normal ''d'', Normal ''f'']" by code_simp
  have "path_display [RootDir, Normal ''d'', Normal ''f''] = ''/d/f''" by code_simp
  moreover have "counters_ok (ts_counts ?s)" by (simp add: tool_start_def counters_ok_def EDIT_FAILURE_MAP_CAP_def)
  ultimately show ?thesis using handler_effects[OF run demo_request_ok(1)] r p run
    by (auto simp: demo_request_def or_default_def Let_def)
qed

lemma edit_block_error_path:
  assumes "fst (edit_replace_block h f p old new ra hash) = Err e" "e = NotFound q l \<or> e = Ambiguous k q ls"
  shows "q = p"
proof (cases "read_to_string f p")
  case (Ok c)
  have w: "write_file_atomic f p r = (Ok (), f\<lparr>fs_file := (fs_file f)(p \<mapsto> r)\<rparr>) \<or>
      (\<exists>e. write_file_atomic f p r = (Err (Io e), f))" for r by (rule write_file_atomic_cases)
  show ?thesis
  proof (cases "splice_all c new (find_matches c old)")
    case None
    then show ?thesis using assms unfolding edit_block_unfold[OF Ok]
      by (cases "those (map (\<lambda>(start, _). line_number c start) (find_matches c old))")
        (auto simp: Let_def check_content_hash_def split: if_splits option.splits)
  next
    case (Some r)
    then show ?thesis using assms w[of r] unfolding edit_block_unfold[OF Ok]
      by (cases "those (map (\<lambda>(start, _). line_number c start) (find_matches c old))")
        (auto simp: Let_def check_content_hash_def split: if_splits option.splits)
  qed
qed (use assms in \<open>auto simp: edit_replace_block_def edit_replace_block_inner_def split: if_splits\<close>)

text \<open>
  At the handler: a single edit that does not find its text, or finds it more than once, counts
  against the session and the resolved path, and the call is answered with the stale-context
  directive exactly when that makes five or more.
\<close>

theorem handler_trips:
  assumes "resolve_edit_path w (ep_path ps) (ep_working_dir ps) = Inr p" "form_error ps = None" "ep_edits ps = None"
    and "fst (run_edit h ps p (ts_fs s)) = Err e" "(\<exists>q l. e = NotFound q l) \<or> (\<exists>k q ls. e = Ambiguous k q ls)"
    and "length (ts_counts s) < EDIT_FAILURE_MAP_CAP"
    and "n = (case alookup (or_default sid, path_display p) (ts_counts s) of None \<Rightarrow> 0 | Some n \<Rightarrow> n)"
  shows "let s' = snd (edit_replace_tool h w sid ps s) in
    alookup (or_default sid, path_display p) (ts_counts s') = Some (min 255 (n + 1)) \<and>
    (m_error_subtype (last (ts_metrics s')) = Some ''stale_context'' \<longleftrightarrow> 5 \<le> n + 1)"
proof -
  obtain f' where run: "run_edit h ps p (ts_fs s) = (Err e, f')"
    using assms(4) by (cases "run_edit h ps p (ts_fs s)") auto
  have f: "f' = ts_fs s" using run_edit_unchanged[OF run] by simp
  have path: "q = p" if "e = NotFound q l \<or> e = Ambiguous k q ls" for q l k ls
    using edit_block_error_path[OF _ that] assms(3,4) by (simp add: run_edit_def)
  let ?wd = "ep_working_dir ps \<noteq> None" and ?hint = "or_default (ep_old_text ps)" and ?sid = "or_default sid"
  have tool: "edit_replace_tool h w sid ps s = handle_edit_error ?sid e (ep_path ps) ?hint ?wd 1 s"
    using assms(1-3) run f by (simp add: edit_replace_tool_def Let_def same_fs)
  have g: "guard_increment ?sid (path_display p) (ts_counts s)
      = (5 \<le> min 255 (Suc n), ainsert (?sid, path_display p) (min 255 (Suc n)) (ts_counts s))"
    using guard_increment_room[OF assms(6)] assms(7) by (simp add: Let_def)
  have sub: "''not_found'' \<noteq> ''stale_context''" "''ambiguous'' \<noteq> ''stale_context''" by simp_all
  show ?thesis
    using assms(5)
  proof (elim disjE exE)
    fix q l
    assume "e = NotFound q l"
    then have e: "e = NotFound p l" using path by blast
    show ?thesis unfolding tool handle_edit_error_def e edit_error.case g Let_def prod.case
        stale_context_trip_result_def
      by (simp add: send_def error_metric_def)
  next
    fix k q ls
    assume "e = Ambiguous k q ls"
    then have e: "e = Ambiguous k p ls" using path by blast
    show ?thesis unfolding tool handle_edit_error_def e edit_error.case g Let_def prod.case
        stale_context_trip_result_def
      by (simp add: send_def error_metric_def)
  qed
qed

theorem handler_trips_witness:
  "m_error_subtype (last (ts_metrics (snd (edit_replace_tool id demo_os (Some ''s'') (demo_request ''q'')
     (tool_start ''ab'' [((''s'', ''/d/f''), 4)]))))) = Some ''stale_context''"
proof -
  let ?s = "tool_start ''ab'' [((''s'', ''/d/f''), 4)]" and ?p = "[RootDir, Normal ''d'', Normal ''f'']"
  have 1: "resolve_edit_path demo_os (ep_path (demo_request ''q'')) (ep_working_dir (demo_request ''q'')) = Inr ?p"
    by code_simp
  have 2: "form_error (demo_request ''q'') = None" "ep_edits (demo_request ''q'') = None" by code_simp+
  have 3: "fst (run_edit id (demo_request ''q'') ?p (ts_fs ?s)) = Err (NotFound ?p ''ab'')" by code_simp
  have 4: "length (ts_counts ?s) < EDIT_FAILURE_MAP_CAP" by code_simp
  have 5: "4 = (case alookup (or_default (Some ''s''), path_display ?p) (ts_counts ?s) of None \<Rightarrow> 0 | Some n \<Rightarrow> n)"
    by code_simp
  show ?thesis using handler_trips[OF 1 2 3 _ 4 5] by (simp add: Let_def)
qed

section \<open>The not-found hint\<close>

lemma best_line_loop_spec:
  assumes "best_line_loop old j ls (i0, l0, k0) = (i, l, k)"
  shows "k0 \<le> k \<and> (\<forall>x\<in>set ls. common_prefix_chars x old \<le> k) \<and>
    ((i = i0 \<and> l = l0 \<and> k = k0) \<or>
     (j \<le> i \<and> i < j + length ls \<and> l = ls ! (i - j) \<and> k = common_prefix_chars l old \<and> k0 < k))"
  using assms
proof (induction ls arbitrary: j i0 l0 k0)
  case (Cons x xs)
  let ?c = "common_prefix_chars x old"
  show ?case
  proof (cases "k0 < ?c")
    case True
    then have "best_line_loop old (j + 1) xs (j, x, ?c) = (i, l, k)" using Cons.prems by (simp add: Let_def)
    from Cons.IH[OF this] show ?thesis using True by (auto simp: nth_Cons')
  next
    case False
    then have "best_line_loop old (j + 1) xs (i0, l0, k0) = (i, l, k)" using Cons.prems by (simp add: Let_def)
    from Cons.IH[OF this] show ?thesis using False by (auto simp: nth_Cons')
  qed
qed simp

text \<open>
  The hint shows a line of the file with the longest common prefix with the first line of
  \<open>old_text\<close>, and a window of three lines (or all, when there are fewer) that lies in the file and
  contains it: the slice that cuts the window never panics.
\<close>

theorem hint_nearest_line:
  assumes "lines \<noteq> []"
  shows "let (i, l, k) = best_line_loop old 0 lines (0, first_or [] lines, 0);
             (a, b) = hint_window i (length lines) in
    i < length lines \<and> l = lines ! i \<and> (\<forall>x\<in>set lines. common_prefix_chars x old \<le> k) \<and>
    (0 < k \<longrightarrow> k = common_prefix_chars l old) \<and>
    a \<le> i \<and> i < b \<and> b \<le> length lines \<and> b - a = min 3 (length lines)"
proof -
  obtain i l k where r: "best_line_loop old 0 lines (0, first_or [] lines, 0) = (i, l, k)"
    by (cases "best_line_loop old 0 lines (0, first_or [] lines, 0)") auto
  have len: "0 < length lines" using assms by simp
  have f: "first_or [] lines = lines ! 0" using assms by (cases lines) (auto simp: first_or_def)
  have i: "i < length lines" "l = lines ! i" "\<forall>x\<in>set lines. common_prefix_chars x old \<le> k"
    "0 < k \<longrightarrow> k = common_prefix_chars l old"
    using best_line_loop_spec[OF r] len f by auto
  then show ?thesis using r by (auto simp: hint_window_def Let_def min_def)
qed

theorem hint_nearest_line_witness:
  "best_line_loop ''fn bar()'' 0 [''use a;'', ''fn baz()'', ''}''] (0, ''use a;'', 0) = (1, ''fn baz()'', 5) \<and>
   hint_window 1 3 = (0, 3) \<and> common_prefix_chars ''}'' ''fn bar()'' \<le> 5"
proof -
  have run: "best_line_loop ''fn bar()'' 0 [''use a;'', ''fn baz()'', ''}''] (0, ''use a;'', 0) = (1, ''fn baz()'', 5)"
    "hint_window 1 3 = (0, 3)"
    by code_simp+
  have f: "first_or [] [''use a;'', ''fn baz()'', ''}''] = ''use a;''" by (simp add: first_or_def)
  have "[''use a;'', ''fn baz()'', ''}''] \<noteq> []" by simp
  from hint_nearest_line[OF this, of "''fn bar()''"]
  have "\<forall>x\<in>set [''use a;'', ''fn baz()'', ''}'']. common_prefix_chars x ''fn bar()'' \<le> 5"
    unfolding f run Let_def prod.case by (auto split: prod.splits)
  then show ?thesis using run by simp
qed

text \<open>
  The hint counts only the lines it was given, which the editor cuts at twenty: for a file of 25
  lines the message says the file has 20.
\<close>

theorem hint_says_twenty_lines:
  "let content = concat (replicate 25 [CHR ''x'', LF]) in
   length (str_lines content) = 25 \<and>
   prefix ''old_text not found (0 matches). File has 20 lines.''
     (build_not_found_message (join [LF] (take 20 (str_lines content))) ''q'')"
  by code_simp

text \<open>
  After a successful edit with a working directory the cache is told to forget the path as the
  request spelled it, not the path that was written.
\<close>

theorem invalidates_unresolved_path:
  "let ps = (demo_request ''ab'')\<lparr>ep_path := ''f'', ep_working_dir := Some ''/d''\<rparr>;
       os' = demo_os\<lparr>os_is_dir := (\<lambda>p. p = [RootDir, Normal ''d''])\<rparr>;
       s' = snd (edit_replace_tool id os' None ps (tool_start ''abc'' []))
   in fs_file (ts_fs s') [RootDir, Normal ''d'', Normal ''f''] = Some ''Xc'' \<and>
      ts_invalidated s' = [[Normal ''f'']]"
  by code_simp

end
