(* ===== verification/PathOrder.thy ===== *)
theory PathOrder
  imports Path "HOL-Library.List_Lexorder" "HOL-Library.Char_ord" "HOL-Library.Product_Lexorder"
begin

text \<open>
  The order of paths: \<open>Ord\<close> for \<open>std::path::Component\<close> (root, current, parent, then names bytewise), and
  with it the lexicographic order of component lists that \<open>Path\<close> has; stable sorting by path.
\<close>

fun comp_rank :: "comp \<Rightarrow> nat \<times> string" where
  "comp_rank RootDir = (0, [])"
| "comp_rank CurDir = (1, [])"
| "comp_rank ParentDir = (2, [])"
| "comp_rank (Normal s) = (3, s)"

lemma comp_rank_inject: "comp_rank a = comp_rank b \<longleftrightarrow> a = b"
  by (cases a; cases b) auto

instantiation comp :: linorder
begin

definition less_eq_comp :: "comp \<Rightarrow> comp \<Rightarrow> bool" where
  "less_eq_comp a b \<longleftrightarrow> comp_rank a \<le> comp_rank b"

definition less_comp :: "comp \<Rightarrow> comp \<Rightarrow> bool" where
  "less_comp a b \<longleftrightarrow> comp_rank a < comp_rank b"

instance
proof
  fix x y z :: comp
  show "x < y \<longleftrightarrow> x \<le> y \<and> \<not> y \<le> x" by (auto simp: less_eq_comp_def less_comp_def)
  show "x \<le> x" by (simp add: less_eq_comp_def)
  show "x \<le> y \<Longrightarrow> y \<le> z \<Longrightarrow> x \<le> z" by (auto simp: less_eq_comp_def intro: order_trans)
  show "x \<le> y \<Longrightarrow> y \<le> x \<Longrightarrow> x = y" by (simp add: less_eq_comp_def comp_rank_inject)
  show "x \<le> y \<or> y \<le> x" by (auto simp: less_eq_comp_def)
qed

end

lemma path_append_le: "p @ xs \<le> p @ ys \<longleftrightarrow> xs \<le> (ys :: path)"
  by (induction p) auto

text \<open>\<open>sort\<close> then \<open>dedup\<close>.\<close>

lemma distinct_dedup: "sorted xs \<Longrightarrow> distinct (remdups_adj xs)"
  by (induction xs rule: remdups_adj.induct) (auto simp: order_antisym)

lemma dedup_sorted: "remdups_adj (sort xs) = sorted_list_of_set (set (xs::'a::linorder list))"
  by (rule sorted_distinct_set_unique) (simp_all add: distinct_dedup sorted_remdups_adj)

end
