(* ===== verification/Types.thy ===== *)
theory Types
  imports PathOrder
begin

text \<open>
  The analysis results the graphs, formatters and lookups work on, from
  \<open>crates/aptu-coder-core/src/types.rs\<close> and \<open>analyze.rs\<close>, and hash maps from names to lists as
  association lists. Strings are ordered bytewise, as Rust's \<open>Ord\<close> for \<open>String\<close>.
\<close>

section \<open>Analysis results\<close>

record function_info =
  fi_name :: string
  fi_line :: nat
  fi_end_line :: nat
  fi_parameters :: "string list"
  fi_return_type :: "string option"

record class_info =
  ci_name :: string
  ci_line :: nat
  ci_end_line :: nat
  ci_methods :: "function_info list"
  ci_fields :: "string list"
  ci_inherits :: "string list"

record call_info =
  ca_caller :: string
  ca_callee :: string
  ca_line :: nat
  ca_column :: nat
  ca_arg_count :: "nat option"

datatype reference_type = RefDefinition | RefUsage | RefImport | RefExport

record reference_info =
  ri_symbol :: string
  ri_type :: reference_type
  ri_location :: string
  ri_line :: nat

record import_info =
  im_module :: string
  im_items :: "string list"
  im_line :: nat

record impl_trait_info =
  it_trait_name :: string
  it_impl_type :: string
  it_path :: path
  it_line :: nat

datatype def_use_kind = DuWrite | DuRead | DuWriteRead

record def_use_site =
  du_kind :: def_use_kind
  du_symbol :: string
  du_file :: string
  du_line :: nat
  du_column :: nat
  du_snippet :: string
  du_scope :: "string option"

record semantic_analysis =
  sa_functions :: "function_info list"
  sa_classes :: "class_info list"
  sa_imports :: "import_info list"
  sa_references :: "reference_info list"
  sa_call_frequency :: "(string \<times> nat) list"
  sa_calls :: "call_info list"
  sa_impl_traits :: "impl_trait_info list"
  sa_def_use_sites :: "def_use_site list"

record file_analysis_output =
  fa_formatted :: string
  fa_path :: string
  fa_semantic :: semantic_analysis
  fa_line_count :: nat
  fa_next_cursor :: "string option"
  fa_unsupported :: "bool option"

datatype symbol_match_mode = Exact | Insensitive | PrefixMode | ContainsMode

section \<open>Multimaps\<close>

text \<open>\<open>map.entry(k).or_default().push(x)\<close> and the lookup that defaults to the empty list.\<close>

definition lookups :: "'k \<Rightarrow> ('k \<times> 'v list) list \<Rightarrow> 'v list" where
  "lookups k m = (case alookup k m of None \<Rightarrow> [] | Some xs \<Rightarrow> xs)"

definition apush :: "'k \<Rightarrow> 'v \<Rightarrow> ('k \<times> 'v list) list \<Rightarrow> ('k \<times> 'v list) list" where
  "apush k x m = ainsert k (lookups k m @ [x]) m"

definition akeys :: "('k \<times> 'v) list \<Rightarrow> 'k set" where
  "akeys m = fst ` set m"

definition apush_all :: "('k \<times> 'v) list \<Rightarrow> ('k \<times> 'v list) list \<Rightarrow> ('k \<times> 'v list) list" where
  "apush_all kvs m = fold (\<lambda>(k, v). apush k v) kvs m"

lemma lookups_Nil [simp]: "lookups k [] = []"
  by (simp add: lookups_def)

lemma lookups_apush [simp]: "lookups k' (apush k x m) = lookups k' m @ (if k' = k then [x] else [])"
  by (auto simp: apush_def lookups_def)

lemma lookups_apush_all: "lookups k (apush_all kvs m) = lookups k m @ map snd (filter (\<lambda>(k', _). k' = k) kvs)"
  by (induction kvs arbitrary: m) (auto simp: apush_all_def)

lemma akeys_iff: "k \<in> akeys m \<longleftrightarrow> alookup k m \<noteq> None"
  by (simp add: akeys_def alookup_None_iff)

lemma akeys_apush [simp]: "akeys (apush k x m) = insert k (akeys m)"
  by (auto simp: akeys_def apush_def ainsert_def fst_aremove)

lemma akeys_Nil [simp]: "akeys [] = {}"
  by (simp add: akeys_def)

lemma akeys_apush_all: "akeys (apush_all kvs m) = akeys m \<union> fst ` set kvs"
  by (induction kvs arbitrary: m) (auto simp: apush_all_def)

lemma distinct_apush: "distinct (map fst m) \<Longrightarrow> distinct (map fst (apush k x m))"
  by (simp add: apush_def distinct_ainsert)

lemma distinct_apush_all: "distinct (map fst m) \<Longrightarrow> distinct (map fst (apush_all kvs m))"
  by (induction kvs arbitrary: m) (auto simp: apush_all_def distinct_apush)

lemma apush_all_append: "apush_all (xs @ ys) m = apush_all ys (apush_all xs m)"
  by (simp add: apush_all_def)

lemma alookup_lookups: "alookup k m = Some xs \<Longrightarrow> lookups k m = xs"
  by (simp add: lookups_def)

lemma mem_alist_lookups: "distinct (map fst m) \<Longrightarrow> (k, xs) \<in> set m \<longleftrightarrow> alookup k m = Some xs"
  by (induction m) (auto split: if_splits intro: rev_image_eqI)

lemma lookups_fold_apush:
  "lookups k (fold (\<lambda>x. apush (f x) (g x)) xs m) = lookups k m @ map g (filter (\<lambda>x. f x = k) xs)"
  by (induction xs arbitrary: m) auto

lemma akeys_fold_apush: "akeys (fold (\<lambda>x. apush (f x) (g x)) xs m) = akeys m \<union> f ` set xs"
  by (induction xs arbitrary: m) auto

lemma distinct_fold_apush:
  "distinct (map fst m) \<Longrightarrow> distinct (map fst (fold (\<lambda>x. apush (f x) (g x)) xs m))"
  by (induction xs arbitrary: m) (auto intro: distinct_apush)

end
