(* ===== verification/Bfs.thy ===== *)
theory Bfs
  imports Prelude
begin

text \<open>
  Breadth-first search by levels, the common core of the call-graph and structural-graph
  traversals: the nodes not seen before, level by level, and that after \<open>k\<close> levels exactly the nodes
  within distance \<open>k\<close> have been visited, each once.
\<close>

section \<open>One level\<close>

fun fresh :: "'a set \<Rightarrow> 'a list \<Rightarrow> 'a list" where
  "fresh V [] = []"
| "fresh V (x # xs) = (if x \<in> V then fresh V xs else x # fresh (insert x V) xs)"

lemma set_fresh [simp]: "set (fresh V xs) = set xs - V"
  by (induction V xs rule: fresh.induct) auto

lemma distinct_fresh [simp]: "distinct (fresh V xs)"
  by (induction V xs rule: fresh.induct) auto

lemma fresh_append: "fresh V (xs @ ys) = fresh V xs @ fresh (V \<union> set xs) ys"
  by (induction V xs rule: fresh.induct) (auto simp: insert_absorb)

section \<open>Distance\<close>

fun within :: "('a \<Rightarrow> 'a list) \<Rightarrow> nat \<Rightarrow> 'a set \<Rightarrow> 'a set" where
  "within succs 0 S = S"
| "within succs (Suc k) S = within succs k S \<union> (\<Union>x\<in>within succs k S. set (succs x))"

lemma within_start: "S \<subseteq> within succs k S"
  by (induction k) auto

lemma within_mono: "j \<le> k \<Longrightarrow> within succs j S \<subseteq> within succs k S"
  by (induction k) (auto simp: le_Suc_eq)

lemma within_step: "x \<in> within succs k S \<Longrightarrow> y \<in> set (succs x) \<Longrightarrow> y \<in> within succs (Suc k) S"
  by auto

text \<open>Distance as paths: a node is within \<open>k\<close> when at most \<open>k\<close> steps lead to it.\<close>

lemma within_relpow:
  "y \<in> within succs k S \<longleftrightarrow> (\<exists>x\<in>S. \<exists>j\<le>k. (x, y) \<in> {(a, b). b \<in> set (succs a)} ^^ j)"
proof (induction k arbitrary: y)
  case (Suc k)
  show ?case
  proof
    assume "y \<in> within succs (Suc k) S"
    then consider "y \<in> within succs k S" | z where "z \<in> within succs k S" "y \<in> set (succs z)" by auto
    then show "\<exists>x\<in>S. \<exists>j\<le>Suc k. (x, y) \<in> {(a, b). b \<in> set (succs a)} ^^ j"
    proof cases
      case 1
      then show ?thesis using Suc by (meson le_SucI)
    next
      case 2
      then obtain x j where "x \<in> S" "j \<le> k" "(x, z) \<in> {(a, b). b \<in> set (succs a)} ^^ j" using Suc by blast
      then have "(x, y) \<in> {(a, b). b \<in> set (succs a)} ^^ Suc j" using 2(2) by auto
      then show ?thesis using \<open>x \<in> S\<close> \<open>j \<le> k\<close> by (metis Suc_le_mono)
    qed
  next
    assume "\<exists>x\<in>S. \<exists>j\<le>Suc k. (x, y) \<in> {(a, b). b \<in> set (succs a)} ^^ j"
    then obtain x j where x: "x \<in> S" "j \<le> Suc k" "(x, y) \<in> {(a, b). b \<in> set (succs a)} ^^ j" by blast
    show "y \<in> within succs (Suc k) S"
    proof (cases "j \<le> k")
      case True
      then have "y \<in> within succs k S" using Suc x by blast
      then show ?thesis by simp
    next
      case False
      then have "j = Suc k" using x(2) by simp
      then obtain z where "(x, z) \<in> {(a, b). b \<in> set (succs a)} ^^ k" "y \<in> set (succs z)" using x(3) by auto
      then have "z \<in> within succs k S" "y \<in> set (succs z)" using Suc x(1) by blast+
      then show ?thesis by auto
    qed
  qed
qed auto

section \<open>Levels\<close>

text \<open>The frontier after \<open>k\<close> levels, and everything visited by then.\<close>

fun level :: "('a \<Rightarrow> 'a list) \<Rightarrow> 'a list \<Rightarrow> nat \<Rightarrow> 'a set \<times> 'a list" where
  "level succs start 0 = (set start, start)"
| "level succs start (Suc k) =
     (let (V, fr) = level succs start k; nx = fresh V (concat (map succs fr)) in (V \<union> set nx, nx))"

lemma level_inv:
  "level succs start k = (V, fr) \<Longrightarrow>
   V = within succs k (set start) \<and>
   set fr = within succs k (set start) - (case k of 0 \<Rightarrow> {} | Suc j \<Rightarrow> within succs j (set start))"
proof (induction k arbitrary: V fr)
  case (Suc k)
  obtain V0 fr0 where l: "level succs start k = (V0, fr0)" by (cases "level succs start k")
  note ih = Suc.IH[OF l]
  have old: "(\<Union>x\<in>V0 - set fr0. set (succs x)) \<subseteq> V0"
  proof (cases k)
    case (Suc j)
    then have sub: "V0 - set fr0 \<subseteq> within succs j (set start)" using ih by auto
    show ?thesis using Suc ih sub by fastforce
  qed (use ih in auto)
  have "V = V0 \<union> (\<Union>x\<in>set fr0. set (succs x))" "set fr = (\<Union>x\<in>set fr0. set (succs x)) - V0"
    using Suc.prems l by (auto simp: Let_def)
  moreover have "set fr0 \<subseteq> V0" using ih by auto
  ultimately have "V = V0 \<union> (\<Union>x\<in>V0. set (succs x))" "set fr = (V0 \<union> (\<Union>x\<in>V0. set (succs x))) - V0"
    using old by blast+
  then show ?case using ih by simp
qed simp

definition levels :: "('a \<Rightarrow> 'a list) \<Rightarrow> 'a list \<Rightarrow> nat \<Rightarrow> 'a list list" where
  "levels succs start k = map (\<lambda>j. snd (level succs start j)) [0..<Suc k]"

text \<open>The levels list every node within the depth exactly once, in order of distance.\<close>

lemma levels_set: "set (concat (levels succs start k)) = within succs k (set start)"
proof (induction k)
  case (Suc k)
  have l: "levels succs start (Suc k) = levels succs start k @ [snd (level succs start (Suc k))]"
    by (simp add: levels_def)
  show ?case
    using level_inv[of succs start "Suc k", OF prod.collapse[symmetric]] Suc unfolding l by auto
qed (simp add: levels_def)

lemma levels_distinct: "distinct start \<Longrightarrow> distinct (concat (levels succs start k))"
proof (induction k)
  case (Suc k)
  have l: "levels succs start (Suc k) = levels succs start k @ [snd (level succs start (Suc k))]"
    by (simp add: levels_def)
  have "set (snd (level succs start (Suc k))) \<inter> within succs k (set start) = {}"
    using level_inv[of succs start "Suc k", OF prod.collapse[symmetric]] by auto
  moreover have "distinct (snd (level succs start (Suc k)))"
    by (simp add: Let_def split: prod.split)
  ultimately show ?case using Suc levels_set[of succs start k] unfolding l by auto
qed (simp add: levels_def)

end
