(* ===== verification/CallGraph.thy ===== *)
theory CallGraph
  imports Types Bfs
begin

text \<open>
  The call graph, \<open>crates/aptu-coder-core/src/graph/call_graph.rs\<close>: its construction from the
  analysis of every file, symbol resolution, and the breadth-first search for call chains.
  \<open>to_lowercase\<close> (the Unicode tables) is a parameter.
\<close>

section \<open>Data\<close>

record call_edge =
  ce_path :: path
  ce_line :: nat
  ce_neighbor :: string
  ce_is_impl :: bool

record call_graph =
  cg_callers :: "(string \<times> call_edge list) list"
  cg_callees :: "(string \<times> call_edge list) list"
  cg_definitions :: "(string \<times> (path \<times> nat) list) list"
  cg_lowercase :: "(string \<times> string list) list"

datatype graph_error = SymbolNotFound string string | MultipleCandidates string "string list"

definition cg_new :: call_graph where
  "cg_new = \<lparr>cg_callers = [], cg_callees = [], cg_definitions = [], cg_lowercase = []\<rparr>"

definition MAX_CANDIDATES_IN_ERROR :: nat where "MAX_CANDIDATES_IN_ERROR = 20"

definition format_candidates :: "string list \<Rightarrow> string" where
  "format_candidates cs =
     (if length cs \<le> MAX_CANDIDATES_IN_ERROR then join '', '' cs
      else join '', '' (take MAX_CANDIDATES_IN_ERROR cs) @ '', (and '' @
        nat_str (length cs - MAX_CANDIDATES_IN_ERROR) @ '' more)'')"

section \<open>Names\<close>

text \<open>\<open>rfind\<close> of a non-empty pattern, as the text after its last occurrence.\<close>

fun after_last :: "string \<Rightarrow> string \<Rightarrow> string option" where
  "after_last pat [] = None"
| "after_last pat (c # cs) =
     (case after_last pat cs of
        Some r \<Rightarrow> Some r
      | None \<Rightarrow> if prefix pat (c # cs) then Some (drop (length pat) (c # cs)) else None)"

definition strip_scope_prefix :: "string \<Rightarrow> string" where
  "strip_scope_prefix name =
     (case after_last ''::'' name of
        Some r \<Rightarrow> r
      | None \<Rightarrow> (case after_last ''.'' name of Some r \<Rightarrow> r | None \<Rightarrow> name))"

definition resolve_callee :: "string \<Rightarrow> (string \<times> (path \<times> nat) list) list \<Rightarrow> string" where
  "resolve_callee callee definitions =
     (if alookup callee definitions \<noteq> None then callee
      else let stripped = strip_scope_prefix callee in
        if stripped \<noteq> callee \<and> alookup stripped definitions \<noteq> None then stripped else callee)"

section \<open>Construction\<close>

definition add_definitions :: "path \<times> semantic_analysis \<Rightarrow> call_graph \<Rightarrow> call_graph" where
  "add_definitions r g =
     (let (p, a) = r;
          d1 = fold (\<lambda>func. apush (fi_name func) (p, fi_line func)) (sa_functions a) (cg_definitions g);
          d2 = fold (\<lambda>cl. apush (ci_name cl) (p, ci_line cl)) (sa_classes a) d1
      in g\<lparr>cg_definitions := d2\<rparr>)"

definition add_call :: "path \<Rightarrow> call_info \<Rightarrow> call_graph \<Rightarrow> call_graph" where
  "add_call p call g =
     (let resolved = resolve_callee (ca_callee call) (cg_definitions g) in
      g\<lparr>cg_callees := apush (ca_caller call)
           \<lparr>ce_path = p, ce_line = ca_line call, ce_neighbor = resolved, ce_is_impl = False\<rparr> (cg_callees g),
         cg_callers := apush resolved
           \<lparr>ce_path = p, ce_line = ca_line call, ce_neighbor = ca_caller call, ce_is_impl = False\<rparr> (cg_callers g)\<rparr>)"

definition add_reference :: "path \<Rightarrow> reference_info \<Rightarrow> call_graph \<Rightarrow> call_graph" where
  "add_reference p r g =
     g\<lparr>cg_callers := apush (ri_symbol r)
         \<lparr>ce_path = p, ce_line = ri_line r, ce_neighbor = ''<reference>'', ce_is_impl = False\<rparr> (cg_callers g)\<rparr>"

definition add_calls :: "path \<times> semantic_analysis \<Rightarrow> call_graph \<Rightarrow> call_graph" where
  "add_calls r g =
     (let (p, a) = r in fold (add_reference p) (sa_references a) (fold (add_call p) (sa_calls a) g))"

definition add_impl :: "impl_trait_info \<Rightarrow> call_graph \<Rightarrow> call_graph" where
  "add_impl it g =
     g\<lparr>cg_callers := apush (it_trait_name it)
         \<lparr>ce_path = it_path it, ce_line = it_line it, ce_neighbor = it_impl_type it, ce_is_impl = True\<rparr>
         (cg_callers g)\<rparr>"

definition retain_impl :: "call_graph \<Rightarrow> call_graph" where
  "retain_impl g = g\<lparr>cg_callers := map (\<lambda>(k, es). (k, filter ce_is_impl es)) (cg_callers g)\<rparr>"

definition build_lowercase :: "(string \<Rightarrow> string) \<Rightarrow> call_graph \<Rightarrow> call_graph" where
  "build_lowercase lower g =
     (let keys = map fst (cg_definitions g) @ map fst (cg_callers g) @ map fst (cg_callees g);
          idx = fold (\<lambda>k. apush (lower k) k) keys []
      in g\<lparr>cg_lowercase := map (\<lambda>(k, os). (k, remdups_adj (sort os))) idx\<rparr>)"

definition build_from_results ::
    "(string \<Rightarrow> string) \<Rightarrow> (path \<times> semantic_analysis) list \<Rightarrow> impl_trait_info list \<Rightarrow> bool \<Rightarrow> call_graph" where
  "build_from_results lower results impl_traits impl_only =
     (let g = fold add_definitions results cg_new;
          g = fold add_calls results g;
          g = fold add_impl impl_traits g;
          g = (if impl_only then retain_impl g else g)
      in build_lowercase lower g)"

section \<open>Symbol resolution\<close>

definition exact_hint :: string where
  "exact_hint = ''Try match_mode=insensitive for a case-insensitive search, or match_mode=prefix to list symbols starting with this name.''"

definition no_match_hint :: string where
  "no_match_hint = ''No symbols matched; try a shorter query or match_mode=contains.''"

definition pick_one :: "string \<Rightarrow> string list \<Rightarrow> graph_error + string" where
  "pick_one query matches =
     (case remdups_adj (sort matches) of
        [] \<Rightarrow> Inl (SymbolNotFound query no_match_hint)
      | [s] \<Rightarrow> Inr s
      | ms \<Rightarrow> Inl (MultipleCandidates query ms))"

definition resolve_symbol_indexed ::
    "(string \<Rightarrow> string) \<Rightarrow> call_graph \<Rightarrow> string \<Rightarrow> symbol_match_mode \<Rightarrow> graph_error + string" where
  "resolve_symbol_indexed lower g query mode =
     (case mode of
        Exact \<Rightarrow>
          if alookup query (cg_definitions g) \<noteq> None \<or> alookup query (cg_callers g) \<noteq> None
            \<or> alookup query (cg_callees g) \<noteq> None
          then Inr query else Inl (SymbolNotFound query exact_hint)
      | Insensitive \<Rightarrow>
          (case alookup (lower query) (cg_lowercase g) of
             None \<Rightarrow> pick_one query []
           | Some originals \<Rightarrow>
               if length originals > 1 then Inl (MultipleCandidates query originals)
               else pick_one query [hd originals])
      | PrefixMode \<Rightarrow>
          pick_one query (concat (map snd (filter (\<lambda>(k, _). prefix (lower query) k) (cg_lowercase g))))
      | ContainsMode \<Rightarrow>
          pick_one query (concat (map snd (filter (\<lambda>(k, _). str_contains k (lower query)) (cg_lowercase g)))))"

text \<open>The resolution over the list of all known names, without the index.\<close>

definition name_matches :: "(string \<Rightarrow> string) \<Rightarrow> symbol_match_mode \<Rightarrow> string \<Rightarrow> string \<Rightarrow> bool" where
  "name_matches lower mode query s =
     (case mode of
        Exact \<Rightarrow> s = query
      | Insensitive \<Rightarrow> lower s = lower query
      | PrefixMode \<Rightarrow> prefix (lower query) (lower s)
      | ContainsMode \<Rightarrow> str_contains (lower s) (lower query))"

definition resolve_symbol ::
    "(string \<Rightarrow> string) \<Rightarrow> string list \<Rightarrow> string \<Rightarrow> symbol_match_mode \<Rightarrow> graph_error + string" where
  "resolve_symbol lower known_symbols query mode =
     (case sort (filter (name_matches lower mode query) known_symbols) of
        [] \<Rightarrow> Inl (SymbolNotFound query (if mode = Exact then exact_hint else no_match_hint))
      | [s] \<Rightarrow> Inr s
      | ms \<Rightarrow> Inl (MultipleCandidates query ms))"

section \<open>Call chains\<close>

type_synonym chain = "(string \<times> path \<times> nat) list"
type_synonym edge_map = "(string \<times> call_edge list) list"

text \<open>The inner loop that follows first edges from a neighbor until the depth is used up.\<close>

function extend_chain :: "edge_map \<Rightarrow> nat \<Rightarrow> string \<Rightarrow> nat \<Rightarrow> chain \<Rightarrow> chain" where
  "extend_chain m follow_depth chain_node chain_depth chain =
     (if chain_depth < follow_depth then
        (case alookup chain_node m of
           None \<Rightarrow> chain
         | Some [] \<Rightarrow> chain
         | Some (next_edge # _) \<Rightarrow>
             extend_chain m follow_depth (ce_neighbor next_edge) (chain_depth + 1)
               (chain @ [(ce_neighbor next_edge, ce_path next_edge, ce_line next_edge)]))
      else chain)"
  by pat_completeness auto
termination by (relation "measure (\<lambda>(_, fd, _, d, _). fd - d)") auto

declare extend_chain.simps [simp del]

definition build_chain :: "edge_map \<Rightarrow> nat \<Rightarrow> bool \<Rightarrow> string \<Rightarrow> nat \<Rightarrow> call_edge \<Rightarrow> chain" where
  "build_chain m follow_depth is_incoming current depth edge =
     (let chain = extend_chain m follow_depth (ce_neighbor edge) depth [(current, ce_path edge, ce_line edge)];
          chain = chain @ [(ce_neighbor edge, ce_path edge, ce_line edge)]
      in if is_incoming then rev chain else chain)"

text \<open>The loop over the edges of one node: its chains, and the nodes it enqueues.\<close>

fun edges_loop ::
    "edge_map \<Rightarrow> nat \<Rightarrow> bool \<Rightarrow> string \<Rightarrow> nat \<Rightarrow> call_edge list
      \<Rightarrow> string set \<times> (string \<times> nat) list \<times> chain list \<Rightarrow> string set \<times> (string \<times> nat) list \<times> chain list" where
  "edges_loop m fd inc current depth [] st = st"
| "edges_loop m fd inc current depth (edge # es) (visited, queue, acc) =
     (let acc = acc @ [build_chain m fd inc current depth edge]; nb = ce_neighbor edge in
      edges_loop m fd inc current depth es
        (if nb \<notin> visited \<and> depth < fd then (insert nb visited, queue @ [(nb, depth + 1)], acc)
         else (visited, queue, acc)))"

definition neighbor_names :: "edge_map \<Rightarrow> string set" where
  "neighbor_names m = (\<Union>(_, es) \<in> set m. ce_neighbor ` set es)"

lemma finite_neighbor_names [simp]: "finite (neighbor_names m)"
  by (auto simp: neighbor_names_def)

lemma lookups_neighbor_names: "e \<in> set (lookups k m) \<Longrightarrow> ce_neighbor e \<in> neighbor_names m"
proof -
  assume e: "e \<in> set (lookups k m)"
  then obtain es where "alookup k m = Some es" by (cases "alookup k m") (auto simp: lookups_def)
  then have "(k, es) \<in> set m" "e \<in> set es" using e by (auto simp: lookups_def dest: alookup_Some_in)
  then show ?thesis by (auto simp: neighbor_names_def)
qed

lemma edges_loop_visited:
  "edges_loop m fd inc cur d es (V, q, cs) = (V', q', cs') \<Longrightarrow> ce_neighbor ` set es \<subseteq> N \<Longrightarrow>
   V \<subseteq> V' \<and> V' \<subseteq> V \<union> N \<and> (V' = V \<longrightarrow> q' = q)"
proof (induction es arbitrary: V q cs)
  case (Cons e es)
  show ?case
  proof (cases "ce_neighbor e \<notin> V \<and> d < fd")
    case True
    then have "insert (ce_neighbor e) V \<subseteq> V' \<and> V' \<subseteq> insert (ce_neighbor e) V \<union> N"
      using Cons.IH[of "insert (ce_neighbor e) V"] Cons.prems by (simp add: Let_def)
    then show ?thesis using Cons.prems(2) True by auto
  next
    case False
    have "edges_loop m fd inc cur d es (V, q, cs @ [build_chain m fd inc cur d e]) = (V', q', cs')"
      using Cons.prems(1) unfolding edges_loop.simps Let_def if_not_P[OF False] .
    from Cons.IH[OF this] show ?thesis using Cons.prems(2) by simp
  qed
qed simp

function chains_loop ::
    "edge_map \<Rightarrow> nat \<Rightarrow> bool \<Rightarrow> string set \<Rightarrow> (string \<times> nat) list \<Rightarrow> chain list \<Rightarrow> chain list" where
  "chains_loop m fd inc visited [] acc = acc"
| "chains_loop m fd inc visited ((current, depth) # queue) acc =
     (if depth > fd then chains_loop m fd inc visited queue acc
      else
        case edges_loop m fd inc current depth (lookups current m) (visited, queue, acc) of
          (visited', queue', acc') \<Rightarrow> chains_loop m fd inc visited' queue' acc')"
  by pat_completeness auto
termination
proof (relation "measures [\<lambda>(m, _, _, V, _, _). card (neighbor_names m - V), \<lambda>(_, _, _, _, q, _). length q]",
    goal_cases)
  case (3 m fd inc visited current depth queue acc V' y q' cs')
  have e: "edges_loop m fd inc current depth (lookups current m) (visited, queue, acc) = (V', q', cs')"
    using 3 by simp
  have "ce_neighbor ` set (lookups current m) \<subseteq> neighbor_names m" using lookups_neighbor_names by fast
  from edges_loop_visited[OF e this]
  have v: "visited \<subseteq> V'" "V' \<subseteq> visited \<union> neighbor_names m" "V' = visited \<longrightarrow> q' = queue" by auto
  show ?case
  proof (cases "V' = visited")
    case False
    then have "neighbor_names m - V' \<subset> neighbor_names m - visited" using v by auto
    then show ?thesis by (simp add: psubset_card_mono)
  qed (use v in simp)
qed auto

definition chains_hint :: string where
  "chains_hint = ''Symbol resolved but not found in graph. The symbol may have no calls or definitions in the indexed files.''"

definition find_chains_bfs :: "call_graph \<Rightarrow> string \<Rightarrow> nat \<Rightarrow> bool \<Rightarrow> graph_error + chain list" where
  "find_chains_bfs g symbol follow_depth is_incoming =
     (let graph_map = (if is_incoming then cg_callers g else cg_callees g) in
      if alookup symbol (cg_definitions g) = None \<and> alookup symbol graph_map = None
      then Inl (SymbolNotFound symbol chains_hint)
      else Inr (chains_loop graph_map follow_depth is_incoming {symbol} [(symbol, 0)] []))"

definition find_incoming_chains :: "call_graph \<Rightarrow> string \<Rightarrow> nat \<Rightarrow> graph_error + chain list" where
  "find_incoming_chains g symbol follow_depth = find_chains_bfs g symbol follow_depth True"

definition find_outgoing_chains :: "call_graph \<Rightarrow> string \<Rightarrow> nat \<Rightarrow> graph_error + chain list" where
  "find_outgoing_chains g symbol follow_depth = find_chains_bfs g symbol follow_depth False"

text \<open>
  The counts and the edges the focused report takes from chains (\<open>formatter/summary.rs\<close>): the number of
  distinct first names, and the first two names of each chain as an arrow.
\<close>

definition first_names :: "chain list \<Rightarrow> string set" where
  "first_names cs = (\<lambda>c. fst (hd c)) ` set (filter (\<lambda>c. c \<noteq> []) cs)"

definition unique_first_count :: "chain list \<Rightarrow> nat" where
  "unique_first_count cs = card (first_names cs)"

definition chain_arrow :: "chain \<Rightarrow> (string \<times> string) option" where
  "chain_arrow c =
     (case c of [] \<Rightarrow> None | [a] \<Rightarrow> Some (fst a, []) | a # b # _ \<Rightarrow> Some (fst a, fst b))"

end
