(* ===== verification/Structural.thy ===== *)
theory Structural
  imports CallGraph
begin

text \<open>
  The structural graph, \<open>crates/aptu-coder-core/src/graph/structural.rs\<close>: its nodes and edges, its two
  constructions, the disambiguation of call targets, the blast-radius traversals and the rendering.
  The petgraph graph is its list of nodes and its list of edges, both by index. The order in which
  petgraph lists the edges of one node is a parameter \<open>order\<close>, as are the iteration order of hash sets
  (\<open>iter\<close>) and \<open>Path::to_string_lossy\<close> (\<open>path_str\<close>).
\<close>

section \<open>Data\<close>

datatype symbol_kind = FunctionKind | ClassKind

datatype node = File string | Symbol string symbol_kind string nat | Module string

datatype edge = Contains | Calls | Imports

type_synonym dedge = "nat \<times> nat \<times> edge"

record digraph =
  dg_nodes :: "node list"
  dg_edges :: "dedge list"

record structural_graph =
  sg_graph :: digraph
  sg_index :: "(string \<times> nat list) list"

text \<open>The state of \<open>build_nodes\<close>: the graph, the pairs already joined, the index, the parameter counts.\<close>

record build_state =
  b_graph :: digraph
  b_seen :: "(nat \<times> nat) set"
  b_index :: "(string \<times> nat list) list"
  b_params :: "(nat \<times> nat) list"

definition node_count :: "digraph \<Rightarrow> nat" where
  "node_count g = length (dg_nodes g)"

definition node_at :: "digraph \<Rightarrow> nat \<Rightarrow> node option" where
  "node_at g i = (if i < node_count g then Some (dg_nodes g ! i) else None)"

fun symbol_name :: "node \<Rightarrow> string option" where
  "symbol_name (Symbol n _ _ _) = Some n"
| "symbol_name _ = None"

fun symbol_file :: "node \<Rightarrow> string option" where
  "symbol_file (Symbol _ _ f _) = Some f"
| "symbol_file _ = None"

fun symbol_line :: "node \<Rightarrow> nat option" where
  "symbol_line (Symbol _ _ _ l) = Some l"
| "symbol_line _ = None"

definition build_symbol_index :: "digraph \<Rightarrow> (string \<times> nat list) list" where
  "build_symbol_index g =
     fold (\<lambda>i ix. case symbol_name (dg_nodes g ! i) of None \<Rightarrow> ix | Some n \<Rightarrow> apush n i ix) [0..<node_count g] []"

definition from_graph :: "digraph \<Rightarrow> structural_graph" where
  "from_graph g = \<lparr>sg_graph = g, sg_index = build_symbol_index g\<rparr>"

definition rebuild_symbol_index :: "structural_graph \<Rightarrow> structural_graph" where
  "rebuild_symbol_index s = s\<lparr>sg_index := build_symbol_index (sg_graph s)\<rparr>"

section \<open>Disambiguation\<close>

definition abs_diff :: "nat \<Rightarrow> nat \<Rightarrow> nat" where
  "abs_diff a b = (if a \<le> b then b - a else a - b)"

definition line_distance :: "digraph \<Rightarrow> nat \<Rightarrow> nat \<Rightarrow> nat option" where
  "line_distance g call_line i =
     map_option (\<lambda>l. abs_diff l call_line) (Option.bind (node_at g i) symbol_line)"

definition in_file :: "digraph \<Rightarrow> string \<Rightarrow> nat \<Rightarrow> bool" where
  "in_file g file i \<longleftrightarrow> Option.bind (node_at g i) symbol_file = Some file"

definition resolve_candidate ::
    "nat list \<Rightarrow> digraph \<Rightarrow> string \<Rightarrow> nat \<Rightarrow> nat option \<Rightarrow> (nat \<times> nat) list \<Rightarrow> nat option" where
  "resolve_candidate candidates g call_file call_line call_arg_count param_counts =
     (if candidates = [] then None
      else if length candidates = 1 then Some (hd candidates)
      else
        let same_file = filter (in_file g call_file) candidates;
            pool = (if same_file = [] then candidates else same_file) in
        if length pool = 1 then Some (hd pool)
        else
          let ds = List.map_filter (line_distance g call_line) pool in
          if ds = [] then None
          else
            let pool = filter (\<lambda>i. line_distance g call_line i = Some (min_list ds)) pool in
            if length pool = 1 then Some (hd pool)
            else
              case (case call_arg_count of None \<Rightarrow> None
                    | Some n \<Rightarrow> List.find (\<lambda>i. alookup i param_counts = Some n) pool) of
                Some i \<Rightarrow> Some i
              | None \<Rightarrow> (case pool of [] \<Rightarrow> None | i # _ \<Rightarrow> Some i))"

section \<open>Construction\<close>

definition add_edge_once :: "nat \<times> nat \<Rightarrow> edge \<Rightarrow> build_state \<Rightarrow> build_state" where
  "add_edge_once p w b =
     (if p \<in> b_seen b then b
      else b\<lparr>b_seen := insert p (b_seen b),
             b_graph := (b_graph b)\<lparr>dg_edges := dg_edges (b_graph b) @ [(fst p, snd p, w)]\<rparr>\<rparr>)"

definition add_node :: "node \<Rightarrow> build_state \<Rightarrow> build_state" where
  "add_node n b = b\<lparr>b_graph := (b_graph b)\<lparr>dg_nodes := dg_nodes (b_graph b) @ [n]\<rparr>\<rparr>"

definition add_function :: "string \<Rightarrow> nat \<Rightarrow> function_info \<Rightarrow> build_state \<Rightarrow> build_state" where
  "add_function fp file func b =
     (let n = node_count (b_graph b);
          b = add_edge_once (file, n) Contains (add_node (Symbol (fi_name func) FunctionKind fp (fi_line func)) b)
      in b\<lparr>b_index := apush (fi_name func) n (b_index b),
           b_params := ainsert n (length (fi_parameters func)) (b_params b)\<rparr>)"

definition add_class :: "string \<Rightarrow> nat \<Rightarrow> class_info \<Rightarrow> build_state \<Rightarrow> build_state" where
  "add_class fp file cl b =
     (let n = node_count (b_graph b);
          b = add_edge_once (file, n) Contains (add_node (Symbol (ci_name cl) ClassKind fp (ci_line cl)) b)
      in b\<lparr>b_index := apush (ci_name cl) n (b_index b)\<rparr>)"

definition add_import :: "nat \<Rightarrow> import_info \<Rightarrow> build_state \<Rightarrow> build_state" where
  "add_import file im b =
     (if im_module im = [] then b
      else add_edge_once (file, node_count (b_graph b)) Imports (add_node (Module (im_module im)) b))"

definition add_entry :: "file_analysis_output \<Rightarrow> build_state \<Rightarrow> build_state" where
  "add_entry en b =
     (let fp = fa_path en; file = node_count (b_graph b); sem = fa_semantic en;
          b = add_node (File fp) b;
          b = fold (add_function fp file) (sa_functions sem) b;
          b = fold (add_class fp file) (sa_classes sem) b
      in fold (add_import file) (sa_imports sem) b)"

definition build_nodes :: "file_analysis_output list \<Rightarrow> build_state" where
  "build_nodes entries =
     fold add_entry entries
       \<lparr>b_graph = \<lparr>dg_nodes = [], dg_edges = []\<rparr>, b_seen = {}, b_index = [], b_params = []\<rparr>"

text \<open>One call, resolved on both sides against the complete index.\<close>

definition resolve_pair ::
    "build_state \<Rightarrow> string \<Rightarrow> string \<Rightarrow> string \<Rightarrow> nat \<Rightarrow> nat option \<Rightarrow> (nat \<times> nat) option" where
  "resolve_pair b caller callee call_file line arg_count =
     (let c = resolve_candidate (lookups caller (b_index b)) (b_graph b) call_file line None (b_params b);
          e = resolve_candidate (lookups callee (b_index b)) (b_graph b) call_file line arg_count (b_params b)
      in case (c, e) of (Some c, Some e) \<Rightarrow> Some (c, e) | _ \<Rightarrow> None)"

definition add_resolved_call ::
    "string \<Rightarrow> string \<Rightarrow> string \<Rightarrow> nat \<Rightarrow> nat option \<Rightarrow> build_state \<Rightarrow> build_state" where
  "add_resolved_call caller callee call_file line arg_count b =
     (case resolve_pair b caller callee call_file line arg_count of
        None \<Rightarrow> b
      | Some p \<Rightarrow> add_edge_once p Calls b)"

definition build_from_analysis :: "file_analysis_output list \<Rightarrow> structural_graph" where
  "build_from_analysis entries =
     (let b = fold (\<lambda>en. fold (\<lambda>cl. add_resolved_call (ca_caller cl) (ca_callee cl) (fa_path en) (ca_line cl) (ca_arg_count cl))
                (sa_calls (fa_semantic en))) entries (build_nodes entries)
      in \<lparr>sg_graph = b_graph b, sg_index = b_index b\<rparr>)"

definition from_call_graph ::
    "(path \<Rightarrow> string) \<Rightarrow> file_analysis_output list \<Rightarrow> call_graph \<Rightarrow> structural_graph" where
  "from_call_graph path_str entries cg =
     (let b = fold (\<lambda>(caller, es). fold (\<lambda>edge. add_resolved_call caller (ce_neighbor edge)
                (path_str (ce_path edge)) (ce_line edge) None) es) (cg_callees cg) (build_nodes entries)
      in \<lparr>sg_graph = b_graph b, sg_index = b_index b\<rparr>)"

section \<open>Blast radius\<close>

definition edges_out :: "(dedge list \<Rightarrow> dedge list) \<Rightarrow> digraph \<Rightarrow> nat \<Rightarrow> dedge list" where
  "edges_out order g u = order (filter (\<lambda>(s, _, _). s = u) (dg_edges g))"

definition edges_in :: "(dedge list \<Rightarrow> dedge list) \<Rightarrow> digraph \<Rightarrow> nat \<Rightarrow> dedge list" where
  "edges_in order g u = order (filter (\<lambda>(_, t, _). t = u) (dg_edges g))"

definition neighbors :: "(dedge list \<Rightarrow> dedge list) \<Rightarrow> digraph \<Rightarrow> nat \<Rightarrow> nat list" where
  "neighbors order g u = map (\<lambda>(_, t, _). t) (edges_out order g u)"

text \<open>\<open>if visited.insert(nb) { result.push(nb); next.push(nb) }\<close> over a list of neighbors.\<close>

fun visit_neighbors :: "nat list \<Rightarrow> nat set \<times> nat list \<times> nat list \<Rightarrow> nat set \<times> nat list \<times> nat list" where
  "visit_neighbors [] st = st"
| "visit_neighbors (nb # nbs) (visited, result, nx) =
     (if nb \<in> visited then visit_neighbors nbs (visited, result, nx)
      else visit_neighbors nbs (insert nb visited, result @ [nb], nx @ [nb]))"

fun bfs_loop :: "(nat \<Rightarrow> nat list) \<Rightarrow> nat \<Rightarrow> nat list \<Rightarrow> nat set \<Rightarrow> nat list \<Rightarrow> nat set \<times> nat list" where
  "bfs_loop nbs 0 frontier visited result = (visited, result)"
| "bfs_loop nbs (Suc d) frontier visited result =
     (if frontier = [] then (visited, result)
      else
        let (visited, result, nx) = fold (\<lambda>u. visit_neighbors (nbs u)) frontier (visited, result, [])
        in bfs_loop nbs d nx visited result)"

definition bfs_frontier :: "(dedge list \<Rightarrow> dedge list) \<Rightarrow> digraph \<Rightarrow> nat \<Rightarrow> nat \<Rightarrow> nat set \<times> nat list" where
  "bfs_frontier order g start depth = bfs_loop (neighbors order g) depth [start] {start} []"

definition first_symbol :: "structural_graph \<Rightarrow> string \<Rightarrow> nat option" where
  "first_symbol s name = (case lookups name (sg_index s) of [] \<Rightarrow> None | i # _ \<Rightarrow> Some i)"

definition bfs_blast_radius :: "(dedge list \<Rightarrow> dedge list) \<Rightarrow> structural_graph \<Rightarrow> string \<Rightarrow> nat \<Rightarrow> nat list" where
  "bfs_blast_radius order s symbol depth =
     (case first_symbol s symbol of
        None \<Rightarrow> []
      | Some start \<Rightarrow> snd (bfs_frontier order (sg_graph s) start depth))"

definition induced_edges :: "digraph \<Rightarrow> nat set \<Rightarrow> dedge list" where
  "induced_edges g visited = filter (\<lambda>(s, t, _). s \<in> visited \<and> t \<in> visited) (dg_edges g)"

definition not_built_hint :: string where
  "not_built_hint = ''The symbol is not present in the built graph; run analyze_symbol on the directory and check spelling.''"

definition blast_radius_subgraph ::
    "(dedge list \<Rightarrow> dedge list) \<Rightarrow> structural_graph \<Rightarrow> string \<Rightarrow> nat \<Rightarrow> graph_error + (nat list \<times> dedge list)" where
  "blast_radius_subgraph order s symbol depth =
     (case first_symbol s symbol of
        None \<Rightarrow> Inl (SymbolNotFound symbol not_built_hint)
      | Some start \<Rightarrow>
          let (visited, tl) = bfs_frontier order (sg_graph s) start depth
          in Inr (start # tl, induced_edges (sg_graph s) visited))"

definition find_symbols :: "structural_graph \<Rightarrow> string list \<Rightarrow> nat list" where
  "find_symbols s names = List.map_filter (first_symbol s) names"

definition find_symbols_all :: "structural_graph \<Rightarrow> string list \<Rightarrow> nat list" where
  "find_symbols_all s names = concat (map (\<lambda>n. lookups n (sg_index s)) names)"

section \<open>Bidirectional traversal\<close>

text \<open>Take what is not visited yet until \<open>max_nodes\<close> nodes are in the result.\<close>

fun take_new ::
    "nat \<Rightarrow> (nat \<Rightarrow> bool) \<Rightarrow> nat list \<Rightarrow> nat set \<times> nat list \<times> nat list \<Rightarrow> nat set \<times> nat list \<times> nat list" where
  "take_new max_nodes ok [] st = st"
| "take_new max_nodes ok (c # cs) (visited, result, nx) =
     (if ok c \<and> c \<notin> visited then
        let st = (insert c visited, result @ [c], nx @ [c]) in
        if length result + 1 \<ge> max_nodes then st else take_new max_nodes ok cs st
      else take_new max_nodes ok cs (visited, result, nx))"

definition call_neighbors :: "(dedge list \<Rightarrow> dedge list) \<Rightarrow> digraph \<Rightarrow> nat set \<Rightarrow> nat \<Rightarrow> nat list" where
  "call_neighbors order g visited u =
     map (\<lambda>(_, t, _). t) (filter (\<lambda>(_, t, w). w = Calls \<and> t \<notin> visited) (edges_out order g u)) @
     map (\<lambda>(s, _, _). s) (filter (\<lambda>(s, _, w). w = Calls \<and> s \<notin> visited) (edges_in order g u))"

fun bidirectional_loop ::
    "(dedge list \<Rightarrow> dedge list) \<Rightarrow> digraph \<Rightarrow> nat \<Rightarrow> nat \<Rightarrow> nat set \<times> nat list \<times> nat list \<Rightarrow> nat set \<times> nat list" where
  "bidirectional_loop order g max_nodes 0 (visited, result, frontier) = (visited, result)"
| "bidirectional_loop order g max_nodes (Suc lv) (visited, result, frontier) =
     (if frontier \<noteq> [] \<and> length result < max_nodes then
        let candidates = remdups_adj (sort (concat (map (call_neighbors order g visited) frontier)))
        in bidirectional_loop order g max_nodes lv
             (take_new max_nodes (\<lambda>_. True) candidates (visited, result, []))
      else (visited, result))"

definition blast_radius_bidirectional ::
    "(dedge list \<Rightarrow> dedge list) \<Rightarrow> structural_graph \<Rightarrow> nat list \<Rightarrow> nat \<Rightarrow> nat \<Rightarrow> nat list \<times> dedge list" where
  "blast_radius_bidirectional order s seeds max_nodes max_depth =
     (if seeds = [] \<or> max_nodes = 0 \<or> max_depth = 0 then ([], [])
      else
        let g = sg_graph s;
            (visited, result) = bidirectional_loop order g max_nodes max_depth
              (take_new max_nodes (\<lambda>i. i < node_count g) seeds ({}, [], []))
        in (result, induced_edges g visited))"

section \<open>Rendering\<close>

text \<open>The names at the other end of the \<open>Calls\<close> edges of a node that stay within the node set.\<close>

definition callee_names :: "(dedge list \<Rightarrow> dedge list) \<Rightarrow> digraph \<Rightarrow> nat set \<Rightarrow> nat \<Rightarrow> string list" where
  "callee_names order g ns u =
     List.map_filter (\<lambda>(_, t, w). if w = Calls \<and> t \<in> ns then symbol_name (dg_nodes g ! t) else None) (edges_out order g u)"

definition caller_names :: "(dedge list \<Rightarrow> dedge list) \<Rightarrow> digraph \<Rightarrow> nat set \<Rightarrow> nat \<Rightarrow> string list" where
  "caller_names order g ns u =
     List.map_filter (\<lambda>(s, _, w). if w = Calls \<and> s \<in> ns then symbol_name (dg_nodes g ! s) else None) (edges_in order g u)"

definition bracket :: "string \<Rightarrow> string list \<Rightarrow> string" where
  "bracket label names =
     (if names = [] then [] else '' ['' @ label @ '': '' @ join '', '' (remdups_adj (sort names)) @ '']'')"

definition function_line :: "(dedge list \<Rightarrow> dedge list) \<Rightarrow> digraph \<Rightarrow> nat set \<Rightarrow> string \<times> nat \<Rightarrow> string" where
  "function_line order g ns f =
     ''fn '' @ fst f @ bracket ''calls'' (callee_names order g ns (snd f)) @
     bracket ''callers'' (caller_names order g ns (snd f)) @ [CHR 0x0A]"

fun function_of :: "node \<Rightarrow> (string \<times> string) option" where
  "function_of (Symbol n FunctionKind f _) = Some (f, n)"
| "function_of _ = None"

definition file_groups :: "digraph \<Rightarrow> nat list \<Rightarrow> (string \<times> (string \<times> nat) list) list" where
  "file_groups g ns =
     fold (\<lambda>i m. case Option.bind (node_at g i) function_of of
             None \<Rightarrow> m | Some (f, n) \<Rightarrow> apush f (n, i) m) ns []"

definition render_subgraph_text ::
    "(dedge list \<Rightarrow> dedge list) \<Rightarrow> (nat set \<Rightarrow> nat list) \<Rightarrow> structural_graph \<Rightarrow> nat list \<Rightarrow> string" where
  "render_subgraph_text order iter s nodes =
     (let g = sg_graph s; ns = set nodes;
          groups = sort_key fst (file_groups g (iter ns))
      in join [CHR 0x0A] (map (\<lambda>(file, funcs).
           ''// '' @ file @ [CHR 0x0A] @
           concat (map (function_line order g ns) (remdups_adj (sort_key fst funcs)))) groups))"

end
