(* ===== verification/StructuralProps.thy ===== *)
theory StructuralProps
  imports Structural
begin

text \<open>
  Correctness of the structural graph: the construction lists the files, symbols, imports and resolved
  calls of the analyses, disambiguation picks the first best candidate, and the traversals return
  exactly the nodes within the depth with the edges between them.
\<close>

section \<open>Disambiguation\<close>

definition preferred :: "nat list \<Rightarrow> digraph \<Rightarrow> string \<Rightarrow> nat \<Rightarrow> bool" where
  "preferred cs g file i \<longleftrightarrow> in_file g file i \<or> \<not> list_ex (in_file g file) cs"

definition nearest :: "nat list \<Rightarrow> digraph \<Rightarrow> string \<Rightarrow> nat \<Rightarrow> nat \<Rightarrow> bool" where
  "nearest cs g file line i \<longleftrightarrow> preferred cs g file i \<and>
     list_all (\<lambda>j. preferred cs g file j \<longrightarrow> the (line_distance g line i) \<le> the (line_distance g line j)) cs"

definition best_candidate ::
    "nat list \<Rightarrow> digraph \<Rightarrow> string \<Rightarrow> nat \<Rightarrow> nat option \<Rightarrow> (nat \<times> nat) list \<Rightarrow> nat \<Rightarrow> bool" where
  "best_candidate cs g file line arg_count pc i \<longleftrightarrow> nearest cs g file line i \<and>
     (case arg_count of None \<Rightarrow> True
      | Some n \<Rightarrow> alookup i pc = Some n \<or>
          \<not> list_ex (\<lambda>j. nearest cs g file line j \<and> alookup j pc = Some n) cs)"

lemma find_filter: "(\<And>x. P x \<Longrightarrow> Q x) \<Longrightarrow> List.find P (filter Q xs) = List.find P xs"
  by (induction xs) auto

lemma find_cong_set: "(\<And>x. x \<in> set xs \<Longrightarrow> P x = Q x) \<Longrightarrow> List.find P xs = List.find Q xs"
  by (induction xs) auto

lemma find_hd: "xs \<noteq> [] \<Longrightarrow> (\<And>x. x \<in> set xs \<Longrightarrow> P x) \<Longrightarrow> List.find P xs = Some (hd xs)"
  by (cases xs) auto

lemma map_filter_all: "(\<And>x. x \<in> set xs \<Longrightarrow> f x \<noteq> None) \<Longrightarrow> List.map_filter f xs = map (\<lambda>x. the (f x)) xs"
  by (induction xs) (auto simp: List.map_filter_def)

lemma min_list_is_min: "xs \<noteq> [] \<Longrightarrow> min_list xs \<in> set xs \<and> (\<forall>x\<in>set xs. min_list xs \<le> (x::nat))"
  by (simp add: min_list_Min)

lemma single_hd: "length xs = 1 \<Longrightarrow> x \<in> set xs \<Longrightarrow> x = hd xs"
  by (cases xs) auto

lemma resolve_candidate_mem: "resolve_candidate cs g f l ac pc = Some i \<Longrightarrow> i \<in> set cs"
proof -
  assume r: "resolve_candidate cs g f l ac pc = Some i"
  have hd_in: "length xs = 1 \<Longrightarrow> set xs \<subseteq> set cs \<Longrightarrow> hd xs \<in> set cs" for xs by (cases xs) auto
  show ?thesis
    using r unfolding resolve_candidate_def Let_def
    by (auto split: if_splits option.splits list.splits simp: find_Some_iff filter_eq_Cons_iff hd_in
        intro: hd_in[simplified] dest!: nth_mem)
qed

text \<open>
  C15. The staged heuristic picks the first candidate that is best: in the file of the call when any is,
  nearest to its line among those, with the argument count of the call when any of the nearest has it.
\<close>

theorem resolve_candidate_best:
  assumes "\<And>i. i \<in> set cs \<Longrightarrow> line_distance g line i \<noteq> None"
  shows "resolve_candidate cs g file line ac pc = List.find (best_candidate cs g file line ac pc) cs"
proof -
  define pool where "pool = filter (preferred cs g file) cs"
  define near where "near = filter (nearest cs g file line) cs"
  let ?best = "best_candidate cs g file line ac pc"
  let ?ds = "List.map_filter (line_distance g line) pool"
  have pool_eq: "pool = (if filter (in_file g file) cs = [] then cs else filter (in_file g file) cs)"
    by (auto simp: pool_def preferred_def list_ex_iff filter_empty_conv filter_id_conv intro!: filter_cong)
  have ds: "?ds = map (\<lambda>i. the (line_distance g line i)) pool"
    by (rule map_filter_all) (use assms pool_def in auto)
  have near_pool: "near = filter (nearest cs g file line) pool"
    by (auto simp: near_def pool_def nearest_def intro!: filter_cong)
  have b_near: "?best i \<Longrightarrow> nearest cs g file line i" for i by (simp add: best_candidate_def)
  have find_near: "List.find ?best cs = List.find ?best near"
    unfolding near_def by (rule find_filter[symmetric]) (rule b_near)
  show ?thesis
  proof (cases "cs = []")
    case False
    then have pne: "pool \<noteq> []" unfolding pool_eq by simp
    have m: "min_list ?ds \<in> set ?ds" "\<And>x. x \<in> set ?ds \<Longrightarrow> min_list ?ds \<le> x"
      using min_list_is_min[of ?ds] pne ds by auto
    have near_iff: "line_distance g line i = Some (min_list ?ds) \<longleftrightarrow> nearest cs g file line i" if "i \<in> set pool" for i
    proof -
      have i: "i \<in> set cs" "preferred cs g file i" using that by (auto simp: pool_def)
      have "nearest cs g file line i \<longleftrightarrow> (\<forall>x\<in>set ?ds. the (line_distance g line i) \<le> x)"
        unfolding ds using i by (auto simp: nearest_def list_all_iff pool_def)
      also have "\<dots> \<longleftrightarrow> the (line_distance g line i) = min_list ?ds"
        using m that unfolding ds by (auto intro: antisym)
      finally show ?thesis using assms[OF i(1)] by auto
    qed
    have near_code: "near = filter (\<lambda>i. line_distance g line i = Some (min_list ?ds)) pool"
      unfolding near_pool by (rule filter_cong) (use near_iff in auto)
    have nne: "near \<noteq> []"
    proof -
      obtain i where "i \<in> set pool" "the (line_distance g line i) = min_list ?ds" using m(1) unfolding ds by auto
      moreover from this have "line_distance g line i \<noteq> None" using assms pool_def by auto
      ultimately show ?thesis unfolding near_code by (auto simp: filter_empty_conv)
    qed
    have only: "List.find ?best cs = Some (hd xs)" if "length xs = 1" "set near \<subseteq> set xs" for xs
    proof -
      have nx: "i = hd xs" if "i \<in> set near" for i using that \<open>set near \<subseteq> set xs\<close> single_hd[OF \<open>length xs = 1\<close>] by auto
      have "?best i" if i: "i \<in> set near" for i
      proof -
        have "j = i" if "j \<in> set cs" "nearest cs g file line j" for j
          using nx[of j] nx[OF i] that by (simp add: near_def)
        moreover have "nearest cs g file line i" using i by (simp add: near_def)
        ultimately show ?thesis by (auto simp: best_candidate_def list_ex_iff split: option.splits)
      qed
      then have "List.find ?best near = Some (hd near)" by (rule find_hd[OF nne])
      then show ?thesis using find_near nx[of "hd near"] nne by simp
    qed
    have sub: "set near \<subseteq> set pool" "set pool \<subseteq> set cs" by (auto simp: near_pool pool_def)
    have final: "(case (case ac of None \<Rightarrow> None | Some n \<Rightarrow> List.find (\<lambda>i. alookup i pc = Some n) near) of
        Some i \<Rightarrow> Some i | None \<Rightarrow> (case near of [] \<Rightarrow> None | i # _ \<Rightarrow> Some i)) = List.find ?best near"
    proof (cases ac)
      case None
      then have "List.find ?best near = Some (hd near)"
        by (intro find_hd[OF nne]) (simp add: best_candidate_def near_def)
      then show ?thesis using None nne by (cases near) auto
    next
      case (Some n)
      show ?thesis
      proof (cases "List.find (\<lambda>i. alookup i pc = Some n) near")
        case None
        then have "\<And>j. j \<in> set near \<Longrightarrow> alookup j pc \<noteq> Some n" by (auto simp: find_None_iff)
        then have "List.find ?best near = Some (hd near)"
          by (intro find_hd[OF nne]) (auto simp: best_candidate_def near_def Some list_ex_iff)
        then show ?thesis using None Some nne by (cases near) auto
      next
        case (Some k)
        then obtain j where "j < length near" "alookup (near ! j) pc = Some n" by (auto simp: find_Some_iff)
        then have "\<exists>j. j \<in> set near \<and> alookup j pc = Some n" using nth_mem by blast
        then have "List.find ?best near = List.find (\<lambda>i. alookup i pc = Some n) near"
          by (intro find_cong_set) (auto simp: best_candidate_def near_def \<open>ac = Some n\<close> list_ex_iff)
        then show ?thesis using Some \<open>ac = Some n\<close> by simp
      qed
    qed
    have dne: "?ds \<noteq> []" using ds pne by simp
    show ?thesis
      unfolding resolve_candidate_def Let_def pool_eq[symmetric] near_code[symmetric]
      using False dne only[of cs] only[of pool] only[of near] sub final find_near by auto
  qed (simp add: resolve_candidate_def)
qed

section \<open>Construction\<close>

text \<open>What one analysis adds: its nodes, the edges from its file node, and the parameter counts.\<close>

definition entry_symbols :: "file_analysis_output \<Rightarrow> node list" where
  "entry_symbols en =
     map (\<lambda>f. Symbol (fi_name f) FunctionKind (fa_path en) (fi_line f)) (sa_functions (fa_semantic en)) @
     map (\<lambda>c. Symbol (ci_name c) ClassKind (fa_path en) (ci_line c)) (sa_classes (fa_semantic en))"

definition entry_modules :: "file_analysis_output \<Rightarrow> node list" where
  "entry_modules en = map (\<lambda>im. Module (im_module im)) (filter (\<lambda>im. im_module im \<noteq> []) (sa_imports (fa_semantic en)))"

definition entry_nodes :: "file_analysis_output \<Rightarrow> node list" where
  "entry_nodes en = File (fa_path en) # entry_symbols en @ entry_modules en"

definition star :: "nat \<Rightarrow> edge \<Rightarrow> nat \<Rightarrow> nat \<Rightarrow> dedge list" where
  "star file w first k = map (\<lambda>i. (file, i, w)) [first..<first + k]"

fun tree_edges :: "nat \<Rightarrow> file_analysis_output list \<Rightarrow> dedge list" where
  "tree_edges n [] = []"
| "tree_edges n (en # ens) =
     star n Contains (n + 1) (length (entry_symbols en)) @
     star n Imports (n + 1 + length (entry_symbols en)) (length (entry_modules en)) @
     tree_edges (n + length (entry_nodes en)) ens"

definition entry_params :: "file_analysis_output \<Rightarrow> nat option list" where
  "entry_params en = None # map (\<lambda>f. Some (length (fi_parameters f))) (sa_functions (fa_semantic en)) @
     replicate (length (sa_classes (fa_semantic en)) + length (entry_modules en)) None"

abbreviation pair_of :: "dedge \<Rightarrow> nat \<times> nat" where "pair_of e \<equiv> (fst e, fst (snd e))"

abbreviation nodes_of :: "build_state \<Rightarrow> node list" where "nodes_of b \<equiv> dg_nodes (b_graph b)"

abbreviation edges_of :: "build_state \<Rightarrow> dedge list" where "edges_of b \<equiv> dg_edges (b_graph b)"

definition build_ok :: "build_state \<Rightarrow> bool" where
  "build_ok b \<longleftrightarrow> b_seen b = pair_of ` set (edges_of b) \<and> distinct (map pair_of (edges_of b)) \<and>
     (\<forall>(s, t)\<in>b_seen b. s < length (nodes_of b) \<and> t < length (nodes_of b)) \<and>
     (\<forall>n. lookups n (b_index b) = filter (\<lambda>i. symbol_name (nodes_of b ! i) = Some n) [0..<length (nodes_of b)])"

text \<open>\<open>grows b b' ns es ps\<close>: from \<open>b\<close> to \<open>b'\<close> exactly these nodes, edges and parameter counts are added.\<close>

definition grows :: "build_state \<Rightarrow> build_state \<Rightarrow> node list \<Rightarrow> dedge list \<Rightarrow> nat option list \<Rightarrow> bool" where
  "grows b b' ns es ps \<longleftrightarrow> build_ok b' \<and>
     nodes_of b' = nodes_of b @ ns \<and> edges_of b' = edges_of b @ es \<and> length ps = length ns \<and>
     (\<forall>i. alookup i (b_params b') =
        (if length (nodes_of b) \<le> i \<and> i < length (nodes_of b) + length ns
           \<and> ps ! (i - length (nodes_of b)) \<noteq> None
         then ps ! (i - length (nodes_of b)) else alookup i (b_params b)))"

lemma grows_refl: "build_ok b \<Longrightarrow> grows b b [] [] []"
  by (auto simp: grows_def)

lemma grows_trans:
  "grows b b1 ns1 es1 ps1 \<Longrightarrow> grows b1 b2 ns2 es2 ps2 \<Longrightarrow> grows b b2 (ns1 @ ns2) (es1 @ es2) (ps1 @ ps2)"
  unfolding grows_def by (auto simp: nth_append)

lemma filter_upt_Suc: "filter P [0..<Suc n] = filter P [0..<n] @ (if P n then [n] else [])"
  by simp

lemma build_ok_add:
  assumes "build_ok b" "file < length (nodes_of b)"
  shows "build_ok (add_edge_once (file, length (nodes_of b)) w (add_node n b)
      \<lparr>b_index := (case symbol_name n of None \<Rightarrow> b_index b | Some s \<Rightarrow> apush s (length (nodes_of b)) (b_index b)),
       b_params := ps\<rparr>)"
proof -
  have new: "(file, length (nodes_of b)) \<notin> b_seen b" using assms unfolding build_ok_def by fastforce
  have "filter (\<lambda>i. symbol_name ((nodes_of b @ [n]) ! i) = Some s) [0..<length (nodes_of b)]
      = filter (\<lambda>i. symbol_name (nodes_of b ! i) = Some s) [0..<length (nodes_of b)]" for s
    by (rule filter_cong) (auto simp: nth_append)
  then show ?thesis
    using assms new unfolding build_ok_def
    by (auto simp: add_edge_once_def add_node_def split: option.splits) force+
qed

lemma grows_node:
  assumes "build_ok b" "file < length (nodes_of b)"
    "b' = add_edge_once (file, length (nodes_of b)) w (add_node n b)
      \<lparr>b_index := (case symbol_name n of None \<Rightarrow> b_index b | Some s \<Rightarrow> apush s (length (nodes_of b)) (b_index b)),
       b_params := (case k of None \<Rightarrow> b_params b | Some k \<Rightarrow> ainsert (length (nodes_of b)) k (b_params b))\<rparr>"
  shows "grows b b' [n] (star file w (length (nodes_of b)) 1) [k]"
proof -
  have "(file, length (nodes_of b)) \<notin> b_seen b" using assms(1) unfolding build_ok_def by fastforce
  then show ?thesis
    using build_ok_add[OF assms(1,2)] unfolding grows_def assms(3)
    by (auto simp: add_edge_once_def add_node_def star_def split: option.splits)
qed

lemma grows_function:
  assumes "build_ok b" "file < length (nodes_of b)"
  shows "grows b (add_function fp file f b) [Symbol (fi_name f) FunctionKind fp (fi_line f)]
    (star file Contains (length (nodes_of b)) 1) [Some (length (fi_parameters f))]"
  by (rule grows_node[OF assms]) (auto simp: add_function_def Let_def node_count_def add_edge_once_def add_node_def)

lemma grows_class:
  assumes "build_ok b" "file < length (nodes_of b)"
  shows "grows b (add_class fp file c b) [Symbol (ci_name c) ClassKind fp (ci_line c)]
    (star file Contains (length (nodes_of b)) 1) [None]"
  by (rule grows_node[OF assms]) (auto simp: add_class_def Let_def node_count_def add_edge_once_def add_node_def)

lemma grows_import:
  assumes "build_ok b" "file < length (nodes_of b)" "im_module im \<noteq> []"
  shows "grows b (add_import file im b) [Module (im_module im)]
    (star file Imports (length (nodes_of b)) 1) [None]"
  by (rule grows_node[OF assms(1,2)])
    (auto simp: add_import_def Let_def node_count_def add_edge_once_def add_node_def assms(3))

lemma grows_ok: "grows b b' ns es ps \<Longrightarrow> build_ok b' \<and> nodes_of b' = nodes_of b @ ns"
  by (simp add: grows_def)

lemma star_append: "star file w a j @ star file w (a + j) k = star file w a (j + k)"
  using upt_add_eq_append[of a "a + j" k] by (simp add: star_def add.assoc)

lemma grows_fold:
  assumes step: "\<And>b x. build_ok b \<Longrightarrow> file < length (nodes_of b) \<Longrightarrow> P x \<Longrightarrow>
      grows b (f x b) [nd x] (star file w (length (nodes_of b)) 1) [pc x]"
    and skip: "\<And>b x. \<not> P x \<Longrightarrow> f x b = b"
  shows "build_ok b \<Longrightarrow> file < length (nodes_of b) \<Longrightarrow>
    grows b (fold f xs b) (map nd (filter P xs)) (star file w (length (nodes_of b)) (length (filter P xs)))
      (map pc (filter P xs))"
proof (induction xs arbitrary: b)
  case (Cons x xs)
  show ?case
  proof (cases "P x")
    case True
    note g = step[OF Cons.prems True]
    note g' = grows_ok[OF g]
    have "grows (f x b) (fold f xs (f x b)) (map nd (filter P xs))
        (star file w (Suc (length (nodes_of b))) (length (filter P xs))) (map pc (filter P xs))"
      using Cons.IH[of "f x b"] g' Cons.prems by simp
    from grows_trans[OF g this] show ?thesis
      using True star_append[of "file" w "length (nodes_of b)" 1 "length (filter P xs)"] by simp
  qed (use Cons skip in simp)
qed (simp add: grows_refl star_def)

lemma grows_entry:
  assumes "build_ok b"
  shows "grows b (add_entry en b) (entry_nodes en) (tree_edges (length (nodes_of b)) [en]) (entry_params en)"
proof -
  let ?n = "length (nodes_of b)" and ?fp = "fa_path en" and ?sem = "fa_semantic en"
  define b0 where "b0 = add_node (File ?fp) b"
  define b1 where "b1 = fold (add_function ?fp ?n) (sa_functions ?sem) b0"
  define b2 where "b2 = fold (add_class ?fp ?n) (sa_classes ?sem) b1"
  have "filter (\<lambda>i. symbol_name ((nodes_of b @ [File ?fp]) ! i) = Some s) [0..<?n]
      = filter (\<lambda>i. symbol_name (nodes_of b ! i) = Some s) [0..<?n]" for s
    by (rule filter_cong) (auto simp: nth_append)
  then have g0: "grows b b0 [File ?fp] [] [None]"
    using assms by (auto simp: grows_def b0_def add_node_def build_ok_def) force+
  then have n0: "build_ok b0" "?n < length (nodes_of b0)" "length (nodes_of b0) = ?n + 1" by (simp_all add: grows_def)
  have g1: "grows b0 b1 (map (\<lambda>f. Symbol (fi_name f) FunctionKind ?fp (fi_line f)) (sa_functions ?sem))
      (star ?n Contains (?n + 1) (length (sa_functions ?sem)))
      (map (\<lambda>f. Some (length (fi_parameters f))) (sa_functions ?sem))"
    using grows_fold[where f="add_function ?fp ?n" and P="\<lambda>_. True" and xs="sa_functions ?sem", OF grows_function _ n0(1,2)] n0(3)
    by (simp add: b1_def)
  then have n1: "build_ok b1" "?n < length (nodes_of b1)" "length (nodes_of b1) = ?n + 1 + length (sa_functions ?sem)"
    using n0 by (simp_all add: grows_def)
  have g2: "grows b1 b2 (map (\<lambda>c. Symbol (ci_name c) ClassKind ?fp (ci_line c)) (sa_classes ?sem))
      (star ?n Contains (?n + 1 + length (sa_functions ?sem)) (length (sa_classes ?sem)))
      (map (\<lambda>_. None) (sa_classes ?sem))"
    using grows_fold[where f="add_class ?fp ?n" and P="\<lambda>_. True" and xs="sa_classes ?sem", OF grows_class _ n1(1,2)] n1(3)
    by (simp add: b2_def)
  then have n2: "build_ok b2" "?n < length (nodes_of b2)"
    "length (nodes_of b2) = ?n + 1 + length (sa_functions ?sem) + length (sa_classes ?sem)"
    using n1 by (simp_all add: grows_def)
  have skip: "add_import ?n im b' = b'" if "\<not> im_module im \<noteq> []" for im b' using that by (simp add: add_import_def)
  have g3: "grows b2 (fold (add_import ?n) (sa_imports ?sem) b2) (entry_modules en)
      (star ?n Imports (?n + 1 + length (entry_symbols en)) (length (entry_modules en))) (map (\<lambda>_. None) (entry_modules en))"
    using grows_fold[where f="add_import ?n" and P="\<lambda>im. im_module im \<noteq> []" and xs="sa_imports ?sem",
        OF grows_import skip n2(1,2)] n2(3)
    by (simp add: entry_modules_def entry_symbols_def comp_def add.assoc)
  have "add_entry en b = fold (add_import ?n) (sa_imports ?sem) b2"
    by (simp add: add_entry_def b2_def b1_def b0_def Let_def node_count_def)
  then show ?thesis
    using grows_trans[OF g0 grows_trans[OF g1 grows_trans[OF g2 g3]]]
      star_append[of ?n Contains "?n + 1" "length (sa_functions ?sem)" "length (sa_classes ?sem)"]
    by (simp add: entry_nodes_def entry_symbols_def entry_params_def replicate_add map_replicate_const
        append_assoc[symmetric] del: append_assoc)
qed

lemma grows_entries:
  "build_ok b \<Longrightarrow> grows b (fold add_entry ens b) (concat (map entry_nodes ens))
     (tree_edges (length (nodes_of b)) ens) (concat (map entry_params ens))"
proof (induction ens arbitrary: b)
  case (Cons en ens)
  note g = grows_entry[OF Cons.prems, of en]
  then show ?case
    using grows_trans[OF g Cons.IH[of "add_entry en b"]] grows_ok[OF g] by simp
qed (simp add: grows_refl)

lemma build_nodes_grown:
  "grows \<lparr>b_graph = \<lparr>dg_nodes = [], dg_edges = []\<rparr>, b_seen = {}, b_index = [], b_params = []\<rparr> (build_nodes entries)
     (concat (map entry_nodes entries)) (tree_edges 0 entries) (concat (map entry_params entries))"
  using grows_entries[of "\<lparr>b_graph = \<lparr>dg_nodes = [], dg_edges = []\<rparr>, b_seen = {}, b_index = [], b_params = []\<rparr>" entries]
  by (simp add: build_nodes_def build_ok_def)

lemma build_nodes_spec:
  "build_ok (build_nodes entries)" "nodes_of (build_nodes entries) = concat (map entry_nodes entries)"
  "edges_of (build_nodes entries) = tree_edges 0 entries"
  using build_nodes_grown[of entries] by (simp_all add: grows_def)

text \<open>The edges of the first pass leave file nodes, and none of them is a call.\<close>

lemma tree_edges_source:
  "(s, t, w) \<in> set (tree_edges n ens) \<Longrightarrow> w \<noteq> Calls \<and> n \<le> s \<and>
    s - n < length (concat (map entry_nodes ens)) \<and> symbol_name (concat (map entry_nodes ens) ! (s - n)) = None"
proof (induction n ens rule: tree_edges.induct)
  case (2 n en ens)
  show ?case
  proof (cases "(s, t, w) \<in> set (tree_edges (n + length (entry_nodes en)) ens)")
    case True
    then show ?thesis using 2(1) by (auto simp: nth_append)
  next
    case False
    then have "s = n" "w \<noteq> Calls" using 2(2) by (auto simp: star_def)
    then show ?thesis by (simp add: entry_nodes_def)
  qed
qed simp

section \<open>The calls\<close>

lemma add_edge_once_fields [simp]:
  "nodes_of (add_edge_once p w b) = nodes_of b" "b_index (add_edge_once p w b) = b_index b"
  "b_params (add_edge_once p w b) = b_params b" "b_seen (add_edge_once p w b) = insert p (b_seen b)"
  "edges_of (add_edge_once p w b) = edges_of b @ (if p \<in> b_seen b then [] else [(fst p, snd p, w)])"
  by (auto simp: add_edge_once_def)

lemma resolve_candidate_nodes:
  "dg_nodes g = dg_nodes g' \<Longrightarrow> resolve_candidate cs g = resolve_candidate cs g'"
proof -
  assume "dg_nodes g = dg_nodes g'"
  then have "line_distance g = line_distance g'" "in_file g = in_file g'"
    by (auto simp: line_distance_def in_file_def node_at_def node_count_def fun_eq_iff)
  then show ?thesis by (intro ext) (simp only: resolve_candidate_def)
qed

type_synonym call_site = "string \<times> string \<times> string \<times> nat \<times> nat option"

definition site_pair :: "build_state \<Rightarrow> call_site \<Rightarrow> (nat \<times> nat) option" where
  "site_pair b = (\<lambda>(caller, callee, file, line, n). resolve_pair b caller callee file line n)"

definition add_site :: "call_site \<Rightarrow> build_state \<Rightarrow> build_state" where
  "add_site = (\<lambda>(caller, callee, file, line, n). add_resolved_call caller callee file line n)"

lemma site_pair_add_edge: "site_pair (add_edge_once p w b) = site_pair b"
  using resolve_candidate_nodes[of "b_graph (add_edge_once p w b)" "b_graph b"]
  by (auto simp: site_pair_def resolve_pair_def fun_eq_iff Let_def)

lemma add_site_eq: "add_site x b = (case site_pair b x of None \<Rightarrow> b | Some p \<Rightarrow> add_edge_once p Calls b)"
  by (cases x) (simp add: add_site_def site_pair_def add_resolved_call_def)

lemma fold_add_site:
  "edges_of (fold add_site xs b) = edges_of b @ map (\<lambda>(c, e). (c, e, Calls)) (fresh (b_seen b) (List.map_filter (site_pair b) xs)) \<and>
   nodes_of (fold add_site xs b) = nodes_of b \<and> b_index (fold add_site xs b) = b_index b"
proof (induction xs arbitrary: b)
  case (Cons x xs)
  show ?case
  proof (cases "site_pair b x")
    case (Some p)
    then show ?thesis
      using Cons[of "add_edge_once p Calls b"]
      by (cases p) (auto simp: add_site_eq site_pair_add_edge List.map_filter_simps insert_absorb)
  qed (use Cons[of b] in \<open>simp add: add_site_eq List.map_filter_simps\<close>)
qed (simp add: List.map_filter_def)

lemma site_pair_symbols:
  assumes "build_ok b" "site_pair b x = Some (c, e)"
  shows "symbol_name (nodes_of b ! c) \<noteq> None \<and> c < length (nodes_of b) \<and> e < length (nodes_of b)"
proof -
  obtain caller callee f l n where x: "x = (caller, callee, f, l, n)" by (cases x)
  have "c \<in> set (lookups caller (b_index b))" "e \<in> set (lookups callee (b_index b))"
    using assms(2) resolve_candidate_mem unfolding x
    by (auto simp: site_pair_def resolve_pair_def Let_def split: option.splits)
  then show ?thesis using assms(1) by (auto simp: build_ok_def)
qed

lemma calls_spec:
  assumes "s = fold add_site xs (build_nodes entries)"
  shows "nodes_of s = concat (map entry_nodes entries) \<and>
    (\<forall>n. lookups n (b_index s) = filter (\<lambda>i. symbol_name (nodes_of s ! i) = Some n) [0..<length (nodes_of s)]) \<and>
    distinct (map pair_of (edges_of s)) \<and>
    (\<exists>cs. edges_of s = tree_edges 0 entries @ map (\<lambda>(c, e). (c, e, Calls)) cs \<and>
      set cs = {p. \<exists>x\<in>set xs. site_pair (build_nodes entries) x = Some p})"
proof -
  let ?b = "build_nodes entries"
  let ?cs = "fresh (b_seen ?b) (List.map_filter (site_pair ?b) xs)"
  have ok: "build_ok ?b" by (rule build_nodes_spec)
  have sn: "b_seen ?b = pair_of ` set (tree_edges 0 entries)" "distinct (map pair_of (tree_edges 0 entries))"
    using ok unfolding build_ok_def build_nodes_spec by simp_all
  have src: "symbol_name (nodes_of ?b ! c) = None" if "(c, e) \<in> b_seen ?b" for c e
    using that tree_edges_source[of c e _ 0 entries] unfolding sn build_nodes_spec by fastforce
  have "p \<notin> b_seen ?b" if "site_pair ?b x = Some p" for p x
    using site_pair_symbols[OF ok, of x "fst p" "snd p"] that src[of "fst p" "snd p"] by auto
  moreover have "set (List.map_filter f xs) = {p. \<exists>x\<in>set xs. f x = Some p}" for f :: "call_site \<Rightarrow> (nat \<times> nat) option"
    by (force simp: List.map_filter_def)
  ultimately have cs: "set ?cs = {p. \<exists>x\<in>set xs. site_pair ?b x = Some p}"
    unfolding set_fresh by blast
  have e: "edges_of s = tree_edges 0 entries @ map (\<lambda>(c, e). (c, e, Calls)) ?cs"
    "nodes_of s = concat (map entry_nodes entries)" "b_index s = b_index ?b"
    using fold_add_site[of xs ?b] unfolding assms build_nodes_spec by simp_all
  have "distinct (map pair_of (edges_of s))"
    unfolding e using sn by (auto simp: comp_def split_def distinct_map intro!: inj_onI)
  moreover have "\<forall>n. lookups n (b_index s) = filter (\<lambda>i. symbol_name (nodes_of s ! i) = Some n) [0..<length (nodes_of s)]"
    using ok unfolding e build_ok_def build_nodes_spec by simp
  ultimately show ?thesis using e cs by blast
qed

definition analysis_sites :: "file_analysis_output list \<Rightarrow> call_site list" where
  "analysis_sites entries = concat (map (\<lambda>en. map (\<lambda>cl. (ca_caller cl, ca_callee cl, fa_path en, ca_line cl, ca_arg_count cl))
     (sa_calls (fa_semantic en))) entries)"

definition graph_sites :: "(path \<Rightarrow> string) \<Rightarrow> call_graph \<Rightarrow> call_site list" where
  "graph_sites path_str cg = concat (map (\<lambda>(caller, es). map (\<lambda>e. (caller, ce_neighbor e, path_str (ce_path e), ce_line e, None)) es)
     (cg_callees cg))"

lemma fold_concat_map: "fold (\<lambda>x. fold (f x) (g x)) xs s = fold (\<lambda>(x, y). f x y) (concat (map (\<lambda>x. map (Pair x) (g x)) xs)) s"
  by (induction xs arbitrary: s) (simp_all add: fold_map comp_def)

lemma build_from_analysis_sites:
  "build_from_analysis entries =
    (let b = fold add_site (analysis_sites entries) (build_nodes entries) in \<lparr>sg_graph = b_graph b, sg_index = b_index b\<rparr>)"
proof -
  have "fold (\<lambda>en. fold (\<lambda>cl. add_resolved_call (ca_caller cl) (ca_callee cl) (fa_path en) (ca_line cl) (ca_arg_count cl))
      (sa_calls (fa_semantic en))) ens b = fold add_site (analysis_sites ens) b" for ens b
    by (induction ens arbitrary: b) (simp_all add: analysis_sites_def fold_map comp_def add_site_def)
  then show ?thesis by (simp add: build_from_analysis_def Let_def)
qed

lemma from_call_graph_sites:
  "from_call_graph path_str entries cg =
    (let b = fold add_site (graph_sites path_str cg) (build_nodes entries) in \<lparr>sg_graph = b_graph b, sg_index = b_index b\<rparr>)"
proof -
  have "fold (\<lambda>(caller, es). fold (\<lambda>edge. add_resolved_call caller (ce_neighbor edge)
      (path_str (ce_path edge)) (ce_line edge) None) es) m b =
      fold add_site (concat (map (\<lambda>(caller, es). map (\<lambda>e. (caller, ce_neighbor e, path_str (ce_path e), ce_line e, None)) es) m)) b" for m :: edge_map and b
    by (induction m arbitrary: b) (auto simp: fold_map comp_def add_site_def)
  then show ?thesis by (simp add: from_call_graph_def graph_sites_def Let_def)
qed

text \<open>
  The graph of a list of analyses: the nodes of each file in order, an edge from the file to each of
  its symbols and imported modules, and one \<open>Calls\<close> edge for each pair of symbols some call resolves
  to, no pair twice; the index lists the symbols of each name in order.
\<close>

theorem build_from_analysis_spec:
  "let s = build_from_analysis entries; g = sg_graph s in
    dg_nodes g = concat (map entry_nodes entries) \<and>
    lookups n (sg_index s) = filter (\<lambda>i. symbol_name (dg_nodes g ! i) = Some n) [0..<node_count g] \<and>
    distinct (map pair_of (dg_edges g)) \<and>
    (\<exists>cs. dg_edges g = tree_edges 0 entries @ map (\<lambda>(c, e). (c, e, Calls)) cs \<and>
      set cs = {p. \<exists>en\<in>set entries. \<exists>cl\<in>set (sa_calls (fa_semantic en)).
        resolve_pair (build_nodes entries) (ca_caller cl) (ca_callee cl) (fa_path en) (ca_line cl) (ca_arg_count cl) = Some p})"
proof -
  have "(\<exists>x\<in>set (analysis_sites entries). site_pair b x = Some p) \<longleftrightarrow>
      (\<exists>en\<in>set entries. \<exists>cl\<in>set (sa_calls (fa_semantic en)).
        resolve_pair b (ca_caller cl) (ca_callee cl) (fa_path en) (ca_line cl) (ca_arg_count cl) = Some p)" for b p
    by (auto simp: analysis_sites_def site_pair_def)
  then show ?thesis
    using calls_spec[OF refl, of "analysis_sites entries" entries]
    by (simp add: build_from_analysis_sites Let_def node_count_def)
qed

lemma from_call_graph_spec:
  "let s = from_call_graph path_str entries cg; g = sg_graph s in
    dg_nodes g = concat (map entry_nodes entries) \<and>
    lookups n (sg_index s) = filter (\<lambda>i. symbol_name (dg_nodes g ! i) = Some n) [0..<node_count g] \<and>
    distinct (map pair_of (dg_edges g)) \<and>
    (\<exists>cs. dg_edges g = tree_edges 0 entries @ map (\<lambda>(c, e). (c, e, Calls)) cs \<and>
      set cs = {p. \<exists>x\<in>set (graph_sites path_str cg). site_pair (build_nodes entries) x = Some p})"
  using calls_spec[OF refl, of "graph_sites path_str cg" entries]
  by (simp add: from_call_graph_sites Let_def node_count_def)

end
