(* ===== verification/CallGraphProps.thy ===== *)
theory CallGraphProps
  imports CallGraph
begin

text \<open>
  Correctness of the call graph: what the construction records, that symbol resolution agrees with a
  search over all known names, and that the chain search visits exactly the nodes within the depth.
\<close>

section \<open>A small program\<close>

text \<open>\<open>f\<close> calls \<open>G\<close> and \<open>h\<close>, \<open>G\<close> calls \<open>k\<close>, which is not defined.\<close>

definition demo_function :: "string \<Rightarrow> nat \<Rightarrow> function_info" where
  "demo_function n l = \<lparr>fi_name = n, fi_line = l, fi_end_line = l, fi_parameters = [], fi_return_type = None\<rparr>"

definition demo_call :: "string \<Rightarrow> string \<Rightarrow> nat \<Rightarrow> call_info" where
  "demo_call a b l = \<lparr>ca_caller = a, ca_callee = b, ca_line = l, ca_column = 0, ca_arg_count = None\<rparr>"

definition demo_analysis :: semantic_analysis where
  "demo_analysis = \<lparr>sa_functions = [demo_function ''f'' 1, demo_function ''G'' 5, demo_function ''h'' 9],
     sa_classes = [], sa_imports = [], sa_references = [], sa_call_frequency = [],
     sa_calls = [demo_call ''f'' ''x::G'' 2, demo_call ''f'' ''h'' 3, demo_call ''G'' ''k'' 6], sa_impl_traits = [], sa_def_use_sites = []\<rparr>"

definition demo_lower :: "string \<Rightarrow> string" where
  "demo_lower = map (\<lambda>c. if c = CHR ''G'' then CHR ''g'' else c)"

definition demo_file :: path where "demo_file = [Normal ''a.rs'']"

definition demo_graph :: call_graph where
  "demo_graph = build_from_results demo_lower [(demo_file, demo_analysis)] [] False"

section \<open>The chain search\<close>

abbreviation succs :: "edge_map \<Rightarrow> string \<Rightarrow> string list" where
  "succs m u \<equiv> map ce_neighbor (lookups u m)"

abbreviation chains_of :: "edge_map \<Rightarrow> nat \<Rightarrow> bool \<Rightarrow> string \<times> nat \<Rightarrow> chain list" where
  "chains_of m fd inc ud \<equiv> map (build_chain m fd inc (fst ud) (snd ud)) (lookups (fst ud) m)"

lemma edges_loop_eq:
  "edges_loop m fd inc cur d es (V, q, acc) =
    (if d < fd then (V \<union> ce_neighbor ` set es, q @ map (\<lambda>n. (n, Suc d)) (fresh V (map ce_neighbor es)),
       acc @ map (build_chain m fd inc cur d) es)
     else (V, q, acc @ map (build_chain m fd inc cur d) es))"
  by (induction es arbitrary: V q acc) (auto simp: Let_def insert_absorb)

lemma chains_level:
  assumes "d < fd"
  shows "chains_loop m fd inc V (map (\<lambda>x. (x, d)) fr @ map (\<lambda>x. (x, Suc d)) nx) acc =
    chains_loop m fd inc (V \<union> set (concat (map (succs m) fr)))
      (map (\<lambda>x. (x, Suc d)) (nx @ fresh V (concat (map (succs m) fr))))
      (acc @ concat (map (\<lambda>x. chains_of m fd inc (x, d)) fr))"
proof (induction fr arbitrary: V nx acc)
  case (Cons u fr)
  let ?s = "succs m u"
  have "chains_loop m fd inc V (map (\<lambda>x. (x, d)) (u # fr) @ map (\<lambda>x. (x, Suc d)) nx) acc
      = chains_loop m fd inc (V \<union> set ?s) (map (\<lambda>x. (x, d)) fr @ map (\<lambda>x. (x, Suc d)) (nx @ fresh V ?s))
          (acc @ chains_of m fd inc (u, d))"
    using assms by (simp add: edges_loop_eq)
  also have "\<dots> = chains_loop m fd inc ((V \<union> set ?s) \<union> set (concat (map (succs m) fr)))
      (map (\<lambda>x. (x, Suc d)) ((nx @ fresh V ?s) @ fresh (V \<union> set ?s) (concat (map (succs m) fr))))
      ((acc @ chains_of m fd inc (u, d)) @ concat (map (\<lambda>x. chains_of m fd inc (x, d)) fr))"
    by (rule Cons.IH)
  finally show ?case by (simp only: fresh_append Un_assoc append_assoc concat.simps list.map set_append)
qed simp

lemma chains_last_level:
  "chains_loop m fd inc V (map (\<lambda>x. (x, fd)) fr) acc
   = acc @ concat (map (\<lambda>x. chains_of m fd inc (x, fd)) fr)"
  by (induction fr arbitrary: acc) (simp_all add: edges_loop_eq)

definition ranked :: "('a \<Rightarrow> 'a list) \<Rightarrow> 'a \<Rightarrow> nat \<Rightarrow> nat \<Rightarrow> ('a \<times> nat) list" where
  "ranked sc s d fd = concat (map (\<lambda>j. map (\<lambda>x. (x, j)) (snd (level sc [s] j))) [d..<Suc fd])"

lemma chains_from_level:
  "d \<le> fd \<Longrightarrow> level (succs m) [s] d = (V, fr) \<Longrightarrow>
   chains_loop m fd inc V (map (\<lambda>x. (x, d)) fr) acc
   = acc @ concat (map (chains_of m fd inc) (ranked (succs m) s d fd))"
proof (induction "fd - d" arbitrary: d V fr acc)
  case 0
  then have "d = fd" by simp
  then show ?case using 0 chains_last_level[of m fd inc V fr acc] by (simp add: ranked_def comp_def)
next
  case (Suc k)
  then have d: "d < fd" by simp
  let ?nx = "fresh V (concat (map (succs m) fr))"
  have l: "level (succs m) [s] (Suc d) = (V \<union> set ?nx, ?nx)" using Suc.prems by (simp add: Let_def)
  have "V \<union> set (concat (map (succs m) fr)) = V \<union> set ?nx" by auto
  then have "chains_loop m fd inc V (map (\<lambda>x. (x, d)) fr) acc
      = chains_loop m fd inc (V \<union> set ?nx) (map (\<lambda>x. (x, Suc d)) ?nx)
          (acc @ concat (map (\<lambda>x. chains_of m fd inc (x, d)) fr))"
    using chains_level[OF d, of m inc V fr "[]" acc] by simp
  also have "\<dots> = (acc @ concat (map (\<lambda>x. chains_of m fd inc (x, d)) fr))
      @ concat (map (chains_of m fd inc) (ranked (succs m) s (Suc d) fd))"
    using Suc.hyps(1)[of "Suc d" "V \<union> set ?nx" ?nx] Suc.hyps(2) d l by simp
  also have "ranked (succs m) s d fd = map (\<lambda>x. (x, d)) fr @ ranked (succs m) s (Suc d) fd"
    using d Suc.prems by (simp add: ranked_def upt_conv_Cons del: upt_Suc)
  ultimately show ?case by (simp add: comp_def)
qed

lemma ranked_fst: "map fst (ranked sc s 0 fd) = concat (levels sc [s] fd)"
  by (simp add: ranked_def levels_def map_concat comp_def del: upt_Suc)

lemma ranked_rank:
  assumes "(u, d) \<in> set (ranked sc s 0 fd)"
  shows "d \<le> fd \<and> u \<in> within sc d {s} \<and> (\<forall>j<d. u \<notin> within sc j {s})"
proof -
  have d: "d \<le> fd" "u \<in> set (snd (level sc [s] d))" using assms by (auto simp: ranked_def simp del: upt_Suc)
  note l = level_inv[of sc "[s]" d, OF prod.collapse[symmetric]]
  have "u \<in> within sc d {s}" using d(2) l by auto
  moreover have "u \<notin> within sc j {s}" if "j < d" for j
  proof (cases d)
    case (Suc i)
    then have "u \<notin> within sc i {s}" using d(2) l by auto
    then show ?thesis using within_mono[of j i sc "{s}"] that Suc by auto
  qed (use that in simp)
  ultimately show ?thesis using d by blast
qed

lemma extend_chain_length:
  "length chain \<le> length (extend_chain m fd node d chain) \<and>
   length (extend_chain m fd node d chain) \<le> length chain + (fd - d)"
proof (induction m fd node d chain rule: extend_chain.induct)
  case (1 m fd node d chain)
  then show ?case
    by (subst (1 2) extend_chain.simps) (force split: option.splits list.splits)
qed

lemma extend_chain_prefix: "prefix chain (extend_chain m fd node d chain)"
proof (induction m fd node d chain rule: extend_chain.induct)
  case (1 m fd node d chain)
  then show ?case
    by (subst extend_chain.simps) (auto split: option.splits list.splits simp: prefix_def)
qed

text \<open>
  C13. The search visits every node within the follow depth exactly once, in order of its distance from
  the symbol, and reports one chain for each of its edges: nothing in range is missed, nothing beyond
  it is reported, and cycles do not repeat a node.
\<close>

theorem chains_complete:
  assumes "find_chains_bfs g symbol fd inc = Inr cs"
  shows "let m = (if inc then cg_callers g else cg_callees g) in
    \<exists>nodes. cs = concat (map (chains_of m fd inc) nodes) \<and> distinct (map fst nodes) \<and>
      (\<forall>u. u \<in> fst ` set nodes \<longleftrightarrow>
        (\<exists>j\<le>fd. (symbol, u) \<in> {(a, b). \<exists>e\<in>set (lookups a m). ce_neighbor e = b} ^^ j)) \<and>
      (\<forall>(u, d)\<in>set nodes. d = (LEAST j. u \<in> within (succs m) j {symbol}))"
proof -
  define m where "m = (if inc then cg_callers g else cg_callees g)"
  let ?nodes = "ranked (succs m) symbol 0 fd"
  have "cs = chains_loop m fd inc {symbol} [(symbol, 0)] []"
    using assms by (auto simp: find_chains_bfs_def m_def Let_def split: if_splits)
  then have cs: "cs = concat (map (chains_of m fd inc) ?nodes)"
    using chains_from_level[of 0 fd m symbol "{symbol}" "[symbol]" inc "[]"] by simp
  have "distinct (map fst ?nodes)" unfolding ranked_fst by (rule levels_distinct) simp
  moreover have st: "fst ` set ?nodes = within (succs m) fd {symbol}"
    using levels_set[of "succs m" "[symbol]" fd] unfolding ranked_fst[symmetric] by simp
  moreover have "{(a, b). b \<in> set (succs m a)} = {(a, b). \<exists>e\<in>set (lookups a m). ce_neighbor e = b}" by auto
  ultimately have "\<forall>u. u \<in> fst ` set ?nodes \<longleftrightarrow>
        (\<exists>j\<le>fd. (symbol, u) \<in> {(a, b). \<exists>e\<in>set (lookups a m). ce_neighbor e = b} ^^ j)"
    unfolding st within_relpow by simp
  moreover have "d = (LEAST j. u \<in> within (succs m) j {symbol})" if "(u, d) \<in> set ?nodes" for u d
    using ranked_rank[OF that] by (intro Least_equality[symmetric]) (auto simp: not_less[symmetric])
  ultimately show ?thesis using cs \<open>distinct (map fst ?nodes)\<close>
    unfolding m_def[symmetric] Let_def by blast
qed

theorem chains_complete_witness:
  "\<exists>cs nodes. find_chains_bfs demo_graph ''f'' 1 False = Inr cs \<and>
    cs = concat (map (chains_of (cg_callees demo_graph) 1 False) nodes) \<and> distinct (map fst nodes)"
proof -
  have s: "alookup ''f'' (cg_definitions demo_graph) \<noteq> None" by code_simp
  obtain cs where cs: "find_chains_bfs demo_graph ''f'' 1 False = Inr cs"
    using s unfolding find_chains_bfs_def Let_def by auto
  then show ?thesis using chains_complete[OF cs] by (auto simp: Let_def)
qed

text \<open>
  Every chain has at least its two ends and at most \<open>follow_depth + 2\<close> entries; an incoming chain
  starts with the neighbor and ends with the node searched from, an outgoing one the other way round.
\<close>

theorem chain_shape:
  assumes "find_chains_bfs g symbol fd inc = Inr cs" "c \<in> set cs"
  shows "2 \<le> length c \<and> length c \<le> fd + 2 \<and>
    (\<exists>u e. e \<in> set (lookups u (if inc then cg_callers g else cg_callees g)) \<and>
      (let near = (u, ce_path e, ce_line e); far = (ce_neighbor e, ce_path e, ce_line e) in
        if inc then hd c = far \<and> last c = near else hd c = near \<and> last c = far))"
proof -
  define m where "m = (if inc then cg_callers g else cg_callees g)"
  have "cs = chains_loop m fd inc {symbol} [(symbol, 0)] []"
    using assms by (auto simp: find_chains_bfs_def m_def Let_def split: if_splits)
  then have "cs = concat (map (chains_of m fd inc) (ranked (succs m) symbol 0 fd))"
    using chains_from_level[of 0 fd m symbol "{symbol}" "[symbol]" inc "[]"] by simp
  then obtain u d e where e: "e \<in> set (lookups u m)" "c = build_chain m fd inc u d e"
    using assms(2) by auto
  let ?near = "(u, ce_path e, ce_line e)" and ?far = "(ce_neighbor e, ce_path e, ce_line e)"
  let ?x = "extend_chain m fd (ce_neighbor e) d [?near]"
  have len: "1 \<le> length ?x" "length ?x \<le> 1 + fd"
    using extend_chain_length[of "[?near]" m fd "ce_neighbor e" d] by auto
  obtain ys where ys: "?x = ?near # ys"
    using extend_chain_prefix[of "[?near]" m fd "ce_neighbor e" d] by (auto simp: prefix_def)
  have c: "c = (if inc then ?far # rev ?x else ?x @ [?far])" using e(2) by (simp add: build_chain_def Let_def)
  have "hd c = (if inc then ?far else ?near)" "last c = (if inc then ?near else ?far)"
    "length c = Suc (length ?x)"
    unfolding c ys by auto
  then show ?thesis using len e(1) unfolding m_def[symmetric] by (auto simp: Let_def)
qed

theorem chain_shape_witness:
  "find_chains_bfs demo_graph ''k'' 1 True =
     Inr [[(''G'', demo_file, 6), (''f'', demo_file, 2), (''k'', demo_file, 6)],
          [(''f'', demo_file, 2), (''G'', demo_file, 2)]] \<and>
   length [(''f'', demo_file, 2::nat), (''G'', demo_file, 2)] \<le> 1 + 2"
proof -
  have cs: "find_chains_bfs demo_graph ''k'' 1 True =
      Inr [[(''G'', demo_file, 6), (''f'', demo_file, 2), (''k'', demo_file, 6)],
           [(''f'', demo_file, 2), (''G'', demo_file, 2)]]" by code_simp
  show ?thesis using chain_shape[OF cs, of "[(''f'', demo_file, 2), (''G'', demo_file, 2)]"] cs by simp
qed

text \<open>
  The focused report counts as callees the distinct first names of the outgoing chains, which are the
  callers: at depth 0 the count is 1 for a function with two callees. At depth 1 an arrow of the report
  joins \<open>f\<close> to \<open>k\<close>, which \<open>f\<close> does not call.
\<close>

theorem callee_count_and_arrow_wrong:
  "find_outgoing_chains demo_graph ''f'' 0 =
     Inr [[(''f'', demo_file, 2), (''G'', demo_file, 2)], [(''f'', demo_file, 3), (''h'', demo_file, 3)]] \<and>
   unique_first_count [[(''f'', demo_file, 2), (''G'', demo_file, 2)], [(''f'', demo_file, 3), (''h'', demo_file, 3)]] = 1 \<and>
   map_option (\<lambda>cs. chain_arrow (hd cs)) (case find_outgoing_chains demo_graph ''f'' 1 of Inl _ \<Rightarrow> None | Inr cs \<Rightarrow> Some cs)
     = Some (Some (''f'', ''k'')) \<and>
   map ce_neighbor (lookups ''f'' (cg_callees demo_graph)) = [''G'', ''h'']"
proof (intro conjI)
  show "unique_first_count [[(''f'', demo_file, 2), (''G'', demo_file, 2)], [(''f'', demo_file, 3), (''h'', demo_file, 3)]] = 1"
    by (simp add: unique_first_count_def first_names_def)
qed code_simp+

section \<open>Construction\<close>

definition definitions_of :: "string \<Rightarrow> path \<times> semantic_analysis \<Rightarrow> (path \<times> nat) list" where
  "definitions_of n r =
     [(fst r, fi_line x). x \<leftarrow> sa_functions (snd r), fi_name x = n] @
     [(fst r, ci_line x). x \<leftarrow> sa_classes (snd r), ci_name x = n]"

definition defined_names :: "(path \<times> semantic_analysis) list \<Rightarrow> string set" where
  "defined_names rs = (\<Union>r\<in>set rs. fi_name ` set (sa_functions (snd r)) \<union> ci_name ` set (sa_classes (snd r)))"

text \<open>What a call resolves to: a defined name as it is, or without its scope, or the name as written.\<close>

definition callee_of :: "string set \<Rightarrow> call_info \<Rightarrow> string" where
  "callee_of D c =
     (if ca_callee c \<in> D then ca_callee c
      else if strip_scope_prefix (ca_callee c) \<in> D then strip_scope_prefix (ca_callee c)
      else ca_callee c)"

definition call_edge_to :: "string set \<Rightarrow> path \<Rightarrow> call_info \<Rightarrow> call_edge" where
  "call_edge_to D p c = \<lparr>ce_path = p, ce_line = ca_line c, ce_neighbor = callee_of D c, ce_is_impl = False\<rparr>"

definition caller_edges :: "string set \<Rightarrow> string \<Rightarrow> path \<times> semantic_analysis \<Rightarrow> call_edge list" where
  "caller_edges D n r =
     [\<lparr>ce_path = fst r, ce_line = ca_line c, ce_neighbor = ca_caller c, ce_is_impl = False\<rparr>.
        c \<leftarrow> sa_calls (snd r), callee_of D c = n] @
     [\<lparr>ce_path = fst r, ce_line = ri_line x, ce_neighbor = ''<reference>'', ce_is_impl = False\<rparr>.
        x \<leftarrow> sa_references (snd r), ri_symbol x = n]"

definition impl_edges :: "string \<Rightarrow> impl_trait_info list \<Rightarrow> call_edge list" where
  "impl_edges n its =
     [\<lparr>ce_path = it_path i, ce_line = it_line i, ce_neighbor = it_impl_type i, ce_is_impl = True\<rparr>.
        i \<leftarrow> its, it_trait_name i = n]"

lemma comp_filter: "concat (map (\<lambda>x. if P x then [f x] else []) xs) = map f (filter P xs)"
  by (induction xs) auto

lemma fold_definitions:
  "lookups n (cg_definitions (fold add_definitions rs g))
     = lookups n (cg_definitions g) @ concat (map (definitions_of n) rs) \<and>
   akeys (cg_definitions (fold add_definitions rs g)) = akeys (cg_definitions g) \<union> defined_names rs \<and>
   cg_callers (fold add_definitions rs g) = cg_callers g \<and> cg_callees (fold add_definitions rs g) = cg_callees g"
proof (induction rs arbitrary: g)
  case (Cons r rs)
  show ?case using Cons[of "add_definitions r g"]
    by (cases r) (auto simp: add_definitions_def Let_def lookups_fold_apush akeys_fold_apush
        definitions_of_def comp_filter defined_names_def)
qed (simp add: defined_names_def)

lemma resolve_callee_eq: "resolve_callee (ca_callee c) m = callee_of (akeys m) c"
  by (auto simp: resolve_callee_def callee_of_def akeys_iff Let_def)

lemma fold_add_call:
  "cg_definitions (fold (add_call p) cs g) = cg_definitions g \<and>
   cg_callees (fold (add_call p) cs g)
     = fold (\<lambda>c. apush (ca_caller c) (call_edge_to (akeys (cg_definitions g)) p c)) cs (cg_callees g) \<and>
   cg_callers (fold (add_call p) cs g)
     = fold (\<lambda>c. apush (callee_of (akeys (cg_definitions g)) c)
         \<lparr>ce_path = p, ce_line = ca_line c, ce_neighbor = ca_caller c, ce_is_impl = False\<rparr>) cs (cg_callers g)"
  by (induction cs arbitrary: g) (auto simp: add_call_def Let_def resolve_callee_eq call_edge_to_def)

lemma fold_add_reference:
  "cg_definitions (fold (add_reference p) rs g) = cg_definitions g \<and>
   cg_callees (fold (add_reference p) rs g) = cg_callees g \<and>
   cg_callers (fold (add_reference p) rs g)
     = fold (\<lambda>r. apush (ri_symbol r)
         \<lparr>ce_path = p, ce_line = ri_line r, ce_neighbor = ''<reference>'', ce_is_impl = False\<rparr>) rs (cg_callers g)"
  by (induction rs arbitrary: g) (auto simp: add_reference_def)

lemma fold_add_calls:
  "cg_definitions (fold add_calls rs g) = cg_definitions g \<and>
   lookups n (cg_callees (fold add_calls rs g)) = lookups n (cg_callees g) @
     concat (map (\<lambda>r. [call_edge_to (akeys (cg_definitions g)) (fst r) c. c \<leftarrow> sa_calls (snd r), ca_caller c = n]) rs) \<and>
   lookups n (cg_callers (fold add_calls rs g)) = lookups n (cg_callers g) @
     concat (map (caller_edges (akeys (cg_definitions g)) n) rs)"
proof (induction rs arbitrary: g)
  case (Cons r rs)
  obtain p a where r: "r = (p, a)" by (cases r)
  show ?case using Cons[of "add_calls r g"]
    by (simp add: r add_calls_def fold_add_reference fold_add_call lookups_fold_apush comp_filter caller_edges_def)
qed simp

lemma fold_add_impl:
  "cg_definitions (fold add_impl its g) = cg_definitions g \<and> cg_callees (fold add_impl its g) = cg_callees g \<and>
   lookups n (cg_callers (fold add_impl its g)) = lookups n (cg_callers g) @ impl_edges n its"
  by (induction its arbitrary: g) (auto simp: add_impl_def impl_edges_def)

lemma lookups_map_filter: "lookups n (map (\<lambda>(k, es). (k, filter P es)) m) = filter P (lookups n m)"
  by (induction m) (auto simp: lookups_def)

lemma build_lowercase_fields:
  "cg_definitions (build_lowercase lower g) = cg_definitions g"
  "cg_callers (build_lowercase lower g) = cg_callers g" "cg_callees (build_lowercase lower g) = cg_callees g"
  by (simp_all add: build_lowercase_def Let_def)

text \<open>
  The graph is the list of everything the analyses say, in order: definitions of each name; for each
  caller its calls with the callee resolved; for each callee its callers and references, then the
  implementors. With \<open>impl_only\<close> the caller side keeps the implementors only, the callee side all.
\<close>

theorem build_graph_spec:
  "let g = build_from_results lower rs its impl_only; D = defined_names rs in
    lookups n (cg_definitions g) = concat (map (definitions_of n) rs) \<and>
    lookups n (cg_callees g) = concat (map (\<lambda>r. [call_edge_to D (fst r) c. c \<leftarrow> sa_calls (snd r), ca_caller c = n]) rs) \<and>
    lookups n (cg_callers g) =
      (if impl_only then [] else concat (map (caller_edges D n) rs)) @ impl_edges n its"
proof -
  let ?g1 = "fold add_definitions rs cg_new"
  have d: "cg_callers ?g1 = []" "cg_callees ?g1 = []" "akeys (cg_definitions ?g1) = defined_names rs"
    "lookups n (cg_definitions ?g1) = concat (map (definitions_of n) rs)"
    using fold_definitions[of n rs cg_new] by (simp_all add: cg_new_def)
  have f1: "filter ce_is_impl (caller_edges D n r) = []" for D r
    by (auto simp: caller_edges_def filter_concat comp_filter filter_empty_conv)
  have f2: "filter ce_is_impl (impl_edges n its) = impl_edges n its"
    by (auto simp: impl_edges_def comp_filter filter_id_conv)
  have "filter ce_is_impl (concat (map (caller_edges D n) rs)) = []" for D
    using f1 by (simp add: filter_concat comp_def)
  moreover have "cg_definitions (fold add_calls rs ?g1) = cg_definitions ?g1 \<and>
      lookups n (cg_callees (fold add_calls rs ?g1)) =
        concat (map (\<lambda>r. [call_edge_to (defined_names rs) (fst r) c. c \<leftarrow> sa_calls (snd r), ca_caller c = n]) rs) \<and>
      lookups n (cg_callers (fold add_calls rs ?g1)) = concat (map (caller_edges (defined_names rs) n) rs)"
    using fold_add_calls[of rs ?g1 n] unfolding d by simp
  ultimately show ?thesis
    using d(4) f2 fold_add_impl[of its "fold add_calls rs ?g1" n]
    by (simp add: build_from_results_def Let_def build_lowercase_fields retain_impl_def lookups_map_filter)
qed

section \<open>Resolution\<close>

definition known_names :: "call_graph \<Rightarrow> string set" where
  "known_names g = akeys (cg_definitions g) \<union> akeys (cg_callers g) \<union> akeys (cg_callees g)"

lemma sort_distinct: "distinct xs \<Longrightarrow> sort xs = sorted_list_of_set (set (xs::'a::linorder list))"
  by (simp add: sorted_list_of_set_sort_remdups distinct_remdups_id)

lemma alookup_map: "alookup k (map (\<lambda>(k, v). (k, f v)) m) = map_option f (alookup k m)"
  by (induction m) auto

definition lower_index :: "(string \<Rightarrow> string) \<Rightarrow> string list \<Rightarrow> (string \<times> string list) list" where
  "lower_index lower ks = map (\<lambda>(k, os). (k, remdups_adj (sort os))) (fold (\<lambda>k. apush (lower k) k) ks [])"

lemma lower_index_mem:
  "(L, os) \<in> set (lower_index lower ks) \<longleftrightarrow>
   L \<in> lower ` set ks \<and> os = sorted_list_of_set {k \<in> set ks. lower k = L}"
proof -
  let ?idx = "fold (\<lambda>k. apush (lower k) k) ks []"
  have d: "distinct (map fst ?idx)" by (rule distinct_fold_apush[of "[]" lower "\<lambda>k. k"]) simp
  have l: "lookups L ?idx = filter (\<lambda>k. lower k = L) ks" using lookups_fold_apush[of L lower "\<lambda>k. k" ks "[]"] by simp
  have k: "akeys ?idx = lower ` set ks" using akeys_fold_apush[of lower "\<lambda>k. k" ks "[]"] by simp
  have "(L, os) \<in> set (lower_index lower ks) \<longleftrightarrow> (\<exists>v. alookup L ?idx = Some v \<and> os = remdups_adj (sort v))"
    by (auto simp: lower_index_def mem_alist_lookups[OF d, symmetric] intro: rev_image_eqI)
  also have "\<dots> \<longleftrightarrow> L \<in> lower ` set ks \<and> os = sorted_list_of_set {k \<in> set ks. lower k = L}"
    using l unfolding k[symmetric] akeys_iff by (auto simp: lookups_def dedup_sorted split: option.splits)
  finally show ?thesis .
qed

lemma lower_index_lookup:
  "alookup L (lower_index lower ks) =
    (if L \<in> lower ` set ks then Some (sorted_list_of_set {k \<in> set ks. lower k = L}) else None)"
proof -
  have "alookup L (lower_index lower ks) = None \<longleftrightarrow> L \<notin> lower ` set ks"
    unfolding alookup_None_iff using lower_index_mem[of L _ lower ks] by (force simp: image_iff)
  moreover have "alookup L (lower_index lower ks) = Some os \<Longrightarrow>
      os = sorted_list_of_set {k \<in> set ks. lower k = L}" for os
    using alookup_Some_in lower_index_mem by metis
  ultimately show ?thesis by (cases "alookup L (lower_index lower ks)") auto
qed

lemma lower_index_matches:
  "set (concat (map snd (filter (\<lambda>(k, _). P k) (lower_index lower ks)))) = {k \<in> set ks. P (lower k)}"
proof -
  have "x \<in> set (concat (map snd (filter (\<lambda>(k, _). P k) (lower_index lower ks)))) \<longleftrightarrow>
      (\<exists>L os. (L, os) \<in> set (lower_index lower ks) \<and> P L \<and> x \<in> set os)" for x by force
  then show ?thesis unfolding lower_index_mem by fastforce
qed

lemma build_lowercase_index:
  "\<exists>ks. cg_lowercase (build_lowercase lower g) = lower_index lower ks \<and> set ks = known_names g"
proof (intro exI conjI)
  let ?ks = "map fst (cg_definitions g) @ map fst (cg_callers g) @ map fst (cg_callees g)"
  show "cg_lowercase (build_lowercase lower g) = lower_index lower ?ks"
    by (simp add: build_lowercase_def lower_index_def Let_def)
  show "set ?ks = known_names g" by (simp add: known_names_def akeys_def Un_assoc)
qed

lemma pick_one_eq: "pick_one q xs = (case sorted_list_of_set (set xs) of
    [] \<Rightarrow> Inl (SymbolNotFound q no_match_hint) | [s] \<Rightarrow> Inr s | ms \<Rightarrow> Inl (MultipleCandidates q ms))"
  by (simp add: pick_one_def dedup_sorted)

lemma resolve_symbol_eq: "distinct ks \<Longrightarrow> resolve_symbol lower ks q mode =
    (case sorted_list_of_set {k \<in> set ks. name_matches lower mode q k} of
       [] \<Rightarrow> Inl (SymbolNotFound q (if mode = Exact then exact_hint else no_match_hint))
     | [s] \<Rightarrow> Inr s | ms \<Rightarrow> Inl (MultipleCandidates q ms))"
  by (simp add: resolve_symbol_def sort_distinct)

text \<open>
  C14. The indexed resolution gives what filtering all known names gives, in every mode: the one match,
  the sorted candidates, or the not-found error with its hint.
\<close>

theorem resolve_indexed_eq:
  assumes "g = build_from_results lower rs its impl_only" "distinct ks" "set ks = known_names g"
  shows "resolve_symbol_indexed lower g q mode = resolve_symbol lower ks q mode"
proof -
  obtain g0 where "g = build_lowercase lower g0" using assms(1) by (auto simp: build_from_results_def Let_def)
  moreover from this have "known_names g0 = set ks"
    using assms(3) by (simp add: known_names_def build_lowercase_fields)
  ultimately obtain ns where ns: "cg_lowercase g = lower_index lower ns" "set ns = set ks"
    using build_lowercase_index by metis
  have known: "x \<in> set ks \<longleftrightarrow> alookup x (cg_definitions g) \<noteq> None \<or> alookup x (cg_callers g) \<noteq> None
      \<or> alookup x (cg_callees g) \<noteq> None" for x
    using assms(3) by (simp add: known_names_def akeys_iff)
  let ?S = "{k \<in> set ks. name_matches lower mode q k}"
  show ?thesis
  proof (cases mode)
    case Exact
    have "?S = (if q \<in> set ks then {q} else {})" using Exact by (auto simp: name_matches_def)
    then show ?thesis using Exact known[of q]
      by (simp add: resolve_symbol_indexed_def resolve_symbol_eq[OF assms(2)] del: not_None_eq)
  next
    case Insensitive
    have S: "?S = {k \<in> set ks. lower k = lower q}" using Insensitive by (auto simp: name_matches_def)
    show ?thesis
    proof (cases "lower q \<in> lower ` set ks")
      case True
      then have ne: "sorted_list_of_set ?S \<noteq> []" unfolding S by (auto simp: image_iff)
      have "resolve_symbol_indexed lower g q mode =
          (if length (sorted_list_of_set ?S) > 1 then Inl (MultipleCandidates q (sorted_list_of_set ?S))
           else Inr (hd (sorted_list_of_set ?S)))"
        unfolding S using Insensitive True
        by (simp add: resolve_symbol_indexed_def ns lower_index_lookup pick_one_def
            del: length_sorted_list_of_set sorted_list_of_set.length_sorted_key_list_of_set)
      moreover obtain x xs where "sorted_list_of_set ?S = x # xs" using ne by (cases "sorted_list_of_set ?S") auto
      ultimately show ?thesis by (cases xs) (simp_all add: resolve_symbol_eq[OF assms(2)])
    next
      case False
      have S0: "?S = {}" unfolding S using False by (auto simp: image_iff)
      show ?thesis
        using Insensitive ns False
        by (simp add: S0[unfolded Insensitive] resolve_symbol_indexed_def resolve_symbol_eq[OF assms(2)] lower_index_lookup pick_one_def)
    qed
  next
    case PrefixMode
    then show ?thesis
      by (simp add: resolve_symbol_indexed_def resolve_symbol_eq[OF assms(2)] pick_one_eq ns
          lower_index_matches[of "prefix (lower q)"] name_matches_def del: set_concat)
  next
    case ContainsMode
    then show ?thesis
      by (simp add: resolve_symbol_indexed_def resolve_symbol_eq[OF assms(2)] pick_one_eq ns
          lower_index_matches[of "\<lambda>k. str_contains k (lower q)"] name_matches_def del: set_concat)
  qed
qed

theorem resolve_indexed_witness:
  "resolve_symbol_indexed demo_lower demo_graph ''g'' Insensitive = Inr ''G'' \<and>
   resolve_symbol demo_lower [''f'', ''G'', ''h'', ''k''] ''g'' Insensitive = Inr ''G''"
proof -
  have d: "distinct [''f'', ''G'', ''h'', ''k'']" by simp
  have k: "set [''f'', ''G'', ''h'', ''k''] = known_names demo_graph"
    unfolding known_names_def akeys_def by code_simp
  have "resolve_symbol demo_lower [''f'', ''G'', ''h'', ''k''] ''g'' Insensitive = Inr ''G''" by code_simp
  then show ?thesis using resolve_indexed_eq[OF demo_graph_def d k, of "''g''" Insensitive] by (simp only: simp_thms)
qed

end
