(* ===== verification/BlastRadius.thy ===== *)
theory BlastRadius
  imports StructuralProps CallGraphProps
begin

text \<open>
  Correctness of the blast-radius traversals of the structural graph: the forward one returns exactly
  the nodes within the depth, the bidirectional one the nodes within the depth along calls in either
  direction unless it is cut at the node limit; both return the edges between those nodes.
\<close>

section \<open>Forward\<close>

lemma visit_neighbors_eq:
  "visit_neighbors nbs (V, r, nx) = (V \<union> set nbs, r @ fresh V nbs, nx @ fresh V nbs)"
  by (induction nbs arbitrary: V r nx) (auto simp: insert_absorb)

lemma fold_visit:
  "fold (\<lambda>u. visit_neighbors (nbs u)) fr (V, r, nx) =
    (V \<union> set (concat (map nbs fr)), r @ fresh V (concat (map nbs fr)), nx @ fresh V (concat (map nbs fr)))"
  by (induction fr arbitrary: V r nx) (simp_all add: visit_neighbors_eq fresh_append Un_assoc)

lemma level_empty: "level sc st d = (V, []) \<Longrightarrow> level sc st (d + k) = (V, [])"
  by (induction k) (auto simp: Let_def)

lemma bfs_loop_levels:
  "level sc [s] d = (V, fr) \<Longrightarrow>
   bfs_loop sc k fr V r = (within sc (d + k) {s}, r @ concat (map (\<lambda>j. snd (level sc [s] j)) [Suc d..<Suc (d + k)]))"
proof (induction k arbitrary: d V fr r)
  case 0
  then show ?case using level_inv[OF 0] by simp
next
  case (Suc k)
  show ?case
  proof (cases "fr = []")
    case True
    then have e: "level sc [s] (d + j) = (V, [])" for j using level_empty Suc.prems by metis
    have "V = within sc (d + Suc k) {s}" using level_inv[OF e[of "Suc k"]] by (simp del: within.simps)
    moreover have "snd (level sc [s] j) = []" if "j \<in> set [Suc d..<Suc (d + Suc k)]" for j
      using e[of "j - d"] that by (auto simp del: upt_Suc)
    then have "concat (map (\<lambda>j. snd (level sc [s] j)) [Suc d..<Suc (d + Suc k)]) = []"
      by (simp add: concat_eq_Nil_conv del: upt_Suc)
    ultimately show ?thesis using True by simp
  next
    case False
    let ?nx = "fresh V (concat (map sc fr))"
    have l: "level sc [s] (Suc d) = (V \<union> set ?nx, ?nx)" using Suc.prems by (simp add: Let_def)
    have "V \<union> set (concat (map sc fr)) = V \<union> set ?nx" by auto
    then have "bfs_loop sc (Suc k) fr V r = bfs_loop sc k ?nx (V \<union> set ?nx) (r @ ?nx)"
      using False fold_visit[of sc fr V r "[]"] by simp
    also have "\<dots> = (within sc (Suc d + k) {s},
        (r @ ?nx) @ concat (map (\<lambda>j. snd (level sc [s] j)) [Suc (Suc d)..<Suc (Suc d + k)]))"
      by (rule Suc.IH[OF l])
    finally show ?thesis using l by (simp add: upt_conv_Cons del: upt_Suc)
  qed
qed

lemma bfs_frontier_levels:
  "\<exists>t. bfs_frontier order g start depth = (within (neighbors order g) depth {start}, t) \<and>
     start # t = concat (levels (neighbors order g) [start] depth)"
  using bfs_loop_levels[of "neighbors order g" start 0 "{start}" "[start]" depth "[]"]
  by (simp add: bfs_frontier_def levels_def upt_conv_Cons[of 0] del: upt_Suc)

text \<open>
  C16. The nodes are the ones at most \<open>depth\<close> edges away from the first symbol of that name, each once and
  that symbol first, whatever the order in which the graph lists the edges of a node; the edges are
  all edges between them.
\<close>

theorem blast_radius_spec:
  assumes "\<And>xs. set (order xs) = set xs"
    and "blast_radius_subgraph order s symbol depth = Inr (nodes, es)"
  shows "distinct nodes \<and> first_symbol s symbol = Some (hd nodes) \<and>
    (\<forall>u. u \<in> set nodes \<longleftrightarrow>
      (\<exists>j\<le>depth. (hd nodes, u) \<in> {(a, b). \<exists>w. (a, b, w) \<in> set (dg_edges (sg_graph s))} ^^ j)) \<and>
    es = filter (\<lambda>(a, b, _). a \<in> set nodes \<and> b \<in> set nodes) (dg_edges (sg_graph s))"
proof -
  let ?n = "neighbors order (sg_graph s)"
  obtain start where start: "first_symbol s symbol = Some start"
    using assms(2) by (auto simp: blast_radius_subgraph_def split: option.splits)
  obtain t where t: "bfs_frontier order (sg_graph s) start depth = (within ?n depth {start}, t)"
    "start # t = concat (levels ?n [start] depth)" using bfs_frontier_levels by blast
  then have n: "nodes = start # t" "es = induced_edges (sg_graph s) (within ?n depth {start})"
    using assms(2) start by (auto simp: blast_radius_subgraph_def)
  have s: "set nodes = within ?n depth {start}" unfolding n(1) t(2) levels_set by simp
  have "{(a, b). b \<in> set (?n a)} = {(a, b). \<exists>w. (a, b, w) \<in> set (dg_edges (sg_graph s))}"
    by (force simp: neighbors_def edges_out_def assms(1))
  note steps = this
  have "u \<in> set nodes \<longleftrightarrow>
      (\<exists>j\<le>depth. (hd nodes, u) \<in> {(a, b). \<exists>w. (a, b, w) \<in> set (dg_edges (sg_graph s))} ^^ j)" for u
  proof -
    have "u \<in> set nodes \<longleftrightarrow> (\<exists>x\<in>{start}. \<exists>j\<le>depth. (x, u) \<in> {(a, b). b \<in> set (?n a)} ^^ j)"
      unfolding s by (rule within_relpow)
    then show ?thesis unfolding steps n(1) by simp
  qed
  moreover have "distinct nodes" unfolding n(1) t(2) by (rule levels_distinct) simp
  moreover have "es = filter (\<lambda>(a, b, _). a \<in> set nodes \<and> b \<in> set nodes) (dg_edges (sg_graph s))"
    unfolding n(2) induced_edges_def s ..
  moreover have "first_symbol s symbol = Some (hd nodes)" using start n(1) by simp
  ultimately show ?thesis by blast
qed

section \<open>Bidirectional\<close>

lemma take_new_eq:
  "length r < m \<Longrightarrow> take_new m ok cs (V, r, nx) =
    (let F = take (m - length r) (fresh V (filter ok cs)) in (V \<union> set F, r @ F, nx @ F))"
proof (induction cs arbitrary: V r nx)
  case (Cons c cs)
  show ?case
  proof (cases "ok c \<and> c \<notin> V")
    case True
    then have f: "fresh V (filter ok (c # cs)) = c # fresh (insert c V) (filter ok cs)" by simp
    show ?thesis
    proof (cases "Suc (length r) \<ge> m")
      case True
      then have "m - length r = 1" using Cons.prems by simp
      then show ?thesis using \<open>ok c \<and> c \<notin> V\<close> True unfolding f by (simp add: Let_def)
    next
      case False
      then obtain k where "m - length r = Suc k" "m - Suc (length r) = k" by (metis Suc_diff_Suc not_less Cons.prems)
      then show ?thesis using \<open>ok c \<and> c \<notin> V\<close> False Cons.IH[of "r @ [c]" "insert c V" "nx @ [c]"]
        unfolding f by (simp add: Let_def)
    qed
  next
    case False
    have "take_new m ok (c # cs) (V, r, nx) = take_new m ok cs (V, r, nx)"
      by (simp only: take_new.simps if_not_P[OF False])
    moreover have "fresh V (filter ok (c # cs)) = fresh V (filter ok cs)" using False by simp
    ultimately show ?thesis using Cons.IH[OF Cons.prems, of V nx] by simp
  qed
qed simp

text \<open>Both ends of the calls of a node.\<close>

definition call_ends :: "digraph \<Rightarrow> nat \<Rightarrow> nat list" where
  "call_ends g u = map (\<lambda>(_, t, _). t) (filter (\<lambda>(s, _, w). s = u \<and> w = Calls) (dg_edges g)) @
     map (\<lambda>(s, _, _). s) (filter (\<lambda>(_, t, w). t = u \<and> w = Calls) (dg_edges g))"

lemma set_call_neighbors:
  assumes "\<And>xs. set (order xs) = set xs"
  shows "set (call_neighbors order g V u) = set (call_ends g u) - V"
  by (force simp: call_neighbors_def call_ends_def edges_out_def edges_in_def assms)

definition traversed :: "digraph \<Rightarrow> nat \<Rightarrow> nat set \<Rightarrow> nat \<Rightarrow> nat set \<Rightarrow> nat list \<Rightarrow> nat list \<Rightarrow> bool" where
  "traversed g m S d V r fr \<longleftrightarrow> V = set r \<and> distinct r \<and> length r \<le> m \<and> set fr \<subseteq> V \<and>
     V \<subseteq> within (call_ends g) d S \<and>
     (length r < m \<longrightarrow> V = within (call_ends g) d S \<and> (\<forall>x\<in>V - set fr. set (call_ends g x) \<subseteq> V))"

lemma traversed_start:
  "distinct r \<Longrightarrow> length r \<le> m \<Longrightarrow> set r \<subseteq> S \<Longrightarrow> (length r < m \<Longrightarrow> set r = S) \<Longrightarrow> traversed g m S 0 (set r) r r"
  by (auto simp: traversed_def)

lemma traversed_take:
  assumes "distinct xs" "set xs = S"
  shows "traversed g m S 0 (set (take m xs)) (take m xs) (take m xs)"
proof (rule traversed_start)
  show "length (take m xs) < m \<Longrightarrow> set (take m xs) = S" using assms(2) by (cases "length xs \<le> m") auto
qed (use assms in \<open>auto dest: in_set_takeD\<close>)

lemma within_closed: "(\<And>x. x \<in> within sc d S \<Longrightarrow> set (sc x) \<subseteq> within sc d S) \<Longrightarrow> within sc (d + k) S = within sc d S"
  by (induction k) auto

lemma bidirectional_loop_spec:
  assumes ord: "\<And>xs. set (order xs) = set xs"
  shows "traversed g m S d V r fr \<Longrightarrow> bidirectional_loop order g m k (V, r, fr) = (V', r') \<Longrightarrow>
    \<exists>fr'. traversed g m S (d + k) V' r' fr'"
proof (induction k arbitrary: d V r fr)
  case (Suc k)
  have mono: "within (call_ends g) d S \<subseteq> within (call_ends g) (d + Suc k) S" by (rule within_mono) simp
  show ?case
  proof (cases "fr \<noteq> [] \<and> length r < m")
    case False
    then have e: "V' = V" "r' = r" using Suc.prems(2) by auto
    show ?thesis
    proof (cases "length r < m")
      case True
      then have "fr = []" using False by simp
      then have c: "V = within (call_ends g) d S" "\<forall>x\<in>V. set (call_ends g x) \<subseteq> V"
        using Suc.prems(1) True by (auto simp: traversed_def)
      then have "within (call_ends g) (d + Suc k) S = V" using within_closed[of "call_ends g" d S "Suc k"] by simp
      then show ?thesis using Suc.prems(1) c unfolding e traversed_def by blast
    qed (use Suc.prems(1) mono in \<open>auto simp: e traversed_def\<close>)
  next
    case True
    let ?C = "remdups_adj (sort (concat (map (call_neighbors order g V) fr)))"
    let ?F = "take (m - length r) (fresh V ?C)"
    have C: "set ?C = (\<Union>u\<in>set fr. set (call_ends g u)) - V"
      using set_call_neighbors[OF ord] by auto
    have F: "set ?F \<subseteq> set ?C" "set ?F \<inter> V = {}" "distinct ?F" "length ?F \<le> m - length r"
      using set_take_subset[of "m - length r" "fresh V ?C"] by (auto dest: in_set_takeD)
    have tr: "V = set r" "distinct r" "set fr \<subseteq> V" "V = within (call_ends g) d S"
      "\<forall>x\<in>V - set fr. set (call_ends g x) \<subseteq> V"
      using Suc.prems(1) True by (auto simp: traversed_def)
    have W: "within (call_ends g) (Suc d) S = V \<union> set ?C" unfolding C using tr by auto
    have "traversed g m S (Suc d) (V \<union> set ?F) (r @ ?F) ?F"
    proof -
      have "length (r @ ?F) < m \<Longrightarrow> set ?F = set ?C"
        using C by (auto simp: min_def split: if_splits)
      moreover have "\<forall>x\<in>V. set (call_ends g x) \<subseteq> V \<union> set ?C" unfolding C using tr by auto
      ultimately show ?thesis
        unfolding traversed_def W using F tr(1,2) True by auto
    qed
    moreover have "bidirectional_loop order g m (Suc k) (V, r, fr)
        = bidirectional_loop order g m k (V \<union> set ?F, r @ ?F, ?F)"
      using True by (simp add: take_new_eq Let_def)
    ultimately show ?thesis using Suc.IH[of "Suc d" "V \<union> set ?F" "r @ ?F" ?F] Suc.prems(2) by simp
  qed
qed auto

text \<open>
  The bidirectional traversal returns at most \<open>max_nodes\<close> nodes, each once, each at most \<open>max_depth\<close> calls
  away from a seed of the graph; when the limit is not reached these are all such nodes. The edges are
  all edges between them.
\<close>

theorem bidirectional_spec:
  assumes "\<And>xs. set (order xs) = set xs" "max_depth \<noteq> 0"
    and "blast_radius_bidirectional order s seeds max_nodes max_depth = (nodes, es)"
  shows "let g = sg_graph s; near = within (call_ends g) max_depth {i \<in> set seeds. i < node_count g} in
    distinct nodes \<and> length nodes \<le> max_nodes \<and> set nodes \<subseteq> near \<and>
    (length nodes < max_nodes \<longrightarrow> set nodes = near) \<and>
    es = filter (\<lambda>(a, b, _). a \<in> set nodes \<and> b \<in> set nodes) (dg_edges g)"
proof -
  let ?g = "sg_graph s" and ?S = "{i \<in> set seeds. i < node_count (sg_graph s)}"
  have none: "within sc k {} = {}" for sc :: "nat \<Rightarrow> nat list" and k by (induction k) auto
  show ?thesis
  proof (cases "seeds = [] \<or> max_nodes = 0")
    case True
    then have "nodes = []" "es = []" using assms(3) by (auto simp: blast_radius_bidirectional_def)
    then show ?thesis using True none by (auto simp: Let_def)
  next
    case False
    let ?F = "take max_nodes (fresh {} (filter (\<lambda>i. i < node_count ?g) seeds))"
    have t: "take_new max_nodes (\<lambda>i. i < node_count ?g) seeds ({}, [], []) = (set ?F, ?F, ?F)"
      using False take_new_eq[of "[]" max_nodes "\<lambda>i. i < node_count ?g" seeds "{}" "[]"] by (simp add: Let_def)
    have sF: "set (fresh {} (filter (\<lambda>i. i < node_count ?g) seeds)) = ?S" by auto
    have tr: "traversed ?g max_nodes ?S 0 (set ?F) ?F ?F"
      by (rule traversed_take) (simp_all only: distinct_fresh sF)
    obtain V r where V: "bidirectional_loop order ?g max_nodes max_depth (set ?F, ?F, ?F) = (V, r)" by fastforce
    obtain fr where "traversed ?g max_nodes ?S max_depth V r fr"
      using bidirectional_loop_spec[OF assms(1) tr V] by auto
    moreover have "nodes = r" "es = induced_edges ?g V"
      using assms(2,3) False t V by (auto simp: blast_radius_bidirectional_def Let_def)
    ultimately show ?thesis by (auto simp: traversed_def Let_def induced_edges_def)
  qed
qed

section \<open>A small graph\<close>

text \<open>Two files: \<open>f\<close> calls \<open>g\<close>, \<open>g\<close> calls the \<open>h\<close> of its own file; the other \<open>h\<close> is not called.\<close>

definition demo_entry :: "string \<Rightarrow> function_info list \<Rightarrow> call_info list \<Rightarrow> file_analysis_output" where
  "demo_entry p fs cs = \<lparr>fa_formatted = [], fa_path = p,
     fa_semantic = \<lparr>sa_functions = fs, sa_classes = [], sa_imports = [], sa_references = [], sa_call_frequency = [],
       sa_calls = cs, sa_impl_traits = [], sa_def_use_sites = []\<rparr>,
     fa_line_count = 9, fa_next_cursor = None, fa_unsupported = None\<rparr>"

definition demo_structural :: structural_graph where
  "demo_structural = build_from_analysis
     [demo_entry ''b'' [demo_function ''h'' 1] [],
      demo_entry ''a'' [demo_function ''f'' 1, demo_function ''g'' 3, demo_function ''h'' 5]
        [demo_call ''f'' ''g'' 2, demo_call ''g'' ''h'' 4]]"

lemma demo_structural_edges:
  "dg_edges (sg_graph demo_structural) =
    [(0, 1, Contains), (2, 3, Contains), (2, 4, Contains), (2, 5, Contains), (3, 4, Calls), (4, 5, Calls)]"
  by code_simp

theorem resolve_candidate_witness:
  "resolve_candidate [1, 5] (sg_graph demo_structural) ''a'' 4 None [] =
   List.find (best_candidate [1, 5] (sg_graph demo_structural) ''a'' 4 None []) [1, 5] \<and>
   resolve_candidate [1, 5] (sg_graph demo_structural) ''a'' 4 None [] = Some 5"
proof -
  have l: "line_distance (sg_graph demo_structural) 4 1 \<noteq> None" "line_distance (sg_graph demo_structural) 4 5 \<noteq> None"
    by code_simp+
  have "resolve_candidate [1, 5] (sg_graph demo_structural) ''a'' 4 None [] = Some 5" by code_simp
  moreover have "i \<in> set [1, 5] \<Longrightarrow> line_distance (sg_graph demo_structural) 4 i \<noteq> None" for i :: nat
    using l by (auto simp del: not_None_eq)
  ultimately show ?thesis
    using resolve_candidate_best[of "[1, 5]" "sg_graph demo_structural" 4 "''a''" None "[]"] by simp
qed

theorem blast_radius_witness:
  "blast_radius_subgraph rev demo_structural ''f'' 1 = Inr ([3, 4], [(3, 4, Calls)]) \<and> distinct [3::nat, 4]"
proof -
  have b: "blast_radius_subgraph rev demo_structural ''f'' 1 = Inr ([3, 4], [(3, 4, Calls)])" by code_simp
  show ?thesis using blast_radius_spec[of rev, OF _ b] b by simp
qed

theorem bidirectional_witness:
  "blast_radius_bidirectional rev demo_structural [4] 2 3 = ([4, 3], [(3, 4, Calls)]) \<and> length [4::nat, 3] \<le> 2"
proof -
  have b: "blast_radius_bidirectional rev demo_structural [4] 2 3 = ([4, 3], [(3, 4, Calls)])" by code_simp
  show ?thesis using bidirectional_spec[of rev, OF _ _ b] b by (simp add: Let_def)
qed

end
