(* ===== verification/Pagination.thy ===== *)
theory Pagination
  imports Validation
begin

text \<open>
  Cursor pagination, \<open>crates/aptu-coder-core/src/pagination.rs\<close> and the helpers of
  \<open>crates/aptu-coder/src/tools/common.rs\<close>: encoding a cursor, cutting a page, and what the tools do with
  a request's cursor. Base64 and JSON come from crates and are the parameter \<open>codec\<close>.
\<close>

section \<open>Cursors\<close>

definition DEFAULT_PAGE_SIZE :: nat where "DEFAULT_PAGE_SIZE = 100"
definition MAX_PAGE_SIZE :: nat where "MAX_PAGE_SIZE = 10000"

definition usize_max :: nat where "usize_max = 2 ^ 64 - 1"

definition usize_saturating_add :: "nat \<Rightarrow> nat \<Rightarrow> nat" where
  "usize_saturating_add a b = min usize_max (a + b)"

datatype pagination_mode = PageDefault | PageCallers | PageCallees | PageDefUse

record cursor_data =
  cd_mode :: pagination_mode
  cd_offset :: nat

datatype pagination_error = InvalidCursor string

fun pagination_error_display :: "pagination_error \<Rightarrow> string" where
  "pagination_error_display (InvalidCursor m) = ''Invalid cursor: '' @ m"

text \<open>\<open>serde_json\<close> and the standard base64 engine; a failure carries its message, as does malformed UTF-8.\<close>

record cursor_codec =
  to_json :: "cursor_data \<Rightarrow> string + string"
  from_json :: "string \<Rightarrow> string + cursor_data"
  b64_encode :: "string \<Rightarrow> string"
  b64_decode :: "string \<Rightarrow> string + string"
  utf8_error :: "string \<Rightarrow> string"

definition encode_cursor :: "cursor_codec \<Rightarrow> cursor_data \<Rightarrow> pagination_error + string" where
  "encode_cursor codec d =
     (case to_json codec d of
        Inl e \<Rightarrow> Inl (InvalidCursor (''JSON parse error: '' @ e))
      | Inr json \<Rightarrow> Inr (b64_encode codec json))"

definition decode_cursor :: "cursor_codec \<Rightarrow> string \<Rightarrow> pagination_error + cursor_data" where
  "decode_cursor codec cursor =
     (case b64_decode codec cursor of
        Inl e \<Rightarrow> Inl (InvalidCursor (''Base64 decode error: '' @ e))
      | Inr decoded \<Rightarrow>
          if \<not> utf8_valid decoded then Inl (InvalidCursor (''UTF-8 decode error: '' @ utf8_error codec decoded))
          else case from_json codec decoded of
            Inl e \<Rightarrow> Inl (InvalidCursor (''JSON parse error: '' @ e))
          | Inr d \<Rightarrow> Inr d)"

section \<open>Pages\<close>

record 'a pagination_result =
  pr_items :: "'a list"
  pr_next_cursor :: "string option"
  pr_total :: nat

definition paginate_slice ::
    "cursor_codec \<Rightarrow> 'a list \<Rightarrow> nat \<Rightarrow> nat \<Rightarrow> pagination_mode \<Rightarrow> pagination_error + 'a pagination_result" where
  "paginate_slice codec items offset page_size mode =
     (if page_size = 0 then Inl (InvalidCursor ''page_size must be at least 1'')
      else
        let tot = length items in
        if offset \<ge> tot then Inr \<lparr>pr_items = [], pr_next_cursor = None, pr_total = tot\<rparr>
        else
          let clamped = min page_size MAX_PAGE_SIZE;
              stop = min (usize_saturating_add offset clamped) tot;
              page = take (stop - offset) (drop offset items)
          in if stop < tot then
               (case encode_cursor codec \<lparr>cd_mode = mode, cd_offset = stop\<rparr> of
                  Inl e \<Rightarrow> Inl e
                | Inr c \<Rightarrow> Inr \<lparr>pr_items = page, pr_next_cursor = Some c, pr_total = tot\<rparr>)
             else Inr \<lparr>pr_items = page, pr_next_cursor = None, pr_total = tot\<rparr>)"

section \<open>The helpers of the tools\<close>

definition PAGINATION_USAGE :: string where
  "PAGINATION_USAGE = ''Pagination: pass cursor=<NEXT_CURSOR> from the line above on your next call with identical params; page sizes are server-owned.''"

definition append_pagination_footer :: "string \<Rightarrow> string option \<Rightarrow> string option \<Rightarrow> string" where
  "append_pagination_footer final_text next_cursor cursor_param =
     (case next_cursor of
        None \<Rightarrow> final_text
      | Some nxt \<Rightarrow> final_text @ [LF] @ ''NEXT_CURSOR: '' @ nxt @
          (if cursor_param = None then [LF] @ PAGINATION_USAGE else []))"

definition summary_cursor_conflict :: "bool option \<Rightarrow> string option \<Rightarrow> bool" where
  "summary_cursor_conflict summary cursor \<longleftrightarrow> summary = Some True \<and> cursor \<noteq> None"

definition normalize_cursor :: "string option \<Rightarrow> string option" where
  "normalize_cursor cursor = (case cursor of Some c \<Rightarrow> if c = [] then None else Some c | None \<Rightarrow> None)"

definition decode_offset :: "cursor_codec \<Rightarrow> string option \<Rightarrow> error_data + nat" where
  "decode_offset codec cursor =
     (case cursor of
        None \<Rightarrow> Inr 0
      | Some c \<Rightarrow>
          (case decode_cursor codec c of
             Inl e \<Rightarrow> Inl (error_new INVALID_PARAMS (pagination_error_display e) ''validation'' False ''invalid cursor format'')
           | Inr d \<Rightarrow> Inr (cd_offset d)))"

definition paginate_or_internal_error ::
    "cursor_codec \<Rightarrow> 'a list \<Rightarrow> nat \<Rightarrow> nat \<Rightarrow> error_data + 'a pagination_result" where
  "paginate_or_internal_error codec items offset page_size =
     (case paginate_slice codec items offset page_size PageDefault of
        Inl e \<Rightarrow> Inl (error_new INTERNAL_ERROR (pagination_error_display e) ''transient'' True ''retry the request'')
      | Inr r \<Rightarrow> Inr r)"

section \<open>One page\<close>

lemma paginate_slice_Inr:
  assumes "paginate_slice codec items offset page_size mode = Inr r" "length items \<le> usize_max"
  shows "0 < page_size \<and> pr_items r = take (min page_size MAX_PAGE_SIZE) (drop offset items) \<and> pr_total r = length items \<and>
    (case pr_next_cursor r of
       None \<Rightarrow> length items \<le> offset + min page_size MAX_PAGE_SIZE
     | Some c \<Rightarrow> offset + min page_size MAX_PAGE_SIZE < length items \<and>
         encode_cursor codec \<lparr>cd_mode = mode, cd_offset = offset + min page_size MAX_PAGE_SIZE\<rparr> = Inr c)"
  using assms
  by (auto simp: paginate_slice_def Let_def usize_saturating_add_def min_def split: if_splits sum.splits)

section \<open>Following the cursors\<close>

text \<open>The documented behaviour of the codec: decoding undoes encoding, and a JSON object is not empty.\<close>

definition codec_ok :: "cursor_codec \<Rightarrow> bool" where
  "codec_ok codec \<longleftrightarrow>
     (\<forall>d. \<exists>j. to_json codec d = Inr j \<and> utf8_valid j \<and> j \<noteq> [] \<and> from_json codec j = Inr d) \<and>
     (\<forall>s. b64_decode codec (b64_encode codec s) = Inr s \<and> (s \<noteq> [] \<longrightarrow> b64_encode codec s \<noteq> []))"

lemma decode_encode:
  assumes "codec_ok codec"
  shows "\<exists>c. encode_cursor codec d = Inr c \<and> c \<noteq> [] \<and> decode_cursor codec c = Inr d"
proof -
  obtain j where "to_json codec d = Inr j" "utf8_valid j" "j \<noteq> []" "from_json codec j = Inr d"
    using assms unfolding codec_ok_def by blast
  then show ?thesis using assms by (simp add: encode_cursor_def decode_cursor_def codec_ok_def)
qed

text \<open>A client that asks for the next page until there is none, as the tools answer it.\<close>

fun follow_cursors :: "nat \<Rightarrow> cursor_codec \<Rightarrow> 'a list \<Rightarrow> nat \<Rightarrow> string option \<Rightarrow> 'a list list option" where
  "follow_cursors 0 codec items page_size cursor = None"
| "follow_cursors (Suc n) codec items page_size cursor =
     (case decode_offset codec (normalize_cursor cursor) of
        Inl _ \<Rightarrow> None
      | Inr offset \<Rightarrow>
          (case paginate_or_internal_error codec items offset page_size of
             Inl _ \<Rightarrow> None
           | Inr r \<Rightarrow>
               (case pr_next_cursor r of
                  None \<Rightarrow> Some [pr_items r]
                | Some c \<Rightarrow> map_option (\<lambda>ps. pr_items r # ps) (follow_cursors n codec items page_size (Some c)))))"

lemma follow_from:
  assumes c: "codec_ok codec" and p: "0 < page_size" and l: "length items \<le> usize_max"
  shows "length items - offset < n * min page_size MAX_PAGE_SIZE \<Longrightarrow>
    decode_offset codec (normalize_cursor cursor) = Inr offset \<Longrightarrow>
    \<exists>ps. follow_cursors n codec items page_size cursor = Some ps \<and> concat ps = drop offset items \<and>
      (\<forall>pg\<in>set ps. length pg \<le> page_size)"
proof (induction n arbitrary: offset cursor)
  case (Suc n)
  let ?m = "min page_size MAX_PAGE_SIZE"
  have m: "0 < ?m" using p by (simp add: MAX_PAGE_SIZE_def)
  obtain r where r: "paginate_slice codec items offset page_size PageDefault = Inr r"
    using p decode_encode[OF c] unfolding paginate_slice_def Let_def
    by (smt (verit, ccfv_threshold) old.sum.simps(6) neq0_conv)
  note spec = paginate_slice_Inr[OF r l]
  have pe: "paginate_or_internal_error codec items offset page_size = Inr r"
    using r by (simp add: paginate_or_internal_error_def)
  show ?case
  proof (cases "pr_next_cursor r")
    case None
    then have "length (drop offset items) \<le> ?m" using spec by auto
    then have "pr_items r = drop offset items" using spec by (metis take_all)
    then show ?thesis using None Suc.prems(2) pe spec by auto
  next
    case (Some nc)
    let ?d = "\<lparr>cd_mode = PageDefault, cd_offset = offset + ?m\<rparr>"
    have enc: "encode_cursor codec ?d = Inr nc" using spec Some by simp
    then have "nc \<noteq> []" "decode_cursor codec nc = Inr ?d" using decode_encode[OF c, of ?d] by auto
    then have d: "decode_offset codec (normalize_cursor (Some nc)) = Inr (offset + ?m)"
      by (simp add: decode_offset_def normalize_cursor_def)
    have "length items - (offset + ?m) < n * ?m" using Suc.prems(1) spec Some m by auto
    from Suc.IH[OF this d] obtain ps where ps: "follow_cursors n codec items page_size (Some nc) = Some ps"
      "concat ps = drop (offset + ?m) items" "\<forall>pg\<in>set ps. length pg \<le> page_size" by blast
    have "pr_items r @ drop (offset + ?m) items = drop offset items"
      using spec by (metis append_take_drop_id drop_drop add.commute)
    then show ?thesis using ps Some Suc.prems(2) pe spec by auto
  qed
qed simp


text \<open>A codec: unary numbers after a letter for the mode.\<close>

definition demo_codec :: cursor_codec where
  "demo_codec = \<lparr>
     to_json = (\<lambda>d. Inr ((case cd_mode d of PageDefault \<Rightarrow> CHR ''d'' | PageCallers \<Rightarrow> CHR ''r''
        | PageCallees \<Rightarrow> CHR ''e'' | PageDefUse \<Rightarrow> CHR ''u'') # nat_str (cd_offset d))),
     from_json = (\<lambda>s. if s = [] then Inl [] else Inr \<lparr>
        cd_mode = (if hd s = CHR ''d'' then PageDefault else if hd s = CHR ''r'' then PageCallers
          else if hd s = CHR ''e'' then PageCallees else PageDefUse),
        cd_offset = digits_value (tl s)\<rparr>),
     b64_encode = (\<lambda>s. s), b64_decode = Inr, utf8_error = (\<lambda>_. [])\<rparr>"

lemma utf8_valid_ascii: "\<forall>c\<in>set s. byte c < 128 \<Longrightarrow> utf8_valid s"
proof (induction s)
  case (Cons c s)
  have "utf8_valid ([c] @ s)"
    using Cons by (intro utf8_valid_append[THEN iffD2] conjI) (auto simp: utf8_valid.simps utf8_len.simps)
  then show ?case by simp
qed simp

lemma demo_codec_ok: "codec_ok demo_codec"
proof -
  have d: "\<forall>c\<in>set (nat_str n). byte c < 128" for n
    using nat_str_digits[of n] by (auto simp: list_all_iff is_digit_def)
  have "utf8_valid (c # nat_str n)" if "c \<in> {CHR ''d'', CHR ''r'', CHR ''e'', CHR ''u''}" for c n
    using that d[of n] by (intro utf8_valid_ascii) auto
  then show ?thesis
    by (auto simp: codec_ok_def demo_codec_def digits_value_nat_str split: pagination_mode.split)
qed


end
