(* ===== verification/Formatter.thy ===== *)
theory Formatter
  imports Types Pagination CallGraph
begin

text \<open>
  The text of analysis results: \<open>formatter/emit.rs\<close>, \<open>formatter/pagination.rs\<close>, \<open>formatter/render.rs\<close>
  and \<open>formatter_defuse.rs\<close> of \<open>crates/aptu-coder-core/src\<close>, with \<open>FunctionInfo::compact_signature\<close> of
  \<open>types.rs\<close>. A hash map is an association list; an unstable selection is a parameter.
\<close>

section \<open>Lines\<close>

definition line :: "string \<Rightarrow> string" where "line s = s @ [LF]"

record file_info =
  fl_path :: string
  fl_language :: string
  fl_line_count :: nat
  fl_function_count :: nat
  fl_class_count :: nat
  fl_is_test :: bool

datatype analyze_file_field = FieldFunctions | FieldClasses | FieldImports | FieldReferences | FieldCalls | FieldAll

definition MULTILINE_THRESHOLD :: nat where "MULTILINE_THRESHOLD = 10"
definition SNIPPET_MAX_LEN :: nat where "SNIPPET_MAX_LEN = 80"
definition SNIPPET_TRUNCATION_POINT :: nat where "SNIPPET_TRUNCATION_POINT = 77"
definition MAX_PARAMS_DISPLAY_LEN :: nat where "MAX_PARAMS_DISPLAY_LEN = 80"
definition TRUNCATION_POINT :: nat where "TRUNCATION_POINT = 77"

text \<open>\<open>s[..floor_char_boundary(n)]\<close> followed by three dots; the slice can panic in principle.\<close>

definition ellipsis_at :: "nat \<Rightarrow> string \<Rightarrow> string option" where
  "ellipsis_at n s = map_option (\<lambda>t. t @ ''...'') (str_slice s 0 (floor_char_boundary s n))"

section \<open>Functions and classes\<close>

definition compact_signature :: "function_info \<Rightarrow> string option" where
  "compact_signature func =
     (let params = join '', '' (fi_parameters func);
          shown = (if fi_parameters func = [] then Some []
                   else if length params > MAX_PARAMS_DISPLAY_LEN then ellipsis_at TRUNCATION_POINT params
                   else Some params)
      in map_option (\<lambda>p. fi_name func @ ''('' @ p @ '')'' @
           (case fi_return_type func of None \<Rightarrow> [] | Some r \<Rightarrow> '' -> '' @ r) @
           '' :'' @ nat_str (fi_line func) @ ''-'' @ nat_str (fi_end_line func)) shown)"

definition is_method_of_class :: "function_info \<Rightarrow> class_info \<Rightarrow> bool" where
  "is_method_of_class func cl \<longleftrightarrow> fi_line func \<ge> ci_line cl \<and> fi_end_line func \<le> ci_end_line cl"

definition class_methods :: "function_info list \<Rightarrow> class_info \<Rightarrow> function_info list" where
  "class_methods functions cl =
     (if ci_methods cl \<noteq> [] then ci_methods cl
      else sort_key fi_line (filter (\<lambda>f. is_method_of_class f cl) functions))"

definition collect_class_methods ::
    "class_info list \<Rightarrow> function_info list \<Rightarrow> (string \<times> function_info list) list" where
  "collect_class_methods classes functions =
     fold (\<lambda>cl m. ainsert (ci_name cl) (class_methods functions cl) m) classes []"

definition call_marker :: "(string \<times> nat) list \<Rightarrow> function_info \<Rightarrow> string option" where
  "call_marker call_frequency func =
     map_option (\<lambda>sig. case alookup (fi_name func) call_frequency of
         Some n \<Rightarrow> if n > 3 then sig @ [CHR 0xE2, CHR 0x80, CHR 0xA2] @ nat_str n else sig
       | None \<Rightarrow> sig) (compact_signature func)"

text \<open>The wrapping loop after the first function: the output so far and the current line.\<close>

fun wrap_loop :: "string list \<Rightarrow> string \<times> string \<Rightarrow> string \<times> string" where
  "wrap_loop [] st = st"
| "wrap_loop (m # ms) (output, ln) =
     wrap_loop ms (if length ln + length m + 2 > 100 then (output @ ln @ [LF], ''  '' @ m)
                   else (output, ln @ '', '' @ m))"

definition wrap_markers :: "string list \<Rightarrow> string" where
  "wrap_markers ms =
     (let (output, ln) = (case ms of [] \<Rightarrow> ([], ''  '') | m # rest \<Rightarrow> wrap_loop rest ([], ''  '' @ m))
      in if trim ln \<noteq> [] then output @ ln @ [LF] else output)"

definition format_function_list_wrapped :: "function_info list \<Rightarrow> (string \<times> nat) list \<Rightarrow> string option" where
  "format_function_list_wrapped functions call_frequency =
     map_option wrap_markers (those (map (call_marker call_frequency) functions))"

definition count_parts :: "nat \<Rightarrow> nat \<Rightarrow> nat \<Rightarrow> string list" where
  "count_parts lc fc cc =
     (if lc > 0 then [nat_str lc @ ''L''] else []) @ (if fc > 0 then [nat_str fc @ ''F''] else []) @
     (if cc > 0 then [nat_str cc @ ''C''] else [])"

definition format_file_info_parts :: "nat \<Rightarrow> nat \<Rightarrow> nat \<Rightarrow> string option" where
  "format_file_info_parts lc fc cc =
     (let parts = count_parts lc fc cc in if parts = [] then None else Some (''['' @ join '', '' parts @ '']''))"

definition strip_base_path :: "path \<Rightarrow> path option \<Rightarrow> string" where
  "strip_base_path p base_path =
     (case base_path of
        None \<Rightarrow> path_display p
      | Some base \<Rightarrow> (case path_strip_prefix p base of Some rel \<Rightarrow> path_display rel | None \<Rightarrow> path_display p))"

definition format_file_entry :: "file_info \<Rightarrow> path option \<Rightarrow> string" where
  "format_file_entry f base_path =
     (let parts = count_parts (fl_line_count f) (fl_function_count f) (fl_class_count f);
          display_path = strip_base_path (parse_path (fl_path f)) base_path
      in if parts = [] then line display_path
         else line (display_path @ '' ['' @ join '', '' parts @ '']''))"

definition class_str :: "class_info \<Rightarrow> string" where
  "class_str cl = ci_name cl @ '':'' @ nat_str (ci_line cl) @ ''-'' @ nat_str (ci_end_line cl) @
     (if ci_inherits cl = [] then [] else '' ('' @ join '', '' (ci_inherits cl) @ '')'')"

definition methods_block :: "function_info list \<Rightarrow> string" where
  "methods_block methods =
     concat (map (\<lambda>m. line (''    '' @ fi_name m @ '':'' @ nat_str (fi_line m))) (take 10 methods)) @
     (if length methods > 10 then line (''    ... ('' @ nat_str (length methods - 10) @ '' more)'') else [])"

definition format_classes_section :: "class_info list \<Rightarrow> function_info list \<Rightarrow> string" where
  "format_classes_section classes functions =
     (if classes = [] then []
      else
        let methods_by_class = collect_class_methods classes functions;
            has_methods = list_ex (\<lambda>(_, m). m \<noteq> []) methods_by_class
        in line ''C:'' @
           (if length classes \<le> MULTILINE_THRESHOLD \<and> \<not> has_methods
            then line (''  '' @ join ''; '' (map class_str classes))
            else concat (map (\<lambda>cl. line (''  '' @ class_str cl) @
                   methods_block (lookups (ci_name cl) methods_by_class)) classes)))"

definition import_counts :: "import_info list \<Rightarrow> (string \<times> nat) list" where
  "import_counts imports =
     fold (\<lambda>im m. ainsert (im_module im) (case alookup (im_module im) m of Some n \<Rightarrow> n + 1 | None \<Rightarrow> 1) m) imports []"

definition format_imports_section :: "import_info list \<Rightarrow> string" where
  "format_imports_section imports =
     (if imports = [] then []
      else
        let counts = import_counts imports;
            mods = map (\<lambda>m. m @ ''('' @ nat_str (the (alookup m counts)) @ '')'') (sort (map fst counts))
        in line ''I:'' @
           (if length mods \<le> MULTILINE_THRESHOLD then line (''  '' @ join ''; '' mods)
            else concat (map (\<lambda>m. line (''  '' @ m)) mods)))"

section \<open>Def-use sites\<close>

definition snippet_one_line :: "string \<Rightarrow> string option" where
  "snippet_one_line snippet =
     (let ls = split_on LF snippet;
          center = (if length ls \<ge> 2 then ls ! 1 else ls ! 0);
          trimmed = trim center
      in if length trimmed > SNIPPET_MAX_LEN then ellipsis_at SNIPPET_TRUNCATION_POINT trimmed else Some trimmed)"

definition is_write :: "def_use_site \<Rightarrow> bool" where
  "is_write s \<longleftrightarrow> du_kind s \<in> {DuWrite, DuWriteRead}"

definition def_use_write_read_counts :: "def_use_site list \<Rightarrow> nat \<times> nat" where
  "def_use_write_read_counts sites = (let w = length (filter is_write sites) in (w, length sites - w))"

definition site_line :: "path option \<Rightarrow> bool \<Rightarrow> def_use_site \<Rightarrow> string option" where
  "site_line base_path labelled site =
     map_option (\<lambda>snip. line (''    '' @ strip_base_path (parse_path (du_file site)) base_path @ '':'' @
         nat_str (du_line site) @ ''  '' @
         (case du_scope site of None \<Rightarrow> [] | Some s \<Rightarrow> s @ ''()'') @ ''  '' @ snip @
         (if labelled \<and> du_kind site = DuWriteRead then '' [write_read]'' else [])))
       (snippet_one_line (du_snippet site))"

definition render_def_use_group ::
    "def_use_site list \<Rightarrow> string \<Rightarrow> (def_use_site \<Rightarrow> bool) \<Rightarrow> path option \<Rightarrow> string option" where
  "render_def_use_group sites heading pred base_path =
     (let filtered = filter pred sites in
      if filtered = [] then Some []
      else map_option (\<lambda>ls. line (''  '' @ heading) @ concat ls) (those (map (site_line base_path True) filtered)))"

definition format_focused_paginated_defuse ::
    "def_use_site list \<Rightarrow> nat \<Rightarrow> string \<Rightarrow> nat \<Rightarrow> path option \<Rightarrow> string option" where
  "format_focused_paginated_defuse sites tot symbol offset base_path =
     (let n = length sites;
          (start, stop) = (if n = 0 then (0, 0) else (offset + 1, offset + n));
          hdr = line (''DEF-USE SITES  '' @ symbol @ ''  ('' @ nat_str start @ ''-'' @ nat_str stop @ '' of '' @ nat_str tot @ '')'')
      in case (render_def_use_group sites ''WRITES'' is_write base_path,
               render_def_use_group sites ''READS'' (\<lambda>s. du_kind s = DuRead) base_path) of
           (Some w, Some r) \<Rightarrow> Some (hdr @ w @ r) | _ \<Rightarrow> None)"

section \<open>Chains\<close>

definition chain_groups :: "(string \<times> string) list \<Rightarrow> (string \<times> (string \<times> nat) list) list" where
  "chain_groups chs =
     fold (\<lambda>(parent, child) groups.
       let kids = lookups parent groups in
       ainsert parent
         (if child = [] then kids
          else ainsert child ((case alookup child kids of Some n \<Rightarrow> n | None \<Rightarrow> 0) + 1) kids) groups) chs []"

definition child_line :: "string \<Rightarrow> string \<times> nat \<Rightarrow> string" where
  "child_line arrow c =
     line (''    '' @ arrow @ '' '' @ fst c @ (if snd c > 1 then '' (x'' @ nat_str (snd c) @ '')'' else []))"

definition format_chains_as_tree :: "(string \<times> string) list \<Rightarrow> string \<Rightarrow> string \<Rightarrow> string" where
  "format_chains_as_tree chs arrow focus_symbol =
     (if chs = [] then line ''  (none)''
      else concat (map (\<lambda>(parent, children).
        line (''  '' @ focus_symbol @ '' '' @ arrow @ '' '' @ parent) @
        concat (map (child_line arrow) (sort_key (\<lambda>c. (- int (snd c), fst c)) children)))
        (sort_key fst (chain_groups chs))))"

definition render_paginated_page :: "chain list \<Rightarrow> string \<Rightarrow> string \<Rightarrow> string" where
  "render_paginated_page chs arrow symbol =
     (let page_refs = List.map_filter chain_arrow chs in
      if page_refs = [] then line ''  (none)'' else format_chains_as_tree page_refs arrow symbol)"

section \<open>Pages\<close>

definition format_structure_paginated ::
    "file_info list \<Rightarrow> nat \<Rightarrow> nat option \<Rightarrow> path option \<Rightarrow> bool \<Rightarrow> string" where
  "format_structure_paginated files tot max_depth base_path verbose =
     (let depth_label = (case max_depth of
            Some n \<Rightarrow> if n > 0 then '' (max_depth='' @ nat_str n @ '')'' else [] | None \<Rightarrow> []);
          prod = filter (\<lambda>f. \<not> fl_is_test f) files; tst = filter fl_is_test files
      in line (''PAGINATED: showing '' @ nat_str (length files) @ '' of '' @ nat_str tot @ '' files'' @ depth_label @ [LF]) @
         (if prod = [] then []
          else (if verbose then line ''FILES [LOC, FUNCTIONS, CLASSES]'' else []) @
            concat (map (\<lambda>f. format_file_entry f base_path) prod)) @
         (if tst = [] then []
          else (if verbose then [LF] @ line ''TEST FILES [LOC, FUNCTIONS, CLASSES]''
                else if prod \<noteq> [] then [LF] else []) @
            concat (map (\<lambda>f. format_file_entry f base_path) tst)))"

definition top_level :: "class_info list \<Rightarrow> function_info list \<Rightarrow> function_info list" where
  "top_level classes functions = filter (\<lambda>f. \<not> list_ex (is_method_of_class f) classes) functions"

definition shows_field :: "analyze_file_field list option \<Rightarrow> analyze_file_field \<Rightarrow> bool" where
  "shows_field flds x \<longleftrightarrow>
     (case flds of None \<Rightarrow> True | Some fs \<Rightarrow> fs = [] \<or> FieldAll \<in> set fs \<or> x \<in> set fs)"

text \<open>The two positions wrap in a release build; a cursor can carry any \<open>usize\<close>.\<close>

definition format_file_details_paginated ::
    "function_info list \<Rightarrow> nat \<Rightarrow> semantic_analysis \<Rightarrow> string \<Rightarrow> nat \<Rightarrow> nat \<Rightarrow> bool \<Rightarrow>
     analyze_file_field list option \<Rightarrow> string option" where
  "format_file_details_paginated page total_functions sem p line_count offset verbose flds =
     (let hdr = line (''FILE: '' @ p @ '' ('' @ nat_str line_count @ ''L, '' @ nat_str ((offset + 1) mod 2 ^ 64) @ ''-'' @
            nat_str ((offset + length page) mod 2 ^ 64) @ ''/'' @ nat_str total_functions @ ''F, '' @
            nat_str (length (sa_classes sem)) @ ''C, '' @ nat_str (length (sa_imports sem)) @ ''I)'');
          show_all = (case flds of None \<Rightarrow> True | Some fs \<Rightarrow> fs = []);
          cls = (if shows_field flds FieldClasses \<and> offset = 0 \<and> sa_classes sem \<noteq> []
                 then format_classes_section (sa_classes sem) (sa_functions sem) else []);
          imps = (if shows_field flds FieldImports \<and> offset = 0 \<and> (verbose \<or> \<not> show_all)
                  then format_imports_section (sa_imports sem) else []);
          tops = top_level (sa_classes sem) page
      in if shows_field flds FieldFunctions \<and> tops \<noteq> []
         then map_option (\<lambda>fs. hdr @ cls @ imps @ line ''F:'' @ fs)
                (format_function_list_wrapped tops (sa_call_frequency sem))
         else Some (hdr @ cls @ imps))"

definition format_file_details ::
    "string \<Rightarrow> semantic_analysis \<Rightarrow> nat \<Rightarrow> bool \<Rightarrow> path option \<Rightarrow> string option" where
  "format_file_details p sem line_count is_test base_path =
     (let display_path = strip_base_path (parse_path p) base_path;
          hdr = line ((if is_test then ''FILE [TEST] '' else ''FILE: '') @ display_path @ ''('' @ nat_str line_count @ ''L, '' @
            nat_str (length (sa_functions sem)) @ ''F, '' @ nat_str (length (sa_classes sem)) @ ''C, '' @
            nat_str (length (sa_imports sem)) @ ''I)'');
          cls = format_classes_section (sa_classes sem) (sa_functions sem);
          tops = top_level (sa_classes sem) (sa_functions sem);
          imps = format_imports_section (sa_imports sem)
      in if tops = [] then Some (hdr @ cls @ imps)
         else map_option (\<lambda>fs. hdr @ cls @ line ''F:'' @ fs @ imps)
                (format_function_list_wrapped tops (sa_call_frequency sem)))"

text \<open>The ten longest functions: \<open>select\<close> stands for \<open>select_nth_unstable_by\<close>, a stable sort follows.\<close>

definition span_of :: "function_info \<Rightarrow> nat" where "span_of f = fi_end_line f - fi_line f"

definition top_functions ::
    "(nat \<Rightarrow> function_info list \<Rightarrow> function_info list) \<Rightarrow> function_info list \<Rightarrow> function_info list" where
  "top_functions select funcs =
     (let k = min (length funcs) 10 in
      sort_key (\<lambda>f. - int (span_of f)) (take k (if k > 0 then select (k - 1) funcs else funcs)))"

definition function_size_line :: "function_info \<Rightarrow> string" where
  "function_size_line f =
     line (''  '' @ nat_str (fi_line f) @ '':'' @ nat_str (fi_end_line f) @ '': '' @ fi_name f @ '' '' @
       (if fi_parameters f = [] then [] else ''('' @ join '', '' (fi_parameters f) @ '')'') @
       '' ['' @ nat_str (span_of f) @ ''L]'')"

definition format_file_details_summary ::
    "(nat \<Rightarrow> function_info list \<Rightarrow> function_info list) \<Rightarrow> semantic_analysis \<Rightarrow> string \<Rightarrow> nat \<Rightarrow> string" where
  "format_file_details_summary select sem p line_count =
     line ''FILE:'' @ line (''  path: '' @ p) @
     line (''  '' @ nat_str line_count @ ''L, '' @ nat_str (length (sa_functions sem)) @ ''F, '' @
       nat_str (length (sa_classes sem)) @ ''C'') @ [LF] @
     (if sa_functions sem = [] then []
      else line ''TOP FUNCTIONS BY SIZE:'' @
        concat (map function_size_line (top_functions select (sa_functions sem))) @ [LF]) @
     (if sa_classes sem = [] then []
      else line ''CLASSES:'' @
        (if length (sa_classes sem) \<le> 10 then line (''  '' @ join ''; '' (map class_str (sa_classes sem)))
         else line (''  '' @ nat_str (length (sa_classes sem)) @ '' classes total'') @
           concat (map (\<lambda>c. line (''    '' @ ci_name c)) (take 5 (sa_classes sem))) @
           line (''    ... and '' @ nat_str (length (sa_classes sem) - 5) @ '' more'')) @ [LF]) @
     (if sa_imports sem = [] then []
      else line ''IMPORTS:'' @
        concat (map (\<lambda>i. line (''  '' @ im_module i @ (if im_items i = [] then [] else '': '' @ join '', '' (im_items i))))
          (sa_imports sem)) @ [LF]) @
     line ''SUGGESTION:'' @ line ''Use analyze_file for full function list, signatures, imports, and classes''"

end
