(* ===== verification/FormatterProps.thy ===== *)
theory FormatterProps
  imports Formatter
begin

text \<open>
  Correctness of the formatters: truncation never cuts a character and never panics, the function list
  is wrapped greedily without losing an entry, and classes of one name share their methods.
\<close>

section \<open>Truncation\<close>

lemma ellipsis_at_Some: "\<exists>t. ellipsis_at n s = Some (t @ ''...'') \<and> prefix t s \<and> length t \<le> n"
proof -
  let ?k = "floor_char_boundary s n"
  have "boundary s ?k" "?k \<le> n" "?k \<le> length s" using floor_char_boundary[of s n] by auto
  then show ?thesis
    by (auto simp: ellipsis_at_def str_slice_def take_is_prefix)
qed

lemma compact_signature_Some: "\<exists>s. compact_signature f = Some s"
  using ellipsis_at_Some[of TRUNCATION_POINT "join '', '' (fi_parameters f)"]
  by (auto simp: compact_signature_def Let_def)

section \<open>Wrapping\<close>

lemma ws_start_paren: "CHR ''('' \<notin> set (take (ws_start s) s)"
proof -
  have b: "byte (CHR ''('') = 40" by simp
  have "byte c \<noteq> 40" if "c \<in> set (take (ws_start s) s)" for c
    using that by (cases s rule: ws_start.cases) (auto simp: ascii_ws_def ws2_def ws3_def split: if_splits)
  then show ?thesis using b by blast
qed

lemma ws_end_paren: "CHR ''('' \<notin> set (take (ws_end_rev s) s)"
proof -
  have b: "byte (CHR ''('') = 40" by simp
  have "byte c \<noteq> 40" if "c \<in> set (take (ws_end_rev s) s)" for c
    using that by (cases s rule: ws_end_rev.cases) (auto simp: ascii_ws_def ws2_def ws3_def split: if_splits)
  then show ?thesis using b by blast
qed

lemma trim_start_paren: "CHR ''('' \<in> set s \<Longrightarrow> CHR ''('' \<in> set (trim_start s)"
proof (induction s rule: trim_start.induct)
  case (1 s)
  show ?case
  proof (cases "ws_start s = 0")
    case False
    have "CHR ''('' \<in> set (take (ws_start s) s @ drop (ws_start s) s)" using 1(2) by simp
    then have "CHR ''('' \<in> set (drop (ws_start s) s)" using ws_start_paren[of s] by (simp only: set_append Un_iff) blast
    then show ?thesis using 1(1)[OF False] False by (simp only: trim_start.simps[of s] if_False)
  qed (use 1(2) in \<open>simp only: trim_start.simps[of s] if_True refl simp_thms\<close>)
qed

lemma trim_end_paren: "CHR ''('' \<in> set s \<Longrightarrow> CHR ''('' \<in> set (trim_end s)"
proof -
  have "CHR ''('' \<in> set r \<Longrightarrow> CHR ''('' \<in> set (trim_end_rev r)" for r
  proof (induction r rule: trim_end_rev.induct)
    case (1 r)
    show ?case
    proof (cases "ws_end_rev r = 0")
      case False
      have "CHR ''('' \<in> set (take (ws_end_rev r) r @ drop (ws_end_rev r) r)" using 1(2) by simp
      then have "CHR ''('' \<in> set (drop (ws_end_rev r) r)" using ws_end_paren[of r] by (simp only: set_append Un_iff) blast
      then show ?thesis using 1(1)[OF False] False by (simp only: trim_end_rev.simps[of r] if_False)
    qed (use 1(2) in \<open>simp only: trim_end_rev.simps[of r] if_True refl simp_thms\<close>)
  qed
  then show "CHR ''('' \<in> set s \<Longrightarrow> CHR ''('' \<in> set (trim_end s)" by (simp add: trim_end_def)
qed

lemma trim_paren: "CHR ''('' \<in> set s \<Longrightarrow> trim s \<noteq> []"
  using trim_start_paren trim_end_paren by (fastforce simp: trim_def)

definition list_line :: "string list \<Rightarrow> string" where
  "list_line g = ''  '' @ join '', '' g"

definition wrapped_ok :: "string list \<Rightarrow> bool" where
  "wrapped_ok g \<longleftrightarrow> g \<noteq> [] \<and> (length g = 1 \<or> length (list_line g) \<le> 100)"

lemma join_snoc: "g \<noteq> [] \<Longrightarrow> join sep (g @ [m]) = join sep g @ sep @ m"
  by (induction sep g rule: join.induct) auto

lemma list_line_last: "set x \<subseteq> set (list_line (xs @ [x]))"
  by (cases "xs = []") (auto simp: list_line_def join_snoc)

lemma wrap_loop_groups:
  assumes "wrapped_ok g" "\<forall>x\<in>set gs. wrapped_ok x"
  shows "wrap_loop ms (concat (map (\<lambda>g. line (list_line g)) gs), list_line g) = (out, ln) \<Longrightarrow>
    \<exists>gs' g'. out = concat (map (\<lambda>g. line (list_line g)) gs') \<and> ln = list_line g' \<and>
      concat gs' @ g' = concat gs @ g @ ms \<and> wrapped_ok g' \<and> (\<forall>x\<in>set gs'. wrapped_ok x)"
  using assms
proof (induction ms arbitrary: gs g)
  case (Cons m ms)
  have gne: "g \<noteq> []" using Cons.prems(2) by (simp add: wrapped_ok_def)
  show ?case
  proof (cases "length (list_line g) + length m + 2 > 100")
    case True
    have "wrap_loop ms (concat (map (\<lambda>g. line (list_line g)) (gs @ [g])), list_line [m]) = (out, ln)"
      using Cons.prems(1) True by (simp add: line_def list_line_def)
    moreover have "\<forall>x\<in>set (gs @ [g]). wrapped_ok x" "wrapped_ok [m]"
      using Cons.prems by (auto simp: wrapped_ok_def)
    ultimately obtain gs' g' where "out = concat (map (\<lambda>g. line (list_line g)) gs')" "ln = list_line g'"
      "concat gs' @ g' = concat (gs @ [g]) @ [m] @ ms" "wrapped_ok g'" "\<forall>x\<in>set gs'. wrapped_ok x"
      using Cons.IH[of "gs @ [g]" "[m]"] by blast
    then show ?thesis by (intro exI[of _ gs'] exI[of _ g']) simp
  next
    case False
    have l: "list_line (g @ [m]) = list_line g @ '', '' @ m" using gne by (simp add: list_line_def join_snoc)
    have "wrap_loop ms (concat (map (\<lambda>g. line (list_line g)) gs), list_line (g @ [m])) = (out, ln)"
      using Cons.prems(1) False unfolding l by simp
    moreover have "wrapped_ok (g @ [m])" unfolding wrapped_ok_def l using False by simp
    ultimately obtain gs' g' where "out = concat (map (\<lambda>g. line (list_line g)) gs')" "ln = list_line g'"
      "concat gs' @ g' = concat gs @ (g @ [m]) @ ms" "wrapped_ok g'" "\<forall>x\<in>set gs'. wrapped_ok x"
      using Cons.IH[of gs "g @ [m]"] Cons.prems(3) by blast
    then show ?thesis by (intro exI[of _ gs'] exI[of _ g']) simp
  qed
qed auto

lemma wrap_markers_groups:
  assumes "\<forall>m\<in>set ms. CHR ''('' \<in> set m"
  shows "\<exists>gs. wrap_markers ms = concat (map (\<lambda>g. line (list_line g)) gs) \<and> concat gs = ms \<and>
    (\<forall>g\<in>set gs. wrapped_ok g)"
proof (cases ms)
  case Nil
  have "trim ''  '' = []" by code_simp
  then show ?thesis using Nil by (intro exI[of _ "[]"]) (simp add: wrap_markers_def)
next
  case (Cons m rest)
  obtain out ln where w: "wrap_loop rest ([], list_line [m]) = (out, ln)" by fastforce
  have "wrap_loop rest (concat (map (\<lambda>g. line (list_line g)) []), list_line [m]) = (out, ln)" using w by simp
  from wrap_loop_groups[OF _ _ this] obtain gs g where g: "out = concat (map (\<lambda>g. line (list_line g)) gs)"
    "ln = list_line g" "concat gs @ g = m # rest" "wrapped_ok g" "\<forall>x\<in>set gs. wrapped_ok x"
    by (auto simp: wrapped_ok_def)
  obtain x xs where "g = xs @ [x]" using g(4) by (cases g rule: rev_cases) (auto simp: wrapped_ok_def)
  then have "x \<in> set (concat gs @ g)" by simp
  then have "x \<in> set ms" using g(3) Cons by simp
  then have "CHR ''('' \<in> set x" using assms by blast
  moreover have "set x \<subseteq> set ln" using list_line_last \<open>g = xs @ [x]\<close> g(2) by simp
  ultimately have "CHR ''('' \<in> set ln" by blast
  then have "trim ln \<noteq> []" using trim_paren by blast
  then show ?thesis
    using w g Cons by (intro exI[of _ "gs @ [g]"]) (auto simp: wrap_markers_def list_line_def line_def)
qed

lemma call_marker_paren: "call_marker cf f = Some m \<Longrightarrow> CHR ''('' \<in> set m"
  by (auto simp: call_marker_def compact_signature_def Let_def split: option.splits if_splits)

lemma those_map_total: "(\<And>x. x \<in> set xs \<Longrightarrow> f x \<noteq> None) \<Longrightarrow> those (map f xs) = Some (map (\<lambda>x. the (f x)) xs)"
proof (induction xs)
  case (Cons a xs)
  then obtain y where "f a = Some y" by fastforce
  then show ?case using Cons by simp
qed simp

text \<open>
  The wrapped list never panics and holds every function's signature once, in order: each line is
  indented, and at most 100 bytes long unless it holds a single signature.
\<close>

theorem function_list_wrapped:
  "\<exists>ms gs. map Some ms = map (call_marker cf) fs \<and>
    format_function_list_wrapped fs cf = Some (concat (map (\<lambda>g. line (''  '' @ join '', '' g)) gs)) \<and>
    concat gs = ms \<and> list_all (\<lambda>g. g \<noteq> [] \<and> (length g = 1 \<or> length (''  '' @ join '', '' g) \<le> 100)) gs"
proof -
  let ?ms = "map (\<lambda>f. the (call_marker cf f)) fs"
  have tot: "call_marker cf f \<noteq> None" for f
    using compact_signature_Some[of f] by (auto simp: call_marker_def)
  have "\<forall>m\<in>set ?ms. CHR ''('' \<in> set m" using call_marker_paren tot by fastforce
  from wrap_markers_groups[OF this] obtain gs where
    "wrap_markers ?ms = concat (map (\<lambda>g. line (list_line g)) gs)" "concat gs = ?ms" "\<forall>g\<in>set gs. wrapped_ok g" by blast
  moreover have "those (map (call_marker cf) fs) = Some ?ms" using tot by (intro those_map_total)
  moreover have "map Some ?ms = map (call_marker cf) fs" using tot by (auto simp: option.collapse)
  ultimately show ?thesis
    by (intro exI[of _ ?ms] exI[of _ gs])
      (simp add: format_function_list_wrapped_def list_line_def wrapped_ok_def list_all_iff)
qed

section \<open>Classes of one name\<close>

definition demo_class :: "nat \<Rightarrow> nat \<Rightarrow> class_info" where
  "demo_class a b = \<lparr>ci_name = ''A'', ci_line = a, ci_end_line = b, ci_methods = [], ci_fields = [], ci_inherits = []\<rparr>"

definition demo_method :: "string \<Rightarrow> nat \<Rightarrow> function_info" where
  "demo_method n l = \<lparr>fi_name = n, fi_line = l, fi_end_line = l, fi_parameters = [], fi_return_type = None\<rparr>"

text \<open>
  Methods are grouped by class name, so of two classes named \<open>A\<close> in one file the first is listed with
  the methods of the second, and its own method \<open>f\<close> is not listed at all.
\<close>

theorem same_name_classes_share_methods:
  "format_classes_section [demo_class 1 5, demo_class 10 15] [demo_method ''f'' 2, demo_method ''g'' 11] =
     line ''C:'' @ line ''  A:1-5'' @ line ''    g:11'' @ line ''  A:10-15'' @ line ''    g:11'' \<and>
   is_method_of_class (demo_method ''f'' 2) (demo_class 1 5)"
proof
  show "format_classes_section [demo_class 1 5, demo_class 10 15] [demo_method ''f'' 2, demo_method ''g'' 11] =
     line ''C:'' @ line ''  A:1-5'' @ line ''    g:11'' @ line ''  A:10-15'' @ line ''    g:11''"
    by code_simp
qed (simp add: is_method_of_class_def demo_method_def demo_class_def)

end
