(* ===== verification/Traversal.thy ===== *)
theory Traversal
  imports PathOrder
begin

text \<open>
  Directory traversal, \<open>crates/aptu-coder-core/src/traversal.rs\<close>: the walk limits and order, the files
  changed since a git reference, the filter by them, and the file counts per subdirectory. The walker
  of the \<open>ignore\<close> crate, the \<open>git\<close> command and \<open>canonicalize\<close> are parameters.
\<close>

section \<open>Walking\<close>

text \<open>Time as nanoseconds since the epoch; a modification time can lie before it.\<close>

type_synonym system_time = int

record walk_entry =
  we_path :: path
  we_depth :: nat
  we_is_dir :: bool
  we_is_symlink :: bool
  we_symlink_target :: "path option"
  we_mtime :: "system_time option"
  we_canonical_path :: path

datatype traversal_error = TraversalIo | TraversalInternal string | GitError string

definition MAX_WALK_ENTRIES :: nat where "MAX_WALK_ENTRIES = 50000"

definition finish_walk :: "walk_entry list \<Rightarrow> walk_entry list" where
  "finish_walk entries = sort_key we_path (take MAX_WALK_ENTRIES entries)"

text \<open>The loop of the synchronous walk: unreadable entries (\<open>None\<close>) are skipped, and the loop stops after
  the entry that finds the counter at the limit.\<close>

fun sync_loop :: "walk_entry option list \<Rightarrow> nat \<Rightarrow> walk_entry list" where
  "sync_loop [] n = []"
| "sync_loop (None # rs) n = sync_loop rs n"
| "sync_loop (Some e # rs) n = e # (if n \<ge> MAX_WALK_ENTRIES then [] else sync_loop rs (n + 1))"

definition walk_directory_sync :: "(path \<Rightarrow> nat option \<Rightarrow> walk_entry option list) \<Rightarrow> path \<Rightarrow> walk_entry list" where
  "walk_directory_sync walker root = finish_walk (sync_loop (walker root (Some 1)) 0)"

text \<open>The parallel walk sends entries in any order, \<open>arrival\<close>; a depth of 0 means no limit.\<close>

definition walk_directory ::
    "(path \<Rightarrow> nat option \<Rightarrow> walk_entry option list) \<Rightarrow> (walk_entry option list \<Rightarrow> walk_entry list) \<Rightarrow>
     path \<Rightarrow> nat option \<Rightarrow> walk_entry list" where
  "walk_directory walker arrival root max_depth =
     (if max_depth = Some 1 then walk_directory_sync walker root
      else
        let depth = (case max_depth of Some d \<Rightarrow> if d > 0 then Some d else None | None \<Rightarrow> None)
        in finish_walk (arrival (walker root depth)))"

section \<open>Changed files\<close>

record cmd_output =
  co_success :: bool
  co_stdout :: string
  co_stderr :: string

datatype spawn_error = NotOnPath string | SpawnFailed string

definition forbidden_in_ref :: "string \<Rightarrow> bool" where
  "forbidden_in_ref ch \<longleftrightarrow> char_is_ws ch \<or>
     ch \<in> set (map (\<lambda>c. [c]) ''|&;><`$(){}[]*?'') \<or> ch = [CHR 0x5C] \<or> ch = [CHR 0x22] \<or> ch = [CHR 0x27]"

definition validate_git_ref :: "string \<Rightarrow> traversal_error option" where
  "validate_git_ref git_ref =
     (if git_ref = [] \<or> prefix ''-'' git_ref
      then Some (GitError (''invalid git_ref: must not be empty or start with '' @ [CHR 0x27, CHR 0x2D, CHR 0x27]))
      else if list_ex forbidden_in_ref (str_chars git_ref)
      then Some (GitError ''invalid git_ref: contains forbidden characters'')
      else None)"

definition changed_files_from_git_ref ::
    "(string list \<Rightarrow> spawn_error + cmd_output) \<Rightarrow> (string \<Rightarrow> string) \<Rightarrow> (path \<Rightarrow> path option) \<Rightarrow>
     path \<Rightarrow> string \<Rightarrow> traversal_error + path list" where
  "changed_files_from_git_ref git lossy canon dir git_ref =
     (case validate_git_ref git_ref of
        Some e \<Rightarrow> Inl e
      | None \<Rightarrow>
          (case git [''-C'', path_display dir, ''rev-parse'', ''--show-toplevel''] of
             Inl (NotOnPath _) \<Rightarrow> Inl (GitError ''git not found on PATH'')
           | Inl (SpawnFailed e) \<Rightarrow> Inl (GitError (''failed to run git: '' @ e))
           | Inr root_out \<Rightarrow>
               if \<not> co_success root_out
               then Inl (GitError (''not a git repository: '' @ lossy (co_stderr root_out)))
               else
                 let root_raw = parse_path (trim (lossy (co_stdout root_out)));
                     root = (case canon root_raw of Some r \<Rightarrow> r | None \<Rightarrow> root_raw)
                 in case git [''-C'', path_display dir, ''diff'', ''--name-only'', git_ref] of
                      Inl (NotOnPath e) \<Rightarrow> Inl (GitError (''failed to run git diff: '' @ e))
                    | Inl (SpawnFailed e) \<Rightarrow> Inl (GitError (''failed to run git diff: '' @ e))
                    | Inr diff_out \<Rightarrow>
                        if \<not> co_success diff_out
                        then Inl (GitError (''git diff failed: '' @ lossy (co_stderr diff_out)))
                        else Inr (map (\<lambda>l. path_join root (parse_path l))
                               (filter (\<lambda>l. l \<noteq> []) (str_lines (lossy (co_stdout diff_out)))))))"

section \<open>The filter by changed files\<close>

definition canon_or_self :: "(path \<Rightarrow> path option) \<Rightarrow> path \<Rightarrow> path" where
  "canon_or_self canon p = (case canon p of Some q \<Rightarrow> q | None \<Rightarrow> p)"

text \<open>The parents of a changed file, up to the root or to a directory already inserted.\<close>

function add_ancestors :: "path \<Rightarrow> path \<Rightarrow> path set \<Rightarrow> path set" where
  "add_ancestors root cur dirs =
     (case path_parent cur of
        None \<Rightarrow> dirs
      | Some parent \<Rightarrow>
          if parent \<in> dirs then dirs
          else if parent = root then insert parent dirs
          else add_ancestors root parent (insert parent dirs))"
  by pat_completeness auto
termination
proof (relation "measure (\<lambda>(_, cur, _). length cur)", goal_cases)
  case (2 root cur dirs parent)
  then show ?case using path_parent_prefix[of cur parent] by auto
qed simp

declare add_ancestors.simps [simp del]

definition ancestor_dirs :: "path \<Rightarrow> path list \<Rightarrow> path set" where
  "ancestor_dirs root changed = fold (add_ancestors root) changed {root}"

definition filter_entries_by_git_ref ::
    "(path \<Rightarrow> path option) \<Rightarrow> walk_entry list \<Rightarrow> path list \<Rightarrow> path \<Rightarrow> walk_entry list" where
  "filter_entries_by_git_ref canon entries changed root =
     (let canonical_root = canon_or_self canon root;
          canonical_changed = map (canon_or_self canon) changed;
          dirs = ancestor_dirs canonical_root canonical_changed
      in filter (\<lambda>e. let c = canon_or_self canon (we_path e) in
           if we_is_dir e then c \<in> dirs else c \<in> set canonical_changed) entries)"

section \<open>Subtree counts\<close>

definition EXCLUDED_DIRS :: "string list" where
  "EXCLUDED_DIRS = [''node_modules'', ''vendor'', ''.git'', ''__pycache__'', ''target'', ''dist'', ''build'', ''.venv'']"

text \<open>The directory a file counts for: the root joined with the first component below it.\<close>

definition subtree_key :: "path \<Rightarrow> walk_entry \<Rightarrow> path option" where
  "subtree_key root e =
     (if we_is_dir e then None
      else if list_ex (\<lambda>c. (if c = RootDir then ''/'' else comp_str c) \<in> set EXCLUDED_DIRS) (we_path e) then None
      else case path_strip_prefix (we_path e) root of
        None \<Rightarrow> None
      | Some [] \<Rightarrow> None
      | Some (first # _) \<Rightarrow> Some (path_join root [first]))"

definition bump_last :: "path \<Rightarrow> (path \<times> nat) list \<Rightarrow> (path \<times> nat) list" where
  "bump_last key counts =
     (if counts \<noteq> [] \<and> fst (last counts) = key then butlast counts @ [(key, snd (last counts) + 1)]
      else counts @ [(key, 1)])"

definition subtree_counts_from_entries :: "path \<Rightarrow> walk_entry list \<Rightarrow> (path \<times> nat) list" where
  "subtree_counts_from_entries root entries =
     fold (\<lambda>e counts. case subtree_key root e of None \<Rightarrow> counts | Some k \<Rightarrow> bump_last k counts) entries []"

section \<open>Well-formed paths\<close>

text \<open>Only the first component of a parsed path is the root or the current directory.\<close>

definition wf_path :: "path \<Rightarrow> bool" where
  "wf_path p \<longleftrightarrow> RootDir \<notin> set (tl p) \<and> CurDir \<notin> set (tl p)"

lemma wf_parse_path: "wf_path (parse_path s)"
proof -
  have c: "RootDir \<notin> set (concat (map comp_of ps))" "CurDir \<notin> set (concat (map comp_of ps))" for ps
    by (auto simp: comp_of_def)
  have "set (tl xs) \<subseteq> set xs" for xs :: path by (cases xs) auto
  then show ?thesis using c by (auto simp: wf_path_def parse_path_def Let_def simp del: set_concat)
qed

section \<open>The walk\<close>

lemma finish_walk_sorted: "sorted (map we_path (finish_walk es)) \<and> length (finish_walk es) \<le> MAX_WALK_ENTRIES"
  by (simp add: finish_walk_def)

section \<open>The filter keeps exactly the changed files and their directories\<close>

definition ancestors_closed :: "path \<Rightarrow> path set \<Rightarrow> bool" where
  "ancestors_closed root S \<longleftrightarrow> root \<in> S \<and> (\<forall>x\<in>S. prefix root x \<longrightarrow> x \<noteq> root \<longrightarrow> butlast x \<in> S)"

lemma closed_prefixes:
  assumes "ancestors_closed root S"
  shows "x \<in> S \<Longrightarrow> prefix root d \<Longrightarrow> prefix d x \<Longrightarrow> d \<in> S"
proof (induction x rule: rev_induct)
  case (snoc c x)
  show ?case
  proof (cases "d = x @ [c]")
    case False
    then have d: "prefix d x" using snoc.prems(3) by simp
    then have "prefix root x" using snoc.prems(2) by (rule prefix_order.trans[rotated])
    then have "prefix root (x @ [c])" "x @ [c] \<noteq> root" by (auto dest: prefix_length_le)
    then have "x \<in> S" using assms snoc.prems(1) unfolding ancestors_closed_def by fastforce
    then show ?thesis using snoc.IH snoc.prems(2) d by simp
  qed (use snoc in simp)
qed simp

lemma add_ancestors_spec:
  assumes "ancestors_closed root S" "root \<noteq> []"
  shows "wf_path cur \<Longrightarrow> \<forall>x\<in>E. length cur \<le> length x \<Longrightarrow> prefix root d \<Longrightarrow>
    d \<in> add_ancestors root cur (S \<union> E) \<longleftrightarrow> d \<in> S \<union> E \<or> strict_prefix d cur"
proof (induction "length cur" arbitrary: cur E rule: less_induct)
  case less
  have root_d: "d \<noteq> []" "length root \<le> length d" using assms(2) less.prems(3) by (auto dest: prefix_length_le)
  show ?case
  proof (cases "path_parent cur")
    case None
    then have "cur = [] \<or> last cur = RootDir" by (simp add: path_parent_def split: if_splits)
    then have "length cur \<le> 1" using less.prems(1)
      by (cases cur) (auto simp: wf_path_def split: if_splits dest: last_in_set)
    then have "\<not> strict_prefix d cur" using root_d(1) prefix_length_less[of d cur] by (cases d) auto
    then show ?thesis using None by (simp add: add_ancestors.simps)
  next
    case (Some parent)
    obtain c where c: "cur = parent @ [c]" using path_parent_prefix[OF Some] by auto
    have sp: "strict_prefix d cur \<longleftrightarrow> prefix d parent" unfolding c by (auto simp: strict_prefix_def prefix_def append_eq_append_conv2 Cons_eq_append_conv)
    show ?thesis
    proof (cases "parent \<in> S \<union> E")
      case True
      then have "parent \<in> S" using less.prems(2) c by fastforce
      then have "prefix d parent \<Longrightarrow> d \<in> S" using closed_prefixes[OF assms(1)] less.prems(3) by blast
      then show ?thesis using Some True sp by (auto simp: add_ancestors.simps)
    next
      case False
      have wf: "wf_path parent" using less.prems(1) unfolding c wf_path_def by (cases parent) auto
      show ?thesis
      proof (cases "parent = root")
        case True
        then have "prefix d parent \<longleftrightarrow> d = root" using less.prems(3) by auto
        then show ?thesis using Some False True sp by (auto simp: add_ancestors.simps)
      next
        case ne: False
        have "d \<in> add_ancestors root parent (S \<union> insert parent E) \<longleftrightarrow> d \<in> S \<union> insert parent E \<or> strict_prefix d parent"
          using less.prems(2) c by (intro less.hyps wf less.prems(3)) auto
        moreover have "add_ancestors root cur (S \<union> E) = add_ancestors root parent (S \<union> insert parent E)"
          using Some False ne by (subst add_ancestors.simps) simp
        ultimately show ?thesis using sp by (auto simp: strict_prefix_def)
      qed
    qed
  qed
qed

lemma strict_prefix_butlast: "strict_prefix x p \<Longrightarrow> strict_prefix (butlast x) p"
  by (metis append_butlast_last_id butlast.simps(1) prefixI prefix_order.le_less_trans)

lemma fold_ancestors:
  assumes "root \<noteq> []" "\<forall>p\<in>set ps. wf_path p"
  shows "ancestors_closed root S \<Longrightarrow> prefix root d \<Longrightarrow>
    d \<in> fold (add_ancestors root) ps S \<longleftrightarrow> d \<in> S \<or> (\<exists>p\<in>set ps. strict_prefix d p)"
  using assms(2)
proof (induction ps arbitrary: S)
  case (Cons p ps)
  have mem: "x \<in> add_ancestors root p S \<longleftrightarrow> x \<in> S \<or> strict_prefix x p" if "prefix root x" for x
    using add_ancestors_spec[OF Cons.prems(1) assms(1), of p "{}" x] Cons.prems(3) that by simp
  have "butlast x \<in> add_ancestors root p S"
    if "x \<in> add_ancestors root p S" "prefix root x" "x \<noteq> root" for x
  proof -
    have "prefix root (butlast x)" using that(2,3) by (metis append_butlast_last_id butlast.simps(1) prefix_bot.bot_least prefix_snoc)
    then show ?thesis
      using mem that Cons.prems(1) strict_prefix_butlast unfolding ancestors_closed_def by blast
  qed
  moreover have "root \<in> add_ancestors root p S" using mem Cons.prems(1) by (simp add: ancestors_closed_def)
  ultimately have "ancestors_closed root (add_ancestors root p S)" by (simp add: ancestors_closed_def)
  from Cons.IH[OF this] show ?case using Cons.prems mem by auto
qed simp

text \<open>
  With canonical paths the filter keeps a file exactly when it changed, and a directory under the root
  exactly when it is the root or contains a changed file: stopping early at a directory already
  inserted loses nothing.
\<close>

theorem filter_by_git_ref_exact:
  assumes "canon_or_self canon root = r" "r \<noteq> []"
    and "\<And>p. p \<in> set changed \<Longrightarrow> wf_path (canon_or_self canon p)"
    and "e \<in> set entries" "canon_or_self canon (we_path e) = c" "path_starts_with c r"
  shows "e \<in> set (filter_entries_by_git_ref canon entries changed root) \<longleftrightarrow>
    (if we_is_dir e then c = r \<or> (\<exists>p\<in>set changed. strict_prefix c (canon_or_self canon p))
     else \<exists>p\<in>set changed. c = canon_or_self canon p)"
proof -
  have "ancestors_closed r {r}" by (simp add: ancestors_closed_def)
  then have "c \<in> ancestor_dirs r (map (canon_or_self canon) changed) \<longleftrightarrow>
      c = r \<or> (\<exists>p\<in>set changed. strict_prefix c (canon_or_self canon p))"
    using fold_ancestors[of r "map (canon_or_self canon) changed" "{r}" c] assms(2,3,6)
    by (auto simp: ancestor_dirs_def path_starts_with_def)
  then show ?thesis using assms(1,4,5) by (auto simp: filter_entries_by_git_ref_def Let_def)
qed

theorem filter_by_git_ref_witness:
  "let dir = \<lparr>we_path = [RootDir, Normal ''r'', Normal ''d''], we_depth = 1, we_is_dir = True, we_is_symlink = False,
       we_symlink_target = None, we_mtime = None, we_canonical_path = [RootDir, Normal ''r'', Normal ''d'']\<rparr>
   in dir \<in> set (filter_entries_by_git_ref (\<lambda>_. None) [dir]
        [[RootDir, Normal ''r'', Normal ''d'', Normal ''f'']] [RootDir, Normal ''r''])"
proof -
  let ?r = "[RootDir, Normal ''r'']"
  define dir where "dir = \<lparr>we_path = ?r @ [Normal ''d''], we_depth = 1, we_is_dir = True, we_is_symlink = False,
       we_symlink_target = None, we_mtime = None, we_canonical_path = ?r @ [Normal ''d'']\<rparr>"
  have "dir \<in> set (filter_entries_by_git_ref (\<lambda>_. None) [dir] [?r @ [Normal ''d'', Normal ''f'']] ?r) \<longleftrightarrow>
    (if we_is_dir dir then ?r @ [Normal ''d''] = ?r \<or> (\<exists>p\<in>set [?r @ [Normal ''d'', Normal ''f'']]. strict_prefix (?r @ [Normal ''d'']) (canon_or_self (\<lambda>_. None) p))
     else \<exists>p\<in>set [?r @ [Normal ''d'', Normal ''f'']]. ?r @ [Normal ''d''] = canon_or_self (\<lambda>_. None) p)"
    by (rule filter_by_git_ref_exact[where r="?r" and root="?r"])
      (simp_all add: canon_or_self_def dir_def wf_path_def path_starts_with_def)
  moreover have "strict_prefix (?r @ [Normal ''d'']) (canon_or_self (\<lambda>_. None) (?r @ [Normal ''d'', Normal ''f'']))"
    by (simp add: canon_or_self_def strict_prefix_def)
  ultimately show ?thesis by (simp add: dir_def Let_def)
qed

section \<open>Subtree counts\<close>

lemma remdups_adj_snoc: "remdups_adj (xs @ [x]) = (if xs \<noteq> [] \<and> last xs = x then remdups_adj xs else remdups_adj xs @ [x])"
  by (induction xs rule: remdups_adj.induct) auto

lemma last_remdups_adj: "xs \<noteq> [] \<Longrightarrow> last (remdups_adj xs) = last xs"
  by (induction xs rule: remdups_adj.induct) auto

lemma count_snoc: "count_list (xs @ [k]) x = count_list xs x + (if k = x then 1 else 0)"
  by (induction xs) (simp_all add: count_list.simps)

lemma bump_same: "bump_last k (xs @ [(k, n)]) = xs @ [(k, n + 1)]"
  by (simp add: bump_last_def)

lemma bump_new: "xs = [] \<or> fst (last xs) \<noteq> k \<Longrightarrow> bump_last k xs = xs @ [(k, 1)]"
  by (auto simp: bump_last_def)

lemma fold_bump_last:
  "sorted ks \<Longrightarrow> fold bump_last ks [] = map (\<lambda>k. (k, count_list ks k)) (remdups_adj ks)"
proof (induction ks rule: rev_induct)
  case (snoc k ks)
  have s: "sorted ks" "\<forall>x\<in>set ks. x \<le> k" using snoc.prems by (auto simp: sorted_append)
  note ih = snoc.IH[OF s(1)]
  show ?case
  proof (cases "ks \<noteq> [] \<and> last ks = k")
    case True
    let ?rs = "butlast (remdups_adj ks)"
    have r: "remdups_adj ks = ?rs @ [k]" using True last_remdups_adj[of ks]
      by (metis append_butlast_last_id remdups_adj_Nil_iff)
    have "distinct (remdups_adj ks)" by (rule distinct_dedup[OF s(1)])
    then have "k \<notin> set ?rs" using r by (metis distinct_append distinct.simps(2) disjoint_iff list.set_intros(1))
    then have same: "map (\<lambda>x. (x, count_list (ks @ [k]) x)) ?rs = map (\<lambda>x. (x, count_list ks x)) ?rs"
      by (intro map_cong) (auto simp: count_snoc)
    have m: "remdups_adj (ks @ [k]) = ?rs @ [k]" using True r by (simp add: remdups_adj_snoc)
    have "map (\<lambda>x. (x, count_list (ks @ [k]) x)) (remdups_adj (ks @ [k])) =
        map (\<lambda>x. (x, count_list ks x)) ?rs @ [(k, count_list ks k + 1)]"
      unfolding m map_append same by (simp add: count_snoc)
    moreover have "map (\<lambda>x. (x, count_list ks x)) (remdups_adj ks) = map (\<lambda>x. (x, count_list ks x)) ?rs @ [(k, count_list ks k)]"
      by (subst r) simp
    then have "fold bump_last (ks @ [k]) [] = map (\<lambda>x. (x, count_list ks x)) ?rs @ [(k, count_list ks k + 1)]"
      by (simp only: fold_append comp_apply fold_simps ih bump_same)
    ultimately show ?thesis by (simp only:)
  next
    case False
    have "k \<notin> set ks"
    proof
      assume k: "k \<in> set ks"
      then have "k \<le> last ks" using s(1) by (cases ks rule: rev_cases) (auto simp: sorted_append)
      moreover have "last ks \<le> k" using s(2) k by (cases ks rule: rev_cases) auto
      ultimately show False using False k by auto
    qed
    then have "map (\<lambda>x. (x, count_list (ks @ [k]) x)) (remdups_adj ks) = map (\<lambda>x. (x, count_list ks x)) (remdups_adj ks)"
      "count_list (ks @ [k]) k = 1"
      by (auto simp: count_snoc count_list_0_iff intro!: map_cong)
    moreover have "remdups_adj (ks @ [k]) = remdups_adj ks @ [k]" using False by (auto simp: remdups_adj_snoc)
    ultimately have "map (\<lambda>x. (x, count_list (ks @ [k]) x)) (remdups_adj (ks @ [k])) =
        map (\<lambda>x. (x, count_list ks x)) (remdups_adj ks) @ [(k, 1)]"
      by (simp only: map_append list.map)
    moreover have "fold bump_last (ks @ [k]) [] = bump_last k (map (\<lambda>x. (x, count_list ks x)) (remdups_adj ks))"
      by (simp only: fold_append comp_apply fold_simps ih)
    moreover have "\<dots> = map (\<lambda>x. (x, count_list ks x)) (remdups_adj ks) @ [(k, 1)]"
      using False by (intro bump_new) (auto simp: last_map last_remdups_adj)
    ultimately show ?thesis by (simp only:)
  qed
qed simp

lemma subtree_counts_fold:
  "subtree_counts_from_entries root entries = fold bump_last (List.map_filter (subtree_key root) entries) []"
proof -
  have "fold (\<lambda>e counts. case subtree_key root e of None \<Rightarrow> counts | Some k \<Rightarrow> bump_last k counts) es cs
      = fold bump_last (List.map_filter (subtree_key root) es) cs" for es cs
    by (induction es arbitrary: cs) (auto simp: List.map_filter_simps split: option.split)
  then show ?thesis by (simp add: subtree_counts_from_entries_def)
qed

lemma subtree_key_form:
  assumes "root \<noteq> []" "wf_path (we_path e)" "subtree_key root e = Some k"
  shows "\<exists>c rest. we_path e = root @ c # rest \<and> k = root @ [c]"
proof -
  obtain c rest where s: "path_strip_prefix (we_path e) root = Some (c # rest)" "k = path_join root [c]"
    using assms(3) by (auto simp: subtree_key_def split: if_splits option.splits list.splits)
  then have p: "we_path e = root @ c # rest" by (auto simp: path_strip_prefix_def prefix_def split: if_splits)
  then have "c \<noteq> RootDir" "c \<noteq> CurDir" using assms(1,2) by (auto simp: wf_path_def)
  then show ?thesis using p s(2) by (auto simp: path_join_def is_absolute_def)
qed

lemma subtree_keys_sorted:
  assumes "root \<noteq> []"
  shows "sorted (map we_path es) \<Longrightarrow> \<forall>e\<in>set es. wf_path (we_path e) \<Longrightarrow> sorted (List.map_filter (subtree_key root) es)"
proof (induction es)
  case (Cons e es)
  have "k \<le> k'" if k: "subtree_key root e = Some k" and e': "e' \<in> set es" "subtree_key root e' = Some k'" for k k' e'
  proof -
    obtain c r where 1: "we_path e = root @ c # r" "k = root @ [c]"
      using subtree_key_form[of root e k] assms k Cons.prems(2) by auto
    obtain c' r' where 2: "we_path e' = root @ c' # r'" "k' = root @ [c']"
      using subtree_key_form[of root e' k'] assms e' Cons.prems(2) by auto
    have "we_path e \<le> we_path e'" using Cons.prems(1) e'(1) by auto
    then have "c \<le> c'" unfolding 1 2 path_append_le by (auto simp: list_le_def intro: less_imp_le)
    then show ?thesis unfolding 1 2 path_append_le by (auto dest: order_le_imp_less_or_eq)
  qed
  then show ?case using Cons by (auto simp: List.map_filter_simps map_filter_def split: option.split)
qed (simp add: List.map_filter_def)

text \<open>
  On a walk sorted by path the counts list each directory below the root once, in order, with the
  number of files under it outside the excluded directories.
\<close>

lemma subtree_counts_spec:
  assumes "root \<noteq> []" "sorted (map we_path entries)" "\<And>e. e \<in> set entries \<Longrightarrow> wf_path (we_path e)"
  shows "subtree_counts_from_entries root entries =
    map (\<lambda>k. (k, length (filter (\<lambda>e. subtree_key root e = Some k) entries)))
      (sorted_list_of_set {k. \<exists>e\<in>set entries. subtree_key root e = Some k})"
proof -
  let ?ks = "List.map_filter (subtree_key root) entries"
  have s: "sorted ?ks" using subtree_keys_sorted assms by blast
  have "count_list ?ks k = length (filter (\<lambda>e. subtree_key root e = Some k) entries)" for k
    by (induction entries) (auto simp: List.map_filter_simps List.map_filter_def split: option.split)
  moreover have "set ?ks = {k. \<exists>e\<in>set entries. subtree_key root e = Some k}"
    by (force simp: List.map_filter_def)
  then have "remdups_adj ?ks = sorted_list_of_set {k. \<exists>e\<in>set entries. subtree_key root e = Some k}"
    using dedup_sorted[of ?ks] s by (simp add: sorted_sort_id)
  ultimately show ?thesis unfolding subtree_counts_fold fold_bump_last[OF s] by simp
qed

definition demo_walk :: "string list \<Rightarrow> walk_entry" where
  "demo_walk names = \<lparr>we_path = RootDir # map Normal names, we_depth = 0, we_is_dir = False, we_is_symlink = False,
     we_symlink_target = None, we_mtime = Some 0, we_canonical_path = RootDir # map Normal names\<rparr>"

lemma subtree_counts_example:
  "subtree_counts_from_entries [RootDir] [demo_walk [''a'', ''x''], demo_walk [''a'', ''y''], demo_walk [''b'', ''z'']]
     = [([RootDir, Normal ''a''], 2), ([RootDir, Normal ''b''], 1)]"
proof -
  let ?es = "[demo_walk [''a'', ''x''], demo_walk [''a'', ''y''], demo_walk [''b'', ''z'']]"
  have "sorted (map we_path ?es)" by code_simp
  moreover have "wf_path (we_path e)" if "e \<in> set ?es" for e
    using that by (auto simp: demo_walk_def wf_path_def)
  ultimately have "subtree_counts_from_entries [RootDir] ?es =
    map (\<lambda>k. (k, length (filter (\<lambda>e. subtree_key [RootDir] e = Some k) ?es)))
      (sorted_list_of_set {k. \<exists>e\<in>set ?es. subtree_key [RootDir] e = Some k})"
    by (intro subtree_counts_spec) auto
  moreover have "subtree_counts_from_entries [RootDir] ?es = [([RootDir, Normal ''a''], 2), ([RootDir, Normal ''b''], 1)]"
    by code_simp
  ultimately show ?thesis by simp
qed

text \<open>Under a root that itself lies in a directory of an excluded name nothing is counted.\<close>

lemma excluded_root_counts_nothing:
  assumes "Normal n \<in> set root" "n \<in> set EXCLUDED_DIRS"
  shows "subtree_counts_from_entries root entries = []"
proof -
  have "subtree_key root e = None" for e
  proof (cases "path_strip_prefix (we_path e) root")
    case (Some r)
    then have "Normal n \<in> set (we_path e)" using assms(1) by (auto simp: path_strip_prefix_def prefix_def split: if_splits)
    then show ?thesis using assms(2) by (force simp: subtree_key_def list_ex_iff)
  qed (auto simp: subtree_key_def)
  then show ?thesis by (induction entries) (simp_all add: subtree_counts_from_entries_def)
qed

end
