(* ===== verification/Cache.thy ===== *)
theory Cache
  imports Traversal Types "HOL-Library.Word"
begin

text \<open>
  The in-memory caches, \<open>crates/aptu-coder-core/src/cache.rs\<close>: their keys, the LRU caches behind mutexes
  with recovery from poisoning, and the keys of the disk cache. \<open>lru::LruCache\<close> comes from a crate and is
  the parameter \<open>L\<close>, a record of its operations; \<open>lru_documented\<close> states its documented behaviour. The hash
  \<open>blake3\<close> and \<open>Path::to_string_lossy\<close> (\<open>path_str\<close>) are parameters.
\<close>

section \<open>The LRU crate\<close>

text \<open>\<open>op_iter\<close> lists the entries from the most to the least recently used.\<close>

record ('k, 'v, 'c) lru_ops =
  op_new :: "nat \<Rightarrow> 'c"
  op_get :: "'k \<Rightarrow> 'c \<Rightarrow> 'v option \<times> 'c"
  op_push :: "'k \<Rightarrow> 'v \<Rightarrow> 'c \<Rightarrow> ('k \<times> 'v) option \<times> 'c"
  op_pop :: "'k \<Rightarrow> 'c \<Rightarrow> 'c"
  op_iter :: "'c \<Rightarrow> ('k \<times> 'v) list"
  op_cap :: "'c \<Rightarrow> nat"

definition touch :: "'k \<Rightarrow> ('k \<times> 'v) list \<Rightarrow> ('k \<times> 'v) list" where
  "touch k xs = (case alookup k xs of None \<Rightarrow> xs | Some v \<Rightarrow> ainsert k v xs)"

definition push_entry :: "nat \<Rightarrow> 'k \<Rightarrow> 'v \<Rightarrow> ('k \<times> 'v) list \<Rightarrow> ('k \<times> 'v) option \<times> ('k \<times> 'v) list" where
  "push_entry cap k v xs =
     (case alookup k xs of
        Some old \<Rightarrow> (Some (k, old), ainsert k v xs)
      | None \<Rightarrow> if length xs < cap then (None, (k, v) # xs) else (Some (last xs), (k, v) # butlast xs))"

definition lru_documented :: "('k, 'v, 'c) lru_ops \<Rightarrow> bool" where
  "lru_documented L \<longleftrightarrow>
     (\<forall>n. op_iter L (op_new L n) = [] \<and> op_cap L (op_new L n) = n) \<and>
     (\<forall>k c. fst (op_get L k c) = alookup k (op_iter L c) \<and>
        op_iter L (snd (op_get L k c)) = touch k (op_iter L c) \<and> op_cap L (snd (op_get L k c)) = op_cap L c) \<and>
     (\<forall>k v c. fst (op_push L k v c) = fst (push_entry (op_cap L c) k v (op_iter L c)) \<and>
        op_iter L (snd (op_push L k v c)) = snd (push_entry (op_cap L c) k v (op_iter L c)) \<and>
        op_cap L (snd (op_push L k v c)) = op_cap L c) \<and>
     (\<forall>k c. op_iter L (op_pop L k c) = aremove k (op_iter L c) \<and> op_cap L (op_pop L k c) = op_cap L c)"

section \<open>Keys\<close>

datatype analysis_mode = Overview | FileDetails | SymbolFocus | ModuleOnly

datatype symbol_analysis_mode = ModeCallGraph | ModeImportLookup | ModeDefUse

datatype cache_tier = L1Memory | L2Disk | Miss | L1OnlyMiss | L1L2Miss

fun cache_tier_str :: "cache_tier \<Rightarrow> string" where
  "cache_tier_str L1Memory = ''l1_memory''"
| "cache_tier_str L2Disk = ''l2_disk''"
| "cache_tier_str Miss = ''miss''"
| "cache_tier_str L1OnlyMiss = ''l1_only_miss''"
| "cache_tier_str L1L2Miss = ''l1_l2_miss''"

definition is_hit :: "cache_tier \<Rightarrow> bool" where
  "is_hit t \<longleftrightarrow> t \<in> {L1Memory, L2Disk}"

definition parse_cache_capacity :: "string option \<Rightarrow> nat \<Rightarrow> nat" where
  "parse_cache_capacity env_value dflt =
     max 1 (case Option.bind env_value (parse_nat (2 ^ 64)) of Some n \<Rightarrow> n | None \<Rightarrow> dflt)"

record cache_key =
  ck_path :: path
  ck_modified :: system_time
  ck_mode :: analysis_mode

record directory_cache_key =
  dk_files :: "(path \<times> system_time) list"
  dk_mode :: analysis_mode
  dk_max_depth :: "nat option"
  dk_git_ref :: "string option"

definition directory_key_from_entries ::
    "walk_entry list \<Rightarrow> nat option \<Rightarrow> analysis_mode \<Rightarrow> string option \<Rightarrow> directory_cache_key" where
  "directory_key_from_entries entries max_depth mode git_ref =
     \<lparr>dk_files = sort_key fst (map (\<lambda>e. (we_path e, case we_mtime e of Some t \<Rightarrow> t | None \<Rightarrow> 0))
        (filter (\<lambda>e. \<not> we_is_dir e) entries)),
      dk_mode = mode, dk_max_depth = max_depth, dk_git_ref = git_ref\<rparr>"

text \<open>\<open>to_le_bytes\<close>.\<close>

fun le_bytes :: "nat \<Rightarrow> nat \<Rightarrow> string" where
  "le_bytes 0 n = []"
| "le_bytes (Suc k) n = char_of (n mod 256) # le_bytes k (n div 256)"

text \<open>Whole seconds since the epoch, 0 before it; nanoseconds as \<open>u64\<close>.\<close>

definition mtime_secs :: "system_time option \<Rightarrow> nat" where
  "mtime_secs t = (case t of Some m \<Rightarrow> if m < 0 then 0 else nat (m div 1000000000) | None \<Rightarrow> 0)"

definition mtime_nanos :: "system_time option \<Rightarrow> nat" where
  "mtime_nanos t = (case t of Some m \<Rightarrow> if m < 0 then 0 else nat m mod 2 ^ 64 | None \<Rightarrow> 0)"

definition relative_to :: "path \<Rightarrow> path \<Rightarrow> path" where
  "relative_to root p = (case path_strip_prefix p root of Some r \<Rightarrow> r | None \<Rightarrow> p)"

definition directory_key_bytes ::
    "(path \<Rightarrow> string) \<Rightarrow> directory_cache_key \<Rightarrow> path \<Rightarrow> walk_entry list \<Rightarrow> string" where
  "directory_key_bytes path_str key root dir_entries =
     concat (map (\<lambda>e. path_str (relative_to root (we_path e)) @ le_bytes 8 (mtime_secs (we_mtime e))) dir_entries) @
     (case dk_max_depth key of Some d \<Rightarrow> nat_str d | None \<Rightarrow> []) @
     (case dk_git_ref key of Some r \<Rightarrow> r | None \<Rightarrow> [])"

definition directory_disk_key ::
    "(string \<Rightarrow> 'h) \<Rightarrow> (path \<Rightarrow> string) \<Rightarrow> directory_cache_key \<Rightarrow> path \<Rightarrow> walk_entry list \<Rightarrow> 'h" where
  "directory_disk_key blake3 path_str key root dir_entries = blake3 (directory_key_bytes path_str key root dir_entries)"

record call_graph_cache_key =
  gk_root_path :: path
  gk_symbol :: string
  gk_mode :: symbol_analysis_mode
  gk_git_ref :: "string option"
  gk_follow_depth :: nat
  gk_match_mode :: symbol_match_mode
  gk_impl_only :: bool
  gk_ast_recursion_limit :: "nat option"
  gk_file_mtimes :: "(path \<times> nat) list"

definition call_graph_key_from_entries ::
    "path \<Rightarrow> walk_entry list \<Rightarrow> string option \<Rightarrow> nat \<Rightarrow> symbol_match_mode \<Rightarrow> bool \<Rightarrow> nat option \<Rightarrow> string \<Rightarrow>
     symbol_analysis_mode \<Rightarrow> call_graph_cache_key" where
  "call_graph_key_from_entries root entries git_ref follow_depth match_mode impl_only limit symbol mode =
     \<lparr>gk_root_path = root, gk_symbol = symbol, gk_mode = mode, gk_git_ref = git_ref, gk_follow_depth = follow_depth,
      gk_match_mode = match_mode, gk_impl_only = impl_only, gk_ast_recursion_limit = limit,
      gk_file_mtimes = sort_key fst (map (\<lambda>e. (we_path e, mtime_nanos (we_mtime e)))
        (filter (\<lambda>e. \<not> we_is_dir e) entries))\<rparr>"

text \<open>\<open>serde_json::to_string\<close> of the two unit enums.\<close>

definition json_quote :: "string \<Rightarrow> string" where
  "json_quote s = [CHR 0x22] @ s @ [CHR 0x22]"

fun symbol_analysis_mode_json :: "symbol_analysis_mode \<Rightarrow> string" where
  "symbol_analysis_mode_json ModeCallGraph = json_quote ''call_graph''"
| "symbol_analysis_mode_json ModeImportLookup = json_quote ''import_lookup''"
| "symbol_analysis_mode_json ModeDefUse = json_quote ''def_use''"

fun symbol_match_mode_json :: "symbol_match_mode \<Rightarrow> string" where
  "symbol_match_mode_json Exact = json_quote ''exact''"
| "symbol_match_mode_json Insensitive = json_quote ''insensitive''"
| "symbol_match_mode_json PrefixMode = json_quote ''prefix''"
| "symbol_match_mode_json ContainsMode = json_quote ''contains''"

definition call_graph_disk_key ::
    "(string \<Rightarrow> 'h) \<Rightarrow> (path \<Rightarrow> string) \<Rightarrow> call_graph_cache_key \<Rightarrow> 'h" where
  "call_graph_disk_key blake3 path_str key =
     blake3 (gk_symbol key @ symbol_analysis_mode_json (gk_mode key) @ path_str (gk_root_path key) @
       (case gk_git_ref key of Some r \<Rightarrow> r | None \<Rightarrow> []) @ le_bytes 4 (gk_follow_depth key) @
       symbol_match_mode_json (gk_match_mode key) @ le_bytes 1 (if gk_impl_only key then 1 else 0) @
       concat (map (\<lambda>(p, t). path_str (relative_to (gk_root_path key) p) @ le_bytes 8 t) (gk_file_mtimes key)))"

section \<open>A cache behind a mutex\<close>

record 'c locked_cache =
  lc_cache :: 'c
  lc_poisoned :: bool

definition DEFAULT_LOCK_RECOVER_CAPACITY :: nat where "DEFAULT_LOCK_RECOVER_CAPACITY = 100"

text \<open>
  A poisoned mutex stays poisoned: \<open>into_inner\<close> hands out the guard and does not clear the flag.
\<close>

definition lock_or_recover ::
    "('k, 'v, 'c) lru_ops \<Rightarrow> nat \<Rightarrow> ('c \<Rightarrow> 'r \<times> 'c) \<Rightarrow> 'c locked_cache \<Rightarrow> 'r \<times> 'c locked_cache" where
  "lock_or_recover L capacity recovery m =
     (let inner = (if \<not> lc_poisoned m then lc_cache m
                   else op_new L (if capacity = 0 then DEFAULT_LOCK_RECOVER_CAPACITY else capacity));
          (r, c) = recovery inner
      in (r, m\<lparr>lc_cache := c\<rparr>))"

record 'c lru_state =
  ls_capacity :: nat
  ls_cache :: "'c locked_cache"
  ls_evictions :: "64 word"

definition lru_new :: "('k, 'v, 'c) lru_ops \<Rightarrow> nat \<Rightarrow> 'c lru_state" where
  "lru_new L capacity =
     (let capacity = max capacity 1 in
      \<lparr>ls_capacity = capacity, ls_cache = \<lparr>lc_cache = op_new L capacity, lc_poisoned = False\<rparr>, ls_evictions = 0\<rparr>)"

definition lru_get :: "('k, 'v, 'c) lru_ops \<Rightarrow> 'k \<Rightarrow> 'c lru_state \<Rightarrow> 'v option \<times> 'c lru_state" where
  "lru_get L k s =
     (let (r, m) = lock_or_recover L (ls_capacity s) (op_get L k) (ls_cache s) in (r, s\<lparr>ls_cache := m\<rparr>))"

definition lru_put :: "('k, 'v, 'c) lru_ops \<Rightarrow> 'k \<Rightarrow> 'v \<Rightarrow> 'c lru_state \<Rightarrow> 'c lru_state" where
  "lru_put L k v s =
     (let (r, m) = lock_or_recover L (ls_capacity s) (op_push L k v) (ls_cache s)
      in s\<lparr>ls_cache := m,
           ls_evictions := (case r of Some (k', _) \<Rightarrow> if k' \<noteq> k then ls_evictions s + 1 else ls_evictions s
             | None \<Rightarrow> ls_evictions s)\<rparr>)"

definition lru_eviction_count :: "'c lru_state \<Rightarrow> 64 word" where
  "lru_eviction_count s = ls_evictions s"

text \<open>\<open>invalidate_file\<close> of the file cache: every entry of the path, whatever its time and mode.\<close>

definition lru_invalidate_file :: "(cache_key, 'v, 'c) lru_ops \<Rightarrow> path \<Rightarrow> 'c lru_state \<Rightarrow> 'c lru_state" where
  "lru_invalidate_file L p s =
     (let (_, m) = lock_or_recover L (ls_capacity s)
            (\<lambda>c. ((), fold (\<lambda>k. op_pop L k) (map fst (filter (\<lambda>(k, _). ck_path k = p) (op_iter L c))) c)) (ls_cache s)
      in s\<lparr>ls_cache := m\<rparr>)"

record ('c, 'd) analysis_cache =
  ac_files :: "'c lru_state"
  ac_directories :: "'d locked_cache"
  ac_dir_capacity :: nat

definition analysis_cache_new ::
    "(cache_key, 'v, 'c) lru_ops \<Rightarrow> (directory_cache_key, 'w, 'd) lru_ops \<Rightarrow> string option \<Rightarrow> nat \<Rightarrow>
     ('c, 'd) analysis_cache" where
  "analysis_cache_new L D env_value capacity =
     (let dir_capacity = parse_cache_capacity env_value 20 in
      \<lparr>ac_files = lru_new L capacity,
       ac_directories = \<lparr>lc_cache = op_new D dir_capacity, lc_poisoned = False\<rparr>, ac_dir_capacity = dir_capacity\<rparr>)"

definition cache_get where
  "cache_get L key s = (let (r, f) = lru_get L (key :: cache_key) (ac_files s) in (r, s\<lparr>ac_files := f\<rparr>))"

definition cache_put where
  "cache_put L key value s = s\<lparr>ac_files := lru_put L (key :: cache_key) value (ac_files s)\<rparr>"

definition get_directory where
  "get_directory D key s =
     (let (r, m) = lock_or_recover D (ac_dir_capacity s) (op_get D (key :: directory_cache_key)) (ac_directories s)
      in (r, s\<lparr>ac_directories := m\<rparr>))"

definition put_directory where
  "put_directory D key value s =
     (let (_, m) = lock_or_recover D (ac_dir_capacity s) (op_push D (key :: directory_cache_key) value) (ac_directories s)
      in s\<lparr>ac_directories := m\<rparr>)"

definition invalidate_file where
  "invalidate_file L p s = s\<lparr>ac_files := lru_invalidate_file L p (ac_files s)\<rparr>"

end
