(* ===== verification/FileAnalysis.thy ===== *)
theory FileAnalysis
  imports Formatter Cache
begin

text \<open>
  Analysis of a file: language and test detection (\<open>lang.rs\<close>, \<open>test_detection.rs\<close>), Python wildcard imports
  and the import lookup (\<open>module_lookup.rs\<close>) and the per-file part of \<open>analyze.rs\<close>, all of
  \<open>crates/aptu-coder-core/src\<close>. What walks \<open>tree-sitter\<close> syntax trees is the parameter \<open>X\<close>; the files are
  read through a view.
\<close>

section \<open>Languages\<close>

definition EXTENSION_MAP :: "(string \<times> string) list" where
  "EXTENSION_MAP =
     [(''c'', ''c''), (''cc'', ''cpp''), (''cjs'', ''javascript''), (''cpp'', ''cpp''), (''cxx'', ''cpp''),
      (''f'', ''fortran''), (''f03'', ''fortran''), (''f08'', ''fortran''), (''f77'', ''fortran''), (''f90'', ''fortran''),
      (''f95'', ''fortran''), (''for'', ''fortran''), (''ftn'', ''fortran''), (''h'', ''cpp''), (''cs'', ''csharp''),
      (''hpp'', ''cpp''), (''hxx'', ''cpp''), (''js'', ''javascript''), (''mjs'', ''javascript''), (''go'', ''go''),
      (''java'', ''java''), (''kt'', ''kotlin''), (''kts'', ''kotlin''), (''py'', ''python''), (''rs'', ''rust''),
      (''ts'', ''typescript''), (''tsx'', ''tsx''), (''html'', ''html''), (''htm'', ''html''), (''md'', ''markdown''),
      (''mdx'', ''markdown''), (''astro'', ''astro''), (''css'', ''css''), (''yaml'', ''yaml''), (''yml'', ''yaml''),
      (''json'', ''json''), (''toml'', ''toml''), (''swift'', ''swift'')]"

definition ascii_lower :: "char \<Rightarrow> char" where
  "ascii_lower c = (if 65 \<le> byte c \<and> byte c \<le> 90 then char_of (byte c + 32) else c)"

definition eq_ignore_ascii_case :: "string \<Rightarrow> string \<Rightarrow> bool" where
  "eq_ignore_ascii_case a b \<longleftrightarrow> map ascii_lower a = map ascii_lower b"

definition language_for_extension :: "string \<Rightarrow> string option" where
  "language_for_extension ext = map_option snd (List.find (\<lambda>(e, _). eq_ignore_ascii_case e ext) EXTENSION_MAP)"

definition supported_extensions :: "string list" where
  "supported_extensions = map fst EXTENSION_MAP"

definition supported_languages :: "string list" where
  "supported_languages =
     [''rust'', ''go'', ''java'', ''kotlin'', ''python'', ''typescript'', ''tsx'', ''javascript'', ''fortran'', ''c'', ''cpp'',
      ''csharp'', ''html'', ''markdown'', ''swift'']"

section \<open>Test files\<close>

definition is_test_file :: "path \<Rightarrow> bool" where
  "is_test_file p \<longleftrightarrow>
     list_ex (\<lambda>c. c \<noteq> RootDir \<and> comp_str c \<in> set [''tests'', ''test'', ''__tests__'', ''spec'']) p \<or>
     (case path_file_name p of
        None \<Rightarrow> False
      | Some n \<Rightarrow>
          let ext = (case path_extension p of Some e \<Rightarrow> e | None \<Rightarrow> []) in
          (prefix ''test_'' n \<and> eq_ignore_ascii_case ext ''rs'') \<or> suffix ''_test.rs'' n \<or>
          (prefix ''test_'' n \<and> eq_ignore_ascii_case ext ''py'') \<or> suffix ''_test.py'' n \<or>
          suffix ''_test.go'' n \<or>
          (prefix ''Test'' n \<and> eq_ignore_ascii_case ext ''java'') \<or> suffix ''Test.java'' n \<or>
          suffix ''.test.ts'' n \<or> suffix ''.test.js'' n \<or> suffix ''.spec.ts'' n \<or> suffix ''.spec.js'' n)"

section \<open>Errors and the outside\<close>

datatype parser_error = UnsupportedLanguage string | ParseError string | InvalidUtf8 | QueryError string | ParserTimeout nat

fun parser_error_display :: "parser_error \<Rightarrow> string" where
  "parser_error_display (UnsupportedLanguage l) = ''Unsupported language: '' @ l"
| "parser_error_display (ParseError e) = ''Failed to parse file: '' @ e"
| "parser_error_display InvalidUtf8 = ''Invalid UTF-8 in file''"
| "parser_error_display (QueryError e) = ''Query error: '' @ e"
| "parser_error_display (ParserTimeout n) = ''Parse timeout exceeded: '' @ nat_str n @ '' microseconds''"

text \<open>The variants of \<open>AnalyzeError\<close> these functions return.\<close>

datatype analyze_error = AnalyzeParser parser_error | AnalyzeCancelled | AnalyzeUnsupported string

definition MAX_FILE_SIZE_BYTES :: nat where "MAX_FILE_SIZE_BYTES = 10000000"

text \<open>
  What the operating system answers: lengths and modification times from the metadata, contents or the
  text of the error.
\<close>

record file_view =
  fv_is_dir :: "path \<Rightarrow> bool"
  fv_exists :: "path \<Rightarrow> bool"
  fv_len :: "path \<Rightarrow> nat option"
  fv_modified :: "path \<Rightarrow> system_time option"
  fv_read :: "path \<Rightarrow> string + string"
  fv_canonicalize :: "path \<Rightarrow> path option"

text \<open>The parser's entry points, the Unicode lower case and the texts of UTF-8 errors.\<close>

record extractor =
  ex_extract :: "string \<Rightarrow> string \<Rightarrow> nat option \<Rightarrow> parser_error + semantic_analysis"
  ex_counts :: "string \<Rightarrow> string \<Rightarrow> parser_error + nat \<times> nat"
  ex_python_symbols :: "string \<Rightarrow> string list option"
  ex_lower :: "string \<Rightarrow> string"
  ex_utf8_error :: "string \<Rightarrow> string"

definition view_read_to_string :: "extractor \<Rightarrow> file_view \<Rightarrow> path \<Rightarrow> string + string" where
  "view_read_to_string X v p =
     (case fv_read v p of Inl e \<Rightarrow> Inl e
      | Inr bytes \<Rightarrow> if utf8_valid bytes then Inr bytes else Inl (''stream did not contain valid UTF-8''))"

definition too_large :: "file_view \<Rightarrow> path \<Rightarrow> bool" where
  "too_large v p \<longleftrightarrow> (case fv_len v p of Some n \<Rightarrow> n | None \<Rightarrow> 0) > MAX_FILE_SIZE_BYTES"

section \<open>Wildcard imports\<close>

definition path_file_stem :: "string \<Rightarrow> string" where
  "path_file_stem n = (case name_extension n of None \<Rightarrow> n | Some e \<Rightarrow> take (length n - length e - 1) n)"

definition without_extension :: "path \<Rightarrow> path" where
  "without_extension p = (case path_file_name p of None \<Rightarrow> p | Some n \<Rightarrow> butlast p @ [Normal (path_file_stem n)])"

fun climb :: "nat \<Rightarrow> path \<Rightarrow> path option" where
  "climb 0 p = Some p"
| "climb (Suc k) p = Option.bind (path_parent p) (climb k)"

definition locate_target_file :: "file_view \<Rightarrow> path \<Rightarrow> nat \<Rightarrow> string \<Rightarrow> path option" where
  "locate_target_file v file_path dot_count module_path =
     Option.bind (path_parent file_path) (\<lambda>dir0. Option.bind (climb (dot_count - 1) dir0) (\<lambda>target_dir.
       let target_file = (if module_path = [] then path_join target_dir (parse_path ''__init__.py'')
             else path_join target_dir (parse_path (map (\<lambda>c. if c = CHR ''.'' then CHR ''/'' else c) module_path @ ''.py'')))
       in if fv_exists v target_file then Some target_file
          else if fv_is_dir v (without_extension target_file)
          then let init = path_join (without_extension target_file) (parse_path ''__init__.py'')
               in if fv_exists v init then Some init else None
          else None))"

definition validate_wildcard_target :: "file_view \<Rightarrow> path \<Rightarrow> path \<Rightarrow> path option" where
  "validate_wildcard_target v target file_canonical =
     (case fv_canonicalize v target of None \<Rightarrow> None | Some c \<Rightarrow> if c = file_canonical then None else Some c)"

definition parse_target_symbols :: "extractor \<Rightarrow> file_view \<Rightarrow> path \<Rightarrow> string list option" where
  "parse_target_symbols X v target =
     (if too_large v target then None
      else case view_read_to_string X v target of Inl _ \<Rightarrow> None | Inr source \<Rightarrow> ex_python_symbols X source)"

definition resolve_single_wildcard ::
    "extractor \<Rightarrow> file_view \<Rightarrow> path \<Rightarrow> path \<Rightarrow> import_info \<Rightarrow> (path \<times> string list) list \<Rightarrow>
     import_info \<times> (path \<times> string list) list" where
  "resolve_single_wildcard X v file_path file_canonical im cache =
     (let dots = length (takeWhile (\<lambda>c. c = CHR ''.'') (im_module im));
          module_path = dropWhile (\<lambda>c. c = CHR ''.'') (im_module im)
      in if dots = 0 then (im, cache)
         else case locate_target_file v file_path dots module_path of
             None \<Rightarrow> (im, cache)
           | Some target \<Rightarrow>
               (case validate_wildcard_target v target file_canonical of
                  None \<Rightarrow> (im, cache)
                | Some canonical \<Rightarrow>
                    (case alookup canonical cache of
                       Some symbols \<Rightarrow> (im\<lparr>im_items := symbols\<rparr>, cache)
                     | None \<Rightarrow>
                         (case parse_target_symbols X v target of
                            Some symbols \<Rightarrow> (im\<lparr>im_items := symbols\<rparr>, ainsert canonical symbols cache)
                          | None \<Rightarrow> (im, cache)))))"

fun wildcard_loop ::
    "extractor \<Rightarrow> file_view \<Rightarrow> path \<Rightarrow> path \<Rightarrow> import_info list \<Rightarrow> (path \<times> string list) list \<Rightarrow> import_info list" where
  "wildcard_loop X v file_path file_canonical [] cache = []"
| "wildcard_loop X v file_path file_canonical (im # ims) cache =
     (if im_items im \<noteq> [''*''] then im # wildcard_loop X v file_path file_canonical ims cache
      else let (im', cache') = resolve_single_wildcard X v file_path file_canonical im cache
           in im' # wildcard_loop X v file_path file_canonical ims cache')"

definition resolve_wildcard_imports :: "extractor \<Rightarrow> file_view \<Rightarrow> path \<Rightarrow> import_info list \<Rightarrow> import_info list" where
  "resolve_wildcard_imports X v file_path imports =
     (case fv_canonicalize v file_path of None \<Rightarrow> imports
      | Some canonical \<Rightarrow> wildcard_loop X v file_path canonical imports [])"

section \<open>Analysis of one file\<close>

definition read_source_checked :: "extractor \<Rightarrow> file_view \<Rightarrow> string \<Rightarrow> analyze_error + string" where
  "read_source_checked X v p =
     (if too_large v (parse_path p) then Inl (AnalyzeParser (ParseError ''file too large''))
      else case view_read_to_string X v (parse_path p) of
        Inl e \<Rightarrow> Inl (AnalyzeParser (ParseError e)) | Inr s \<Rightarrow> Inr s)"

definition path_language :: "path \<Rightarrow> string option" where
  "path_language p = Option.bind (path_extension p) language_for_extension"

definition set_locations :: "string \<Rightarrow> semantic_analysis \<Rightarrow> semantic_analysis" where
  "set_locations p sem = sem\<lparr>sa_references := map (\<lambda>r. r\<lparr>ri_location := p\<rparr>) (sa_references sem)\<rparr>"

definition file_output :: "string \<Rightarrow> string \<Rightarrow> semantic_analysis \<Rightarrow> nat \<Rightarrow> file_analysis_output" where
  "file_output p formatted sem line_count =
     \<lparr>fa_formatted = formatted, fa_path = p, fa_semantic = sem, fa_line_count = line_count,
      fa_next_cursor = None, fa_unsupported = None\<rparr>"

definition analyze_file_from_bytes ::
    "extractor \<Rightarrow> file_view \<Rightarrow> string \<Rightarrow> string \<Rightarrow> nat option \<Rightarrow> (analyze_error, file_analysis_output) outcome" where
  "analyze_file_from_bytes X v p bytes limit =
     (if length bytes > MAX_FILE_SIZE_BYTES then Err (AnalyzeParser (ParseError ''file too large''))
      else if \<not> utf8_valid bytes then Err (AnalyzeParser (ParseError (ex_utf8_error X bytes)))
      else
        let line_count = length (str_lines bytes);
            ext = (case path_language (parse_path p) of Some l \<Rightarrow> l | None \<Rightarrow> ''unknown'')
        in case ex_extract X bytes ext limit of
             Inl e \<Rightarrow> Err (AnalyzeParser e)
           | Inr sem0 \<Rightarrow>
               let sem1 = set_locations p sem0;
                   sem = (if ext = ''python''
                          then sem1\<lparr>sa_imports := resolve_wildcard_imports X v (parse_path p) (sa_imports sem1)\<rparr> else sem1)
               in bind_outcome (or_panic (format_file_details p sem line_count (is_test_file (parse_path p))
                      (path_parent (parse_path p))))
                    (\<lambda>formatted. Ok (file_output p formatted sem line_count)))"

definition analyze_file ::
    "extractor \<Rightarrow> file_view \<Rightarrow> string \<Rightarrow> nat option \<Rightarrow> (analyze_error, file_analysis_output) outcome" where
  "analyze_file X v p limit =
     (if too_large v (parse_path p) then Err (AnalyzeParser (ParseError ''file too large''))
      else case fv_read v (parse_path p) of
        Inl e \<Rightarrow> Err (AnalyzeParser (ParseError e))
      | Inr bytes \<Rightarrow> analyze_file_from_bytes X v p bytes limit)"

definition language_by_name :: "string \<Rightarrow> string option" where
  "language_by_name language =
     (case language_for_extension language of Some l \<Rightarrow> Some l
      | None \<Rightarrow> List.find (\<lambda>name. name = map ascii_lower language) supported_languages)"

definition analyze_str ::
    "extractor \<Rightarrow> string \<Rightarrow> string \<Rightarrow> nat option \<Rightarrow> (analyze_error, file_analysis_output) outcome" where
  "analyze_str X source language limit =
     (case language_by_name language of
        None \<Rightarrow> Err (AnalyzeUnsupported language)
      | Some lang \<Rightarrow>
          (case ex_extract X source lang limit of
             Inl e \<Rightarrow> Err (AnalyzeParser e)
           | Inr sem0 \<Rightarrow>
               let sem = set_locations ''<memory>'' sem0; line_count = length (str_lines source) in
               bind_outcome (or_panic (format_file_details [] sem line_count False None))
                 (\<lambda>formatted. Ok (file_output [] formatted sem line_count))))"

definition determine_mode :: "file_view \<Rightarrow> string \<Rightarrow> string option \<Rightarrow> analysis_mode" where
  "determine_mode v p focus =
     (if focus \<noteq> None then SymbolFocus else if fv_is_dir v (parse_path p) then Overview else FileDetails)"

section \<open>Files of a directory\<close>

datatype skip_reason = Oversized | Unreadable

definition check_file_eligibility :: "file_view \<Rightarrow> walk_entry \<Rightarrow> skip_reason + string" where
  "check_file_eligibility v e =
     (case fv_len v (we_path e) of
        None \<Rightarrow> Inl Unreadable
      | Some n \<Rightarrow>
          if n > MAX_FILE_SIZE_BYTES then Inl Oversized
          else case fv_read v (we_path e) of
            Inl _ \<Rightarrow> Inl Unreadable
          | Inr bytes \<Rightarrow> if utf8_valid bytes then Inr bytes else Inl Unreadable)"

definition process_file_entry :: "extractor \<Rightarrow> walk_entry \<Rightarrow> string \<Rightarrow> file_info" where
  "process_file_entry X e source =
     (let ext = path_extension (we_path e);
          (language, fns, cls) =
            (case Option.bind ext language_for_extension of
               Some lang \<Rightarrow> (case ex_counts X source lang of Inr (f, c) \<Rightarrow> (lang, f, c) | Inl _ \<Rightarrow> (lang, 0, 0))
             | None \<Rightarrow> (case ext of Some x \<Rightarrow> ex_lower X x | None \<Rightarrow> ''unknown'', 0, 0))
      in \<lparr>fl_path = path_display (we_path e), fl_language = language, fl_line_count = length (str_lines source),
          fl_function_count = fns, fl_class_count = cls, fl_is_test = is_test_file (we_path e)\<rparr>)"

text \<open>Cancellation is observed per file (\<open>cancelled\<close>) and once more at the end.\<close>

definition analyze_single_file :: "extractor \<Rightarrow> file_view \<Rightarrow> bool \<Rightarrow> walk_entry \<Rightarrow> file_info option" where
  "analyze_single_file X v cancelled e =
     (if cancelled then None
      else case check_file_eligibility v e of Inl _ \<Rightarrow> None | Inr source \<Rightarrow> Some (process_file_entry X e source))"

definition init_analysis_context :: "walk_entry list \<Rightarrow> walk_entry list" where
  "init_analysis_context entries = filter (\<lambda>e. \<not> we_is_dir e \<and> \<not> we_is_symlink e) entries"

definition run_parallel_analysis ::
    "extractor \<Rightarrow> file_view \<Rightarrow> (walk_entry \<Rightarrow> bool) \<Rightarrow> bool \<Rightarrow> walk_entry list \<Rightarrow> analyze_error + file_info list" where
  "run_parallel_analysis X v cancelled cancelled_after file_entries =
     (let results = List.map_filter (\<lambda>e. analyze_single_file X v (cancelled e) e) file_entries
      in if cancelled_after then Inl AnalyzeCancelled else Inr results)"

section \<open>Import lookup\<close>

definition import_match :: "extractor \<Rightarrow> file_view \<Rightarrow> string \<Rightarrow> nat option \<Rightarrow> walk_entry \<Rightarrow> (path \<times> nat) option" where
  "import_match X v module limit e =
     (if we_is_dir e \<or> we_is_symlink e then None
      else Option.bind (path_language (we_path e)) (\<lambda>ext.
        case view_read_to_string X v (we_path e) of
          Inl _ \<Rightarrow> None
        | Inr source \<Rightarrow>
            (case ex_extract X source ext limit of
               Inl _ \<Rightarrow> None
             | Inr sem \<Rightarrow> map_option (\<lambda>im. (we_path e, im_line im))
                 (List.find (\<lambda>im. im_module im = module \<or> list_ex (\<lambda>i. i = module) (im_items im)) (sa_imports sem)))))"

definition analyze_import_lookup ::
    "extractor \<Rightarrow> file_view \<Rightarrow> path \<Rightarrow> string \<Rightarrow> walk_entry list \<Rightarrow> nat option \<Rightarrow> string" where
  "analyze_import_lookup X v root module entries limit =
     (let matches = List.map_filter (import_match X v module limit) entries
      in line (''IMPORT_LOOKUP: '' @ module) @ line (''ROOT: '' @ path_display root) @
         line (''MATCHES: '' @ nat_str (length matches)) @
         concat (map (\<lambda>(p, ln). line (''  '' @
           path_display (case path_strip_prefix p root of Some r \<Rightarrow> r | None \<Rightarrow> p) @ '':'' @ nat_str ln)) matches))"

end
