(* ===== verification/DiskCache.thy ===== *)
theory DiskCache
  imports Traversal "HOL-Library.Word"
begin

text \<open>
  The advisory file locks, \<open>crates/aptu-coder-core/src/file_lock.rs\<close>, and the disk cache,
  \<open>crates/aptu-coder-core/src/cache_disk.rs\<close>, over a disk whose calls can fail. \<open>serde_json\<close> and the
  frame format of \<open>snap\<close> are the parameter \<open>K\<close>, a record of their functions; the hash \<open>blake3\<close> reaches this
  code as its hexadecimal text.
\<close>

section \<open>The disk\<close>

datatype disk_op = DkMkdir | DkChmod | DkOpen | DkLockShared | DkLock | DkRead | DkTemp | DkWrite | DkPersist
  | DkReadDir | DkMetadata | DkRemove | DkSetModified

text \<open>
  Files in the order directories list them, with their bytes and modification time (\<open>None\<close> where the
  platform has none); the clock gives the time of the next write. A refused call changes nothing.
\<close>

record disk =
  d_dirs :: "path list"
  d_files :: "(path \<times> string \<times> system_time option) list"
  d_fails :: "disk_op \<Rightarrow> path \<Rightarrow> bool"
  d_clock :: system_time

definition file_bytes :: "disk \<Rightarrow> path \<Rightarrow> string option" where
  "file_bytes d p = map_option fst (alookup p (d_files d))"

definition set_file :: "path \<Rightarrow> string \<Rightarrow> disk \<Rightarrow> disk" where
  "set_file p bytes d = d\<lparr>d_files := ainsert p (bytes, Some (d_clock d)) (d_files d)\<rparr>"

definition disk_read :: "path \<Rightarrow> disk \<Rightarrow> string option" where
  "disk_read p d = (if d_fails d DkRead p then None else file_bytes d p)"

definition disk_create_dir_all :: "path \<Rightarrow> disk \<Rightarrow> bool \<times> disk" where
  "disk_create_dir_all p d =
     (if d_fails d DkMkdir p \<or> list_ex (\<lambda>k. file_bytes d (take k p) \<noteq> None) [0..<Suc (length p)] then (False, d)
      else (True, d\<lparr>d_dirs := d_dirs d @ filter (\<lambda>q. q \<notin> set (d_dirs d)) (map (\<lambda>k. take k p) [0..<Suc (length p)])\<rparr>))"

section \<open>Locks\<close>

text \<open>Opening creates an empty file when there is none, and never truncates.\<close>

definition open_lock_file :: "path \<Rightarrow> disk \<Rightarrow> bool \<times> disk" where
  "open_lock_file lock_path d =
     (if d_fails d DkOpen lock_path \<or> lock_path \<in> set (d_dirs d) \<or>
         (case path_parent lock_path of None \<Rightarrow> True | Some q \<Rightarrow> q \<notin> set (d_dirs d)) then (False, d)
      else (True, if file_bytes d lock_path = None then set_file lock_path [] d else d))"

text \<open>Whether the guard is held. It is dropped at the end of the operation that takes it.\<close>

definition lock_shared :: "path \<Rightarrow> disk \<Rightarrow> bool \<times> disk" where
  "lock_shared lock_path d =
     (let (opened, d1) = open_lock_file lock_path d in (opened \<and> \<not> d_fails d1 DkLockShared lock_path, d1))"

definition lock_exclusive :: "path \<Rightarrow> disk \<Rightarrow> bool \<times> disk" where
  "lock_exclusive lock_path d =
     (let (opened, d1) = open_lock_file lock_path d in (opened \<and> \<not> d_fails d1 DkLock lock_path, d1))"

definition lock_name :: "path \<Rightarrow> path" where
  "lock_name shard_dir = path_join shard_dir [Normal ''.lock'']"

definition lock_shard_shared :: "path \<Rightarrow> disk \<Rightarrow> bool \<times> disk" where
  "lock_shard_shared shard_dir = lock_shared (lock_name shard_dir)"

definition lock_shard_exclusive :: "path \<Rightarrow> disk \<Rightarrow> bool \<times> disk" where
  "lock_shard_exclusive shard_dir = lock_exclusive (lock_name shard_dir)"

text \<open>The rename is atomic; the temporary file is removed when it is dropped.\<close>

definition write_entry_atomically :: "path \<Rightarrow> path \<Rightarrow> string \<Rightarrow> disk \<Rightarrow> bool \<times> disk" where
  "write_entry_atomically dir p bytes d =
     (let (locked, d1) = lock_shard_exclusive dir d in
      if \<not> locked then (False, d1)
      else if d_fails d1 DkTemp dir \<or> d_fails d1 DkWrite dir \<or> d_fails d1 DkPersist p \<or> p \<in> set (d_dirs d1) then (False, d1)
      else (True, set_file p bytes d1))"

section \<open>The cache\<close>

record 'v disk_codec =
  kd_to_vec :: "'v \<Rightarrow> string option"
  kd_from_slice :: "string \<Rightarrow> 'v option"
  kd_compress :: "string \<Rightarrow> string option"
  kd_decompress :: "string \<Rightarrow> string option"

definition DISK_CACHE_DEGRADED_THRESHOLD :: "64 word" where "DISK_CACHE_DEGRADED_THRESHOLD = 100"

text \<open>\<open>dc_alerts\<close> counts the \<open>error!\<close> lines logged.\<close>

record disk_cache =
  dc_base :: path
  dc_disabled :: bool
  dc_write_failures :: "64 word"
  dc_total_write_failures :: "64 word"
  dc_entry_count :: "64 word"
  dc_total_size_bytes :: "64 word"
  dc_alerts :: nat

definition drain_write_failures :: "disk_cache \<Rightarrow> 64 word \<times> disk_cache" where
  "drain_write_failures c = (dc_write_failures c, c\<lparr>dc_write_failures := 0\<rparr>)"

definition cache_stats :: "disk_cache \<Rightarrow> 64 word \<times> 64 word" where
  "cache_stats c = (dc_entry_count c, dc_total_size_bytes c)"

definition disk_cache_new :: "path \<Rightarrow> bool \<Rightarrow> disk \<Rightarrow> disk_cache \<times> disk" where
  "disk_cache_new base disabled d =
     (let mk = (\<lambda>off. \<lparr>dc_base = base, dc_disabled = off, dc_write_failures = 0, dc_total_write_failures = 0,
                  dc_entry_count = 0, dc_total_size_bytes = 0, dc_alerts = 0\<rparr>)
      in if disabled then (mk True, d)
         else let (made, d1) = disk_create_dir_all base d in if \<not> made then (mk True, d1) else (mk False, d1))"

text \<open>The path of an entry; \<open>None\<close> is the panic of slicing a text shorter than two bytes.\<close>

definition entry_path :: "disk_cache \<Rightarrow> string \<Rightarrow> string \<Rightarrow> path option" where
  "entry_path c tool hex =
     map_option (\<lambda>shard. path_join (path_join (path_join (dc_base c) (parse_path tool)) (parse_path shard))
         (parse_path (hex @ ''.json.snap'')))
       (str_slice hex 0 2)"

text \<open>An outer \<open>None\<close> is a panic.\<close>

definition disk_get :: "'v disk_codec \<Rightarrow> string \<Rightarrow> string \<Rightarrow> disk_cache \<Rightarrow> disk \<Rightarrow> ('v option \<times> disk) option" where
  "disk_get K tool hex c d =
     (if dc_disabled c then Some (None, d)
      else case entry_path c tool hex of
        None \<Rightarrow> None
      | Some p \<Rightarrow>
          (case path_parent p of
             None \<Rightarrow> Some (None, d)
           | Some dir \<Rightarrow>
               let (locked, d1) = lock_shard_shared dir d in
               if \<not> locked then Some (None, d1)
               else Some (Option.bind (disk_read p d1) (\<lambda>z. Option.bind (kd_decompress K z) (kd_from_slice K)), d1)))"

definition serialize_entry :: "'v disk_codec \<Rightarrow> 'v \<Rightarrow> string option" where
  "serialize_entry K v = Option.bind (kd_to_vec K v) (kd_compress K)"

definition record_write_failure :: "disk_cache \<Rightarrow> disk_cache" where
  "record_write_failure c =
     (let total = dc_total_write_failures c + 1 in
      c\<lparr>dc_write_failures := dc_write_failures c + 1, dc_total_write_failures := total,
        dc_alerts := (if total = DISK_CACHE_DEGRADED_THRESHOLD then dc_alerts c + 1 else dc_alerts c)\<rparr>)"

definition disk_put :: "'v disk_codec \<Rightarrow> string \<Rightarrow> string \<Rightarrow> 'v \<Rightarrow> disk_cache \<Rightarrow> disk \<Rightarrow> (disk_cache \<times> disk) option" where
  "disk_put K tool hex v c d =
     (if dc_disabled c then Some (c, d)
      else case entry_path c tool hex of
        None \<Rightarrow> None
      | Some p \<Rightarrow>
          (case path_parent p of
             None \<Rightarrow> Some (c, d)
           | Some dir \<Rightarrow>
               let (made, d1) = disk_create_dir_all dir d in
               if \<not> made then Some (record_write_failure c, d1)
               else (case serialize_entry K v of
                   None \<Rightarrow> Some (c, d1)
                 | Some compressed \<Rightarrow>
                     let (written, d2) = write_entry_atomically dir p compressed d1 in
                     if \<not> written then Some (record_write_failure c, d2)
                     else Some (c\<lparr>dc_entry_count := dc_entry_count c + 1,
                            dc_total_size_bytes := dc_total_size_bytes c + of_nat (length compressed)\<rparr>, d2))))"

section \<open>Facts on the disk\<close>

lemma file_bytes_set_file [simp]: "file_bytes (set_file p b d) q = (if q = p then Some b else file_bytes d q)"
  by (simp add: file_bytes_def set_file_def)

lemma set_file_sel [simp]:
  "d_dirs (set_file p b d) = d_dirs d" "d_fails (set_file p b d) = d_fails d" "d_clock (set_file p b d) = d_clock d"
  by (simp_all add: set_file_def)

lemma disk_create_dir_all_facts:
  assumes "disk_create_dir_all p d = (ok, d')"
  shows "d_files d' = d_files d" "d_fails d' = d_fails d" "d_clock d' = d_clock d" "ok \<Longrightarrow> p \<in> set (d_dirs d')"
    "set (d_dirs d) \<subseteq> set (d_dirs d')"
proof -
  show "d_files d' = d_files d" "d_fails d' = d_fails d" "d_clock d' = d_clock d" "set (d_dirs d) \<subseteq> set (d_dirs d')"
    using assms by (auto simp: disk_create_dir_all_def split: if_splits)
  have "p \<in> set (map (\<lambda>k. take k p) [0..<Suc (length p)])" by (auto intro: image_eqI[where x = "length p"])
  then show "ok \<Longrightarrow> p \<in> set (d_dirs d')" using assms by (auto simp: disk_create_dir_all_def split: if_splits)
qed

lemma file_bytes_cong: "d_files d = d_files d' \<Longrightarrow> file_bytes d = file_bytes d'"
  by (simp add: file_bytes_def fun_eq_iff)

text \<open>Taking a lock touches the lock file only.\<close>

lemma open_lock_file_facts:
  assumes "open_lock_file l d = (ok, d')"
  shows "q \<noteq> l \<Longrightarrow> file_bytes d' q = file_bytes d q" "d_dirs d' = d_dirs d" "d_fails d' = d_fails d" "d_clock d' = d_clock d"
    "d' = d \<or> d' = set_file l [] d"
  using assms by (auto simp: open_lock_file_def split: if_splits)

lemma lock_shared_facts:
  assumes "lock_shared l d = (ok, d')"
  shows "q \<noteq> l \<Longrightarrow> file_bytes d' q = file_bytes d q" "d_dirs d' = d_dirs d" "d_fails d' = d_fails d" "d_clock d' = d_clock d"
    "d' = d \<or> d' = set_file l [] d"
  using open_lock_file_facts[OF prod.collapse[symmetric], where l = l and d = d] assms
  by (auto simp: lock_shared_def split: prod.splits)

lemma lock_exclusive_facts:
  assumes "lock_exclusive l d = (ok, d')"
  shows "q \<noteq> l \<Longrightarrow> file_bytes d' q = file_bytes d q" "d_dirs d' = d_dirs d" "d_fails d' = d_fails d" "d_clock d' = d_clock d"
    "d' = d \<or> d' = set_file l [] d"
  using open_lock_file_facts[OF prod.collapse[symmetric], where l = l and d = d] assms
  by (auto simp: lock_exclusive_def split: prod.splits)

lemma write_entry_facts:
  assumes "write_entry_atomically dir p bytes d = (ok, d')"
  shows "q \<noteq> lock_name dir \<Longrightarrow> file_bytes d' q = (if q = p \<and> ok then Some bytes else file_bytes d q)"
    "d_dirs d' = d_dirs d" "d_fails d' = d_fails d" "d_clock d' = d_clock d"
proof -
  obtain l d1 where l: "lock_exclusive (lock_name dir) d = (l, d1)" by fastforce
  note f = lock_exclusive_facts[OF l]
  show "q \<noteq> lock_name dir \<Longrightarrow> file_bytes d' q = (if q = p \<and> ok then Some bytes else file_bytes d q)"
    "d_dirs d' = d_dirs d" "d_fails d' = d_fails d" "d_clock d' = d_clock d"
    using assms l f by (auto simp: write_entry_atomically_def lock_shard_exclusive_def split: if_splits)
qed

end
