(* ===== verification/AnalyzeFileTool.thy ===== *)
theory AnalyzeFileTool
  imports FileAnalysis DiskCache
begin

text \<open>
  The \<open>analyze_file\<close> tool, \<open>crates/aptu-coder/src/tools/analyze_file.rs\<close>: lookup in the memory and disk caches,
  analysis on a miss, and the answer as a summary, a page or an error. The disk write is a task that runs
  after the answer; it waits in \<open>af_pending\<close>. Each call sees the files twice: \<open>v\<close> at the first read and
  \<open>v'\<close> when it reads again.
\<close>

section \<open>State and results\<close>

definition SIZE_LIMIT :: nat where "SIZE_LIMIT = 5000"
definition ANALYZE_FILE_PAGE_SIZE :: nat where "ANALYZE_FILE_PAGE_SIZE = 50"

definition PATH_IS_DIRECTORY :: string where "PATH_IS_DIRECTORY = ''path_is_directory''"
definition SUMMARY_CURSOR_CONFLICT :: string where "SUMMARY_CURSOR_CONFLICT = ''summary_cursor_conflict''"
definition OUTPUT_TOO_LARGE :: string where "OUTPUT_TOO_LARGE = ''output_too_large''"
definition INVALID_CURSOR :: string where "INVALID_CURSOR = ''invalid_cursor''"

record analyze_file_params =
  ap_path :: string
  ap_fields :: "analyze_file_field list option"
  ap_cursor :: "string option"
  ap_summary :: "bool option"

record file_metric =
  fm_result :: string
  fm_error_type :: "string option"
  fm_error_subtype :: "string option"
  fm_output_chars :: nat
  fm_cache_tier :: "string option"
  fm_cache_hit :: "bool option"
  fm_cache_write_failure :: "bool option"
  fm_fields_projected :: bool
  fm_summary_mode :: bool
  fm_is_paginated :: bool

record ('c, 'd) analyze_file_state =
  af_cache :: "('c, 'd) analysis_cache"
  af_disk_cache :: disk_cache
  af_disk :: disk
  af_pending :: "(string \<times> file_analysis_output) list"
  af_metrics :: "file_metric list"

datatype file_result = FileError error_data | FileText string

text \<open>The crates the tool calls: the LRU map, the encodings, \<open>blake3\<close> and the cursor codec.\<close>

record ('c) file_env =
  fe_lru :: "(cache_key, file_analysis_output, 'c) lru_ops"
  fe_codec :: "file_analysis_output disk_codec"
  fe_blake3 :: "string \<Rightarrow> string"
  fe_extractor :: extractor
  fe_cursor :: cursor_codec
  fe_lossy :: "string \<Rightarrow> string"
  fe_select :: "nat \<Rightarrow> function_info list \<Rightarrow> function_info list"

section \<open>The cached analysis\<close>

definition file_cache_key :: "file_view \<Rightarrow> string \<Rightarrow> cache_key option" where
  "file_cache_key v p =
     map_option (\<lambda>t. \<lparr>ck_path = parse_path p, ck_modified = t, ck_mode = FileDetails\<rparr>) (fv_modified v (parse_path p))"

definition put_if_keyed where
  "put_if_keyed E key out s =
     (case key of None \<Rightarrow> s | Some k \<Rightarrow> s\<lparr>af_cache := cache_put (fe_lru E) k out (af_cache s)\<rparr>)"

definition empty_analysis :: semantic_analysis where
  "empty_analysis = \<lparr>sa_functions = [], sa_classes = [], sa_imports = [], sa_references = [], sa_call_frequency = [],
     sa_calls = [], sa_impl_traits = [], sa_def_use_sites = []\<rparr>"

definition UNSUPPORTED_TEXT :: string where
  "UNSUPPORTED_TEXT = ''[Unsupported extension: semantic analysis not available]''"

definition unsupported_output :: "(string \<Rightarrow> string) \<Rightarrow> file_view \<Rightarrow> string \<Rightarrow> file_analysis_output" where
  "unsupported_output lossy v p =
     (let source = lossy (case fv_read v (parse_path p) of Inr bytes \<Rightarrow> bytes | Inl _ \<Rightarrow> []);
          preview = join [LF] (take 50 (str_lines source));
          formatted = ''File: '' @ p @ [LF] @ UNSUPPORTED_TEXT @ [LF, LF] @ preview
      in (file_output p formatted empty_analysis (length (str_lines source)))\<lparr>fa_unsupported := Some True\<rparr>)"

fun analyze_error_display :: "analyze_error \<Rightarrow> string" where
  "analyze_error_display (AnalyzeParser e) = ''Parser error: '' @ parser_error_display e"
| "analyze_error_display AnalyzeCancelled = ''Analysis cancelled''"
| "analyze_error_display (AnalyzeUnsupported l) = ''unsupported language: '' @ l"

definition handle_file_details_mode where
  "handle_file_details_mode E v v' params s =
     (let key = file_cache_key v (ap_path params);
          (cached, cache) = (case key of None \<Rightarrow> (None, af_cache s) | Some k \<Rightarrow> cache_get (fe_lru E) k (af_cache s));
          s1 = s\<lparr>af_cache := cache\<rparr>
      in case cached of
           Some out \<Rightarrow> (Ok (out, L1Memory), s1)
         | None \<Rightarrow>
             (case fv_read v (parse_path (ap_path params)) of
                Inl _ \<Rightarrow>
                  (case analyze_file (fe_extractor E) v' (ap_path params) None of
                     Panic \<Rightarrow> (Panic, s1)
                   | Ok out \<Rightarrow> (Ok (out, Miss), s1)
                   | Err (AnalyzeParser (UnsupportedLanguage _)) \<Rightarrow>
                       (Ok (unsupported_output (fe_lossy E) v' (ap_path params), Miss), s1)
                   | Err e \<Rightarrow> (Err (error_new INTERNAL_ERROR (''Error analyzing file: '' @ analyze_error_display e)
                       ''resource'' False ''check file path and permissions''), s1))
              | Inr bytes \<Rightarrow>
                  let disk_key = fe_blake3 E bytes in
                  (case disk_get (fe_codec E) ''analyze_file'' disk_key (af_disk_cache s1) (af_disk s1) of
                     None \<Rightarrow> (Panic, s1)
                   | Some (Some out, d) \<Rightarrow> (Ok (out, L2Disk), put_if_keyed E key out (s1\<lparr>af_disk := d\<rparr>))
                   | Some (None, d) \<Rightarrow>
                       let s2 = s1\<lparr>af_disk := d\<rparr> in
                       (case analyze_file_from_bytes (fe_extractor E) v' (ap_path params) bytes None of
                          Panic \<Rightarrow> (Panic, s2)
                        | Ok out \<Rightarrow> (Ok (out, Miss),
                            (put_if_keyed E key out s2)\<lparr>af_pending := af_pending s2 @ [(disk_key, out)]\<rparr>)
                        | Err (AnalyzeParser (UnsupportedLanguage _)) \<Rightarrow>
                            (Ok (unsupported_output (fe_lossy E) v' (ap_path params), Miss), s2)
                        | Err e \<Rightarrow> (Err (error_new INTERNAL_ERROR (''Error analyzing file: '' @ analyze_error_display e)
                            ''resource'' False ''check file path and permissions''), s2)))))"

text \<open>A pending disk write: a failure is drained into a metric of its own.\<close>

definition write_failure_metric :: file_metric where
  "write_failure_metric =
     \<lparr>fm_result = ''ok'', fm_error_type = None, fm_error_subtype = None, fm_output_chars = 0, fm_cache_tier = None,
      fm_cache_hit = None, fm_cache_write_failure = Some True, fm_fields_projected = False, fm_summary_mode = False,
      fm_is_paginated = False\<rparr>"

definition run_pending_write where
  "run_pending_write E i s =
     (if i \<ge> length (af_pending s) then Some s
      else let (disk_key, out) = af_pending s ! i;
               s1 = s\<lparr>af_pending := take i (af_pending s) @ drop (Suc i) (af_pending s)\<rparr>
           in case disk_put (fe_codec E) ''analyze_file'' disk_key out (af_disk_cache s1) (af_disk s1) of
                None \<Rightarrow> None
              | Some (c, d) \<Rightarrow>
                  let (failures, c') = drain_write_failures c; s2 = s1\<lparr>af_disk_cache := c', af_disk := d\<rparr>
                  in Some (if failures > 0 then s2\<lparr>af_metrics := af_metrics s2 @ [write_failure_metric]\<rparr> else s2))"

section \<open>The handler\<close>

definition file_error_metric :: "analyze_file_params \<Rightarrow> string option \<Rightarrow> string option \<Rightarrow> string option \<Rightarrow> file_metric" where
  "file_error_metric params cursor etype subtype =
     \<lparr>fm_result = ''error'', fm_error_type = etype, fm_error_subtype = subtype, fm_output_chars = 0,
      fm_cache_tier = None, fm_cache_hit = None, fm_cache_write_failure = None,
      fm_fields_projected = (ap_fields params \<noteq> None), fm_summary_mode = (ap_summary params = Some True),
      fm_is_paginated = (cursor \<noteq> None)\<rparr>"

definition emit_metric :: "file_metric \<Rightarrow> ('c, 'd) analyze_file_state \<Rightarrow> ('c, 'd) analyze_file_state" where
  "emit_metric m s = s\<lparr>af_metrics := af_metrics s @ [m]\<rparr>"

definition error_code_str :: "error_code \<Rightarrow> string option" where
  "error_code_str c =
     (if c = INVALID_PARAMS then Some ''invalid_params'' else if c = INTERNAL_ERROR then Some ''internal_error'' else None)"

definition use_summary :: "bool option \<Rightarrow> string \<Rightarrow> bool" where
  "use_summary summary formatted =
     (case summary of Some b \<Rightarrow> b | None \<Rightarrow> length formatted > SIZE_LIMIT)"

definition too_large_message :: "string \<Rightarrow> string" where
  "too_large_message formatted =
     ''Output exceeds 50K chars ('' @ nat_str (length formatted) @ '' chars, ~'' @ nat_str (length formatted div 4) @
     '' tokens). Use one of:'' @ [LF] @ ''- Use summary=true for a compact overview'' @ [LF] @
     ''- Use fields to limit output to specific sections (functions, classes, or imports)''"

text \<open>The page and its footer, once the output is known not to be refused.\<close>

definition render_file_page where
  "render_file_page E params cursor out tier summarise s =
     (case decode_offset (fe_cursor E) cursor of
        Inl e \<Rightarrow> (Ok (FileError e), emit_metric (file_error_metric params cursor (Some ''invalid_params'') (Some INVALID_CURSOR)) s)
      | Inr offset \<Rightarrow>
          let fns = top_level (sa_classes (fa_semantic out)) (sa_functions (fa_semantic out)) in
          (case paginate_or_internal_error (fe_cursor E) fns offset ANALYZE_FILE_PAGE_SIZE of
             Inl e \<Rightarrow> (Ok (FileError e), emit_metric (file_error_metric params cursor (Some ''internal_error'') None) s)
           | Inr page \<Rightarrow>
               let unsupported = str_contains (fa_formatted out) UNSUPPORTED_TEXT;
                   body = (if summarise
                           then Some (format_file_details_summary (fe_select E) (fa_semantic out) (ap_path params) (fa_line_count out))
                           else if unsupported then Some (fa_formatted out)
                           else format_file_details_paginated (pr_items page) (pr_total page) (fa_semantic out) (ap_path params)
                                  (fa_line_count out) offset False (ap_fields params));
                   next_cursor = (if summarise then None else pr_next_cursor page)
               in case body of
                    None \<Rightarrow> (Panic, s)
                  | Some text \<Rightarrow>
                      let final_text = append_pagination_footer text next_cursor cursor in
                      (Ok (FileText final_text),
                       emit_metric \<lparr>fm_result = ''ok'', fm_error_type = None, fm_error_subtype = None,
                         fm_output_chars = length final_text, fm_cache_tier = Some (cache_tier_str tier),
                         fm_cache_hit = Some (tier \<noteq> Miss), fm_cache_write_failure = None,
                         fm_fields_projected = (ap_fields params \<noteq> None), fm_summary_mode = summarise,
                         fm_is_paginated = (cursor \<noteq> None)\<rparr> s)))"

definition analyze_file_handler where
  "analyze_file_handler E v v' params s =
     (let cursor = normalize_cursor (ap_cursor params) in
      if fv_is_dir v (parse_path (ap_path params))
      then (Ok (FileError (error_new INVALID_PARAMS ''path is a directory; use analyze_directory instead'' ''validation'' False
              ''pass a file path, not a directory'')),
            emit_metric (file_error_metric params cursor (Some ''invalid_params'') (Some PATH_IS_DIRECTORY)) s)
      else if summary_cursor_conflict (ap_summary params) cursor
      then (Ok (FileError (error_new INVALID_PARAMS
              ''summary=true is incompatible with a pagination cursor; use one or the other'' ''validation'' False
              ''remove cursor or set summary=false'')),
            emit_metric (file_error_metric params cursor (Some ''invalid_params'') (Some SUMMARY_CURSOR_CONFLICT)) s)
      else case handle_file_details_mode E v v' params s of
        (Panic, s1) \<Rightarrow> (Panic, s1)
      | (Err e, s1) \<Rightarrow> (Ok (FileError e), emit_metric (file_error_metric params cursor (error_code_str (ed_code e)) None) s1)
      | (Ok (out, tier), s1) \<Rightarrow>
          let summarise = use_summary (ap_summary params) (fa_formatted out) in
          if \<not> summarise \<and> length (fa_formatted out) > SIZE_LIMIT
          then (Ok (FileError (error_new INVALID_PARAMS (too_large_message (fa_formatted out)) ''validation'' False
                  ''use force=true, fields, or summary=true'')),
                emit_metric (file_error_metric params cursor (Some ''invalid_params'') (Some OUTPUT_TOO_LARGE)) s1)
          else render_file_page E params cursor out tier summarise s1)"

section \<open>What the disk cache keeps of an analysis\<close>

text \<open>
  The serde attributes of \<open>FileAnalysisOutput\<close> and \<open>SemanticAnalysis\<close> in \<open>types.rs\<close> and \<open>analyze.rs\<close>: three
  fields are skipped and come back empty; empty \<open>references\<close> and \<open>calls\<close> are left out when writing and
  are required when reading, so such an output cannot be read back.
\<close>

definition serde_image :: "file_analysis_output \<Rightarrow> file_analysis_output option" where
  "serde_image out =
     (let sem = fa_semantic out in
      if sa_references sem = [] \<or> sa_calls sem = [] then None
      else Some (out\<lparr>fa_semantic := sem\<lparr>sa_call_frequency := [], sa_impl_traits := [], sa_def_use_sites := []\<rparr>\<rparr>))"

end
