(* ===== verification/CacheProps.thy ===== *)
theory CacheProps
  imports Cache
begin

text \<open>
  Correctness of the in-memory caches: they refine a bounded list of entries in order of use, an entry
  survives as long as fewer other keys than the capacity have been used since, a cache whose mutex was
  poisoned never hits again, and a cache that only holds computed values is transparent.
\<close>

section \<open>The abstract cache\<close>

definition entries_of :: "('k, 'v, 'c) lru_ops \<Rightarrow> 'c lru_state \<Rightarrow> ('k \<times> 'v) list" where
  "entries_of L s = op_iter L (lc_cache (ls_cache s))"

definition lru_wf :: "('k, 'v, 'c) lru_ops \<Rightarrow> 'c lru_state \<Rightarrow> bool" where
  "lru_wf L s \<longleftrightarrow> distinct (map fst (entries_of L s)) \<and> length (entries_of L s) \<le> ls_capacity s \<and>
     op_cap L (lc_cache (ls_cache s)) = ls_capacity s \<and> 0 < ls_capacity s"

lemma lru_laws:
  assumes "lru_documented L"
  shows "op_iter L (op_new L n) = []" "op_cap L (op_new L n) = n"
    "fst (op_get L k c) = alookup k (op_iter L c)" "op_iter L (snd (op_get L k c)) = touch k (op_iter L c)"
    "op_cap L (snd (op_get L k c)) = op_cap L c"
    "fst (op_push L k v c) = fst (push_entry (op_cap L c) k v (op_iter L c))"
    "op_iter L (snd (op_push L k v c)) = snd (push_entry (op_cap L c) k v (op_iter L c))"
    "op_cap L (snd (op_push L k v c)) = op_cap L c"
    "op_iter L (op_pop L k c) = aremove k (op_iter L c)" "op_cap L (op_pop L k c) = op_cap L c"
  using assms unfolding lru_documented_def by blast+

lemma touch_keys: "fst ` set (touch k xs) = fst ` set xs"
  by (auto simp: touch_def ainsert_def fst_aremove image_iff split: option.splits dest!: alookup_Some_in)
    (metis fst_conv)+

lemma distinct_touch: "distinct (map fst xs) \<Longrightarrow> distinct (map fst (touch k xs))"
  by (simp add: touch_def distinct_ainsert split: option.split)

lemma length_touch: "distinct (map fst xs) \<Longrightarrow> length (touch k xs) = length xs"
  using length_ainsert[of xs k] alookup_None_iff[of k xs] by (auto simp: touch_def split: option.split)

lemma alookup_touch [simp]: "alookup k' (touch k xs) = alookup k' xs"
  by (auto simp: touch_def split: option.split)

lemma push_entry_wf:
  assumes "distinct (map fst xs)" "length xs \<le> cap" "0 < cap"
  shows "distinct (map fst (snd (push_entry cap k v xs))) \<and> length (snd (push_entry cap k v xs)) \<le> cap"
proof (cases "alookup k xs")
  case None
  then have k: "k \<notin> fst ` set xs" by (simp add: alookup_None_iff)
  then have "k \<notin> fst ` set (butlast xs)" by (auto dest: in_set_butlastD)
  moreover have "distinct (map fst (butlast xs))" using assms(1) by (simp add: map_butlast distinct_butlast)
  ultimately show ?thesis using assms None k by (auto simp: push_entry_def)
next
  case (Some w)
  then have "k \<in> fst ` set xs" using alookup_None_iff[of k xs] by fastforce
  then show ?thesis using Some assms length_ainsert[OF assms(1), of k v] by (simp add: push_entry_def distinct_ainsert)
qed

lemma lru_get_entries:
  assumes "lru_documented L" "\<not> lc_poisoned (ls_cache s)"
  shows "fst (lru_get L k s) = alookup k (entries_of L s)" "entries_of L (snd (lru_get L k s)) = touch k (entries_of L s)"
    "ls_capacity (snd (lru_get L k s)) = ls_capacity s" "lc_poisoned (ls_cache (snd (lru_get L k s))) = False"
    "op_cap L (lc_cache (ls_cache (snd (lru_get L k s)))) = op_cap L (lc_cache (ls_cache s))"
    "ls_evictions (snd (lru_get L k s)) = ls_evictions s"
  using assms lru_laws(3,4,5)[OF assms(1), of k "lc_cache (ls_cache s)"]
  by (auto simp: lru_get_def lock_or_recover_def entries_of_def Let_def split: prod.split)

lemma lru_put_entries:
  assumes "lru_documented L" "\<not> lc_poisoned (ls_cache s)"
  shows "entries_of L (lru_put L k v s) = snd (push_entry (op_cap L (lc_cache (ls_cache s))) k v (entries_of L s))"
    "ls_capacity (lru_put L k v s) = ls_capacity s" "lc_poisoned (ls_cache (lru_put L k v s)) = False"
    "op_cap L (lc_cache (ls_cache (lru_put L k v s))) = op_cap L (lc_cache (ls_cache s))"
    "ls_evictions (lru_put L k v s) =
      (case fst (push_entry (op_cap L (lc_cache (ls_cache s))) k v (entries_of L s)) of
         Some (k', _) \<Rightarrow> if k' \<noteq> k then ls_evictions s + 1 else ls_evictions s | None \<Rightarrow> ls_evictions s)"
  using assms lru_laws(6,7,8)[OF assms(1), of k v "lc_cache (ls_cache s)"]
  by (auto simp: lru_put_def lock_or_recover_def entries_of_def Let_def split: prod.split)

section \<open>Runs\<close>

datatype ('k, 'v) lru_event = Got 'k "'v option" | Stored 'k 'v | Panicked

text \<open>One access of a shared cache; a panic while the lock is held poisons the mutex and leaves any content.\<close>

inductive lru_step :: "('k, 'v, 'c) lru_ops \<Rightarrow> 'c lru_state \<Rightarrow> ('k, 'v) lru_event \<Rightarrow> 'c lru_state \<Rightarrow> bool"
  for L where
  get: "lru_get L k s = (r, s') \<Longrightarrow> lru_step L s (Got k r) s'"
| put: "lru_put L k v s = s' \<Longrightarrow> lru_step L s (Stored k v) s'"
| panic: "lru_step L s Panicked (s\<lparr>ls_cache := \<lparr>lc_cache = c, lc_poisoned = True\<rparr>\<rparr>)"

inductive_cases lru_step_GotE: "lru_step L s (Got k r) s'"
inductive_cases lru_step_StoredE: "lru_step L s (Stored k v) s'"
inductive_cases lru_step_PanickedE: "lru_step L s Panicked s'"

inductive lru_run :: "('k, 'v, 'c) lru_ops \<Rightarrow> 'c lru_state \<Rightarrow> ('k, 'v) lru_event list \<Rightarrow> 'c lru_state \<Rightarrow> bool"
  for L where
  stop: "lru_run L s [] s"
| more: "lru_step L s e s1 \<Longrightarrow> lru_run L s1 es s2 \<Longrightarrow> lru_run L s (e # es) s2"

inductive_cases lru_run_ConsE: "lru_run L s (e # es) s'"

fun event_key :: "('k, 'v) lru_event \<Rightarrow> 'k set" where
  "event_key (Got k r) = {k}"
| "event_key (Stored k v) = {k}"
| "event_key Panicked = {}"

lemma lru_step_wf:
  assumes "lru_documented L" "lru_step L s e s'" "e \<noteq> Panicked" "lru_wf L s" "\<not> lc_poisoned (ls_cache s)"
  shows "lru_wf L s' \<and> \<not> lc_poisoned (ls_cache s') \<and> ls_capacity s' = ls_capacity s"
  using assms(2)
proof cases
  case (get k r)
  then have "s' = snd (lru_get L k s)" by simp
  then show ?thesis using lru_get_entries[OF assms(1,5), of k] assms(4)
    by (simp add: lru_wf_def distinct_touch length_touch)
next
  case (put k v)
  then show ?thesis using lru_put_entries[OF assms(1,5), of k v] assms(4) push_entry_wf[of "entries_of L s" "ls_capacity s" k v]
    by (auto simp: lru_wf_def)
qed (use assms(3) in auto)

text \<open>\<open>k\<close> is cached with \<open>v\<close>, and only keys of \<open>T\<close> have been used more recently.\<close>

definition fresher :: "'k \<Rightarrow> ('k \<times> 'v) list \<Rightarrow> 'k set" where
  "fresher k xs = fst ` set (takeWhile (\<lambda>e. fst e \<noteq> k) xs)"

lemma fresher_Cons: "fresher k (e # xs) = (if fst e = k then {} else insert (fst e) (fresher k xs))"
  by (auto simp: fresher_def)

lemma fresher_Nil [simp]: "fresher k [] = {}"
  by (simp add: fresher_def)

lemma fresher_filter: "k' \<noteq> k \<Longrightarrow> fresher k (aremove k' xs) \<subseteq> fresher k xs"
  unfolding aremove_def by (induction xs) (auto simp: fresher_Cons split: if_splits)

lemma fresher_touch: "fresher k (touch k' xs) \<subseteq> insert k' (fresher k xs)"
  using fresher_filter[of k' k xs] by (auto simp: touch_def ainsert_def fresher_Cons split: option.splits)

lemma fresher_butlast: "k \<in> fst ` set (butlast xs) \<Longrightarrow> fresher k (butlast xs) = fresher k xs"
proof (induction xs)
  case (Cons e xs)
  then show ?case by (cases "xs = []") (auto simp: fresher_Cons)
qed simp

lemma fresher_last: "xs \<noteq> [] \<Longrightarrow> distinct (map fst xs) \<Longrightarrow> fst (last xs) = k \<Longrightarrow> fresher k xs = fst ` set (butlast xs)"
proof (induction xs)
  case (Cons a xs)
  show ?case
  proof (cases "xs = []")
    case False
    then have "last xs \<in> set xs" "fst (last xs) = k" using Cons.prems(3) by auto
    then have "fst a \<noteq> k" using Cons.prems(2) by (metis distinct.simps(2) image_eqI list.simps(9) set_map)
    then show ?thesis using Cons False by (simp add: fresher_Cons)
  qed (use Cons.prems(3) in \<open>simp add: fresher_Cons\<close>)
qed simp

lemma alookup_butlast:
  "distinct (map fst xs) \<Longrightarrow> alookup k xs = Some v \<Longrightarrow> fst (last xs) \<noteq> k \<Longrightarrow>
   alookup k (butlast xs) = Some v \<and> k \<in> fst ` set (butlast xs)"
  by (induction xs) (auto split: if_splits)

lemma push_keeps:
  assumes "distinct (map fst xs)" "length xs \<le> cap" "alookup k xs = Some v" "fresher k xs \<subseteq> T"
    "finite T" "card T < cap" "k' \<noteq> k" "k' \<in> T"
  shows "alookup k (snd (push_entry cap k' v' xs)) = Some v \<and> fresher k (snd (push_entry cap k' v' xs)) \<subseteq> T"
proof (cases "alookup k' xs")
  case None
  show ?thesis
  proof (cases "length xs < cap")
    case True
    then show ?thesis using None assms by (simp add: push_entry_def fresher_Cons)
  next
    case False
    then have len: "length xs = cap" "xs \<noteq> []" using assms by auto
    have "fst (last xs) \<noteq> k"
    proof
      assume l: "fst (last xs) = k"
      have "fresher k xs = fst ` set (butlast xs)" by (rule fresher_last[OF len(2) assms(1) l])
      then have sub: "insert k' (fst ` set (butlast xs)) \<subseteq> T" using assms(4,8) by simp
      have "k' \<notin> fst ` set xs" using None by (simp add: alookup_None_iff)
      then have "k' \<notin> fst ` set (butlast xs)" by (auto dest: in_set_butlastD)
      moreover have "distinct (map fst (butlast xs))" using assms(1) by (simp add: map_butlast distinct_butlast)
      then have "card (fst ` set (butlast xs)) = cap - 1" using len(1) by (metis distinct_card length_butlast length_map set_map)
      ultimately have "card (insert k' (fst ` set (butlast xs))) = Suc (cap - 1)" by simp
      then show False using card_mono[OF assms(5) sub] assms(6) by simp
    qed
    then have "alookup k (butlast xs) = Some v" "k \<in> fst ` set (butlast xs)"
      using alookup_butlast[OF assms(1,3)] by auto
    then show ?thesis using None False assms fresher_butlast[of k xs] by (simp add: push_entry_def fresher_Cons)
  qed
next
  case (Some w)
  then show ?thesis using assms fresher_filter[of k' k xs] by (auto simp: push_entry_def ainsert_def fresher_Cons)
qed

lemma run_keeps:
  assumes L: "lru_documented L" and T: "finite T"
  shows "lru_run L s es s' \<Longrightarrow> lru_wf L s \<Longrightarrow> \<not> lc_poisoned (ls_cache s) \<Longrightarrow> card T < ls_capacity s \<Longrightarrow>
    alookup k (entries_of L s) = Some v \<Longrightarrow> fresher k (entries_of L s) \<subseteq> T \<Longrightarrow>
    \<forall>e\<in>set es. e \<noteq> Panicked \<and> event_key e \<subseteq> insert k T \<and> (\<forall>w. e \<noteq> Stored k w) \<Longrightarrow>
    alookup k (entries_of L s') = Some v \<and> \<not> lc_poisoned (ls_cache s')"
proof (induction rule: lru_run.induct)
  case (more s e s1 es s2)
  have e: "e \<noteq> Panicked" "event_key e \<subseteq> insert k T" "\<forall>w. e \<noteq> Stored k w" using more.prems(6) by auto
  note wf1 = lru_step_wf[OF L more.hyps(1) e(1) more.prems(1,2)]
  have cap: "op_cap L (lc_cache (ls_cache s)) = ls_capacity s" "distinct (map fst (entries_of L s))"
    "length (entries_of L s) \<le> ls_capacity s" using more.prems(1) by (auto simp: lru_wf_def)
  have "alookup k (entries_of L s1) = Some v \<and> fresher k (entries_of L s1) \<subseteq> T"
    using more.hyps(1)
  proof cases
    case (get k' r)
    then have s1: "s1 = snd (lru_get L k' s)" by simp
    have "fresher k (touch k' (entries_of L s)) \<subseteq> T"
    proof (cases "k' = k")
      case True
      have "fresher k (touch k (entries_of L s)) = {}"
        using more.prems(4) by (simp add: touch_def ainsert_def fresher_Cons)
      then show ?thesis using True by simp
    next
      case False
      then show ?thesis using fresher_touch[of k k' "entries_of L s"] more.prems(5) e(2) get by auto
    qed
    then show ?thesis using lru_get_entries(2)[OF L more.prems(2), of k'] more.prems(4) s1 by simp
  next
    case (put k' v')
    then have "k' \<noteq> k" "k' \<in> T" using e by auto
    then show ?thesis
      using lru_put_entries(1)[OF L more.prems(2), of k' v'] cap put(2)
        push_keeps[OF cap(2,3) more.prems(4,5) T more.prems(3), of k' v'] by simp
  qed (use e in auto)
  then show ?case using more.IH wf1 more.prems by auto
qed auto

text \<open>
  What is put is found again: as long as fewer other keys than the capacity are looked up or stored
  after it, in any order, the next lookup returns the stored value.
\<close>

theorem recently_used_hits:
  assumes "lru_documented L" "lru_wf L s" "\<not> lc_poisoned (ls_cache s)" "k \<notin> T" "finite T" "card T < ls_capacity s"
    and "lru_run L (lru_put L k v s) es s'"
    and "\<forall>e\<in>set es. e \<noteq> Panicked \<and> event_key e \<subseteq> insert k T \<and> (\<forall>w. e \<noteq> Stored k w)"
  shows "fst (lru_get L k s') = Some v"
proof -
  have st: "lru_step L s (Stored k v) (lru_put L k v s)" by (rule lru_step.put) simp
  note wf = lru_step_wf[OF assms(1) st _ assms(2,3)]
  have "entries_of L (lru_put L k v s) = snd (push_entry (op_cap L (lc_cache (ls_cache s))) k v (entries_of L s))"
    by (rule lru_put_entries[OF assms(1,3)])
  then have e: "alookup k (entries_of L (lru_put L k v s)) = Some v" "fresher k (entries_of L (lru_put L k v s)) = {}"
    by (auto simp: push_entry_def ainsert_def fresher_Cons split: option.split)
  have "alookup k (entries_of L s') = Some v \<and> \<not> lc_poisoned (ls_cache s')"
    using run_keeps[OF assms(1,5,7), of k v] wf e assms(6,8) by simp
  then show ?thesis using lru_get_entries(1)[OF assms(1), of s' k] by simp
qed

lemma lru_step_poisoned:
  assumes "lru_documented L" "lru_step L s e s'" "lc_poisoned (ls_cache s)"
  shows "lc_poisoned (ls_cache s') \<and> (\<forall>k r. e = Got k r \<longrightarrow> r = None)"
  using assms(2)
proof cases
  case (get k r)
  have "fst (op_get L k (op_new L n)) = None" for n using lru_laws(1,3)[OF assms(1)] by simp
  then show ?thesis using get assms(3)
    by (auto simp: lru_get_def lock_or_recover_def Let_def split: prod.splits) (metis fst_conv)+
qed (use assms(3) in \<open>auto simp: lru_put_def lock_or_recover_def Let_def split: prod.splits\<close>)

text \<open>
  A cache whose mutex was poisoned once never hits again: every access finds the flag still set and
  starts from an empty cache, so even a value stored just before is lost.
\<close>

theorem poisoned_never_hits:
  assumes "lru_documented L" "lru_run L s es s'" "lc_poisoned (ls_cache s)" "Got k r \<in> set es"
  shows "r = None"
  using assms(2,3,4)
proof (induction rule: lru_run.induct)
  case (more s e s1 es s2)
  then show ?case using lru_step_poisoned[OF assms(1) more.hyps(1) more.prems(1)] by auto
qed simp

section \<open>Transparent caching\<close>

text \<open>
  The contract a memoising client relies on, for well-formed keys: a lookup returns what is held and adds
  nothing, a store adds at most its own pair, with the value as the store keeps it (\<open>reread\<close>: what comes
  back from an encoding).
\<close>

locale keyed_cache =
  fixes valid :: "'k \<Rightarrow> bool"
    and get :: "'k \<Rightarrow> 's \<Rightarrow> 'v option \<times> 's"
    and put :: "'k \<Rightarrow> 'v \<Rightarrow> 's \<Rightarrow> 's"
    and reread :: "'v \<Rightarrow> 'v option"
    and holds :: "'s \<Rightarrow> 'k \<Rightarrow> 'v \<Rightarrow> bool"
  assumes get_holds: "valid k \<Longrightarrow> fst (get k s) = Some v \<Longrightarrow> holds s k v"
    and get_keeps: "valid k \<Longrightarrow> valid k' \<Longrightarrow> holds (snd (get k s)) k' v' \<Longrightarrow> holds s k' v'"
    and put_holds: "valid k \<Longrightarrow> valid k' \<Longrightarrow> holds (put k v s) k' v' \<Longrightarrow>
      (k' = k \<and> reread v = Some v') \<or> holds s k' v'"
begin

text \<open>If everything held satisfies \<open>P\<close>, what is returned does, and lookups and good stores keep it so.\<close>

definition all_held :: "('k \<Rightarrow> 'v \<Rightarrow> bool) \<Rightarrow> 's \<Rightarrow> bool" where
  "all_held P s \<longleftrightarrow> (\<forall>k v. valid k \<longrightarrow> holds s k v \<longrightarrow> P k v)"

lemma get_good: "all_held P s \<Longrightarrow> valid k \<Longrightarrow> fst (get k s) = Some v \<Longrightarrow> P k v"
  using get_holds by (auto simp: all_held_def)

lemma get_keeps_good: "all_held P s \<Longrightarrow> valid k \<Longrightarrow> all_held P (snd (get k s))"
  unfolding all_held_def by (blast intro: get_keeps)

lemma put_keeps_good:
  assumes "all_held P s" "valid k" "\<And>v'. reread v = Some v' \<Longrightarrow> P k v'"
  shows "all_held P (put k v s)"
  unfolding all_held_def
proof (intro allI impI)
  fix k' v' assume "valid k'" "holds (put k v s) k' v'"
  from put_holds[OF assms(2) this] show "P k' v'"
    using assms(1,3) \<open>valid k'\<close> by (auto simp: all_held_def)
qed

end

locale lru_crate =
  fixes L :: "('k, 'v, 'c) lru_ops"
  assumes documented: "lru_documented L"
begin

lemma get_new: "fst (op_get L k (op_new L n)) = None"
  using lru_laws(1,3)[OF documented] by simp

lemma push_new: "op_iter L (snd (op_push L k v (op_new L n))) = [(k, v)]"
  using lru_laws(1,2,7)[OF documented] by (simp add: push_entry_def)

lemma touch_new: "op_iter L (snd (op_get L k (op_new L n))) = []"
  using lru_laws(1,4)[OF documented] by (simp add: touch_def)

end

definition holds_entry :: "('k, 'v, 'c) lru_ops \<Rightarrow> 'c lru_state \<Rightarrow> 'k \<Rightarrow> 'v \<Rightarrow> bool" where
  "holds_entry L s k v \<longleftrightarrow> alookup k (entries_of L s) = Some v \<and> \<not> lc_poisoned (ls_cache s)"

lemma alookup_butlast_Some: "alookup k (butlast xs) = Some v \<Longrightarrow> alookup k xs = Some v"
  by (induction xs) (auto split: if_splits)

lemma alookup_push_entry:
  "alookup k' (snd (push_entry cap k v xs)) = Some v' \<Longrightarrow>
   (k' = k \<and> v' = v) \<or> (k' \<noteq> k \<and> alookup k' xs = Some v')"
  by (auto simp: push_entry_def ainsert_def split: option.splits if_splits dest: alookup_butlast_Some)

lemma poisoned_get:
  assumes "lru_documented L" "lc_poisoned (ls_cache s)"
  shows "fst (lru_get L k s) = None" "lc_poisoned (ls_cache (snd (lru_get L k s)))"
  using lru_step_poisoned[OF assms(1) lru_step.get[OF prod.collapse[symmetric]] assms(2)] by auto

lemma poisoned_put:
  assumes "lru_documented L" "lc_poisoned (ls_cache s)"
  shows "lc_poisoned (ls_cache (lru_put L k v s))"
  using lru_step_poisoned[OF assms(1) lru_step.put[OF refl] assms(2)] by auto

sublocale lru_crate \<subseteq> memory: keyed_cache "\<lambda>_. True" "lru_get L" "lru_put L" Some "holds_entry L"
proof
  fix k :: 'k and k' v v' s
  show "fst (lru_get L k s) = Some v \<Longrightarrow> holds_entry L s k v"
    using lru_get_entries(1)[OF documented, of s k] poisoned_get(1)[OF documented, of s k]
    by (cases "lc_poisoned (ls_cache s)") (auto simp: holds_entry_def)
  show "holds_entry L (snd (lru_get L k s)) k' v' \<Longrightarrow> holds_entry L s k' v'"
    using lru_get_entries(2)[OF documented, of s k] poisoned_get(2)[OF documented, of s k]
    by (cases "lc_poisoned (ls_cache s)") (auto simp: holds_entry_def)
  show "holds_entry L (lru_put L k v s) k' v' \<Longrightarrow> (k' = k \<and> Some v = Some v') \<or> holds_entry L s k' v'"
    using lru_put_entries(1)[OF documented, of s k v] poisoned_put[OF documented, of s k v]
    by (cases "lc_poisoned (ls_cache s)") (auto simp: holds_entry_def dest: alookup_push_entry)
qed

text \<open>The file cache: the same contract one record further in.\<close>

locale file_cache = lru_crate L for L :: "(cache_key, 'v, 'c) lru_ops"
begin

lemma cache_get_good:
  assumes "\<And>k v. holds_entry L (ac_files c) k v \<Longrightarrow> P k v"
  shows "fst (cache_get L key c) = Some v \<Longrightarrow> P key v"
    and "holds_entry L (ac_files (snd (cache_get L key c))) k v \<Longrightarrow> P k v"
  using assms memory.get_holds[where k = key and s = "ac_files c"] memory.get_keeps[where k = key and s = "ac_files c"]
  by (auto simp: cache_get_def split: prod.splits)

lemma cache_put_good:
  assumes "\<And>k v. holds_entry L (ac_files c) k v \<Longrightarrow> P k v" "P key out"
  shows "holds_entry L (ac_files (cache_put L key out c)) k v \<Longrightarrow> P k v"
  using assms memory.put_holds[where k = key and v = out and s = "ac_files c"] by (auto simp: cache_put_def)

end

section \<open>Invalidation\<close>

lemma fold_pop:
  assumes "lru_documented L"
  shows "op_iter L (fold (op_pop L) ks c) = filter (\<lambda>e. fst e \<notin> set ks) (op_iter L c) \<and>
    op_cap L (fold (op_pop L) ks c) = op_cap L c"
proof (induction ks arbitrary: c)
  case (Cons k ks)
  have "filter (\<lambda>e. fst e \<notin> set ks) (aremove k xs) = filter (\<lambda>e. fst e \<notin> set (k # ks)) xs" for xs :: "('a \<times> 'b) list"
    by (auto simp: aremove_def intro!: filter_cong)
  then show ?case using Cons lru_laws(9,10)[OF assms] by simp
qed simp

text \<open>Invalidating a file removes exactly its entries, of every time and mode.\<close>

theorem invalidate_exact:
  assumes "lru_documented L" "\<not> lc_poisoned (ls_cache s)"
  shows "entries_of L (lru_invalidate_file L p s) = filter (\<lambda>e. ck_path (fst e) \<noteq> p) (entries_of L s) \<and>
    ls_evictions (lru_invalidate_file L p s) = ls_evictions s"
proof -
  let ?c = "lc_cache (ls_cache s)"
  let ?ks = "map fst (filter (\<lambda>(k, _). ck_path k = p) (op_iter L ?c))"
  have "entries_of L (lru_invalidate_file L p s) = op_iter L (fold (op_pop L) ?ks ?c)"
    using assms(2) by (simp add: lru_invalidate_file_def lock_or_recover_def entries_of_def Let_def)
  also have "\<dots> = filter (\<lambda>e. fst e \<notin> set ?ks) (op_iter L ?c)" using fold_pop[OF assms(1)] by blast
  also have "\<dots> = filter (\<lambda>e. ck_path (fst e) \<noteq> p) (op_iter L ?c)" by (rule filter_cong) (auto simp: image_iff)
  finally show ?thesis by (simp add: entries_of_def lru_invalidate_file_def lock_or_recover_def Let_def split: prod.split)
qed

section \<open>An LRU cache as a list\<close>

definition list_lru :: "('k, 'v, nat \<times> ('k \<times> 'v) list) lru_ops" where
  "list_lru = \<lparr>op_new = (\<lambda>n. (n, [])), op_get = (\<lambda>k (n, xs). (alookup k xs, (n, touch k xs))),
     op_push = (\<lambda>k v (n, xs). let (r, ys) = push_entry n k v xs in (r, (n, ys))),
     op_pop = (\<lambda>k (n, xs). (n, aremove k xs)), op_iter = snd, op_cap = fst\<rparr>"

lemma list_lru_documented: "lru_documented list_lru"
  by (auto simp: lru_documented_def list_lru_def Let_def split: prod.split)

interpretation list_lru: lru_crate list_lru
  by unfold_locales (rule list_lru_documented)

interpretation list_files: file_cache list_lru
  by unfold_locales

theorem recently_used_witness:
  "fst (lru_get list_lru ''a'' (lru_put list_lru ''b'' (2::nat) (lru_put list_lru ''a'' 1 (lru_new list_lru 2)))) = Some 1"
proof -
  let ?s = "lru_new list_lru 2 :: (nat \<times> (string \<times> nat) list) lru_state"
  have wf: "lru_wf list_lru ?s" "\<not> lc_poisoned (ls_cache ?s)" "card {''b''} < ls_capacity ?s"
    by (simp_all add: lru_wf_def lru_new_def list_lru_def entries_of_def)
  have run: "lru_run list_lru (lru_put list_lru ''a'' 1 ?s) [Stored ''b'' 2] (lru_put list_lru ''b'' 2 (lru_put list_lru ''a'' 1 ?s))"
    by (auto intro!: lru_run.intros lru_step.put)
  show ?thesis
    by (rule recently_used_hits[OF list_lru_documented wf(1,2) _ _ wf(3) run]) auto
qed

theorem poisoned_witness:
  "\<exists>s'. lru_run list_lru \<lparr>ls_capacity = 2, ls_cache = \<lparr>lc_cache = (2, [(''a'', 1::nat)]), lc_poisoned = True\<rparr>, ls_evictions = 0\<rparr>
     [Stored ''a'' 3, Got ''a'' None] s'"
proof -
  let ?s = "\<lparr>ls_capacity = 2, ls_cache = \<lparr>lc_cache = (2, [(''a'', 1::nat)]), lc_poisoned = True\<rparr>, ls_evictions = 0\<rparr>"
  let ?s1 = "lru_put list_lru ''a'' 3 ?s"
  obtain r s2 where g: "lru_get list_lru ''a'' ?s1 = (r, s2)" by fastforce
  have run: "lru_run list_lru ?s [Stored ''a'' 3, Got ''a'' r] s2"
    using g by (auto intro!: lru_run.intros intro: lru_step.intros)
  have "r = None" by (rule poisoned_never_hits[OF list_lru_documented run, of "''a''"]) simp_all
  then show ?thesis using run by auto
qed

theorem invalidate_witness:
  "entries_of list_lru (lru_invalidate_file list_lru [Normal ''a''] (lru_put list_lru
      \<lparr>ck_path = [Normal ''a''], ck_modified = 3, ck_mode = Overview\<rparr> (1::nat) (lru_new list_lru 2))) = []"
proof -
  let ?k = "\<lparr>ck_path = [Normal ''a''], ck_modified = 3, ck_mode = Overview\<rparr>"
  let ?s = "lru_put list_lru ?k (1::nat) (lru_new list_lru 2)"
  have p: "\<not> lc_poisoned (ls_cache ?s)" "entries_of list_lru ?s = [(?k, 1)]"
    by (simp_all add: lru_put_def lru_new_def lock_or_recover_def list_lru_def entries_of_def push_entry_def Let_def)
  show ?thesis using invalidate_exact[OF list_lru_documented p(1), of "[Normal ''a'']"] p(2) by simp
qed

end
