(* ===== verification/DiskCacheProps.thy ===== *)
theory DiskCacheProps
  imports CacheProps DiskCache
begin

text \<open>
  Properties of the disk cache: which path an entry has, exactly when a lookup hits, what comes back after
  a store, and the contract of a keyed cache.
\<close>

section \<open>Entry paths\<close>

definition hex_digits :: "char set" where "hex_digits = set ''0123456789abcdef''"

text \<open>The text of a \<open>blake3::Hash\<close>, and a tool name that is one path component.\<close>

definition is_hash_hex :: "string \<Rightarrow> bool" where
  "is_hash_hex h \<longleftrightarrow> length h = 64 \<and> set h \<subseteq> hex_digits"

definition plain_name :: "string \<Rightarrow> bool" where
  "plain_name s \<longleftrightarrow> s \<noteq> [] \<and> s \<noteq> ''.'' \<and> s \<noteq> ''..'' \<and> CHR ''/'' \<notin> set s"

lemma split_on_absent: "d \<notin> set s \<Longrightarrow> split_on d s = [s]"
  by (induction s) auto

lemma parse_plain_name: "plain_name s \<Longrightarrow> parse_path s = [Normal s]"
  using split_on_absent[of "CHR ''/''" s] by (cases s) (auto simp: plain_name_def parse_path_def comp_of_def)

lemma hex_digit_ascii: "c \<in> hex_digits \<Longrightarrow> \<not> is_cont c \<and> c \<noteq> CHR ''/'' \<and> c \<noteq> CHR ''.''"
  by (auto simp: hex_digits_def is_cont_def)

lemma hash_hex_slice: "is_hash_hex h \<Longrightarrow> str_slice h 0 2 = Some (take 2 h)"
  using hex_digit_ascii[of "h ! 2"] nth_mem[of 2 h]
  by (simp add: str_slice_def boundary_def is_hash_hex_def subset_iff)

lemma plain_append: "plain_name s \<Longrightarrow> 2 < length t \<Longrightarrow> CHR ''/'' \<notin> set t \<Longrightarrow> plain_name (s @ t)"
  by (auto simp: plain_name_def append_eq_Cons_conv)

lemma hash_hex_plain: "is_hash_hex h \<Longrightarrow> 0 < n \<Longrightarrow> plain_name (take n h)"
proof -
  assume h: "is_hash_hex h" and n: "0 < n"
  then obtain a b r where abr: "h = a # b # r" by (cases h; cases "tl h") (auto simp: is_hash_hex_def)
  have "c \<in> set (take n h) \<Longrightarrow> c \<noteq> CHR ''/'' \<and> c \<noteq> CHR ''.''" for c
    using h hex_digit_ascii[of c] set_take_subset[of n h] by (auto simp: is_hash_hex_def)
  moreover have "take n h \<noteq> []" using abr n by simp
  ultimately show ?thesis by (cases "take n h") (auto simp: plain_name_def)
qed

definition valid_key :: "string \<times> string \<Rightarrow> bool" where
  "valid_key k \<longleftrightarrow> plain_name (fst k) \<and> is_hash_hex (snd k)"

lemma entry_path_shape:
  assumes "valid_key (tool, hex)"
  shows "entry_path c tool hex = Some (dc_base c @ [Normal tool, Normal (take 2 hex), Normal (hex @ ''.json.snap'')])"
proof -
  have "plain_name hex" using assms hash_hex_plain[of hex 64] by (simp add: valid_key_def is_hash_hex_def)
  then have "plain_name (hex @ ''.json.snap'')" by (rule plain_append) simp_all
  then show ?thesis
    using assms hash_hex_slice[of hex] hash_hex_plain[of hex 2]
    by (simp add: entry_path_def valid_key_def parse_plain_name path_join_def is_absolute_def)
qed

lemma entry_path_inject:
  assumes "valid_key k" "valid_key k'" "entry_path c (fst k) (snd k) = entry_path c (fst k') (snd k')"
  shows "k = k'"
  using assms entry_path_shape[of "fst k" "snd k" c] entry_path_shape[of "fst k'" "snd k'" c] by (simp add: prod_eq_iff)

lemma entry_not_lock:
  "valid_key k \<Longrightarrow> entry_path c (fst k) (snd k) = Some p \<Longrightarrow> p \<noteq> lock_name dir"
  using entry_path_shape[of "fst k" "snd k" c]
  by (auto simp: lock_name_def path_join_def is_absolute_def valid_key_def is_hash_hex_def)

lemma entry_parent:
  "valid_key k \<Longrightarrow> entry_path c (fst k) (snd k) = Some p \<Longrightarrow>
   path_parent p = Some (dc_base c @ [Normal (fst k), Normal (take 2 (snd k))])"
  using entry_path_shape[of "fst k" "snd k" c] by (auto simp: path_parent_def butlast_append)

section \<open>Lookups and stores\<close>

definition stored_value :: "'v disk_codec \<Rightarrow> disk_cache \<Rightarrow> disk \<Rightarrow> string \<times> string \<Rightarrow> 'v option" where
  "stored_value K c d k =
     Option.bind (entry_path c (fst k) (snd k)) (\<lambda>p. Option.bind (file_bytes d p)
       (\<lambda>z. Option.bind (kd_decompress K z) (kd_from_slice K)))"

definition disk_lookup :: "'v disk_codec \<Rightarrow> string \<times> string \<Rightarrow> disk_cache \<times> disk \<Rightarrow> 'v option \<times> (disk_cache \<times> disk)" where
  "disk_lookup K k s = (case disk_get K (fst k) (snd k) (fst s) (snd s) of
     Some (r, d) \<Rightarrow> (r, (fst s, d)) | None \<Rightarrow> (None, s))"

definition disk_store :: "'v disk_codec \<Rightarrow> string \<times> string \<Rightarrow> 'v \<Rightarrow> disk_cache \<times> disk \<Rightarrow> disk_cache \<times> disk" where
  "disk_store K k v s = (case disk_put K (fst k) (snd k) v (fst s) (snd s) of Some s' \<Rightarrow> s' | None \<Rightarrow> s)"

text \<open>What decoding the encoding of a value gives: a parameter, since serialization can drop fields.\<close>

definition codec_image :: "'v disk_codec \<Rightarrow> ('v \<Rightarrow> 'v option) \<Rightarrow> bool" where
  "codec_image K reread \<longleftrightarrow>
     (\<forall>v j. kd_to_vec K v = Some j \<longrightarrow> kd_from_slice K j = reread v) \<and>
     (\<forall>j z. kd_compress K j = Some z \<longrightarrow> kd_decompress K z = Some j)"

lemma codec_image_serialized:
  "codec_image K reread \<Longrightarrow> serialize_entry K v = Some z \<Longrightarrow> Option.bind (kd_decompress K z) (kd_from_slice K) = reread v"
  by (auto simp: codec_image_def serialize_entry_def bind_eq_Some_conv)

lemma disk_get_facts:
  assumes "valid_key k"
  obtains r d' where "disk_get K (fst k) (snd k) c d = Some (r, d')"
    and "\<And>q. q \<noteq> lock_name (dc_base c @ [Normal (fst k), Normal (take 2 (snd k))]) \<Longrightarrow> file_bytes d' q = file_bytes d q"
    and "r = None \<or> r = stored_value K c d k"
proof -
  obtain p where p: "entry_path c (fst k) (snd k) = Some p" using entry_path_shape[of "fst k" "snd k" c] assms by auto
  let ?dir = "dc_base c @ [Normal (fst k), Normal (take 2 (snd k))]"
  obtain l d1 where l: "lock_shared (lock_name ?dir) d = (l, d1)" by fastforce
  have fb: "file_bytes d1 p = file_bytes d p"
    using lock_shared_facts(1)[OF l] entry_not_lock[OF assms p] by blast
  show thesis
  proof (cases "dc_disabled c")
    case True
    show ?thesis by (rule that[of None d]) (auto simp: disk_get_def True)
  next
    case False
    show ?thesis
    proof (cases l)
      case True
      show ?thesis
        by (rule that[of "Option.bind (disk_read p d1) (\<lambda>z. Option.bind (kd_decompress K z) (kd_from_slice K))" d1])
          (use False True p l fb lock_shared_facts(1)[OF l] entry_parent[OF assms p] in
            \<open>auto simp: disk_get_def lock_shard_shared_def stored_value_def disk_read_def\<close>)
    next
      case False
      show ?thesis
        by (rule that[of None d1])
          (use False \<open>\<not> dc_disabled c\<close> p l lock_shared_facts(1)[OF l] entry_parent[OF assms p] in
            \<open>auto simp: disk_get_def lock_shard_shared_def\<close>)
    qed
  qed
qed

lemma record_write_failure_sel [simp]:
  "dc_base (record_write_failure c) = dc_base c" "dc_disabled (record_write_failure c) = dc_disabled c"
  by (simp_all add: record_write_failure_def Let_def)

lemma disk_put_facts:
  assumes "valid_key k"
  obtains c' d' ok where "disk_put K (fst k) (snd k) v c d = Some (c', d')" "dc_base c' = dc_base c"
    and "\<And>q. q \<noteq> lock_name (dc_base c @ [Normal (fst k), Normal (take 2 (snd k))]) \<Longrightarrow>
      file_bytes d' q = (if ok \<and> entry_path c (fst k) (snd k) = Some q then serialize_entry K v else file_bytes d q)"
    and "ok \<longleftrightarrow> dc_entry_count c' \<noteq> dc_entry_count c"
proof -
  obtain p where p: "entry_path c (fst k) (snd k) = Some p" using entry_path_shape[of "fst k" "snd k" c] assms by auto
  let ?dir = "dc_base c @ [Normal (fst k), Normal (take 2 (snd k))]"
  obtain m d1 where m: "disk_create_dir_all ?dir d = (m, d1)" by fastforce
  have fd: "file_bytes d1 = file_bytes d" by (rule file_bytes_cong[OF disk_create_dir_all_facts(1)[OF m]])
  show thesis
  proof (cases "dc_disabled c \<or> \<not> m \<or> serialize_entry K v = None")
    case True
    then obtain c' d' where e: "disk_put K (fst k) (snd k) v c d = Some (c', d')" "dc_base c' = dc_base c"
        "file_bytes d' = file_bytes d" "dc_entry_count c' = dc_entry_count c"
      using p entry_parent[OF assms p] m fd
      by (cases "dc_disabled c"; cases m) (auto simp: disk_put_def record_write_failure_def Let_def)
    show ?thesis by (rule that[of c' d' False]) (use e in auto)
  next
    case False
    then obtain z where z: "serialize_entry K v = Some z" and dm: "\<not> dc_disabled c" "m" by auto
    obtain w d2 where w: "write_entry_atomically ?dir p z d1 = (w, d2)" by fastforce
    have e: "disk_put K (fst k) (snd k) v c d = Some (if w then c\<lparr>dc_entry_count := dc_entry_count c + 1,
        dc_total_size_bytes := dc_total_size_bytes c + of_nat (length z)\<rparr> else record_write_failure c, d2)"
      using p entry_parent[OF assms p] m dm z w by (simp add: disk_put_def)
    show ?thesis
      by (rule that[OF e, of w]) (use w write_entry_facts(1)[OF w] fd z p in
        \<open>auto simp: record_write_failure_def Let_def\<close>)
  qed
qed

section \<open>The contract of a keyed cache\<close>

definition disk_holds :: "'v disk_codec \<Rightarrow> disk_cache \<times> disk \<Rightarrow> string \<times> string \<Rightarrow> 'v \<Rightarrow> bool" where
  "disk_holds K s k v \<longleftrightarrow> stored_value K (fst s) (snd s) k = Some v"

lemma stored_value_cong:
  assumes "dc_base c' = dc_base c" "valid_key k"
    and "\<And>q. q \<noteq> lock_name dir \<Longrightarrow> file_bytes d' q = file_bytes d q"
  shows "stored_value K c' d' k = stored_value K c d k"
  using assms entry_path_shape[of "fst k" "snd k"] entry_not_lock[OF assms(2), of c _ dir]
  by (simp add: stored_value_def)

lemma stored_value_put:
  assumes "codec_image K reread" "valid_key k" "valid_key k'" "dc_base c' = dc_base c"
    and "\<And>q. q \<noteq> lock_name dir \<Longrightarrow> file_bytes d' q =
      (if ok \<and> entry_path c (fst k) (snd k) = Some q then serialize_entry K v else file_bytes d q)"
  shows "stored_value K c' d' k' =
    (if ok \<and> k' = k then Option.bind (serialize_entry K v) (\<lambda>_. reread v) else stored_value K c d k')"
proof -
  obtain p where p: "entry_path c (fst k') (snd k') = Some p" using entry_path_shape[of "fst k'" "snd k'" c] assms(3) by auto
  have "entry_path c' (fst k') (snd k') = Some p"
    using p entry_path_shape[of "fst k'" "snd k'"] assms(3,4) by simp
  moreover have "entry_path c (fst k) (snd k) = Some p \<longleftrightarrow> k' = k"
    using p entry_path_inject[OF assms(2,3), of c] by auto
  moreover have "file_bytes d' p = (if ok \<and> k' = k then serialize_entry K v else file_bytes d p)"
    using assms(5)[OF entry_not_lock[OF assms(3) p]] calculation(2) by simp
  ultimately show ?thesis
    using p codec_image_serialized[OF assms(1)] by (auto simp: stored_value_def bind_eq_None_conv split: bind_split)
qed

lemma disk_lookup_stored:
  assumes "valid_key k"
  shows "fst (disk_lookup K k s) = Some v \<Longrightarrow> disk_holds K s k v"
    and "valid_key k' \<Longrightarrow> disk_holds K (snd (disk_lookup K k s)) k' = disk_holds K s k'"
proof -
  obtain r d' where g: "disk_get K (fst k) (snd k) (fst s) (snd s) = Some (r, d')"
    and q: "\<And>q. q \<noteq> lock_name (dc_base (fst s) @ [Normal (fst k), Normal (take 2 (snd k))]) \<Longrightarrow> file_bytes d' q = file_bytes (snd s) q"
    and r: "r = None \<or> r = stored_value K (fst s) (snd s) k"
    by (rule disk_get_facts[OF assms, of K "fst s" "snd s"]) (rule that)
  show "fst (disk_lookup K k s) = Some v \<Longrightarrow> disk_holds K s k v"
    using g r by (auto simp: disk_lookup_def disk_holds_def)
  assume "valid_key k'"
  then have "stored_value K (fst s) d' k' = stored_value K (fst s) (snd s) k'"
    by (rule stored_value_cong[OF refl]) (rule q)
  then show "disk_holds K (snd (disk_lookup K k s)) k' = disk_holds K s k'"
    using g by (simp add: disk_lookup_def disk_holds_def fun_eq_iff)
qed

lemma disk_store_stored:
  assumes "codec_image K reread" "valid_key k" "valid_key k'" "disk_holds K (disk_store K k v s) k' v'"
  shows "(k' = k \<and> reread v = Some v') \<or> disk_holds K s k' v'"
proof -
  obtain c' d' ok where p: "disk_put K (fst k) (snd k) v (fst s) (snd s) = Some (c', d')" and b: "dc_base c' = dc_base (fst s)"
    and q: "\<And>q. q \<noteq> lock_name (dc_base (fst s) @ [Normal (fst k), Normal (take 2 (snd k))]) \<Longrightarrow>
      file_bytes d' q = (if ok \<and> entry_path (fst s) (fst k) (snd k) = Some q then serialize_entry K v else file_bytes (snd s) q)"
    by (rule disk_put_facts[OF assms(2), of K v "fst s" "snd s"]) (rule that)
  have "stored_value K c' d' k' = (if ok \<and> k' = k then Option.bind (serialize_entry K v) (\<lambda>_. reread v)
      else stored_value K (fst s) (snd s) k')"
    by (rule stored_value_put[OF assms(1-3) b]) (rule q)
  then show ?thesis
    using p assms(4) by (cases "ok \<and> k' = k") (auto simp: disk_store_def disk_holds_def bind_eq_Some_conv)
qed

locale lawful_codec =
  fixes K :: "'v disk_codec" and reread :: "'v \<Rightarrow> 'v option"
  assumes codec: "codec_image K reread"

sublocale lawful_codec \<subseteq> disk: keyed_cache valid_key "disk_lookup K" "disk_store K" reread "disk_holds K"
  by unfold_locales (simp_all add: disk_lookup_stored disk_store_stored[OF codec])

section \<open>Exactly when a lookup hits\<close>

text \<open>
  A lookup returns a value exactly when the cache is enabled, the shard's lock file can be opened for
  writing and locked, the entry can be read, and its bytes decompress and parse. In particular a readable
  entry in a directory where the lock file cannot be created is never returned, whatever the comments
  say of lock failures.
\<close>

theorem disk_get_iff:
  assumes "valid_key (tool, hex)" and p: "entry_path c tool hex = Some p" and dir: "path_parent p = Some dir"
  shows "(\<exists>d'. disk_get K tool hex c d = Some (Some v, d')) \<longleftrightarrow>
    \<not> dc_disabled c \<and> fst (lock_shared (lock_name dir) d) \<and> \<not> d_fails d DkRead p \<and>
    Option.bind (file_bytes d p) (\<lambda>z. Option.bind (kd_decompress K z) (kd_from_slice K)) = Some v"
proof -
  obtain l d1 where l: "lock_shared (lock_name dir) d = (l, d1)" by fastforce
  have "p \<noteq> lock_name dir" using entry_not_lock[OF assms(1)] p by simp
  then have "disk_read p d1 = disk_read p d"
    using lock_shared_facts(1)[OF l] lock_shared_facts(3)[OF l] by (simp add: disk_read_def)
  then show ?thesis
    using p dir l by (auto simp: disk_get_def lock_shard_shared_def disk_read_def split: option.splits)
qed

section \<open>What is stored comes back\<close>

definition lock_openable :: "path \<Rightarrow> disk \<Rightarrow> bool" where
  "lock_openable dir d \<longleftrightarrow> lock_name dir \<notin> set (d_dirs d) \<and>
     (case path_parent (lock_name dir) of None \<Rightarrow> False | Some q \<Rightarrow> q \<in> set (d_dirs d))"

lemma lock_openable_shared:
  "lock_openable dir d \<Longrightarrow> \<not> d_fails d DkOpen (lock_name dir) \<Longrightarrow> \<not> d_fails d DkLockShared (lock_name dir) \<Longrightarrow>
   fst (lock_shared (lock_name dir) d)"
  by (auto simp: lock_openable_def lock_shared_def open_lock_file_def Let_def split: option.splits)

lemma write_entry_openable:
  "write_entry_atomically dir p z d = (True, d') \<Longrightarrow> lock_openable dir d'"
  by (auto simp: write_entry_atomically_def lock_shard_exclusive_def lock_exclusive_def open_lock_file_def
      lock_openable_def split: if_splits option.splits)

lemma disk_put_written:
  assumes "valid_key (tool, hex)" "disk_put K tool hex v c d = Some (c', d')" "dc_entry_count c' \<noteq> dc_entry_count c"
  obtains p dir z where "entry_path c tool hex = Some p" "path_parent p = Some dir" "serialize_entry K v = Some z"
    "file_bytes d' p = Some z" "d_fails d' = d_fails d" "lock_openable dir d'"
    "dc_base c' = dc_base c" "dc_disabled c' = dc_disabled c" "\<not> dc_disabled c"
proof -
  obtain p dir where p: "entry_path c tool hex = Some p" "path_parent p = Some dir"
    using entry_path_shape[OF assms(1), of c] entry_parent[OF assms(1)] by simp
  obtain m d1 where m: "disk_create_dir_all dir d = (m, d1)" by fastforce
  obtain z where z: "\<not> dc_disabled c" "m" "serialize_entry K v = Some z"
    using assms(2,3) p m by (auto simp: disk_put_def record_write_failure_def Let_def split: if_splits option.splits)
  obtain w d2 where w: "write_entry_atomically dir p z d1 = (w, d2)" by fastforce
  have e: w "d' = d2" "dc_base c' = dc_base c" "dc_disabled c' = dc_disabled c"
    using assms(2,3) p m z w by (auto simp: disk_put_def record_write_failure_def Let_def split: if_splits)
  show thesis
    using that[OF p z(3)] e z(1) w write_entry_facts(1)[OF w, of p] write_entry_facts(3)[OF w]
      disk_create_dir_all_facts(2)[OF m] write_entry_openable[of dir p z d1 d2] entry_not_lock[of "(tool, hex)" c p dir]
      assms(1) p(1) by simp
qed

text \<open>
  After a store that was counted, a lookup of the same key returns what decoding the encoding of the value
  gives, as long as the lock file and the entry can be opened.
\<close>

theorem disk_put_get:
  assumes "codec_image K reread" "valid_key (tool, hex)"
    and put: "disk_put K tool hex v c d = Some (c', d')" "dc_entry_count c' \<noteq> dc_entry_count c"
    and fails: "\<And>op q. op \<in> {DkOpen, DkLockShared, DkRead} \<Longrightarrow> \<not> d_fails d op q"
  shows "\<exists>d''. disk_get K tool hex c' d' = Some (reread v, d'')"
proof (rule disk_put_written[OF assms(2) put])
  fix p dir z
  assume p: "entry_path c tool hex = Some p" "path_parent p = Some dir" "serialize_entry K v = Some z"
    "file_bytes d' p = Some z" "d_fails d' = d_fails d" "lock_openable dir d'"
    "dc_base c' = dc_base c" "dc_disabled c' = dc_disabled c" "\<not> dc_disabled c"
  have "entry_path c' tool hex = Some p" using p(1,7) entry_path_shape[OF assms(2)] by simp
  moreover obtain d1 where l: "lock_shared (lock_name dir) d' = (True, d1)"
    using lock_openable_shared[OF p(6)] fails p(5) by (metis insert_iff prod.collapse)
  have "p \<noteq> lock_name dir" using entry_not_lock[OF assms(2), of c p dir] p(1) by simp
  then have "disk_read p d1 = Some z"
    using lock_shared_facts(1)[OF l] lock_shared_facts(3)[OF l] p(4,5) fails by (simp add: disk_read_def)
  ultimately show ?thesis
    using p l codec_image_serialized[OF assms(1) p(3)] by (simp add: disk_get_def lock_shard_shared_def)
qed

section \<open>Instances\<close>

text \<open>A codec that frames the value; the laws of the formats hold of it.\<close>

definition plain_codec :: "string disk_codec" where
  "plain_codec = \<lparr>kd_to_vec = Some, kd_from_slice = Some, kd_compress = \<lambda>j. Some (''sNaPpY'' @ j),
     kd_decompress = \<lambda>z. if prefix ''sNaPpY'' z then Some (drop 6 z) else None\<rparr>"

interpretation plain: lawful_codec plain_codec Some
  by unfold_locales (simp add: codec_image_def plain_codec_def)

definition demo_disk :: disk where
  "demo_disk = \<lparr>d_dirs = [[], [RootDir]], d_files = [], d_fails = \<lambda>op p. op = DkSetModified, d_clock = 7\<rparr>"

definition demo_hex :: string where "demo_hex = replicate 64 CHR ''a''"

lemma demo_hex_valid: "valid_key (''analyze_file'', demo_hex)"
  by (auto simp: valid_key_def plain_name_def is_hash_hex_def demo_hex_def hex_digits_def)

definition demo_cache :: disk_cache where
  "demo_cache = fst (disk_cache_new [RootDir, Normal ''c''] False demo_disk)"

lemma disk_put_get_witness:
  "\<exists>c' d' d''. disk_put plain_codec ''analyze_file'' demo_hex ''v'' demo_cache demo_disk = Some (c', d') \<and>
     disk_get plain_codec ''analyze_file'' demo_hex c' d' = Some (Some ''v'', d'')"
proof -
  obtain c' d' where e: "disk_put plain_codec ''analyze_file'' demo_hex ''v'' demo_cache demo_disk = Some (c', d')"
    "dc_entry_count c' = 1" "dc_entry_count demo_cache = 0"
  proof -
    have "map_option (dc_entry_count \<circ> fst) (disk_put plain_codec ''analyze_file'' demo_hex ''v'' demo_cache demo_disk) = Some 1 \<and>
        dc_entry_count demo_cache = 0"
      by code_simp
    then show thesis using that by auto
  qed
  show ?thesis
    using disk_put_get[OF plain.codec demo_hex_valid e(1)] e by (auto simp: demo_disk_def)
qed

text \<open>A stored entry on a disk that refuses to open lock files: readable, and never returned.\<close>

definition demo_entry :: path where
  "demo_entry = [RootDir, Normal ''c'', Normal ''analyze_file'', Normal ''aa'', Normal (demo_hex @ ''.json.snap'')]"

definition demo_locked_disk :: disk where
  "demo_locked_disk = demo_disk\<lparr>d_files := [(demo_entry, ''sNaPpYv'', Some 1)], d_fails := \<lambda>op p. op = DkOpen\<rparr>"

lemma disk_get_iff_witness:
  "disk_read demo_entry demo_locked_disk = Some ''sNaPpYv'' \<and>
   \<not> (\<exists>d'. disk_get plain_codec ''analyze_file'' demo_hex demo_cache demo_locked_disk = Some (Some ''v'', d'))"
proof -
  let ?dir = "[RootDir, Normal ''c'', Normal ''analyze_file'', Normal ''aa'']"
  have "dc_base demo_cache = [RootDir, Normal ''c'']" by code_simp
  then have p: "entry_path demo_cache ''analyze_file'' demo_hex = Some demo_entry"
    using entry_path_shape[OF demo_hex_valid, of demo_cache] by (simp add: demo_entry_def demo_hex_def numeral_2_eq_2)
  have dir: "path_parent demo_entry = Some ?dir" by (simp add: path_parent_def demo_entry_def)
  have "\<not> fst (lock_shared (lock_name ?dir) demo_locked_disk)"
    by (simp add: lock_shared_def open_lock_file_def demo_locked_disk_def)
  moreover have "disk_read demo_entry demo_locked_disk = Some ''sNaPpYv''"
    by (simp add: disk_read_def file_bytes_def demo_locked_disk_def)
  ultimately show ?thesis
    by (simp only: disk_get_iff[OF demo_hex_valid p dir] simp_thms)
qed

end
