(* ===== verification/AnalyzeFileProps.thy ===== *)
theory AnalyzeFileProps
  imports AnalyzeFileTool DiskCacheProps
begin

text \<open>
  Properties of the \<open>analyze_file\<close> tool: what the caches hold and answer, whose analysis a disk hit is, and
  which parameters matter for a large file.
\<close>

section \<open>The caches hold analyses\<close>

text \<open>An output is an analysis of the bytes, under some path, possibly as the disk cache gives it back.\<close>

definition fresh_analysis :: "extractor \<Rightarrow> string \<Rightarrow> file_analysis_output \<Rightarrow> bool" where
  "fresh_analysis X bytes out \<longleftrightarrow> (\<exists>v p. analyze_file_from_bytes X v p bytes None = Ok out)"

definition analysis_of :: "extractor \<Rightarrow> string \<Rightarrow> file_analysis_output \<Rightarrow> bool" where
  "analysis_of X bytes out \<longleftrightarrow>
     fresh_analysis X bytes out \<or> (\<exists>out0. fresh_analysis X bytes out0 \<and> serde_image out0 = Some out)"

text \<open>
  \<open>content p t\<close> is what the file at \<open>p\<close> holds when its modification time is \<open>t\<close>; \<open>seen\<close> are the contents
  that occur, on which the hash has no collision.
\<close>

definition memory_sound where
  "memory_sound E content c \<longleftrightarrow>
     (\<forall>k out. holds_entry (fe_lru E) (ac_files c) k out \<longrightarrow>
        analysis_of (fe_extractor E) (content (ck_path k) (ck_modified k)) out)"

definition disk_sound where
  "disk_sound E seen c d \<longleftrightarrow>
     (\<forall>hex out. valid_key (''analyze_file'', hex) \<longrightarrow> disk_holds (fe_codec E) (c, d) (''analyze_file'', hex) out \<longrightarrow>
        (\<exists>bytes \<in> seen. hex = fe_blake3 E bytes \<and> analysis_of (fe_extractor E) bytes out))"

definition pending_sound where
  "pending_sound E seen ps \<longleftrightarrow>
     (\<forall>(hex, out) \<in> set ps. \<exists>bytes \<in> seen. hex = fe_blake3 E bytes \<and> fresh_analysis (fe_extractor E) bytes out)"

definition caches_sound where
  "caches_sound E content seen s \<longleftrightarrow>
     memory_sound E content (af_cache s) \<and> disk_sound E seen (af_disk_cache s) (af_disk s) \<and>
     pending_sound E seen (af_pending s)"

lemma disk_get_lookup:
  "disk_get K tool hex c d = Some (r, d') \<Longrightarrow> disk_lookup K (tool, hex) (c, d) = (r, (c, d'))"
  by (simp add: disk_lookup_def)

lemma tool_key: "is_hash_hex hex \<Longrightarrow> valid_key (''analyze_file'', hex)"
  by (auto simp: valid_key_def plain_name_def)

lemma disk_get_sound:
  assumes "disk_sound E seen c d" "is_hash_hex hex" "disk_get (fe_codec E) ''analyze_file'' hex c d = Some (r, d')"
  shows "disk_sound E seen c d'"
    and "r = Some out \<Longrightarrow> \<exists>bytes \<in> seen. hex = fe_blake3 E bytes \<and> analysis_of (fe_extractor E) bytes out"
  using assms(1) disk_lookup_stored[OF tool_key[OF assms(2)], where K = "fe_codec E" and s = "(c, d)"] tool_key[OF assms(2)]
  by (auto simp: disk_sound_def disk_get_lookup[OF assms(3)])

lemma disk_put_sound:
  assumes "codec_image (fe_codec E) serde_image" "disk_sound E seen c d" "is_hash_hex hex"
    and "bytes \<in> seen" "hex = fe_blake3 E bytes" "fresh_analysis (fe_extractor E) bytes out"
    and "disk_put (fe_codec E) ''analyze_file'' hex out c d = Some (c', d')"
  shows "disk_sound E seen c' d'"
  unfolding disk_sound_def
proof (intro allI impI)
  fix hex' out' assume k: "valid_key (''analyze_file'', hex')" and h: "disk_holds (fe_codec E) (c', d') (''analyze_file'', hex') out'"
  have "disk_store (fe_codec E) (''analyze_file'', hex) out (c, d) = (c', d')" using assms(7) by (simp add: disk_store_def)
  then have "(hex' = hex \<and> serde_image out = Some out') \<or> disk_holds (fe_codec E) (c, d) (''analyze_file'', hex') out'"
    using disk_store_stored[OF assms(1) tool_key[OF assms(3)] k, of out "(c, d)" out'] h by simp
  then show "\<exists>bytes \<in> seen. hex' = fe_blake3 E bytes \<and> analysis_of (fe_extractor E) bytes out'"
    using assms(2,4,5,6) k by (auto simp: disk_sound_def analysis_of_def)
qed

lemma put_if_keyed_sel [simp]:
  "af_disk_cache (put_if_keyed E key out s) = af_disk_cache s" "af_disk (put_if_keyed E key out s) = af_disk s"
  "af_pending (put_if_keyed E key out s) = af_pending s" "af_metrics (put_if_keyed E key out s) = af_metrics s"
  by (simp_all add: put_if_keyed_def split: option.splits)

lemma put_if_keyed_sound:
  assumes "lru_documented (fe_lru E)" "memory_sound E content (af_cache s)"
    and "\<And>k. key = Some k \<Longrightarrow> analysis_of (fe_extractor E) (content (ck_path k) (ck_modified k)) out"
  shows "memory_sound E content (af_cache (put_if_keyed E key out s))"
proof -
  let ?P = "\<lambda>k out. analysis_of (fe_extractor E) (content (ck_path k) (ck_modified k)) out"
  have "?P k' out'" if k: "key = Some k" and h: "holds_entry (fe_lru E) (ac_files (cache_put (fe_lru E) k out (af_cache s))) k' out'"
    for k k' out'
    by (rule file_cache.cache_put_good[OF file_cache.intro[OF lru_crate.intro[OF assms(1)]], where P = ?P, OF _ _ h])
      (use assms(2,3) k in \<open>auto simp: memory_sound_def\<close>)
  then show ?thesis using assms(2) by (auto simp: memory_sound_def put_if_keyed_def split: option.splits)
qed

lemma cache_get_sound:
  assumes "lru_documented (fe_lru E)" "memory_sound E content c" "cache_get (fe_lru E) k c = (r, c')"
  shows "memory_sound E content c'"
    and "r = Some out \<Longrightarrow> analysis_of (fe_extractor E) (content (ck_path k) (ck_modified k)) out"
  using assms(2) file_cache.cache_get_good[OF file_cache.intro[OF lru_crate.intro[OF assms(1)]],
      where P = "\<lambda>k out. analysis_of (fe_extractor E) (content (ck_path k) (ck_modified k)) out" and c = c and key = k]
  by (auto simp: memory_sound_def assms(3))

text \<open>The three steps of the cached analysis.\<close>

definition miss_step where
  "miss_step E v' params key hex bytes s =
     (case analyze_file_from_bytes (fe_extractor E) v' (ap_path params) bytes None of
        Panic \<Rightarrow> (Panic, s)
      | Ok out \<Rightarrow> (Ok (out, Miss), (put_if_keyed E key out s)\<lparr>af_pending := af_pending s @ [(hex, out)]\<rparr>)
      | Err (AnalyzeParser (UnsupportedLanguage _)) \<Rightarrow>
          (Ok (unsupported_output (fe_lossy E) v' (ap_path params), Miss), s)
      | Err e \<Rightarrow> (Err (error_new INTERNAL_ERROR (''Error analyzing file: '' @ analyze_error_display e)
          ''resource'' False ''check file path and permissions''), s))"

definition bytes_step where
  "bytes_step E v' params key bytes s =
     (let hex = fe_blake3 E bytes in
      case disk_get (fe_codec E) ''analyze_file'' hex (af_disk_cache s) (af_disk s) of
        None \<Rightarrow> (Panic, s)
      | Some (Some out, d) \<Rightarrow> (Ok (out, L2Disk), put_if_keyed E key out (s\<lparr>af_disk := d\<rparr>))
      | Some (None, d) \<Rightarrow> miss_step E v' params key hex bytes (s\<lparr>af_disk := d\<rparr>))"

definition memory_step where
  "memory_step E key s =
     (case key of None \<Rightarrow> (None, s)
      | Some k \<Rightarrow> (case cache_get (fe_lru E) k (af_cache s) of (r, c) \<Rightarrow> (r, s\<lparr>af_cache := c\<rparr>)))"

lemma handle_bytes:
  assumes "fv_read v (parse_path (ap_path params)) = Inr bytes"
  shows "handle_file_details_mode E v v' params s =
    (case memory_step E (file_cache_key v (ap_path params)) s of
       (Some out, s1) \<Rightarrow> (Ok (out, L1Memory), s1)
     | (None, s1) \<Rightarrow> bytes_step E v' params (file_cache_key v (ap_path params)) bytes s1)"
  by (cases "file_cache_key v (ap_path params)")
    (auto simp: handle_file_details_mode_def memory_step_def bytes_step_def miss_step_def assms Let_def
      split: prod.splits option.splits outcome.splits analyze_error.splits parser_error.splits)

lemma miss_step_sound:
  assumes lru: "lru_documented (fe_lru E)" and seen: "bytes \<in> seen"
    and key: "\<And>k. key = Some k \<Longrightarrow> content (ck_path k) (ck_modified k) = bytes"
    and sound: "caches_sound E content seen s"
  shows "caches_sound E content seen (snd (miss_step E v' params key (fe_blake3 E bytes) bytes s))"
proof (cases "analyze_file_from_bytes (fe_extractor E) v' (ap_path params) bytes None")
  case (Ok out)
  then have fresh: "fresh_analysis (fe_extractor E) bytes out" by (auto simp: fresh_analysis_def)
  then have "memory_sound E content (af_cache (put_if_keyed E key out s))"
    using sound key by (intro put_if_keyed_sound[OF lru]) (auto simp: caches_sound_def analysis_of_def)
  then show ?thesis
    using Ok fresh seen sound by (auto simp: miss_step_def caches_sound_def pending_sound_def)
qed (use sound in \<open>auto simp: miss_step_def split: analyze_error.splits parser_error.splits\<close>)

lemma miss_step_tier: "fst (miss_step E v' params key hex bytes s) = Ok (out, tier) \<Longrightarrow> tier = Miss"
  by (auto simp: miss_step_def split: outcome.splits analyze_error.splits parser_error.splits)

lemma bytes_step_sound:
  assumes lru: "lru_documented (fe_lru E)" and hash: "is_hash_hex (fe_blake3 E bytes)"
    and seen: "bytes \<in> seen" "inj_on (fe_blake3 E) seen"
    and key: "\<And>k. key = Some k \<Longrightarrow> content (ck_path k) (ck_modified k) = bytes"
    and sound: "caches_sound E content seen s"
  shows "caches_sound E content seen (snd (bytes_step E v' params key bytes s))"
    and "fst (bytes_step E v' params key bytes s) = Ok (out, tier) \<Longrightarrow> tier \<noteq> Miss \<Longrightarrow> analysis_of (fe_extractor E) bytes out"
proof -
  let ?hex = "fe_blake3 E bytes"
  have "caches_sound E content seen (snd (bytes_step E v' params key bytes s)) \<and>
    (fst (bytes_step E v' params key bytes s) = Ok (out, tier) \<longrightarrow> tier \<noteq> Miss \<longrightarrow> analysis_of (fe_extractor E) bytes out)"
  proof (cases "disk_get (fe_codec E) ''analyze_file'' ?hex (af_disk_cache s) (af_disk s)")
    case None
    then show ?thesis using sound by (simp add: bytes_step_def)
  next
    case (Some rd)
    obtain r d where rd: "rd = (r, d)" by (cases rd)
    have ds: "disk_sound E seen (af_disk_cache s) (af_disk s)" using sound by (simp add: caches_sound_def)
    have d: "disk_sound E seen (af_disk_cache s) d" by (rule disk_get_sound(1)[OF ds hash Some[unfolded rd]])
    have a: "analysis_of (fe_extractor E) bytes out'" if r: "r = Some out'" for out'
    proof -
      obtain b where "b \<in> seen" "?hex = fe_blake3 E b" "analysis_of (fe_extractor E) b out'"
        using disk_get_sound(2)[OF ds hash Some[unfolded rd] r] by blast
      then show ?thesis using seen by (metis inj_onD)
    qed
    have s': "caches_sound E content seen (s\<lparr>af_disk := d\<rparr>)" using sound d by (simp add: caches_sound_def)
    show ?thesis
    proof (cases r)
      case None
      have "caches_sound E content seen (snd (miss_step E v' params key ?hex bytes (s\<lparr>af_disk := d\<rparr>)))"
        by (rule miss_step_sound[OF lru seen(1) key s'])
      then show ?thesis
        using None Some rd by (auto simp: bytes_step_def dest: miss_step_tier)
    next
      case (Some out')
      have "memory_sound E content (af_cache (put_if_keyed E key out' (s\<lparr>af_disk := d\<rparr>)))"
        using s' a[OF Some] key by (intro put_if_keyed_sound[OF lru]) (auto simp: caches_sound_def)
      then show ?thesis
        using \<open>disk_get _ _ _ _ _ = Some rd\<close> rd Some s' a[OF Some] by (auto simp: bytes_step_def caches_sound_def)
    qed
  qed
  then show "caches_sound E content seen (snd (bytes_step E v' params key bytes s))"
    "fst (bytes_step E v' params key bytes s) = Ok (out, tier) \<Longrightarrow> tier \<noteq> Miss \<Longrightarrow> analysis_of (fe_extractor E) bytes out"
    by simp_all
qed

lemma memory_step_sound:
  assumes lru: "lru_documented (fe_lru E)" and sound: "caches_sound E content seen s"
  shows "caches_sound E content seen (snd (memory_step E key s))"
    and "fst (memory_step E key s) = Some out \<Longrightarrow>
      \<exists>k. key = Some k \<and> analysis_of (fe_extractor E) (content (ck_path k) (ck_modified k)) out"
  using sound cache_get_sound[OF lru, where content = content and c = "af_cache s"]
  by (auto simp: memory_step_def caches_sound_def split: option.splits prod.splits)

lemma pending_write_sound:
  assumes codec: "codec_image (fe_codec E) serde_image" and hash: "\<And>bytes. bytes \<in> seen \<Longrightarrow> is_hash_hex (fe_blake3 E bytes)"
    and sound: "caches_sound E content seen s" and run: "run_pending_write E i s = Some s'"
  shows "caches_sound E content seen s'"
proof (cases "i \<ge> length (af_pending s)")
  case True
  then show ?thesis using run sound by (simp add: run_pending_write_def)
next
  case False
  obtain hex out where p: "af_pending s ! i = (hex, out)" by fastforce
  then have "(hex, out) \<in> set (af_pending s)" using False by (metis not_le nth_mem)
  then obtain b where b: "b \<in> seen" "hex = fe_blake3 E b" "fresh_analysis (fe_extractor E) b out"
    using sound by (auto simp: caches_sound_def pending_sound_def)
  have rest: "set (take i (af_pending s) @ drop (Suc i) (af_pending s)) \<subseteq> set (af_pending s)"
    by (auto dest: in_set_takeD in_set_dropD)
  obtain c d where cd: "disk_put (fe_codec E) ''analyze_file'' hex out (af_disk_cache s) (af_disk s) = Some (c, d)"
    using run False p by (auto simp: run_pending_write_def split: option.splits)
  have "disk_sound E seen c d"
    using sound hash[OF b(1)] b by (intro disk_put_sound[OF codec _ _ b(1,2,3) cd]) (auto simp: caches_sound_def)
  then have "disk_sound E seen (snd (drain_write_failures c)) d"
    by (simp add: disk_sound_def disk_holds_def stored_value_def drain_write_failures_def entry_path_def)
  moreover have "af_cache s' = af_cache s" "af_disk_cache s' = snd (drain_write_failures c)" "af_disk s' = d"
    "af_pending s' = take i (af_pending s) @ drop (Suc i) (af_pending s)"
    using run False p cd by (auto simp: run_pending_write_def Let_def split: if_splits prod.splits)
  ultimately show ?thesis using sound rest by (fastforce simp: caches_sound_def pending_sound_def)
qed

text \<open>
  C18. As long as modification times identify contents and the hash has no collision on the contents that
  occur, every cached answer of \<open>analyze_file\<close> is an analysis of the bytes just read, and the call and the
  disk writes it leaves keep the caches so.
\<close>

theorem cached_analysis_sound:
  assumes lru: "lru_documented (fe_lru E)" and codec: "codec_image (fe_codec E) serde_image"
    and hash: "\<And>bytes. bytes \<in> seen \<Longrightarrow> is_hash_hex (fe_blake3 E bytes)" "inj_on (fe_blake3 E) seen"
    and read: "fv_read v (parse_path (ap_path params)) = Inr bytes" "bytes \<in> seen"
    and mtime: "\<And>t. fv_modified v (parse_path (ap_path params)) = Some t \<Longrightarrow> content (parse_path (ap_path params)) t = bytes"
    and sound: "caches_sound E content seen s"
    and run: "handle_file_details_mode E v v' params s = (r, s')"
  shows "caches_sound E content seen s' \<and>
    (\<forall>out tier. r = Ok (out, tier) \<longrightarrow> tier \<noteq> Miss \<longrightarrow> analysis_of (fe_extractor E) bytes out) \<and>
    (\<forall>i s''. run_pending_write E i s' = Some s'' \<longrightarrow> caches_sound E content seen s'')"
proof -
  let ?key = "file_cache_key v (ap_path params)"
  have key: "content (ck_path k) (ck_modified k) = bytes" if "?key = Some k" for k
    using that mtime by (auto simp: file_cache_key_def)
  obtain m s1 where m: "memory_step E ?key s = (m, s1)" by fastforce
  have s1: "caches_sound E content seen s1" using memory_step_sound(1)[OF lru sound, of ?key] m by simp
  have "caches_sound E content seen s' \<and> (\<forall>out tier. r = Ok (out, tier) \<longrightarrow> tier \<noteq> Miss \<longrightarrow> analysis_of (fe_extractor E) bytes out)"
  proof (cases m)
    case None
    have "bytes_step E v' params ?key bytes s1 = (r, s')" using run m None by (simp add: handle_bytes[OF read(1)])
    moreover have "caches_sound E content seen (snd (bytes_step E v' params ?key bytes s1))"
      by (rule bytes_step_sound(1)[OF lru hash(1)[OF read(2)] read(2) hash(2) key s1])
    moreover have "analysis_of (fe_extractor E) bytes out"
      if "fst (bytes_step E v' params ?key bytes s1) = Ok (out, tier)" "tier \<noteq> Miss" for out tier
      by (rule bytes_step_sound(2)[OF lru hash(1)[OF read(2)] read(2) hash(2) key s1 that])
    ultimately show ?thesis by simp
  next
    case (Some o1)
    then have "r = Ok (o1, L1Memory)" "s' = s1" using run m by (simp_all add: handle_bytes[OF read(1)])
    moreover obtain k where "?key = Some k" "analysis_of (fe_extractor E) (content (ck_path k) (ck_modified k)) o1"
      using memory_step_sound(2)[OF lru sound, of ?key o1] m Some by auto
    ultimately show ?thesis using key s1 by auto
  qed
  moreover have "run_pending_write E i s' = Some s'' \<Longrightarrow> caches_sound E content seen s''" for i s''
    by (rule pending_write_sound[OF codec hash(1)]) (use calculation in blast)+
  ultimately show ?thesis by blast
qed

section \<open>Whose analysis a disk hit is\<close>

text \<open>
  The disk key is the hash of the bytes alone. After an analysis has been stored, a request for any path
  with the same bytes is answered with it when its references and calls are not empty: with the path, the
  language and the text of the first file, and without call frequencies. When one of them is empty the
  entry cannot be read back and the file is analysed again.
\<close>

theorem disk_answers_for_the_bytes:
  assumes codec: "codec_image (fe_codec E) serde_image" and hash: "is_hash_hex (fe_blake3 E bytes)"
    and put: "disk_put (fe_codec E) ''analyze_file'' (fe_blake3 E bytes) out c d = Some (c', d')"
      "dc_entry_count c' \<noteq> dc_entry_count c"
    and fails: "\<And>op q. op \<in> {DkOpen, DkLockShared, DkRead} \<Longrightarrow> \<not> d_fails d op q"
    and miss: "memory_step E (file_cache_key v (ap_path params)) s = (None, s1)"
      "af_disk_cache s1 = c'" "af_disk s1 = d'"
    and read: "fv_read v (parse_path (ap_path params)) = Inr bytes"
  shows "case serde_image out of
      Some out' \<Rightarrow> fst (handle_file_details_mode E v v' params s) = Ok (out', L2Disk) \<and>
        fa_path out' = fa_path out \<and> fa_formatted out' = fa_formatted out \<and> sa_call_frequency (fa_semantic out') = []
    | None \<Rightarrow> \<forall>out' tier. fst (handle_file_details_mode E v v' params s) = Ok (out', tier) \<longrightarrow> tier = Miss"
proof -
  obtain d'' where g: "disk_get (fe_codec E) ''analyze_file'' (fe_blake3 E bytes) c' d' = Some (serde_image out, d'')"
    using disk_put_get[OF codec tool_key[OF hash] put fails] by blast
  show ?thesis
  proof (cases "serde_image out")
    case None
    then show ?thesis
      using g miss by (auto simp: handle_bytes[OF read] bytes_step_def dest: miss_step_tier)
  next
    case (Some out')
    then have "fa_path out' = fa_path out" "fa_formatted out' = fa_formatted out" "sa_call_frequency (fa_semantic out') = []"
      by (auto simp: serde_image_def Let_def split: if_splits)
    then show ?thesis using g miss Some by (simp add: handle_bytes[OF read] bytes_step_def)
  qed
qed

section \<open>Large outputs\<close>

text \<open>
  When the formatted analysis is over the limit, neither \<open>fields\<close> nor a cursor has any effect: with
  \<open>summary=false\<close> the request is refused, with a message that recommends \<open>fields\<close>, and otherwise the text
  is the summary.
\<close>

theorem large_output_ignores_fields:
  assumes run: "handle_file_details_mode E v v' params s = (Ok (out, tier), s1)"
    and large: "length (fa_formatted out) > SIZE_LIMIT" and file_path: "\<not> fv_is_dir v (parse_path (ap_path params))"
  shows "if ap_summary params = Some False
    then \<exists>e. fst (analyze_file_handler E v v' params s) = Ok (FileError e) \<and> ed_message e = too_large_message (fa_formatted out)
    else \<forall>text. fst (analyze_file_handler E v v' params s) = Ok (FileText text) \<longrightarrow>
      text = format_file_details_summary (fe_select E) (fa_semantic out) (ap_path params) (fa_line_count out)"
proof (cases "ap_summary params = Some False")
  case True
  then show ?thesis
    using run large file_path
    by (simp add: analyze_file_handler_def summary_cursor_conflict_def use_summary_def Let_def)
next
  case False
  then have "use_summary (ap_summary params) (fa_formatted out)"
    using large by (auto simp: use_summary_def split: option.splits)
  then show ?thesis
    using run file_path False
    by (auto simp: analyze_file_handler_def render_file_page_def Let_def append_pagination_footer_def
        split: if_splits sum.splits)
qed

section \<open>An instance\<close>

definition demo_semantic :: semantic_analysis where
  "demo_semantic = empty_analysis\<lparr>sa_functions := [\<lparr>fi_name = ''f'', fi_line = 1, fi_end_line = 3, fi_parameters = [], fi_return_type = None\<rparr>],
     sa_references := [\<lparr>ri_symbol = ''g'', ri_type = RefUsage, ri_location = [], ri_line = 2\<rparr>],
     sa_calls := [\<lparr>ca_caller = ''f'', ca_callee = ''g'', ca_line = 2, ca_column = 4, ca_arg_count = None\<rparr>],
     sa_call_frequency := [(''f'', 5)]\<rparr>"

definition demo_extractor :: extractor where
  "demo_extractor = \<lparr>ex_extract = (\<lambda>_ lang _. if lang = ''rust'' then Inr demo_semantic else Inl (UnsupportedLanguage lang)),
     ex_counts = (\<lambda>_ _. Inr (1, 0)), ex_python_symbols = (\<lambda>_. None), ex_lower = id, ex_utf8_error = (\<lambda>_. ''utf8'')\<rparr>"

definition demo_output :: file_analysis_output where
  "demo_output = file_output ''/p/a.rs'' ''FILE: a.rs'' demo_semantic 3"

text \<open>A codec that writes this one output and refuses every other.\<close>

definition demo_file_codec :: "file_analysis_output disk_codec" where
  "demo_file_codec = \<lparr>kd_to_vec = (\<lambda>out. if out = demo_output then Some ''demo'' else None),
     kd_from_slice = (\<lambda>j. if j = ''demo'' then serde_image demo_output else None),
     kd_compress = Some, kd_decompress = Some\<rparr>"

definition demo_file_env where
  "demo_file_env = \<lparr>fe_lru = list_lru, fe_codec = demo_file_codec, fe_blake3 = (\<lambda>_. demo_hex),
     fe_extractor = demo_extractor, fe_cursor = demo_codec, fe_lossy = id, fe_select = (\<lambda>_ fs. fs)\<rparr>"

definition demo_file_view :: "string \<Rightarrow> file_view" where
  "demo_file_view bytes = \<lparr>fv_is_dir = (\<lambda>_. False), fv_exists = (\<lambda>_. True), fv_len = (\<lambda>_. Some 3), fv_modified = (\<lambda>_. Some 9),
     fv_read = (\<lambda>_. Inr bytes), fv_canonicalize = Some\<rparr>"

definition demo_file_state where
  "demo_file_state c d = \<lparr>af_cache = \<lparr>ac_files = lru_new list_lru 10, ac_directories = \<lparr>lc_cache = (), lc_poisoned = False\<rparr>,
     ac_dir_capacity = 20\<rparr>, af_disk_cache = c, af_disk = d, af_pending = [], af_metrics = []\<rparr>"

definition demo_request :: "bool option \<Rightarrow> analyze_file_params" where
  "demo_request summary = \<lparr>ap_path = ''/q/b.txt'', ap_fields = Some [FieldImports], ap_cursor = None, ap_summary = summary\<rparr>"

lemma demo_file_codec_image: "codec_image (fe_codec demo_file_env) serde_image"
  by (simp add: codec_image_def demo_file_env_def demo_file_codec_def)

interpretation demo_file_disk: lawful_codec demo_file_codec serde_image
  using demo_file_codec_image by unfold_locales (simp add: demo_file_env_def)

lemma demo_hash: "is_hash_hex (fe_blake3 demo_file_env bytes)"
  using demo_hex_valid by (simp add: demo_file_env_def valid_key_def)

lemma demo_state_sound: "caches_sound demo_file_env content seen (demo_file_state demo_cache demo_disk)"
proof -
  have "\<not> holds_entry list_lru (lru_new list_lru 10) k out" for k :: cache_key and out :: file_analysis_output
    by (simp add: holds_entry_def entries_of_def lru_new_def list_lru_def)
  moreover have "\<not> disk_holds demo_file_codec (demo_cache, demo_disk) k out" for k out
    by (auto simp: disk_holds_def stored_value_def file_bytes_def demo_disk_def bind_eq_Some_conv)
  ultimately show ?thesis
    by (simp add: caches_sound_def memory_sound_def disk_sound_def pending_sound_def demo_file_state_def demo_file_env_def)
qed

lemma cached_analysis_sound_witness:
  "caches_sound demo_file_env (\<lambda>_ _. ''abc'') {''abc''}
     (snd (handle_file_details_mode demo_file_env (demo_file_view ''abc'') (demo_file_view ''abc'')
        \<lparr>ap_path = ''/p/a.rs'', ap_fields = None, ap_cursor = None, ap_summary = None\<rparr> (demo_file_state demo_cache demo_disk)))"
  by (rule conjunct1[OF cached_analysis_sound[OF _ demo_file_codec_image demo_hash _ _ _ _ demo_state_sound prod.collapse[symmetric],
        where bytes = "''abc''"]])
    (simp_all add: demo_file_view_def demo_file_env_def list_lru_documented)

text \<open>A text file with the bytes of a Rust file is answered with the Rust file's analysis.\<close>

lemma disk_answers_witness:
  "\<exists>c d out. fst (handle_file_details_mode demo_file_env (demo_file_view ''abc'') (demo_file_view ''abc'') (demo_request None)
      (demo_file_state c d)) = Ok (out, L2Disk) \<and> fa_path out = ''/p/a.rs''"
proof -
  have "map_option (\<lambda>(c, d). (dc_entry_count c, fst (memory_step demo_file_env
        (file_cache_key (demo_file_view ''abc'') (ap_path (demo_request None))) (demo_file_state c d))))
      (disk_put demo_file_codec ''analyze_file'' demo_hex demo_output demo_cache demo_disk) = Some (1, None)"
    by code_simp
  then obtain c d where put: "disk_put demo_file_codec ''analyze_file'' demo_hex demo_output demo_cache demo_disk = Some (c, d)"
    "dc_entry_count c = 1"
    and miss: "fst (memory_step demo_file_env (file_cache_key (demo_file_view ''abc'') (ap_path (demo_request None)))
      (demo_file_state c d)) = None" by auto
  have "dc_entry_count demo_cache = 0" by code_simp
  moreover obtain s1 where s1: "memory_step demo_file_env (file_cache_key (demo_file_view ''abc'') (ap_path (demo_request None)))
      (demo_file_state c d) = (None, s1)" using miss by (metis prod.collapse)
  moreover have "af_disk_cache s1 = c" "af_disk s1 = d"
    using s1 by (auto simp: memory_step_def demo_file_state_def split: option.splits prod.splits)
  moreover obtain out where "serde_image demo_output = Some out" "fa_path out = ''/p/a.rs''"
  proof -
    have "map_option fa_path (serde_image demo_output) = Some ''/p/a.rs''" by code_simp
    then show thesis using that by auto
  qed
  ultimately show ?thesis
    using disk_answers_for_the_bytes[OF demo_file_codec_image demo_hash[of "''abc''"], of demo_output demo_cache demo_disk c d
        "demo_file_view ''abc''" "demo_request None" "demo_file_state c d" s1 "demo_file_view ''abc''"] put
    by (auto simp: demo_file_env_def demo_file_view_def demo_disk_def)
qed

definition demo_large :: file_analysis_output where
  "demo_large = file_output ''/q/b.txt'' (replicate 5001 (CHR ''x'')) empty_analysis 1"

definition demo_large_state where
  "demo_large_state =
     put_if_keyed demo_file_env (file_cache_key (demo_file_view ''abc'') ''/q/b.txt'') demo_large (demo_file_state demo_cache demo_disk)"

lemma large_output_witness:
  "\<exists>e. fst (analyze_file_handler demo_file_env (demo_file_view ''abc'') (demo_file_view ''abc'') (demo_request (Some False)) demo_large_state)
      = Ok (FileError e) \<and> ed_message e = too_large_message (replicate 5001 (CHR ''x''))"
proof -
  have "fst (memory_step demo_file_env (file_cache_key (demo_file_view ''abc'') ''/q/b.txt'') demo_large_state) = Some demo_large"
    by (simp add: memory_step_def demo_large_state_def put_if_keyed_def file_cache_key_def demo_file_view_def demo_file_env_def
        cache_get_def cache_put_def lru_get_def lru_put_def lock_or_recover_def demo_file_state_def lru_new_def list_lru_def
        push_entry_def touch_def Let_def split: prod.splits)
  then have "\<exists>s1. handle_file_details_mode demo_file_env (demo_file_view ''abc'') (demo_file_view ''abc'') (demo_request (Some False))
      demo_large_state = (Ok (demo_large, L1Memory), s1)"
    by (auto simp: handle_bytes[where bytes = "''abc''"] demo_file_view_def demo_request_def split: prod.splits option.splits)
  then obtain s1 where run: "handle_file_details_mode demo_file_env (demo_file_view ''abc'') (demo_file_view ''abc'')
      (demo_request (Some False)) demo_large_state = (Ok (demo_large, L1Memory), s1)" ..
  have "length (fa_formatted demo_large) > SIZE_LIMIT" by (simp add: demo_large_def file_output_def SIZE_LIMIT_def)
  from large_output_ignores_fields[OF run this] show ?thesis
    by (simp add: demo_file_view_def demo_request_def demo_large_def file_output_def)
qed

end
