(* ===== verification/ShellScan.thy ===== *)
theory ShellScan
  imports Validation
begin

text \<open>
  The guard against heredocs that write files, \<open>crates/aptu-coder/src/shell_scan.rs\<close> and
  \<open>heredoc_validation.rs\<close>. The backward scans walk the bytes with a position that counts the bytes before
  it; a function that moves a \<open>&mut\<close> position returns it.
\<close>

section \<open>Backward scans\<close>

definition is_ascii_whitespace :: "char \<Rightarrow> bool" where
  "is_ascii_whitespace c \<longleftrightarrow> c \<in> {CHR 0x20, CHR 0x09, CHR 0x0A, CHR 0x0C, CHR 0x0D}"

definition byte_slice :: "string \<Rightarrow> nat \<Rightarrow> nat \<Rightarrow> string" where
  "byte_slice bytes a b = take (b - a) (drop a bytes)"

fun skip_ws_backward :: "string \<Rightarrow> nat \<Rightarrow> nat" where
  "skip_ws_backward bytes 0 = 0"
| "skip_ws_backward bytes (Suc p) = (if is_ascii_whitespace (bytes ! p) then skip_ws_backward bytes p else Suc p)"

fun word_start :: "string \<Rightarrow> nat \<Rightarrow> nat" where
  "word_start bytes 0 = 0"
| "word_start bytes (Suc p) = (if is_ascii_whitespace (bytes ! p) then Suc p else word_start bytes p)"

text \<open>The walk to the matching parenthesis.\<close>

fun paren_start :: "string \<Rightarrow> nat \<Rightarrow> nat \<Rightarrow> nat" where
  "paren_start bytes 0 depth = 0"
| "paren_start bytes (Suc p) depth =
     (if depth = 0 then Suc p
      else paren_start bytes p
        (if bytes ! p = CHR ''('' then depth - 1 else if bytes ! p = CHR '')'' then depth + 1 else depth))"

text \<open>The token and the position before it; the position is not 0.\<close>

definition paren_aware_token :: "string \<Rightarrow> nat \<Rightarrow> string \<times> nat" where
  "paren_aware_token bytes pos =
     (let start =
        (if bytes ! (pos - 1) = CHR '')'' then paren_start bytes (pos - 1) 1
         else if bytes ! (pos - 1) = CHR ''>''
         then (if pos - 1 > 0 \<and> bytes ! (pos - 2) = CHR ''>'' then pos - 2 else pos - 1)
         else word_start bytes pos)
      in (byte_slice bytes start pos, start))"

definition token_before_pos :: "string \<Rightarrow> nat \<Rightarrow> string \<times> nat" where
  "token_before_pos bytes pos0 =
     (let pos = skip_ws_backward bytes pos0 in if pos = 0 then ([], 0) else paren_aware_token bytes pos)"

definition is_file_write_command :: "string \<Rightarrow> bool" where
  "is_file_write_command cmd \<longleftrightarrow>
     cmd = ''cat'' \<or> cmd = ''tee'' \<or> cmd = ''printf'' \<or> cmd = ''dd'' \<or> (cmd \<noteq> [] \<and> hd cmd = CHR ''$'')"

lemma skip_ws_backward_le: "skip_ws_backward bytes p \<le> p"
  by (induction bytes p rule: skip_ws_backward.induct) auto

lemma word_start_le: "word_start bytes p \<le> p"
  by (induction bytes p rule: word_start.induct) auto

lemma paren_start_le: "paren_start bytes p d \<le> p"
  by (induction bytes p d rule: paren_start.induct) (auto intro: le_SucI)

lemma skip_ws_backward_stop:
  "skip_ws_backward bytes p = Suc q \<Longrightarrow> \<not> is_ascii_whitespace (bytes ! q)"
  by (induction bytes p rule: skip_ws_backward.induct) (auto split: if_splits)

text \<open>A token is not empty: the scan moves.\<close>

lemma paren_aware_token_moves:
  assumes "0 < pos" "pos \<le> length bytes" "\<not> is_ascii_whitespace (bytes ! (pos - 1))"
  shows "snd (paren_aware_token bytes pos) < pos" "length (fst (paren_aware_token bytes pos)) = pos - snd (paren_aware_token bytes pos)"
proof -
  have "word_start bytes pos < pos"
    using assms word_start_le[of bytes "pos - 1"] by (cases pos) auto
  then show "snd (paren_aware_token bytes pos) < pos"
    using assms paren_start_le[of bytes "pos - 1" 1] by (auto simp: paren_aware_token_def Let_def)
  then show "length (fst (paren_aware_token bytes pos)) = pos - snd (paren_aware_token bytes pos)"
    using assms by (auto simp: paren_aware_token_def Let_def byte_slice_def)
qed

lemma token_before_pos_moves:
  "token_before_pos bytes pos = (tok, pos') \<Longrightarrow> tok \<noteq> [] \<Longrightarrow> pos' < pos"
  using skip_ws_backward_le[of bytes pos]
  by (auto simp: token_before_pos_def paren_aware_token_def byte_slice_def Let_def split: if_splits)

function scan_args_for_write_command :: "string \<Rightarrow> nat \<Rightarrow> bool \<times> nat" where
  "scan_args_for_write_command bytes pos0 =
     (let (tok, pos1) = token_before_pos bytes pos0 in
      if tok = [] then (False, pos1)
      else if is_file_write_command tok then (True, pos1)
      else let pos = skip_ws_backward bytes pos1 in
        if pos = 0 then (False, 0)
        else if bytes ! (pos - 1) \<in> {CHR ''|'', CHR '';'', CHR ''&'', CHR ''(''} then (False, pos)
        else scan_args_for_write_command bytes pos)"
  by pat_completeness auto
termination
proof (relation "measure snd", goal_cases)
  case (2 bytes pos0 x tok pos1 pos)
  then show ?case
    using token_before_pos_moves[of bytes pos0 tok pos1] skip_ws_backward_le[of bytes pos1] by simp
qed simp

declare scan_args_for_write_command.simps [simp del]

definition scan_backward_for_file_write :: "string \<Rightarrow> nat \<Rightarrow> bool" where
  "scan_backward_for_file_write bytes here_pos =
     (let p1 = skip_ws_backward bytes here_pos in
      if p1 = 0 then False
      else let (file_token, p2) = paren_aware_token bytes p1 in
        if file_token = [] then False
        else let p3 = skip_ws_backward bytes p2 in
          if p3 = 0 then False
          else
            let (hit1, p4) =
              (if p3 \<ge> 2 \<and> bytes ! (p3 - 1) = CHR ''>'' \<and> bytes ! (p3 - 2) = CHR ''>''
               then let q = skip_ws_backward bytes (p3 - 2) in
                 if q = 0 then (True, 0) else scan_args_for_write_command bytes q
               else (False, p3))
            in if hit1 then True
               else
                 let (hit2, p5) =
                   (if p4 > 0 \<and> bytes ! (p4 - 1) = CHR ''>''
                    then let q = skip_ws_backward bytes (p4 - 1) in
                      if q = 0 then (True, 0) else scan_args_for_write_command bytes q
                    else (False, p4))
                 in if hit2 then True
                    else
                      let (cmd, p6) = token_before_pos bytes p5 in
                      if is_file_write_command cmd then True
                      else if length cmd > 1 \<and> hd cmd = CHR ''-''
                      then let q = skip_ws_backward bytes p6 in
                        if q = 0 then False else is_file_write_command (fst (token_before_pos bytes q))
                      else False)"

definition prev_token :: "string \<Rightarrow> nat \<Rightarrow> string" where
  "prev_token bytes stop =
     (let pos = skip_ws_backward bytes stop in
      if pos = 0 then [] else byte_slice bytes (word_start bytes pos) pos)"

definition is_stdin_consuming_flag :: "string \<Rightarrow> bool" where
  "is_stdin_consuming_flag tok \<longleftrightarrow>
     tok \<in> set [''--data'', ''--data-raw'', ''--data-binary'', ''--data-urlencode'', ''--body-file'', ''-d'', ''-F'', ''--stdin'']"

definition scan_backward_for_stdin_flag :: "string \<Rightarrow> nat \<Rightarrow> bool" where
  "scan_backward_for_stdin_flag bytes here_pos =
     (let p1 = skip_ws_backward bytes here_pos in
      if p1 = 0 then False
      else let tok = prev_token bytes p1; p2 = p1 - length tok in
        if tok = ''-''
        then let p3 = skip_ws_backward bytes p2 in
          if p3 = 0 then False
          else let flag = prev_token bytes p3 in is_stdin_consuming_flag flag \<or> flag = ''cat''
        else is_stdin_consuming_flag tok)"

section \<open>The two scans of a command\<close>

definition file_write_heredoc_error :: error_data where
  "file_write_heredoc_error = error_new INVALID_PARAMS
     ''heredoc file-write pattern detected (cat/tee/redirect + <<) -- use edit_overwrite to write files instead of shell heredocs''
     ''validation'' False ''use edit_overwrite to write files''"

definition stdin_flag_heredoc_error :: error_data where
  "stdin_flag_heredoc_error = error_new INVALID_PARAMS
     (''stdin-consuming flag with heredoc detected (--body-file -, --data -, etc.) -- pass content via the `stdin` parameter instead, '' @
      ''or write to a file first with edit_overwrite'')
     ''validation'' False ''use the stdin parameter instead of heredoc + stdin-consuming flags''"

definition missing_heredoc_error :: error_data where
  "missing_heredoc_error = error_new INVALID_PARAMS
     (''heredoc closing delimiter not found -- likely a quoting or escaping issue; '' @
      ''use edit_overwrite to write files instead of shell heredocs'')
     ''validation'' False ''use edit_overwrite to write files''"

definition stdin_param_heredoc_error :: error_data where
  "stdin_param_heredoc_error = error_new INVALID_PARAMS
     ''stdin parameter and heredoc cannot be used together -- pass content via the `stdin` parameter instead''
     ''validation'' False ''use the stdin parameter instead of a heredoc''"

abbreviation SQ :: char where "SQ \<equiv> CHR 0x27"
abbreviation DQ :: char where "DQ \<equiv> CHR 0x22"
abbreviation BS :: char where "BS \<equiv> CHR 0x5C"

text \<open>At the first \<open><\<close> of a \<open><<\<close>.\<close>

definition here_at :: "string \<Rightarrow> nat \<Rightarrow> bool" where
  "here_at bytes i \<longleftrightarrow> i + 1 < length bytes \<and> bytes ! i = CHR ''<'' \<and> bytes ! (i + 1) = CHR ''<''"

definition check_here :: "string \<Rightarrow> bool \<Rightarrow> nat \<Rightarrow> error_data option" where
  "check_here bytes has_stdin i =
     (if scan_backward_for_file_write bytes i then Some file_write_heredoc_error
      else if scan_backward_for_stdin_flag bytes i then Some stdin_flag_heredoc_error
      else if has_stdin then Some stdin_param_heredoc_error
      else None)"

text \<open>The pre-scan, with the quote state; a backslash outside single quotes skips the next byte.\<close>

function prescan :: "string \<Rightarrow> bool \<Rightarrow> bool \<Rightarrow> bool \<Rightarrow> nat \<Rightarrow> error_data option" where
  "prescan bytes has_stdin single double i =
     (if i \<ge> length bytes then None
      else let ch = bytes ! i in
        if ch = BS \<and> \<not> single then prescan bytes has_stdin single double (i + 2)
        else if ch = SQ \<and> \<not> double then prescan bytes has_stdin (\<not> single) double (i + 1)
        else if ch = DQ \<and> \<not> single then prescan bytes has_stdin single (\<not> double) (i + 1)
        else if single \<or> double then prescan bytes has_stdin single double (i + 1)
        else if here_at bytes i
        then (case check_here bytes has_stdin i of Some e \<Rightarrow> Some e
              | None \<Rightarrow> prescan bytes has_stdin single double (i + 2))
        else prescan bytes has_stdin single double (i + 1))"
  by pat_completeness auto
termination by (relation "measure (\<lambda>(bytes, _, _, _, i). length bytes - i)") auto

declare prescan.simps [simp del]

text \<open>The first position from \<open>i\<close> where \<open>P\<close> holds, or the end.\<close>

definition scan_to :: "(char \<Rightarrow> bool) \<Rightarrow> string \<Rightarrow> nat \<Rightarrow> nat" where
  "scan_to P bytes i = i + length (takeWhile (\<lambda>c. \<not> P c) (drop i bytes))"

lemma scan_to_ge: "i \<le> scan_to P bytes i"
  by (simp add: scan_to_def)

text \<open>
  The delimiter of the heredoc whose word starts at \<open>i\<close> and the position after it: \<open>Inl None\<close> is a slice that
  panics, \<open>Inl (Some e)\<close> an error.
\<close>

definition cut_word :: "string \<Rightarrow> nat \<Rightarrow> nat \<Rightarrow> nat \<Rightarrow> error_data option + string \<times> nat" where
  "cut_word command start stop nxt =
     (case str_slice command start stop of None \<Rightarrow> Inl None | Some w \<Rightarrow> Inr (w, nxt))"

definition quoted_word :: "string \<Rightarrow> char \<Rightarrow> nat \<Rightarrow> error_data option + string \<times> nat" where
  "quoted_word command q i =
     (let stop = scan_to (\<lambda>c. c = q) command (i + 1) in
      if stop \<ge> length command then Inl (Some missing_heredoc_error)
      else cut_word command (i + 1) stop (stop + 1))"

definition bare_word :: "string \<Rightarrow> nat \<Rightarrow> error_data option + string \<times> nat" where
  "bare_word command start =
     (let stop = scan_to (\<lambda>c. is_ascii_whitespace c \<or> c = CHR ''<'') command start in cut_word command start stop stop)"

definition delimiter_at :: "string \<Rightarrow> nat \<Rightarrow> error_data option + string \<times> nat" where
  "delimiter_at command i =
     (if i \<ge> length command then Inl (Some missing_heredoc_error)
      else if command ! i = SQ then quoted_word command SQ i
      else if command ! i = DQ then quoted_word command DQ i
      else if command ! i = BS then bare_word command (i + 1)
      else bare_word command i)"

text \<open>The position after the first line that is the delimiter.\<close>

definition heredoc_line :: "bool \<Rightarrow> string \<Rightarrow> string" where
  "heredoc_line strip_tabs raw =
     (let l = rev (dropWhile (\<lambda>c. c = LF) (rev raw)) in if strip_tabs then dropWhile (\<lambda>c. c = TAB) l else l)"

fun closer_loop :: "bool \<Rightarrow> string \<Rightarrow> string list \<Rightarrow> nat \<Rightarrow> nat option" where
  "closer_loop strip_tabs delimiter [] consumed = None"
| "closer_loop strip_tabs delimiter (raw # lines) consumed =
     (if heredoc_line strip_tabs raw = delimiter then Some (consumed + length raw)
      else closer_loop strip_tabs delimiter lines (consumed + length raw))"

text \<open>One heredoc, from the byte after \<open><<\<close>: the position after its body.\<close>

definition heredoc_body :: "string \<Rightarrow> nat \<Rightarrow> error_data option + nat" where
  "heredoc_body command i0 =
     (let strip_tabs = (i0 < length command \<and> command ! i0 = CHR ''-'');
          i1 = (if strip_tabs then i0 + 1 else i0);
          i2 = scan_to (\<lambda>c. \<not> is_ascii_whitespace c) command i1
      in case delimiter_at command i2 of
           Inl e \<Rightarrow> Inl e
         | Inr (delimiter, i) \<Rightarrow>
             if delimiter = [] then Inl (Some missing_heredoc_error)
             else (case str_from command i of
                 None \<Rightarrow> Inl None
               | Some rest \<Rightarrow>
                   (case closer_loop strip_tabs delimiter (split_inclusive rest) i of
                      None \<Rightarrow> Inl (Some missing_heredoc_error) | Some j \<Rightarrow> Inr j)))"

lemma cut_word_Inr:
  "cut_word command a b nxt = Inr (w, j) \<longleftrightarrow> str_slice command a b = Some w \<and> j = nxt"
  by (auto simp: cut_word_def split: option.splits)

lemma delimiter_at_ge: "delimiter_at command i = Inr (w, j) \<Longrightarrow> i \<le> j"
  using scan_to_ge[of "i + 1" _ command] scan_to_ge[of i _ command]
  by (auto simp: delimiter_at_def quoted_word_def bare_word_def cut_word_Inr Let_def split: if_splits
      intro: le_trans[OF _ scan_to_ge] le_SucI)

lemma closer_loop_ge: "closer_loop t w ls c = Some j \<Longrightarrow> c \<le> j"
  by (induction t w ls c rule: closer_loop.induct) (auto split: if_splits)

lemma heredoc_body_ge: "heredoc_body command i = Inr j \<Longrightarrow> i \<le> j"
proof -
  assume h: "heredoc_body command i = Inr j"
  let ?i1 = "if i < length command \<and> command ! i = CHR ''-'' then i + 1 else i"
  let ?i2 = "scan_to (\<lambda>c. \<not> is_ascii_whitespace c) command ?i1"
  obtain w k where w: "delimiter_at command ?i2 = Inr (w, k)"
    using h by (auto simp: heredoc_body_def Let_def split: sum.splits)
  obtain rest ls where "closer_loop (i < length command \<and> command ! i = CHR ''-'') w (split_inclusive rest) k = Some j"
    using h w by (auto simp: heredoc_body_def Let_def split: if_splits option.splits)
  then have "k \<le> j" by (rule closer_loop_ge)
  moreover have "?i2 \<le> k" using w by (rule delimiter_at_ge)
  moreover have "i \<le> ?i1" "?i1 \<le> ?i2" by (auto intro: scan_to_ge)
  ultimately show ?thesis by linarith
qed

text \<open>The main scan. It tracks quotes but, unlike the pre-scan, no backslashes.\<close>

function closer_scan :: "string \<Rightarrow> bool \<Rightarrow> bool \<Rightarrow> nat \<Rightarrow> (error_data, unit) outcome" where
  "closer_scan command single double i =
     (if i \<ge> length command then Ok ()
      else let ch = command ! i in
        if ch = SQ \<and> \<not> double then closer_scan command (\<not> single) double (i + 1)
        else if ch = DQ \<and> \<not> single then closer_scan command single (\<not> double) (i + 1)
        else if single \<or> double then closer_scan command single double (i + 1)
        else if here_at command i
        then (case heredoc_body command (i + 2) of
                Inl None \<Rightarrow> Panic | Inl (Some e) \<Rightarrow> Err e | Inr j \<Rightarrow> closer_scan command single double j)
        else closer_scan command single double (i + 1))"
  by pat_completeness auto
termination
proof (relation "measure (\<lambda>(command, _, _, i). length command - i)", goal_cases)
  case (5 command single double i ch j)
  then show ?case using heredoc_body_ge[of command "i + 2" j] by auto
qed auto

declare closer_scan.simps [simp del]

definition validate_heredocs :: "string \<Rightarrow> bool \<Rightarrow> (error_data, unit) outcome" where
  "validate_heredocs command has_stdin =
     (case prescan command has_stdin False False 0 of
        Some e \<Rightarrow> Err e | None \<Rightarrow> closer_scan command False False 0)"

end
