(* ===== verification/ShellProps.thy ===== *)
theory ShellProps
  imports ShellScan EditTrim
begin

text \<open>
  Properties of the heredoc guard: it never panics, what it checks of a command, which redirections the
  backward scan sees and which it misses.
\<close>

section \<open>No panic\<close>

lemma after_ascii:
  assumes "utf8_valid s" "i < length s" "byte (s ! i) < 128"
  shows "boundary s i" "boundary s (Suc i)"
proof -
  have "utf8_valid (take i s) \<and> utf8_valid (drop (Suc i) s)"
    using utf8_valid_ascii_mid[OF assms(3), of "take i s" "drop (Suc i) s"] assms(1) id_take_nth_drop[OF assms(2)] by metis
  then show "boundary s (Suc i)" using boundary_take_drop[OF assms(1), of "Suc i"] assms(2) by simp
  show "boundary s i" using ascii_not_cont[OF assms(3)] assms(2) by (simp add: boundary_def)
qed

lemma ascii_delims: "is_ascii_whitespace c \<or> c = CHR ''<'' \<or> c = CHR ''-'' \<or> c = SQ \<or> c = DQ \<or> c = BS \<Longrightarrow> byte c < 128"
  by (auto simp: is_ascii_whitespace_def)

lemma scan_to_le: "i \<le> length s \<Longrightarrow> scan_to P s i \<le> length s"
  using length_takeWhile_le[of "\<lambda>c. \<not> P c" "drop i s"] by (simp add: scan_to_def)

lemma scan_to_stop: "scan_to P s i < length s \<Longrightarrow> P (s ! scan_to P s i)"
proof -
  assume a: "scan_to P s i < length s"
  let ?t = "takeWhile (\<lambda>c. \<not> P c) (drop i s)"
  have "length ?t < length (drop i s)" using a by (simp add: scan_to_def)
  from nth_length_takeWhile[OF this] show ?thesis using a by (simp add: scan_to_def)
qed

lemma scan_to_before: "i \<le> k \<Longrightarrow> k < scan_to P s i \<Longrightarrow> k < length s \<and> \<not> P (s ! k)"
proof -
  assume k: "i \<le> k" "k < scan_to P s i"
  let ?t = "takeWhile (\<lambda>c. \<not> P c) (drop i s)"
  have l: "k - i < length ?t" using k by (simp add: scan_to_def)
  then have "\<not> P (?t ! (k - i))" using nth_mem set_takeWhileD by fastforce
  moreover have "?t ! (k - i) = s ! k" using l k takeWhile_nth[OF l] length_takeWhile_le[of "\<lambda>c. \<not> P c" "drop i s"] by simp
  ultimately show ?thesis using l length_takeWhile_le[of "\<lambda>c. \<not> P c" "drop i s"] by simp
qed

lemma scan_to_boundary:
  assumes "utf8_valid s" "i \<le> length s" "\<And>c. P c \<Longrightarrow> byte c < 128"
  shows "boundary s (scan_to P s i)"
proof (cases "scan_to P s i < length s")
  case True
  then show ?thesis using after_ascii(1)[OF assms(1) True] assms(3) scan_to_stop by blast
next
  case False
  then show ?thesis using scan_to_le[OF assms(2), of P] by simp
qed

lemma scan_past_boundary:
  assumes "utf8_valid s" "boundary s i" "\<And>c. \<not> P c \<Longrightarrow> byte c < 128"
  shows "boundary s (scan_to P s i)"
proof (cases "scan_to P s i = i")
  case False
  then obtain k where k: "scan_to P s i = Suc k" "i \<le> k" using scan_to_ge[of i P s] by (cases "scan_to P s i") auto
  then show ?thesis
    using scan_to_before[of i k P s] after_ascii(2)[OF assms(1), of k] assms(3) by simp
qed (use assms(2) in simp)

lemma str_slice_total: "a \<le> b \<Longrightarrow> boundary s a \<Longrightarrow> boundary s b \<Longrightarrow> \<exists>t. str_slice s a b = Some t"
  by (simp add: str_slice_def)

lemma delimiter_at_total:
  assumes v: "utf8_valid command" and b: "boundary command i"
  shows "delimiter_at command i \<noteq> Inl None \<and> (delimiter_at command i = Inr (w, j) \<longrightarrow> boundary command j)"
proof (cases "i < length command")
  case False
  then show ?thesis by (simp add: delimiter_at_def)
next
  case True
  have quoted: "quoted_word command q i \<noteq> Inl None \<and> (quoted_word command q i = Inr (w, j) \<longrightarrow> boundary command j)"
    if q: "command ! i = q" "q = SQ \<or> q = DQ" for q
  proof -
    let ?stop = "scan_to (\<lambda>c. c = q) command (i + 1)"
    have "boundary command (i + 1)" using after_ascii(2)[OF v True] q ascii_delims by auto
    moreover have "?stop < length command \<Longrightarrow> command ! ?stop = q" using scan_to_stop by fast
    then have "?stop < length command \<Longrightarrow> boundary command ?stop \<and> boundary command (?stop + 1)"
      using after_ascii[OF v] q ascii_delims by auto
    ultimately show ?thesis
      using str_slice_total[where s = command and a = "i + 1" and b = ?stop, OF scan_to_ge]
      by (cases "?stop < length command") (auto simp: quoted_word_def cut_word_def Let_def split: option.splits)
  qed
  have bare: "bare_word command k \<noteq> Inl None \<and> (bare_word command k = Inr (w, j) \<longrightarrow> boundary command j)"
    if "boundary command k" for k
  proof -
    let ?P = "\<lambda>c. is_ascii_whitespace c \<or> c = CHR ''<''"
    have "boundary command (scan_to ?P command k)"
      using scan_to_boundary[OF v boundary_le[OF that], of ?P] ascii_delims by blast
    then show ?thesis
      using str_slice_total[where s = command, OF scan_to_ge that] by (auto simp: bare_word_def cut_word_def Let_def split: option.splits)
  qed
  show ?thesis
    using True quoted bare[OF b] bare[of "i + 1"] after_ascii(2)[OF v True] ascii_delims[of "command ! i"]
    by (auto simp: delimiter_at_def)
qed

lemma closer_loop_boundary:
  "closer_loop t w ls c = Some j \<Longrightarrow> \<exists>k \<le> length ls. j = c + length (concat (take k ls))"
proof (induction t w ls c rule: closer_loop.induct)
  case (2 t w raw ls c)
  show ?case
  proof (cases "heredoc_line t raw = w")
    case True
    then show ?thesis using 2(2) by (intro exI[of _ 1]) simp
  next
    case False
    then obtain k where "k \<le> length ls" "j = c + length raw + length (concat (take k ls))" using 2 by auto
    then show ?thesis by (intro exI[of _ "Suc k"]) simp
  qed
qed simp

lemma heredoc_body_total:
  assumes v: "utf8_valid command" and b: "boundary command i"
  shows "heredoc_body command i \<noteq> Inl None \<and> (heredoc_body command i = Inr j \<longrightarrow> boundary command j)"
proof -
  let ?strip = "i < length command \<and> command ! i = CHR ''-''"
  let ?i1 = "if ?strip then i + 1 else i"
  let ?i2 = "scan_to (\<lambda>c. \<not> is_ascii_whitespace c) command ?i1"
  have i1: "boundary command ?i1" using b after_ascii(2)[OF v, of i] by auto
  have i2: "boundary command ?i2"
    by (rule scan_past_boundary[OF v i1]) (use ascii_delims in simp)
  show ?thesis
  proof (cases "delimiter_at command ?i2")
    case (Inl e)
    then show ?thesis using delimiter_at_total[OF v i2] by (auto simp: heredoc_body_def Let_def)
  next
    case (Inr wk)
    obtain w k where wk: "wk = (w, k)" by (cases wk)
    then have k: "boundary command k" using delimiter_at_total[OF v i2, of w k] Inr by simp
    then obtain rest where rest: "str_from command k = Some rest" "rest = drop k command"
      using boundary_le[OF k] by (auto simp: str_from_def str_slice_def)
    have valid: "utf8_valid rest" using utf8_valid_take_drop[OF v k] rest(2) by simp
    have "boundary command j" if j: "closer_loop ?strip w (split_inclusive rest) k = Some j"
    proof -
      obtain n where n: "n \<le> length (split_inclusive rest)" "j = k + length (concat (take n (split_inclusive rest)))"
        using closer_loop_boundary[OF j] by blast
      have "boundary rest (length (concat (take n (split_inclusive rest))))"
      proof (cases n)
        case (Suc m)
        then show ?thesis
          using line_start_boundary[of "split_inclusive rest" n] valid n(1) lines_ok_split[of rest] by simp
      qed simp
      then have "utf8_valid (drop j command)"
        using boundary_take_drop[OF valid boundary_le] n(2) rest(2) by (metis drop_drop add.commute)
      moreover have "j \<le> length command"
      proof -
        have "length (concat (take n (split_inclusive rest))) \<le> length rest"
          by (metis append_take_drop_id concat_append concat_split_inclusive length_append le_add1)
        then show ?thesis using n(2) rest(2) boundary_le[OF k] by simp
      qed
      ultimately show ?thesis using boundary_take_drop[OF v, of j] by simp
    qed
    then show ?thesis
      using Inr wk rest(1) by (auto simp: heredoc_body_def Let_def split: option.splits)
  qed
qed


section \<open>What the pre-scan checks\<close>

text \<open>The quote state of the shell text before a position, as an automaton over the bytes.\<close>

datatype quoting = Plain | InSingle | InDouble | PlainEscape | DoubleEscape

fun quote_step :: "quoting \<Rightarrow> char \<Rightarrow> quoting" where
  "quote_step Plain c = (if c = BS then PlainEscape else if c = SQ then InSingle else if c = DQ then InDouble else Plain)"
| "quote_step InSingle c = (if c = SQ then Plain else InSingle)"
| "quote_step InDouble c = (if c = BS then DoubleEscape else if c = DQ then Plain else InDouble)"
| "quote_step PlainEscape c = Plain"
| "quote_step DoubleEscape c = InDouble"

definition quoting_at :: "string \<Rightarrow> nat \<Rightarrow> quoting" where
  "quoting_at command i = foldl quote_step Plain (take i command)"

lemma quoting_at_Suc: "i < length command \<Longrightarrow> quoting_at command (Suc i) = quote_step (quoting_at command i) (command ! i)"
  by (simp add: quoting_at_def take_Suc_conv_app_nth)

definition quote_flags :: "quoting \<Rightarrow> bool \<Rightarrow> bool \<Rightarrow> bool" where
  "quote_flags q single double \<longleftrightarrow>
     (case q of Plain \<Rightarrow> \<not> single \<and> \<not> double | InSingle \<Rightarrow> single \<and> \<not> double | InDouble \<Rightarrow> \<not> single \<and> double | _ \<Rightarrow> False)"

text \<open>An unquoted \<open><<\<close> that does not start inside another one.\<close>

definition heredoc_start :: "string \<Rightarrow> nat \<Rightarrow> bool" where
  "heredoc_start command i \<longleftrightarrow>
     here_at command i \<and> quoting_at command i = Plain \<and> (i = 0 \<or> command ! (i - 1) \<noteq> CHR ''<'')"

lemma prescan_checks:
  assumes "quote_flags (quoting_at command i) single double" "prescan command has_stdin single double i = None"
    and "i \<le> k" "heredoc_start command k"
  shows "check_here command has_stdin k = None"
  using assms
proof (induction command has_stdin single double i rule: prescan.induct)
  case (1 command has_stdin single double i)
  have len: "i < length command" using 1(9,10) by (auto simp: heredoc_start_def here_at_def)
  let ?c = "command ! i"
  have step: "quoting_at command (Suc i) = quote_step (quoting_at command i) ?c" using len by (rule quoting_at_Suc)
  consider (esc) "?c = BS" "\<not> single" | (single) "?c = SQ" "\<not> double" | (double) "?c = DQ" "\<not> single"
    | (inside) "single \<or> double" "?c \<noteq> BS \<or> single" "?c \<noteq> SQ \<or> double" "?c \<noteq> DQ \<or> single"
    | (here) "\<not> single" "\<not> double" "here_at command i" | (other) "\<not> single" "\<not> double" "\<not> here_at command i"
      "?c \<noteq> BS" "?c \<noteq> SQ" "?c \<noteq> DQ"
    by blast
  then show ?case
  proof cases
    case esc
    have "k \<noteq> i" using esc 1(10) by (auto simp: heredoc_start_def here_at_def)
    have k: "k \<noteq> Suc i"
      using 1(7,10) esc step by (cases "quoting_at command i") (auto simp: heredoc_start_def quote_flags_def)
    then have "i + 2 \<le> k" using \<open>k \<noteq> i\<close> 1(9) by simp
    moreover have "quoting_at command (i + 2) = quoting_at command i"
      using 1(7,10) esc step quoting_at_Suc[of "Suc i" command] calculation
      by (cases "quoting_at command i") (auto simp: heredoc_start_def here_at_def quote_flags_def)
    moreover have "prescan command has_stdin single double (i + 2) = None"
      using 1(8) esc len by (simp add: prescan.simps[of command has_stdin _ _ i])
    ultimately show ?thesis using 1(1)[OF _ refl _ _ _ _ 1(10)] 1(7) esc len by simp
  next
    case single
    have "k \<noteq> i" using single 1(10) by (auto simp: heredoc_start_def here_at_def)
    then show ?thesis
      using 1(2)[OF _ refl _ _ _ _ _ 1(10)] 1(7-9) single len step
      by (cases "quoting_at command i") (auto simp: prescan.simps[of command has_stdin _ _ i] quote_flags_def)
  next
    case double
    have "k \<noteq> i" using double 1(10) by (auto simp: heredoc_start_def here_at_def)
    then show ?thesis
      using 1(3)[OF _ refl _ _ _ _ _ _ 1(10)] 1(7-9) double len step
      by (cases "quoting_at command i") (auto simp: prescan.simps[of command has_stdin _ _ i] quote_flags_def)
  next
    case inside
    have "k \<noteq> i" using inside 1(7,10) by (auto simp: heredoc_start_def quote_flags_def)
    then show ?thesis
      using 1(4)[OF _ refl _ _ _ _ _ _ _ 1(10)] 1(7-9) inside len step
      by (cases "quoting_at command i") (auto simp: prescan.simps[of command has_stdin _ _ i] quote_flags_def)
  next
    case here
    have c: "?c = CHR ''<''" "command ! Suc i = CHR ''<''" "Suc i < length command" using here by (auto simp: here_at_def)
    have none: "check_here command has_stdin i = None" "prescan command has_stdin single double (i + 2) = None"
      using 1(8) here c len by (auto simp: prescan.simps[of command has_stdin _ _ i] split: option.splits)
    show ?thesis
    proof (cases "k = i")
      case False
      then have "k \<noteq> Suc i" using c 1(10) by (auto simp: heredoc_start_def)
      then have "i + 2 \<le> k" using False 1(9) by simp
      moreover have "quoting_at command i = Plain"
        using 1(7) here by (cases "quoting_at command i") (auto simp: quote_flags_def)
      then have "quoting_at command (i + 2) = Plain" using step c quoting_at_Suc[of "Suc i" command] by simp
      ultimately show ?thesis
        using 1(5)[OF _ refl _ _ _ _ _ none(1) _ none(2) _ 1(10)] here c len by (simp add: quote_flags_def)
    qed (use none in simp)
  next
    case other
    have "k \<noteq> i" using other 1(10) by (auto simp: heredoc_start_def)
    then show ?thesis
      using 1(6)[OF _ refl _ _ _ _ _ _ _ _ 1(10)] 1(7-9) other len step
      by (cases "quoting_at command i") (auto simp: prescan.simps[of command has_stdin _ _ i] quote_flags_def)
  qed
qed

text \<open>
  C20. The commands the guard accepts: at every unquoted heredoc no file write and no flag that reads standard
  input precedes it, and there is none at all when the request carries standard input.
\<close>

theorem accepted_heredocs:
  assumes "validate_heredocs command has_stdin = Ok ()" "heredoc_start command k"
  shows "\<not> scan_backward_for_file_write command k \<and> \<not> scan_backward_for_stdin_flag command k \<and> \<not> has_stdin"
proof -
  have "prescan command has_stdin False False 0 = None" using assms(1) by (auto simp: validate_heredocs_def split: option.splits)
  then have "check_here command has_stdin k = None"
    using prescan_checks[of command 0 False False has_stdin k] assms(2) by (simp add: quote_flags_def quoting_at_def)
  then show ?thesis by (auto simp: check_here_def split: if_splits)
qed

section \<open>Which redirections the backward scan sees\<close>

definition blanks :: "string \<Rightarrow> bool" where
  "blanks b \<longleftrightarrow> list_all is_ascii_whitespace b"

text \<open>A word the scan takes as one token, and one that does not stop it.\<close>

definition plain_word :: "string \<Rightarrow> bool" where
  "plain_word w \<longleftrightarrow> w \<noteq> [] \<and> (\<forall>c \<in> set w. \<not> is_ascii_whitespace c) \<and> last w \<notin> {CHR '')'', CHR ''>''}"

definition argument_word :: "string \<Rightarrow> bool" where
  "argument_word w \<longleftrightarrow> plain_word w \<and> last w \<notin> {CHR ''|'', CHR '';'', CHR ''&'', CHR ''(''}"

lemma skip_ws_at:
  assumes "blanks b" "u = [] \<or> \<not> is_ascii_whitespace (last u)"
  shows "skip_ws_backward (u @ b @ r) (length u + length b) = length u"
  using assms(1)
proof (induction b arbitrary: r rule: rev_induct)
  case Nil
  show ?case
  proof (cases u rule: rev_cases)
    case (snoc v c)
    then show ?thesis using assms(2) by (simp add: nth_append)
  qed simp
next
  case (snoc c b)
  have "(u @ (b @ [c]) @ r) ! (length u + length b) = c" by (simp add: nth_append)
  then show ?case using snoc by (simp add: blanks_def)
qed

lemma word_start_at:
  assumes "\<forall>c \<in> set w. \<not> is_ascii_whitespace c" "u = [] \<or> is_ascii_whitespace (last u)"
  shows "word_start (u @ w @ r) (length u + length w) = length u"
  using assms(1)
proof (induction w arbitrary: r rule: rev_induct)
  case Nil
  show ?case
  proof (cases u rule: rev_cases)
    case (snoc v c)
    then show ?thesis using assms(2) by (simp add: nth_append)
  qed simp
next
  case (snoc c w)
  have "(u @ (w @ [c]) @ r) ! (length u + length w) = c" by (simp add: nth_append)
  then show ?case using snoc by simp
qed

declare skip_ws_backward.simps(2) [simp del] word_start.simps(2) [simp del]

lemma paren_token_at:
  assumes "plain_word w" "u = [] \<or> is_ascii_whitespace (last u)"
  shows "paren_aware_token (u @ w @ r) (length u + length w) = (w, length u)"
proof -
  obtain v c where w: "w = v @ [c]" using assms(1) by (cases w rule: rev_cases) (auto simp: plain_word_def)
  have "(u @ w @ r) ! (length u + length w - 1) = c" by (simp add: w nth_append)
  moreover have "c \<noteq> CHR '')''" "c \<noteq> CHR ''>''" using assms(1) w by (auto simp: plain_word_def)
  ultimately show ?thesis
    using word_start_at[of w u r] assms by (simp add: paren_aware_token_def plain_word_def byte_slice_def)
qed

lemma token_at:
  assumes "plain_word w" "u = [] \<or> is_ascii_whitespace (last u)" "blanks b"
  shows "token_before_pos (u @ w @ b @ r) (length u + length w + length b) = (w, length u)"
proof -
  have w: "w \<noteq> []" "\<not> is_ascii_whitespace (last w)" using assms(1) by (auto simp: plain_word_def)
  have "skip_ws_backward ((u @ w) @ b @ r) (length (u @ w) + length b) = length (u @ w)"
    by (rule skip_ws_at[OF assms(3)]) (use w in simp)
  then show ?thesis using paren_token_at[OF assms(1,2), of "b @ r"] w by (simp add: token_before_pos_def)
qed

abbreviation words :: "string list \<Rightarrow> string" where
  "words ws \<equiv> concat (map (\<lambda>a. CHR '' '' # a) ws)"

lemma words_snoc: "words (ws @ [a]) = words ws @ CHR '' '' # a"
  by simp

lemma last_words:
  assumes "argument_word c" "\<forall>a \<in> set args. argument_word a"
  shows "\<not> is_ascii_whitespace (last (pre @ c @ words args)) \<and>
    last (pre @ c @ words args) \<notin> {CHR ''|'', CHR '';'', CHR ''&'', CHR ''(''}"
proof (cases args rule: rev_cases)
  case Nil
  then show ?thesis using assms(1) by (auto simp: argument_word_def plain_word_def)
next
  case (snoc as a)
  then have "argument_word a" using assms(2) by simp
  then show ?thesis using snoc by (auto simp: argument_word_def plain_word_def)
qed

lemma nth_last: "x \<noteq> [] \<Longrightarrow> (x @ r) ! (length x - 1) = last x"
  by (simp add: nth_append last_conv_nth)

lemma scan_args_finds:
  assumes c: "argument_word c" "is_file_write_command c" and pre: "pre = [] \<or> is_ascii_whitespace (last pre)"
    and args: "\<forall>a \<in> set args. argument_word a"
  shows "fst (scan_args_for_write_command (pre @ c @ words args @ r) (length (pre @ c @ words args)))"
  using args
proof (induction args arbitrary: r rule: rev_induct)
  case Nil
  have "token_before_pos (pre @ c @ r) (length pre + length c) = (c, length pre)"
    using token_at[of c pre "[]" r] c pre by (simp add: argument_word_def blanks_def)
  then show ?case using c by (simp add: scan_args_for_write_command.simps argument_word_def plain_word_def)
next
  case (snoc a args)
  let ?X = "pre @ c @ words args"
  let ?u = "?X @ '' ''" and ?bytes = "pre @ c @ words (args @ [a]) @ r"
  have a: "argument_word a" using snoc.prems by simp
  have "token_before_pos (?u @ a @ r) (length ?u + length a) = (a, length ?u)"
    using token_at[of a ?u "[]" r] a by (simp add: argument_word_def blanks_def is_ascii_whitespace_def)
  then have tok: "token_before_pos ?bytes (length (pre @ c @ words (args @ [a]))) = (a, length ?u)"
    by (simp add: add.assoc)
  have l: "\<not> is_ascii_whitespace (last ?X)" "last ?X \<notin> {CHR ''|'', CHR '';'', CHR ''&'', CHR ''(''}" "?X \<noteq> []"
    using last_words[OF c(1), of args pre] snoc.prems c(1) by (auto simp: argument_word_def plain_word_def)
  have "skip_ws_backward (?X @ '' '' @ a @ r) (length ?X + length '' '') = length ?X"
    by (rule skip_ws_at) (use l in \<open>auto simp: blanks_def is_ascii_whitespace_def\<close>)
  then have skip: "skip_ws_backward ?bytes (length ?u) = length ?X" by simp
  have sep: "?bytes ! (length ?X - 1) = last ?X" using nth_last[OF l(3), of "'' '' @ a @ r"] by simp
  have "fst (scan_args_for_write_command ?bytes (length ?X))"
    using snoc.IH[of "CHR '' '' # a @ r"] snoc.prems by simp
  then show ?case
    using tok skip sep l a
    by (subst scan_args_for_write_command.simps) (auto simp: argument_word_def plain_word_def)
qed

lemma redirect_after:
  assumes x: "x \<noteq> []" "\<not> is_ascii_whitespace (last x)" and hit: "\<And>t. fst (scan_args_for_write_command (x @ t) (length x))"
    and f: "plain_word f" and arrow: "arrow = ''>'' \<or> arrow = ''>>''"
  shows "scan_backward_for_file_write (x @ '' '' @ arrow @ '' '' @ f @ '' <<'' @ r) (length x + (length arrow + (length f + 3)))"
proof -
  let ?bytes = "x @ '' '' @ arrow @ '' '' @ f @ '' <<'' @ r"
  have fl: "f \<noteq> []" "\<not> is_ascii_whitespace (last f)" using f by (auto simp: plain_word_def)
  have ws: "is_ascii_whitespace (CHR '' '')" "\<not> is_ascii_whitespace (CHR ''>'')"
    by (simp_all add: is_ascii_whitespace_def)
  have bl: "blanks '' ''" using ws by (simp add: blanks_def)
  have p1: "skip_ws_backward ?bytes (length (x @ '' '' @ arrow @ '' '' @ f) + 1) = length (x @ '' '' @ arrow @ '' '' @ f)"
    using skip_ws_at[OF bl, of "x @ '' '' @ arrow @ '' '' @ f" "''<<'' @ r"] fl by simp
  have tok: "paren_aware_token ?bytes (length (x @ '' '' @ arrow @ '' '') + length f) = (f, length (x @ '' '' @ arrow @ '' ''))"
    using paren_token_at[OF f, of "x @ '' '' @ arrow @ '' ''" "'' <<'' @ r"] ws by simp
  have p3: "skip_ws_backward ?bytes (length (x @ '' '' @ arrow) + 1) = length (x @ '' '' @ arrow)"
    using skip_ws_at[OF bl, of "x @ '' '' @ arrow" "f @ '' <<'' @ r"] arrow ws by auto
  have q: "skip_ws_backward ?bytes (length x + 1) = length x"
    using skip_ws_at[OF bl, of x "arrow @ '' '' @ f @ '' <<'' @ r"] x by simp
  note h = hit[of "'' '' @ arrow @ '' '' @ f @ '' <<'' @ r"]
  have skip_blank: "skip_ws_backward ?bytes (Suc (length x)) = length x" using q by simp
  show ?thesis
  proof (cases "arrow = ''>''")
    case True
    have "?bytes ! Suc (length x) = CHR ''>''" "?bytes ! length x = CHR '' ''" by (simp_all add: True nth_append)
    then show ?thesis
      using p1 tok p3 skip_blank h fl(1) x(1) True
      by (simp add: scan_backward_for_file_write_def Let_def numeral_3_eq_3 split_beta)
  next
    case False
    then have a: "arrow = ''>>''" using arrow by simp
    have "?bytes ! Suc (Suc (length x)) = CHR ''>''" "?bytes ! Suc (length x) = CHR ''>''" by (simp_all add: a nth_append)
    then show ?thesis
      using p1 tok p3 skip_blank h fl(1) x(1) a
      by (simp add: scan_backward_for_file_write_def Let_def numeral_3_eq_3 split_beta)
  qed
qed

text \<open>
  A redirection written with blanks around it, after a command that reads standard input and any plain
  arguments, is seen; and nothing is seen before a heredoc that one single word precedes, such as
  \<open>cat>file\<close>.
\<close>

theorem redirect_detection:
  assumes "argument_word c" "is_file_write_command c" "\<forall>a \<in> set args. argument_word a" "plain_word f"
    and "pre = [] \<or> is_ascii_whitespace (last pre)" "arrow = ''>'' \<or> arrow = ''>>''" "blanks b"
  shows "scan_backward_for_file_write (pre @ c @ words (args @ [arrow, f]) @ '' <<'' @ r)
      (length (pre @ c @ words (args @ [arrow, f])) + 1) \<and>
    \<not> scan_backward_for_file_write (f @ b @ ''<<'' @ r) (length f + length b)"
proof
  let ?X = "pre @ c @ words args"
  have "\<not> is_ascii_whitespace (last ?X)" "?X \<noteq> []"
    using last_words[OF assms(1,3), of pre] assms(1) by (auto simp: argument_word_def plain_word_def)
  moreover have "fst (scan_args_for_write_command (?X @ t) (length ?X))" for t
    using scan_args_finds[OF assms(1,2,5,3), of t] by simp
  ultimately show "scan_backward_for_file_write (pre @ c @ words (args @ [arrow, f]) @ '' <<'' @ r)
      (length (pre @ c @ words (args @ [arrow, f])) + 1)"
    using redirect_after[where x = ?X and arrow = arrow and f = f and r = r] assms(4,6) by (simp add: numeral_3_eq_3 add.assoc)
next
  have f: "f \<noteq> []" "\<not> is_ascii_whitespace (last f)" using assms(4) by (auto simp: plain_word_def)
  have "skip_ws_backward (f @ b @ ''<<'' @ r) (length f + length b) = length f"
    using skip_ws_at[OF assms(7), of f] f by simp
  moreover have "paren_aware_token ([] @ f @ b @ ''<<'' @ r) (length ([] :: string) + length f) = (f, length ([] :: string))"
    by (rule paren_token_at[OF assms(4)]) simp
  ultimately show "\<not> scan_backward_for_file_write (f @ b @ ''<<'' @ r) (length f + length b)"
    using f by (simp add: scan_backward_for_file_write_def)
qed

section \<open>Here-strings\<close>

lemma closer_scan_plain:
  assumes "\<forall>c \<in> set w. c \<notin> {SQ, DQ, CHR ''<''}" "k \<le> length w"
  shows "closer_scan (w @ r) False False k = closer_scan (w @ r) False False (length w)"
  using assms(2)
proof (induction "length w - k" arbitrary: k)
  case (Suc n)
  then have k: "k < length w" by simp
  then have "w ! k \<in> set w" by simp
  then have "closer_scan (w @ r) False False k = closer_scan (w @ r) False False (Suc k)"
    using assms(1) k by (subst closer_scan.simps) (auto simp: nth_append here_at_def)
  then show ?case using Suc(1)[of "Suc k"] Suc(2) k by simp
qed simp

text \<open>
  A here-string has no delimiter line, but the guard takes the third \<open><\<close> for an empty delimiter and refuses
  the command.
\<close>

theorem here_string_refused:
  assumes "\<forall>c \<in> set w. c \<notin> {SQ, DQ, CHR ''<''}"
  shows "validate_heredocs (w @ ''<<<'' @ r) has_stdin \<noteq> Ok ()"
proof -
  let ?c = "w @ ''<<<'' @ r" and ?i = "Suc (Suc (length w))"
  have c: "?c ! length w = CHR ''<''" "?c ! Suc (length w) = CHR ''<''" "?c ! ?i = CHR ''<''" "?i < length ?c"
    by (simp_all add: nth_append)
  then have stay: "scan_to P ?c ?i = ?i" if "P (CHR ''<'')" for P
    using that Cons_nth_drop_Suc[OF c(4)] by (simp add: scan_to_def flip: Cons_nth_drop_Suc)
  have "delimiter_at ?c ?i = cut_word ?c ?i ?i ?i"
    using c stay[of "\<lambda>c. is_ascii_whitespace c \<or> c = CHR ''<''"] by (simp add: delimiter_at_def bare_word_def)
  then have d: "delimiter_at ?c ?i = Inl None \<or> delimiter_at ?c ?i = Inr ([], ?i)"
    by (auto simp: cut_word_def str_slice_def)
  have "scan_to (\<lambda>c. \<not> is_ascii_whitespace c) ?c ?i = ?i" by (rule stay) (simp add: is_ascii_whitespace_def)
  then have "heredoc_body ?c ?i = Inl None \<or> heredoc_body ?c ?i = Inl (Some missing_heredoc_error)"
    using d c(3) by (auto simp: heredoc_body_def)
  then have "closer_scan ?c False False (length w) \<noteq> Ok ()"
    using c by (subst closer_scan.simps) (auto simp: here_at_def numeral_2_eq_2)
  then show ?thesis
    using closer_scan_plain[OF assms, of 0 "''<<<'' @ r"] by (auto simp: validate_heredocs_def split: option.splits)
qed

section \<open>Instances\<close>


lemma accepted_heredocs_witness:
  "\<not> scan_backward_for_file_write (''grep x <<EOF'' @ [LF] @ ''x'' @ [LF] @ ''EOF'') 7"
proof -
  have "validate_heredocs (''grep x <<EOF'' @ [LF] @ ''x'' @ [LF] @ ''EOF'') False = Ok ()" by code_simp
  moreover have "heredoc_start (''grep x <<EOF'' @ [LF] @ ''x'' @ [LF] @ ''EOF'') 7" by code_simp
  ultimately show ?thesis using accepted_heredocs by blast
qed

lemma redirect_detection_witness:
  "scan_backward_for_file_write ''cat -n > f <<E'' 11 \<and> \<not> scan_backward_for_file_write ''cat>f <<E'' 6"
proof -
  have "scan_backward_for_file_write ''cat -n > f <<E'' 11"
    using redirect_detection[of "''cat''" "[''-n'']" "''f''" "[]" "''>''" "[]" "''E''"]
    by (simp add: argument_word_def plain_word_def is_ascii_whitespace_def is_file_write_command_def blanks_def eval_nat_numeral)
  moreover have "\<not> scan_backward_for_file_write ''cat>f <<E'' 6"
    using redirect_detection[of "''cat''" "[]" "''cat>f''" "[]" "''>''" "'' ''" "''E''"]
    by (simp add: argument_word_def plain_word_def is_ascii_whitespace_def is_file_write_command_def blanks_def eval_nat_numeral)
  ultimately show ?thesis ..
qed

lemma here_string_refused_witness: "validate_heredocs ''cat <<< hello'' False \<noteq> Ok ()"
  using here_string_refused[of "''cat ''" "'' hello''" False] by simp

text \<open>
  Patterns the comments list as rejected and the guard accepts: a command right after a parenthesis, and
  \<open>cp\<close> and \<open>install\<close> before the file.
\<close>

lemma listed_patterns_accepted:
  "validate_heredocs (''(cat > f <<E'' @ [LF] @ ''x'' @ [LF] @ ''E'' @ [LF] @ '')'') False = Ok ()"
  "validate_heredocs (''install f <<E'' @ [LF] @ ''x'' @ [LF] @ ''E'') False = Ok ()"
  "validate_heredocs (''cp /dev/stdin f <<E'' @ [LF] @ ''x'' @ [LF] @ ''E'') False = Ok ()"
  by code_simp+

end
