(* ===== verification/StrOps.thy ===== *)
theory StrOps
  imports RustStr
begin

text \<open>Further operations of Rust's \<open>str\<close>: \<open>strip_prefix\<close>, \<open>split_once\<close>, \<open>split_whitespace\<close> and \<open>starts_with\<close>.\<close>

definition str_strip_prefix :: "string \<Rightarrow> string \<Rightarrow> string option" where
  "str_strip_prefix p s = (if prefix p s then Some (drop (length p) s) else None)"

definition split_once_char :: "char \<Rightarrow> string \<Rightarrow> (string \<times> string) option" where
  "split_once_char c s =
     (if c \<in> set s then Some (takeWhile (\<lambda>x. x \<noteq> c) s, tl (dropWhile (\<lambda>x. x \<noteq> c) s)) else None)"

definition str_split_once :: "string \<Rightarrow> string \<Rightarrow> (string \<times> string) option" where
  "str_split_once pat s =
     (case match_indices s pat of [] \<Rightarrow> None | i # _ \<Rightarrow> Some (take i s, drop (i + length pat) s))"

text \<open>\<open>split_whitespace\<close> of well-formed text: the maximal runs of characters that are not white space.\<close>

fun ws_words :: "string list \<Rightarrow> string \<Rightarrow> string list" where
  "ws_words [] cur = (if cur = [] then [] else [cur])"
| "ws_words (x # xs) cur =
     (if char_is_ws x then (if cur = [] then ws_words xs [] else cur # ws_words xs []) else ws_words xs (cur @ x))"

definition split_whitespace :: "string \<Rightarrow> string list" where
  "split_whitespace s = ws_words (str_chars s) []"

lemma str_strip_prefix_append [simp]: "str_strip_prefix p (p @ s) = Some s"
  by (simp add: str_strip_prefix_def)

lemma str_strip_prefix_Some: "str_strip_prefix p s = Some r \<longleftrightarrow> s = p @ r"
  by (auto simp: str_strip_prefix_def prefix_def)

lemma split_once_char_append:
  "c \<notin> set a \<Longrightarrow> split_once_char c (a @ c # b) = Some (a, b)"
  by (simp add: split_once_char_def takeWhile_append dropWhile_append)

lemma split_once_char_Some: "split_once_char c s = Some (a, b) \<Longrightarrow> s = a @ c # b \<and> c \<notin> set a"
proof -
  assume h: "split_once_char c s = Some (a, b)"
  then obtain u v where "s = u @ c # v" "c \<notin> set u" by (auto simp: split_once_char_def split: if_splits dest: split_list_first)
  then show ?thesis using h by (simp add: split_once_char_append)
qed

lemma set_join: "x \<in> set xs \<Longrightarrow> set x \<subseteq> set (join sep xs)"
proof (induction xs)
  case (Cons y ys)
  then show ?case by (cases "ys = []") (auto simp: join_Cons)
qed simp

lemma split_on_chars: "x \<in> set (split_on d s) \<Longrightarrow> set x \<subseteq> set s"
  using set_join[of x "split_on d s" "[d]"] by simp

lemma split_on_append: "c \<notin> set a \<Longrightarrow> split_on c (a @ c # s) = a # split_on c s"
  by (induction a) auto

end
