(* ===== verification/Filters.thy ===== *)
theory Filters
  imports StrOps Path
begin

text \<open>
  Output filters of the command tool: \<open>crates/aptu-coder-core/src/ansi.rs\<close> and
  \<open>crates/aptu-coder/src/filters.rs\<close>. The \<open>regex\<close> crate is the parameter \<open>re\<close>, which gives the matcher
  of a pattern or \<open>None\<close> when it does not compile; the \<open>toml\<close> crate is the parameter \<open>toml\<close>.
\<close>

section \<open>Escape sequences\<close>

abbreviation ESC :: char where "ESC \<equiv> CHR 0x1B"
abbreviation BEL :: char where "BEL \<equiv> CHR 0x07"

text \<open>The characters after a control sequence introducer, and after an operating-system or device command.\<close>

fun skip_csi :: "string list \<Rightarrow> string list" where
  "skip_csi [] = []"
| "skip_csi (c # cs) = (if length c = 1 \<and> 0x40 \<le> byte (hd c) \<and> byte (hd c) \<le> 0x7E then cs else skip_csi cs)"

fun skip_osc :: "string list \<Rightarrow> string list" where
  "skip_osc [] = []"
| "skip_osc (c # cs) = (if c = [BEL] then cs else if c = [ESC] then drop 1 cs else skip_osc cs)"

lemma skip_csi_length: "length (skip_csi cs) \<le> length cs"
  by (induction cs) auto

lemma skip_osc_length: "length (skip_osc cs) \<le> length cs"
  by (induction cs) auto

function strip_chars :: "string list \<Rightarrow> string list" where
  "strip_chars [] = []"
| "strip_chars (c # cs) =
     (if c \<noteq> [ESC] then c # strip_chars cs
      else case cs of
          [] \<Rightarrow> []
        | n # r \<Rightarrow>
            if n = ''['' then strip_chars (skip_csi r)
            else if n = '']'' \<or> n = ''P'' then strip_chars (skip_osc r)
            else strip_chars r)"
  by pat_completeness auto
termination
  by (relation "measure length") (auto simp: le_imp_less_Suc le_SucI skip_csi_length skip_osc_length)

definition strip_ansi :: "string \<Rightarrow> string" where
  "strip_ansi s = concat (strip_chars (str_chars s))"

section \<open>Rules\<close>

record filter_rule =
  fr_match_command :: string
  fr_description :: "string option"
  fr_strip_ansi :: bool
  fr_strip_lines_matching :: "string list"
  fr_keep_lines_matching :: "string list"
  fr_max_lines :: "nat option"
  fr_on_empty :: "string option"

record compiled_rule =
  cr_pattern :: "string \<Rightarrow> bool"
  cr_strip_patterns :: "(string \<Rightarrow> bool) list"
  cr_keep_patterns :: "(string \<Rightarrow> bool) list"
  cr_rule :: filter_rule

text \<open>A pattern with its backslashes written as tildes, and the glyphs of the progress spinner.\<close>

definition rx :: "string \<Rightarrow> string" where
  "rx = map (\<lambda>c. if c = CHR ''~'' then CHR 0x5C else c)"

definition spinner :: string where
  "spinner = [CHR 0xE2, CHR 0x97, CHR 0x8B, CHR 0xE2, CHR 0x94, CHR 0x82, CHR 0xE2, CHR 0x95, CHR 0xB2, CHR 0xE2, CHR 0x96, CHR 0x91]"

definition builtin :: "string \<Rightarrow> string \<Rightarrow> bool \<Rightarrow> string list \<Rightarrow> nat option \<Rightarrow> string option \<Rightarrow> filter_rule" where
  "builtin cmd desc ansi strip max_lines on_empty =
     \<lparr>fr_match_command = rx cmd, fr_description = Some desc, fr_strip_ansi = ansi,
      fr_strip_lines_matching = strip, fr_keep_lines_matching = [], fr_max_lines = max_lines, fr_on_empty = on_empty\<rparr>"

definition build_builtin_filter_rules :: "filter_rule list" where
  "build_builtin_filter_rules =
     [builtin ''^git~s+pull'' ''git pull: strip diff-stat noise (data-confirmed: 96k-108k char cluster)'' False
        (map rx [''^~s*~|~s*~d+~s*[+-]+'', ''^~s+create mode'', ''^~s+delete mode'', ''^~s+rename '', ''^~s+mode change''])
        None (Some ''ok (up-to-date)''),
      builtin ''^git~s+fetch'' ''git fetch: emit compact ref summary (data-confirmed)'' False
        (map rx [''^From '', ''^~s+[a-f0-9]+~.~.'']) (Some 10) (Some ''ok fetched''),
      builtin ''^git~s+push'' ''git push: strip verbose remote lines (data-confirmed)'' False
        (map rx [''^remote:~s+$'', ''^remote: Resolving'', ''^remote: Compressing'', ''^remote: Counting'', ''^To ''])
        (Some 10) (Some ''ok pushed''),
      builtin ''^git~s+log'' ''git log: cap at 20 commit entries (data-confirmed: 957k char cluster)'' False [] (Some 20) None,
      builtin ''^git~s+status'' ''git status: cap at 20 lines (data-confirmed)'' False [] (Some 20) None,
      builtin ''^cargo~s+build'' ''cargo build: strip compile noise, keep errors/warnings (preventive)'' False
        (map rx [''^~s*Compiling '', ''^~s*Checking '', ''^~s*Downloading '', ''^~s*Updating '', ''^~s*Fresh ''])
        None (Some ''ok (build clean)''),
      builtin ''^cargo~s+test'' ''cargo test: keep test results and errors, strip compile noise (preventive)'' False
        (map rx [''^~s*Compiling '', ''^~s*Checking '', ''^~s*Fresh '']) None None,
      builtin ''^git~s+show''
        ''git show: cap at 200 lines; strip diff content lines from commit objects (exit-code-gated)'' True
        [''^@@'', ''^[+-][^+-]''] (Some 200) None,
      builtin ''^git~s+commit''
        ''git commit: strip GPG signing and hook output, keep branch/hash summary line (exit-code-gated)'' True
        [''^gpg:'', rx ''^~s*['' @ spinner @ '']'', ''^.*gitleaks'', rx ''^.*INF~b'', ''^.*no leaks found'']
        (Some 10) (Some ''ok committed''),
      builtin ''^git~s+diff'' ''git diff: strip ANSI escape sequences, cap at 100 lines (exit-code-gated)'' True
        [] (Some 100) (Some ''ok (working tree clean)''),
      builtin ''^git~s+add'' ''git add: strip hook output, confirm staged on empty output (exit-code-gated)'' True
        [rx ''^~s*['' @ spinner @ '']'', ''^.*gitleaks'', rx ''^.*INF~b''] (Some 5) (Some ''ok staged'')]"

definition compile_rule :: "(string \<Rightarrow> (string \<Rightarrow> bool) option) \<Rightarrow> filter_rule \<Rightarrow> compiled_rule option" where
  "compile_rule re rule =
     map_option (\<lambda>pattern. \<lparr>cr_pattern = pattern,
         cr_strip_patterns = List.map_filter re (fr_strip_lines_matching rule),
         cr_keep_patterns = List.map_filter re (fr_keep_lines_matching rule), cr_rule = rule\<rparr>)
       (re (fr_match_command rule))"

text \<open>
  The project's rules come before the built-in ones, each inserted in front of the last. \<open>project\<close> is the
  text of \<open>.aptu/filters.toml\<close> when it can be read.
\<close>

definition load_filter_table ::
    "(string \<Rightarrow> (string \<Rightarrow> bool) option) \<Rightarrow> (string \<Rightarrow> (nat \<times> filter_rule list) option) \<Rightarrow> string option \<Rightarrow> compiled_rule list" where
  "load_filter_table re toml project =
     (let compiled_rules = List.map_filter (compile_rule re) build_builtin_filter_rules in
      case project of
        None \<Rightarrow> compiled_rules
      | Some content \<Rightarrow>
          (case toml content of
             None \<Rightarrow> compiled_rules
           | Some (schema_version, rules) \<Rightarrow>
               if schema_version \<noteq> 1 then compiled_rules
               else fold (\<lambda>rule rs. case compile_rule re rule of None \<Rightarrow> rs | Some r \<Rightarrow> r # rs) rules compiled_rules))"

section \<open>Application\<close>

definition maybe_inject_no_stat :: "string \<Rightarrow> string" where
  "maybe_inject_no_stat command =
     (let ws = split_whitespace command in
      if prefix ''git '' command \<and> 1 < length ws \<and> ws ! 1 = ''pull'' \<and> \<not> str_contains command ''--stat'' \<and>
         \<not> str_contains command ''--no-stat'' \<and> \<not> str_contains command ''--verbose''
      then command @ '' --no-stat'' else command)"

datatype filter_effect = Capped string nat | Substituted string | NoEffect

fun filter_effect_display :: "filter_effect \<Rightarrow> string" where
  "filter_effect_display (Capped rule_name max_lines) =
     ''output capped to '' @ nat_str max_lines @ '' lines by filter rule '' @ [CHR 0x27] @ rule_name @ [CHR 0x27]"
| "filter_effect_display (Substituted rule_name) =
     ''empty output replaced by filter rule '' @ [CHR 0x27] @ rule_name @ [CHR 0x27]"
| "filter_effect_display NoEffect = ''no filtering effect''"

definition rule_label :: "filter_rule \<Rightarrow> string" where
  "rule_label r = (case fr_description r of Some d \<Rightarrow> d | None \<Rightarrow> fr_match_command r)"

definition kept_lines :: "compiled_rule \<Rightarrow> string \<Rightarrow> string list" where
  "kept_lines r text =
     (let ls = filter (\<lambda>l. \<not> list_ex (\<lambda>p. p l) (cr_strip_patterns r)) (str_lines text) in
      if cr_keep_patterns r = [] then ls else filter (\<lambda>l. list_ex (\<lambda>p. p l) (cr_keep_patterns r)) ls)"

definition apply_filter :: "compiled_rule \<Rightarrow> string \<Rightarrow> string \<times> filter_effect" where
  "apply_filter r text =
     (let rule = cr_rule r; rule_name = rule_label rule; ls = kept_lines r text;
          (ls, effect) = (case fr_max_lines rule of
              Some m \<Rightarrow> if m < length ls then (take m ls, Capped rule_name m) else (ls, NoEffect)
            | None \<Rightarrow> (ls, NoEffect))
      in case fr_on_empty rule of
           Some t \<Rightarrow> if ls = [] then (t, Substituted rule_name) else (join [LF] ls, effect)
         | None \<Rightarrow> (join [LF] ls, effect))"

end
