(* ===== verification/ExecRuntime.thy ===== *)
theory ExecRuntime
  imports Filters DiskCache
begin

text \<open>
  Running a command, \<open>crates/aptu-coder/src/tools/exec_runtime.rs\<close> and \<open>shell.rs\<close>: the process to spawn,
  draining its output within budgets, the streams cut from it, the slot files that hold what overflowed,
  and the output filters. The process itself and the runtime's races are inputs: the lines in the order
  the pipes delivered them, and which of exit, timeout and cancellation came first.
\<close>

section \<open>The process\<close>

record shell_env =
  sh_aptu_shell :: "string option"
  sh_path :: "string option"
  sh_is_executable :: "path \<Rightarrow> bool"

definition resolve_shell :: "shell_env \<Rightarrow> string" where
  "resolve_shell V =
     (case sh_aptu_shell V of
        Some shell \<Rightarrow> shell
      | None \<Rightarrow>
          (case sh_path V of
             Some p \<Rightarrow>
               if list_ex (\<lambda>dir. sh_is_executable V (path_join (parse_path dir) (parse_path ''bash''))) (split_on (CHR '':'') p)
               then ''bash'' else ''/bin/sh''
           | None \<Rightarrow> ''/bin/sh''))"

record exec_spec =
  es_program :: string
  es_args :: "string list"
  es_cwd :: "path option"
  es_path :: "string option"
  es_stdin_piped :: bool

definition build_exec_command :: "shell_env \<Rightarrow> string \<Rightarrow> path option \<Rightarrow> bool \<Rightarrow> string option \<Rightarrow> exec_spec" where
  "build_exec_command V command working_dir stdin_present resolved_path =
     \<lparr>es_program = resolve_shell V, es_args = [''-c'', command], es_cwd = working_dir, es_path = resolved_path,
      es_stdin_piped = stdin_present\<rparr>"

section \<open>Draining the pipes\<close>

definition MAX_DRAIN_STDOUT_BYTES :: nat where "MAX_DRAIN_STDOUT_BYTES = 512000"
definition MAX_DRAIN_STDERR_BYTES :: nat where "MAX_DRAIN_STDERR_BYTES = 256000"

record drain_state =
  dn_so_bytes :: nat
  dn_se_bytes :: nat
  dn_raw_so :: nat
  dn_raw_se :: nat
  dn_budget_hit :: bool
  dn_sent :: "(bool \<times> string) list"

definition drain_start :: drain_state where
  "drain_start = \<lparr>dn_so_bytes = 0, dn_se_bytes = 0, dn_raw_so = 0, dn_raw_se = 0, dn_budget_hit = False, dn_sent = []\<rparr>"

text \<open>One line; the flag is set for standard error. A line over the budget is counted and dropped.\<close>

definition drain_line :: "bool \<Rightarrow> string \<Rightarrow> drain_state \<Rightarrow> drain_state" where
  "drain_line is_stderr line s =
     (let entry_len = length line + 1 in
      if is_stderr then
        (let s = s\<lparr>dn_raw_se := dn_raw_se s + entry_len\<rparr> in
         if dn_se_bytes s + entry_len > MAX_DRAIN_STDERR_BYTES then s\<lparr>dn_budget_hit := True\<rparr>
         else s\<lparr>dn_se_bytes := dn_se_bytes s + entry_len, dn_sent := dn_sent s @ [(True, line)]\<rparr>)
      else
        (let s = s\<lparr>dn_raw_so := dn_raw_so s + entry_len\<rparr> in
         if dn_so_bytes s + entry_len > MAX_DRAIN_STDOUT_BYTES then s\<lparr>dn_budget_hit := True\<rparr>
         else s\<lparr>dn_so_bytes := dn_so_bytes s + entry_len, dn_sent := dn_sent s @ [(False, line)]\<rparr>))"

text \<open>The lines of both pipes as merged; \<open>None\<close> is a read error, a line that is not UTF-8 included, which ends the loop.\<close>

fun drain :: "(bool \<times> string option) list \<Rightarrow> drain_state \<Rightarrow> drain_state" where
  "drain [] s = s"
| "drain ((e, None) # ls) s = s"
| "drain ((e, Some line) # ls) s = drain ls (drain_line e line s)"

datatype exec_end = Exited "int option" | WaitFailed | TimedOut | Cancelled

datatype drain_end = Drained | DrainPanicked | DrainTimedOut

record execution_result =
  er_exit_code :: "int option"
  er_output_truncated :: bool
  er_output_collection_error :: "string option"
  er_timed_out :: bool
  er_byte_truncated :: bool
  er_raw_stdout_bytes :: nat
  er_raw_stderr_bytes :: nat

text \<open>What the drain task read before it ended is in \<open>items\<close>.\<close>

definition run_with_timeout ::
    "exec_end \<Rightarrow> drain_end \<Rightarrow> (bool \<times> string option) list \<Rightarrow> execution_result \<times> (bool \<times> string) list" where
  "run_with_timeout child_end task_end items =
     (let s = drain items drain_start;
          (exit_code, timed_out) = (case child_end of Exited c \<Rightarrow> (c, False) | WaitFailed \<Rightarrow> (None, False)
             | TimedOut \<Rightarrow> (None, True) | Cancelled \<Rightarrow> (None, True));
          (drain_truncated, byte_truncated, raw_so, raw_se) =
            (if timed_out then (False, False, 0, 0)
             else case task_end of
                 Drained \<Rightarrow> (False, dn_budget_hit s, dn_raw_so s, dn_raw_se s)
               | DrainPanicked \<Rightarrow> (False, False, 0, 0)
               | DrainTimedOut \<Rightarrow> (True, False, 0, 0))
      in (\<lparr>er_exit_code = exit_code, er_output_truncated = drain_truncated,
           er_output_collection_error =
             (if drain_truncated then Some ''post-exit drain timeout: background process held pipes'' else None),
           er_timed_out = timed_out, er_byte_truncated = byte_truncated,
           er_raw_stdout_bytes = raw_so, er_raw_stderr_bytes = raw_se\<rparr>, dn_sent s))"

section \<open>Slot files\<close>

text \<open>\<open>slot_base\<close>: the directory of a slot of captured output.\<close>

definition slot_base :: "path \<Rightarrow> nat \<Rightarrow> path" where
  "slot_base temp_dir slot =
     path_join (path_join temp_dir (parse_path ''aptu-coder-overflow'')) (parse_path (''slot-'' @ nat_str slot))"

record exec_env =
  xe_temp_dir :: path
  xe_pid :: nat

text \<open>The disk and the counter of temporary names.\<close>

record exec_state =
  xs_disk :: disk
  xs_counter :: nat

definition tmp_path :: "exec_env \<Rightarrow> path \<Rightarrow> nat \<Rightarrow> path" where
  "tmp_path X p n =
     (let file_name = (case path_file_name p of Some s \<Rightarrow> s | None \<Rightarrow> ''file'');
          name = file_name @ ''.'' @ nat_str (xe_pid X) @ ''.'' @ nat_str n @ ''.tmp''
      in path_join (if path_file_name p = None then p else butlast p) (parse_path name))"

text \<open>Write beside, then rename. A failed rename leaves the temporary file.\<close>

definition atomic_write :: "exec_env \<Rightarrow> path \<Rightarrow> string \<Rightarrow> exec_state \<Rightarrow> bool \<times> exec_state" where
  "atomic_write X p bytes s =
     (let tmp = tmp_path X p (xs_counter s); d = xs_disk s;
          s = s\<lparr>xs_counter := xs_counter s + 1\<rparr>;
          dir = (case path_parent tmp of None \<Rightarrow> [] | Some q \<Rightarrow> q) in
      if d_fails d DkWrite tmp \<or> dir \<notin> set (d_dirs d) \<or> tmp \<in> set (d_dirs d) then (False, s)
      else if d_fails d DkPersist p \<or> p \<in> set (d_dirs d) then (False, s\<lparr>xs_disk := set_file tmp bytes d\<rparr>)
      else (True, s\<lparr>xs_disk := set_file p bytes (d\<lparr>d_files := aremove tmp (d_files d)\<rparr>)\<rparr>))"

definition make_dirs :: "path \<Rightarrow> exec_state \<Rightarrow> exec_state" where
  "make_dirs p s = s\<lparr>xs_disk := snd (disk_create_dir_all p (xs_disk s))\<rparr>"

definition persist_pre_filter :: "exec_env \<Rightarrow> path \<Rightarrow> string \<Rightarrow> exec_state \<Rightarrow> bool \<times> exec_state" where
  "persist_pre_filter X p content s =
     atomic_write X p content (case path_parent p of None \<Rightarrow> s | Some base \<Rightarrow> make_dirs base s)"

text \<open>The last \<open>max_bytes\<close> bytes from a character boundary on; \<open>floor_char_boundary\<close> is one, so the slice does not panic.\<close>

definition tail_from :: "nat \<Rightarrow> string \<Rightarrow> string" where
  "tail_from max_bytes s = drop (floor_char_boundary s (length s - max_bytes)) s"

definition persist_interleaved_overflow ::
    "exec_env \<Rightarrow> string \<Rightarrow> nat \<Rightarrow> nat \<Rightarrow> exec_state \<Rightarrow> string \<times> string option \<times> exec_state" where
  "persist_interleaved_overflow X interleaved max_bytes slot s =
     (if length interleaved \<le> max_bytes then (interleaved, None, s)
      else
        let base = slot_base (xe_temp_dir X) slot; file = path_join base (parse_path ''interleaved'');
            s = snd (atomic_write X file interleaved (make_dirs base s))
        in (tail_from max_bytes interleaved, Some (path_display file), s))"

definition MAX_OUTPUT_LINES :: nat where "MAX_OUTPUT_LINES = 2000"
definition MAX_STDOUT_BYTES :: nat where "MAX_STDOUT_BYTES = 30000"
definition MAX_STDERR_BYTES :: nat where "MAX_STDERR_BYTES = 10000"
definition OVERFLOW_PREVIEW_LINES :: nat where "OVERFLOW_PREVIEW_LINES = 50"

text \<open>Of an empty stream nothing is written.\<close>

definition persist_stream :: "exec_env \<Rightarrow> path \<Rightarrow> string \<Rightarrow> exec_state \<Rightarrow> string option \<times> exec_state" where
  "persist_stream X file text s =
     (if text = [] then (None, s) else (Some (path_display file), snd (atomic_write X file text s)))"

definition stream_preview :: "nat \<Rightarrow> string \<Rightarrow> string" where
  "stream_preview max_bytes text =
     (let ls = str_lines text in
      if length text > max_bytes then tail_from max_bytes text
      else if length ls > MAX_OUTPUT_LINES then join [LF] (drop (length ls - OVERFLOW_PREVIEW_LINES) ls)
      else text)"

definition handle_output_persist ::
    "exec_env \<Rightarrow> string \<Rightarrow> string \<Rightarrow> nat \<Rightarrow> exec_state \<Rightarrow>
     (string \<times> string \<times> string option \<times> string option \<times> bool) \<times> exec_state" where
  "handle_output_persist X out err slot s =
     (let line_overflow = (length (str_lines out) > MAX_OUTPUT_LINES \<or> length (str_lines err) > MAX_OUTPUT_LINES);
          byte_overflow = (length out > MAX_STDOUT_BYTES \<or> length err > MAX_STDERR_BYTES) in
      if \<not> line_overflow \<and> \<not> byte_overflow then ((out, err, None, None, False), s)
      else
        let base = slot_base (xe_temp_dir X) slot; s = make_dirs base s;
            (out_path, s) = persist_stream X (path_join base (parse_path ''stdout'')) out s;
            (err_path, s) = persist_stream X (path_join base (parse_path ''stderr'')) err s
        in ((stream_preview MAX_STDOUT_BYTES out, stream_preview MAX_STDERR_BYTES err, out_path, err_path, byte_overflow), s))"

section \<open>The streams\<close>

definition MAX_BYTES :: nat where "MAX_BYTES = 50 * 1024"
definition INTERLEAVED_MAX_BYTES :: nat where "INTERLEAVED_MAX_BYTES = 60 * 1024"

record streams =
  sr_stdout :: string
  sr_stderr :: string
  sr_interleaved :: string

text \<open>
  A line is added while the stream is below its limit; the byte counters of the code are the lengths of the
  streams.
\<close>

definition split_line :: "bool \<times> string \<Rightarrow> streams \<Rightarrow> streams" where
  "split_line item t =
     (let (is_stderr, line) = item; entry = line @ [LF];
          t = (if length (sr_interleaved t) < 2 * MAX_BYTES then t\<lparr>sr_interleaved := sr_interleaved t @ entry\<rparr> else t) in
      if is_stderr then
        (if length (sr_stderr t) < MAX_BYTES then t\<lparr>sr_stderr := sr_stderr t @ entry\<rparr> else t)
      else if length (sr_stdout t) < MAX_BYTES then t\<lparr>sr_stdout := sr_stdout t @ entry\<rparr> else t)"

definition split_streams :: "(bool \<times> string) list \<Rightarrow> streams" where
  "split_streams ls = fold split_line ls \<lparr>sr_stdout = [], sr_stderr = [], sr_interleaved = []\<rparr>"

record shell_output =
  so_stdout :: string
  so_stderr :: string
  so_exit_code :: "int option"
  so_output_truncated :: bool
  so_output_collection_error :: "string option"
  so_stdout_path :: "string option"
  so_stderr_path :: "string option"
  so_filter_applied :: "string option"
  so_filter_capped :: bool
  so_filter_effect :: "string option"
  so_timed_out :: bool

definition shell_output_new :: "string \<Rightarrow> string \<Rightarrow> int option \<Rightarrow> bool \<Rightarrow> shell_output" where
  "shell_output_new out err exit_code truncated =
     \<lparr>so_stdout = out, so_stderr = err, so_exit_code = exit_code, so_output_truncated = truncated,
      so_output_collection_error = None, so_stdout_path = None, so_stderr_path = None, so_filter_applied = None,
      so_filter_capped = False, so_filter_effect = None, so_timed_out = False\<rparr>"

section \<open>Filtering\<close>

text \<open>The slot files of a capped output, unless overflow already wrote them.\<close>

definition persist_capped ::
    "exec_env \<Rightarrow> nat \<Rightarrow> shell_output \<Rightarrow> string \<Rightarrow> string option \<Rightarrow> exec_state \<Rightarrow> shell_output \<times> string option \<times> exec_state" where
  "persist_capped X slot out interleaved interleaved_path s =
     (let base = slot_base (xe_temp_dir X) slot;
          (out, s) =
            (if so_stdout_path out = None \<and> so_stdout out \<noteq> [] then
               let p = path_join base (parse_path ''stdout''); (written, s) = persist_pre_filter X p (so_stdout out) s
               in (if written then out\<lparr>so_stdout_path := Some (path_display p)\<rparr> else out, s)
             else (out, s));
          (interleaved_path, s) =
            (if interleaved_path = None \<and> interleaved \<noteq> [] then
               let p = path_join base (parse_path ''interleaved''); (written, s) = persist_pre_filter X p interleaved s
               in (if written then Some (path_display p) else interleaved_path, s)
             else (interleaved_path, s))
      in (out, interleaved_path, s))"

fun is_capped :: "filter_effect \<Rightarrow> bool" where
  "is_capped (Capped _ _) = True"
| "is_capped _ = False"

definition apply_filter_rules ::
    "exec_env \<Rightarrow> compiled_rule list \<Rightarrow> string \<Rightarrow> nat \<Rightarrow> shell_output \<Rightarrow> string \<Rightarrow> string option \<Rightarrow> exec_state \<Rightarrow>
     shell_output \<times> string \<times> string option \<times> exec_state" where
  "apply_filter_rules X rules command slot out interleaved interleaved_path s =
     (case List.find (\<lambda>r. cr_pattern r command) rules of
        None \<Rightarrow> (out, interleaved, interleaved_path, s)
      | Some r \<Rightarrow>
          let (filtered_stdout, stdout_effect) = apply_filter r (so_stdout out);
              (filtered_interleaved, interleaved_effect) = apply_filter r interleaved;
              effect = (if stdout_effect = NoEffect then interleaved_effect else stdout_effect);
              (out, interleaved_path, s) =
                (if is_capped effect then
                   let (out, ip, s) = persist_capped X slot out interleaved interleaved_path s
                   in (out\<lparr>so_filter_capped := True, so_filter_effect := Some (filter_effect_display effect)\<rparr>, ip, s)
                 else if effect = NoEffect then (out, interleaved_path, s)
                 else (out\<lparr>so_filter_effect := Some (filter_effect_display effect)\<rparr>, interleaved_path, s))
          in (out\<lparr>so_stdout := filtered_stdout, so_filter_applied := Some (rule_label (cr_rule r))\<rparr>,
              filtered_interleaved, interleaved_path, s))"

section \<open>Running a command\<close>

text \<open>What the operating system does with the command: no process, with the message, or how it ended.\<close>

datatype spawned = SpawnFailed string | Ran exec_end drain_end "(bool \<times> string option) list"

record exec_result =
  xr_output :: shell_output
  xr_interleaved :: string
  xr_interleaved_path :: "string option"
  xr_raw_stdout :: nat
  xr_raw_stderr :: nat

definition run_exec ::
    "exec_env \<Rightarrow> compiled_rule list \<Rightarrow> string \<Rightarrow> nat \<Rightarrow> spawned \<Rightarrow> exec_state \<Rightarrow> exec_result \<times> exec_state" where
  "run_exec X rules command slot child s =
     (case child of
        SpawnFailed e \<Rightarrow>
          (\<lparr>xr_output = shell_output_new [] (''failed to spawn command: '' @ e) None False,
            xr_interleaved = ''failed to spawn command: '' @ e, xr_interleaved_path = None,
            xr_raw_stdout = 0, xr_raw_stderr = 0\<rparr>, s)
      | Ran child_end task_end items \<Rightarrow>
          let (r, ls) = run_with_timeout child_end task_end items;
              t = split_streams ls;
              ((out, err, out_path, err_path, byte_truncated), s) =
                handle_output_persist X (sr_stdout t) (sr_stderr t) slot s;
              (preview, interleaved_path, s) =
                persist_interleaved_overflow X (sr_interleaved t) INTERLEAVED_MAX_BYTES slot s;
              truncated = (er_output_truncated r \<or> er_byte_truncated r \<or> out_path \<noteq> None \<or> byte_truncated \<or> interleaved_path \<noteq> None);
              output = (shell_output_new (strip_ansi out) (strip_ansi err) (er_exit_code r) truncated)
                \<lparr>so_output_collection_error := er_output_collection_error r, so_stdout_path := out_path,
                 so_stderr_path := err_path, so_timed_out := er_timed_out r\<rparr>;
              (output, interleaved, interleaved_path, s) =
                (if er_exit_code r = Some 0
                 then apply_filter_rules X rules command slot output (strip_ansi preview) interleaved_path s
                 else (output, strip_ansi preview, interleaved_path, s))
          in (\<lparr>xr_output = output, xr_interleaved = interleaved, xr_interleaved_path = interleaved_path,
               xr_raw_stdout = er_raw_stdout_bytes r, xr_raw_stderr = er_raw_stderr_bytes r\<rparr>, s))"

end
