(* ===== verification/ExecCommand.thy ===== *)
theory ExecCommand
  imports ExecRuntime ShellScan Validation
begin

text \<open>
  The \<open>exec_command\<close> tool, \<open>crates/aptu-coder/src/tools/exec_command.rs\<close>: the working directory and
  the \<open>cd\<close> prefix, the checks before the process, the text and links of the answer, and its metric. The
  operating system is Validation's value; JSON serialization of the metadata, tracing and timing are left out.
\<close>

definition STDIN_MAX_BYTES :: nat where "STDIN_MAX_BYTES = 1048576"

record exec_params =
  ex_command :: string
  ex_working_dir :: "string option"
  ex_stdin :: "string option"

datatype exec_error_subtype = WorkingDirNotDir | WorkingDirNotFound | CdPathNotDir | CdPathNotFound | StdinTooLarge | HeredocError

fun exec_subtype_str :: "exec_error_subtype \<Rightarrow> string" where
  "exec_subtype_str WorkingDirNotDir = ''working_dir_not_dir''"
| "exec_subtype_str WorkingDirNotFound = ''working_dir_not_found''"
| "exec_subtype_str CdPathNotDir = ''cd_path_not_dir''"
| "exec_subtype_str CdPathNotFound = ''cd_path_not_found''"
| "exec_subtype_str StdinTooLarge = ''stdin_too_large''"
| "exec_subtype_str HeredocError = ''heredoc_error''"

section \<open>The working directory\<close>

definition strip_cd_prefix :: "string \<Rightarrow> string \<times> string option" where
  "strip_cd_prefix cmd =
     (case str_strip_prefix ''cd '' (trim_start cmd) of
        None \<Rightarrow> (cmd, None)
      | Some rest \<Rightarrow>
          (case str_split_once ''&&'' rest of
             None \<Rightarrow> (cmd, None)
           | Some (path_part, rest_part) \<Rightarrow> (trim rest_part, Some (trim path_part))))"

definition is_plain_absolute :: "string \<Rightarrow> bool" where
  "is_plain_absolute cd_path \<longleftrightarrow>
     prefix ''/'' cd_path \<and> CHR ''$'' \<notin> set cd_path \<and> CHR ''~'' \<notin> set cd_path \<and> cd_path \<noteq> ''-''"

text \<open>The message of an error with what caused it.\<close>

type_synonym exec_failure = "string \<times> exec_error_subtype"

definition canonical_working_dir :: "os \<Rightarrow> string option \<Rightarrow> exec_failure + path option" where
  "canonical_working_dir w wd =
     (case wd of
        None \<Rightarrow> Inr None
      | Some wd \<Rightarrow>
          (case os_canonicalize w (parse_path wd) of
             Inr p \<Rightarrow>
               if \<not> os_is_dir w p
               then Inl (''working_dir is not a directory; provide an existing directory path'', WorkingDirNotDir)
               else Inr (Some p)
           | Inl _ \<Rightarrow> Inl (''working_dir is not valid; provide an existing directory path'', WorkingDirNotFound)))"

definition resolve_cd_prefix :: "os \<Rightarrow> string \<Rightarrow> path option \<Rightarrow> exec_failure + (string \<times> path option)" where
  "resolve_cd_prefix w command wd =
     (case strip_cd_prefix command of
        (_, None) \<Rightarrow> Inr (command, wd)
      | (effective, Some cd_path) \<Rightarrow>
          (case wd of
             None \<Rightarrow>
               if \<not> is_plain_absolute cd_path then Inr (command, wd)
               else (case validate_path w cd_path True of
                   Inr p \<Rightarrow>
                     if os_is_dir w p then Inr (effective, Some p)
                     else Inl (''cd prefix path is not a directory; set working_dir explicitly or use a valid directory path'', CdPathNotDir)
                 | Inl _ \<Rightarrow>
                     Inl (''cd prefix path does not exist or is outside CWD; set working_dir explicitly'', CdPathNotFound))
           | Some dir \<Rightarrow>
               if validate_path w cd_path True = Inr dir then Inr (effective, wd) else Inr (command, wd)))"

definition validate_working_dir_phase :: "os \<Rightarrow> exec_params \<Rightarrow> exec_failure + (string \<times> path option)" where
  "validate_working_dir_phase w params =
     (case canonical_working_dir w (ex_working_dir params) of
        Inl e \<Rightarrow> Inl e
      | Inr wd \<Rightarrow> map_sum id (\<lambda>(command, wd). (maybe_inject_no_stat command, wd)) (resolve_cd_prefix w (ex_command params) wd))"

definition validate_pre_spawn_phase :: "exec_params \<Rightarrow> string \<Rightarrow> (exec_failure, unit) outcome" where
  "validate_pre_spawn_phase params command =
     (if (case ex_stdin params of Some t \<Rightarrow> length t > STDIN_MAX_BYTES | None \<Rightarrow> False)
      then Err (''stdin exceeds 1 MB limit'', StdinTooLarge)
      else case validate_heredocs command (ex_stdin params \<noteq> None) of
          Panic \<Rightarrow> Panic
        | Err e \<Rightarrow> Err (ed_message e, HeredocError)
        | Ok u \<Rightarrow> Ok u)"

section \<open>The text\<close>

definition capture_hint :: "string \<Rightarrow> nat \<Rightarrow> string" where
  "capture_hint p bytes =
     (if bytes > 0 then ''output truncated; full capture at '' @ p @ '' ('' @ nat_str bytes @ '' bytes captured)'' @ [LF]
      else ''output truncated; full capture at '' @ p @ [LF])"

definition filter_capture_hint :: "string \<Rightarrow> string" where
  "filter_capture_hint p =
     ''output filter-capped; full pre-filter capture at '' @ p @ '' (filter-capped slot file, last-run-wins; readable via resources/read)'' @ [LF]"

definition for_some :: "'a option \<Rightarrow> ('a \<Rightarrow> string) \<Rightarrow> string" where
  "for_some x f = (case x of None \<Rightarrow> [] | Some a \<Rightarrow> f a)"

definition truncation_notice :: "exec_result \<Rightarrow> string" where
  "truncation_notice r =
     (let out = xr_output r;
          hint = (\<lambda>p bytes. if so_filter_capped out then filter_capture_hint p else capture_hint p bytes) in
      for_some (so_stdout_path out) (\<lambda>p. ''Full output available at: '' @ p @ [LF]) @
      for_some (so_stderr_path out) (\<lambda>p. ''Full stderr available at: '' @ p @ [LF]) @
      for_some (xr_interleaved_path r) (\<lambda>p. ''Full output available at: '' @ p @ [LF]) @
      for_some (so_stdout_path out) (\<lambda>p. hint p (xr_raw_stdout r)) @
      for_some (so_stderr_path out) (\<lambda>p. hint p (xr_raw_stderr r)) @
      for_some (xr_interleaved_path r) (\<lambda>p. hint p (xr_raw_stdout r + xr_raw_stderr r)))"

text \<open>\<open>i32::to_string\<close>.\<close>

definition int_str :: "int \<Rightarrow> string" where
  "int_str i = (if i < 0 then ''-'' @ nat_str (nat (- i)) else nat_str (nat i))"

definition format_shell_output_phase :: "exec_params \<Rightarrow> exec_result \<Rightarrow> string" where
  "format_shell_output_phase params r =
     (let out = xr_output r;
          output_text =
            (if xr_interleaved r = [] then ''Stdout:'' @ [LF] @ so_stdout out @ [LF, LF] @ ''Stderr:'' @ [LF] @ so_stderr out
             else ''Output:'' @ [LF] @ xr_interleaved r);
          filter_line =
            (if so_filter_capped out then ''Output filtered: '' @
               (case so_filter_effect out of Some e \<Rightarrow> e | None \<Rightarrow> ''filter rule applied'') @ [LF] else [])
      in ''Command: '' @ ex_command params @ [LF] @
         ''Exit code: '' @ (case so_exit_code out of Some c \<Rightarrow> int_str c | None \<Rightarrow> ''null'') @ [LF] @
         ''Output truncated: '' @ (if so_output_truncated out then ''true'' else ''false'') @ [LF] @
         filter_line @ truncation_notice r @ output_text)"

section \<open>The handler\<close>

record exec_metric =
  xm_result :: string
  xm_error_type :: "string option"
  xm_error_subtype :: "string option"
  xm_output_chars :: nat
  xm_exit_code :: "int option"
  xm_timed_out :: bool
  xm_output_truncated :: "bool option"
  xm_threshold_breach :: bool
  xm_filter_applied :: "string option"
  xm_stdin_provided :: bool
  xm_working_dir_used :: bool
  xm_raw_bytes :: "(nat \<times> nat) option"

definition base_metric :: "exec_params \<Rightarrow> string \<Rightarrow> exec_metric" where
  "base_metric params result =
     \<lparr>xm_result = result, xm_error_type = None, xm_error_subtype = None, xm_output_chars = 0, xm_exit_code = None,
      xm_timed_out = False, xm_output_truncated = Some False, xm_threshold_breach = False, xm_filter_applied = None,
      xm_stdin_provided = (ex_stdin params \<noteq> None), xm_working_dir_used = (ex_working_dir params \<noteq> None), xm_raw_bytes = None\<rparr>"

definition invalid_params_metric :: "exec_params \<Rightarrow> exec_error_subtype \<Rightarrow> exec_metric" where
  "invalid_params_metric params subtype =
     (base_metric params ''error'')\<lparr>xm_error_type := Some ''invalid_params'', xm_error_subtype := Some (exec_subtype_str subtype)\<rparr>"

record exec_metadata =
  md_exit_code :: "int option"
  md_timed_out :: bool
  md_output_truncated :: bool
  md_output_collection_error :: "string option"
  md_filter_applied :: "string option"
  md_filter_effect :: "string option"
  md_stdout_path :: "string option"
  md_stderr_path :: "string option"

definition metadata_of :: "shell_output \<Rightarrow> exec_metadata" where
  "metadata_of out =
     \<lparr>md_exit_code = so_exit_code out, md_timed_out = so_timed_out out, md_output_truncated = so_output_truncated out,
      md_output_collection_error = so_output_collection_error out, md_filter_applied = so_filter_applied out,
      md_filter_effect = so_filter_effect out, md_stdout_path = so_stdout_path out, md_stderr_path = so_stderr_path out\<rparr>"

datatype exec_answer =
    ExecError string
  | ExecDone (ea_failed: bool) (ea_text: string) (ea_links: "string list") (ea_metadata: "exec_metadata option")

definition overflow_link :: "nat \<Rightarrow> string \<Rightarrow> string" where
  "overflow_link slot name = ''aptu-overflow://slot-'' @ nat_str slot @ ''/'' @ name"

definition resource_links :: "nat \<Rightarrow> exec_result \<Rightarrow> string list" where
  "resource_links slot r =
     (let out = xr_output r in
      if so_output_truncated out \<or> so_filter_capped out then
        (if so_stdout_path out \<noteq> None then [overflow_link slot ''stdout''] else []) @
        (if so_stderr_path out \<noteq> None then [overflow_link slot ''stderr''] else []) @
        (if xr_interleaved_path r \<noteq> None then [overflow_link slot ''interleaved''] else [])
      else [])"

definition metadata_needed :: "shell_output \<Rightarrow> bool" where
  "metadata_needed out \<longleftrightarrow> so_output_truncated out \<or> so_stdout_path out \<noteq> None \<or> so_stderr_path out \<noteq> None \<or>
     so_filter_applied out \<noteq> None \<or> so_timed_out out \<or> so_output_collection_error out \<noteq> None"

definition answer_of :: "nat \<Rightarrow> exec_params \<Rightarrow> exec_result \<Rightarrow> exec_answer \<times> exec_metric" where
  "answer_of slot params r =
     (let out = xr_output r; text = format_shell_output_phase params r in
      (ExecDone (case so_exit_code out of Some c \<Rightarrow> c \<noteq> 0 | None \<Rightarrow> False) text (resource_links slot r)
         (if metadata_needed out then Some (metadata_of out) else None),
       (base_metric params ''ok'')
         \<lparr>xm_output_chars := length text, xm_exit_code := so_exit_code out, xm_timed_out := so_timed_out out,
          xm_output_truncated := Some (so_output_truncated out), xm_threshold_breach := (length text > 30000),
          xm_filter_applied := so_filter_applied out,
          xm_raw_bytes := (if so_output_truncated out \<and> \<not> so_timed_out out \<and> so_output_collection_error out = None
             then Some (xr_raw_stdout r, xr_raw_stderr r) else None)\<rparr>))"

text \<open>
  \<open>spawn\<close> is what the system does with a command in a directory. The answer, the metric and the new state; no
  process runs when a check fails.
\<close>

definition exec_command ::
    "os \<Rightarrow> exec_env \<Rightarrow> compiled_rule list \<Rightarrow> nat \<Rightarrow> (string \<Rightarrow> path option \<Rightarrow> string option \<Rightarrow> spawned) \<Rightarrow>
     exec_params \<Rightarrow> exec_state \<Rightarrow> (unit, exec_answer \<times> exec_metric) outcome \<times> exec_state" where
  "exec_command w X rules seq spawn params s =
     (case validate_working_dir_phase w params of
        Inl (m, subtype) \<Rightarrow> (Ok (ExecError m, invalid_params_metric params subtype), s)
      | Inr (command, wd) \<Rightarrow>
          (case validate_pre_spawn_phase params command of
             Panic \<Rightarrow> (Panic, s)
           | Err (m, subtype) \<Rightarrow> (Ok (ExecError m, invalid_params_metric params subtype), s)
           | Ok _ \<Rightarrow>
               let (r, s) = run_exec X rules command seq (spawn command wd (ex_stdin params)) s in
               if so_timed_out (xr_output r) then
                 (Ok (ExecError ''Command execution timed out; the process was killed.'',
                    (base_metric params ''error'')\<lparr>xm_error_type := Some ''timeout'', xm_timed_out := True\<rparr>), s)
               else (Ok (answer_of seq params r), s)))"

end
