(* ===== verification/FiltersProps.thy ===== *)
theory FiltersProps
  imports Filters
begin

text \<open>
  Properties of the output filters: text without escape sequences, which lines a rule keeps and what it
  reports of the others.
\<close>

section \<open>Characters\<close>

definition is_char :: "string \<Rightarrow> bool" where
  "is_char x \<longleftrightarrow> utf8_len x = Some (length x)"

lemma utf8_len_take: "utf8_len s = Some n \<Longrightarrow> utf8_len (take n s) = Some n"
proof -
  assume n: "utf8_len s = Some n"
  then obtain c cs where s: "s = c # cs" by (cases s) (auto simp: utf8_len.simps)
  obtain u where u: "take n s = c # u" using utf8_len_pos[OF n] s by (cases n) auto
  have u': "u = take (n - 1) cs" using u s by (cases n) auto
  have app: "cont_at (c # u) i" if "cont_at (c # cs) i" "i < n" for i
    using that by (cases i) (auto simp: cont_at_def u')
  have app2: "second_in (c # u) lo hi" if "second_in (c # cs) lo hi" "1 < n" for lo hi
    using that by (auto simp: second_in_def u')
  show ?thesis using n app app2 unfolding u unfolding s
    by (simp add: utf8_len.simps Let_def split: if_split_asm)
qed

lemma str_chars_chars: "utf8_valid s \<Longrightarrow> x \<in> set (str_chars s) \<Longrightarrow> is_char x"
proof (induction s rule: str_chars.induct)
  case (1 s)
  show ?case
  proof (cases "s = []")
    case True
    then show ?thesis using 1(3) by (simp add: str_chars.simps utf8_len.simps)
  next
    case False
    then obtain n where n: "utf8_len s = Some n" "utf8_valid (drop n s)"
      using 1(2) by (auto simp: utf8_valid.simps[of s] split: option.splits)
    have "n \<le> length s" using utf8_len_Some[OF n(1)] by simp
    then have "is_char (take n s)" using utf8_len_take[OF n(1)] by (simp add: is_char_def)
    then show ?thesis using 1(1)[OF n(1) n(2)] 1(3) n(1) by (auto simp: str_chars.simps[of s])
  qed
qed

lemma str_chars_concat: "\<forall>x\<in>set xs. is_char x \<Longrightarrow> str_chars (concat xs) = xs \<and> utf8_valid (concat xs)"
proof (induction xs)
  case Nil
  then show ?case by (simp add: str_chars.simps utf8_len.simps)
next
  case (Cons x xs)
  have "utf8_len (x @ concat xs) = Some (length x)"
    using Cons.prems utf8_len_append by (simp add: is_char_def)
  moreover have "x \<noteq> []" using Cons.prems by (auto simp: is_char_def utf8_len.simps)
  ultimately show ?case using Cons by (simp add: str_chars.simps[of "x @ concat xs"] utf8_valid.simps[of "x @ concat xs"])
qed

lemma ascii_in_char:
  assumes "is_char x" "c \<in> set x" "byte c < 128"
  shows "x = [c]"
proof -
  obtain a r where x: "x = a # r" using assms(2) by (cases x) auto
  have f: "\<not> is_cont (x ! 0) \<and> (\<forall>i. 0 < i \<and> i < length x \<longrightarrow> is_cont (x ! i))"
    using utf8_len_Some assms(1) by (auto simp: is_char_def)
  have "c = a"
  proof (rule ccontr)
    assume "c \<noteq> a"
    then obtain i where "i < length r" "r ! i = c" using assms(2) x by (auto simp: in_set_conv_nth)
    then have "is_cont c" using f x by auto
    then show False using assms(3) by (simp add: is_cont_def)
  qed
  then have "length x = 1" using assms(1,3) x by (simp add: is_char_def utf8_len.simps Let_def)
  then show ?thesis using x \<open>c = a\<close> by simp
qed

section \<open>Escape sequences\<close>

lemma set_skip_csi: "set (skip_csi cs) \<subseteq> set cs"
  by (induction cs) auto

lemma set_skip_osc: "set (skip_osc cs) \<subseteq> set cs"
  by (induction cs) (auto dest: in_set_dropD)

lemma strip_chars_subset: "set (strip_chars cs) \<subseteq> set cs - {[ESC]}"
proof (induction cs rule: strip_chars.induct)
  case (2 c cs)
  show ?case
  proof (cases "c = [ESC]")
    case True
    show ?thesis
    proof (cases cs)
      case (Cons n r)
      consider "n = ''[''" | "n = '']'' \<or> n = ''P''" | "n \<noteq> ''[''" "n \<noteq> '']''" "n \<noteq> ''P''" by blast
      then show ?thesis
      proof cases
        case 1
        then show ?thesis using "2.IH"(2)[of n r] True Cons set_skip_csi[of r] by fastforce
      next
        case 2
        then show ?thesis using "2.IH"(3)[of n r] True Cons set_skip_osc[of r] by fastforce
      next
        case 3
        then show ?thesis using "2.IH"(4)[of n r] True Cons by auto
      qed
    qed (simp add: True)
  qed (use "2.IH"(1) in auto)
qed simp

lemma strip_chars_id: "[ESC] \<notin> set cs \<Longrightarrow> strip_chars cs = cs"
  by (induction cs) auto

lemma strip_chars_facts:
  assumes "utf8_valid s"
  shows "\<forall>x\<in>set (strip_chars (str_chars s)). is_char x" "[ESC] \<notin> set (strip_chars (str_chars s))"
    "str_chars (strip_ansi s) = strip_chars (str_chars s)" "utf8_valid (strip_ansi s)"
proof -
  show ch: "\<forall>x\<in>set (strip_chars (str_chars s)). is_char x" using strip_chars_subset str_chars_chars[OF assms] by blast
  show "[ESC] \<notin> set (strip_chars (str_chars s))" using strip_chars_subset by blast
  show "str_chars (strip_ansi s) = strip_chars (str_chars s)" "utf8_valid (strip_ansi s)"
    using str_chars_concat[OF ch] by (simp_all add: strip_ansi_def)
qed

text \<open>
  Stripping leaves no escape byte and well-formed text, keeps text that has no escape byte, and is
  idempotent.
\<close>

theorem strip_ansi_clean:
  assumes "utf8_valid s"
  shows "ESC \<notin> set (strip_ansi s) \<and> utf8_valid (strip_ansi s) \<and> (ESC \<notin> set s \<longrightarrow> strip_ansi s = s) \<and>
    strip_ansi (strip_ansi s) = strip_ansi s"
proof -
  let ?cs = "strip_chars (str_chars s)"
  note ch = strip_chars_facts(1)[OF assms] and e = strip_chars_facts(2)[OF assms]
  have 1: "ESC \<notin> set (strip_ansi s)"
  proof
    assume "ESC \<in> set (strip_ansi s)"
    then obtain x where x: "x \<in> set ?cs" "ESC \<in> set x" by (auto simp: strip_ansi_def)
    then have "x = [ESC]" using ascii_in_char[of x ESC] ch by simp
    then show False using e x by simp
  qed
  note 2 = strip_chars_facts(3,4)[OF assms]
  have 3: "ESC \<notin> set s \<Longrightarrow> strip_ansi s = s"
  proof -
    assume "ESC \<notin> set s"
    then have "[ESC] \<notin> set (str_chars s)" using concat_str_chars[OF assms] by (metis concat.simps(2) in_set_conv_decomp list.set_intros(1) concat_append append_Cons Un_iff set_append)
    then show ?thesis using strip_chars_id concat_str_chars[OF assms] by (simp add: strip_ansi_def)
  qed
  show ?thesis using 1 2 3 strip_chars_id[OF e] by (simp add: strip_ansi_def)
qed

theorem strip_ansi_witness:
  "strip_ansi ([ESC] @ ''[31mred'' @ [ESC] @ ''[0m'') = ''red'' \<and> ESC \<notin> set (strip_ansi ([ESC] @ ''[31mred'' @ [ESC] @ ''[0m''))"
proof -
  have "utf8_valid ([ESC] @ ''[31mred'' @ [ESC] @ ''[0m'')" by code_simp
  moreover have "strip_ansi ([ESC] @ ''[31mred'' @ [ESC] @ ''[0m'') = ''red''" by code_simp
  ultimately show ?thesis using strip_ansi_clean by blast
qed

section \<open>Rules\<close>

text \<open>What a rule does to a text, by the effect it reports.\<close>

lemma apply_filter_effect:
  assumes "apply_filter r s = (t, e)"
  shows "case e of
      NoEffect \<Rightarrow> t = join [LF] (kept_lines r s)
    | Capped _ m \<Rightarrow> t = join [LF] (take m (kept_lines r s)) \<and> m < length (kept_lines r s) \<and> fr_max_lines (cr_rule r) = Some m
    | Substituted _ \<Rightarrow> fr_on_empty (cr_rule r) = Some t \<and> (kept_lines r s = [] \<or> fr_max_lines (cr_rule r) = Some 0)"
  using assms by (auto simp: apply_filter_def Let_def split: option.splits if_splits)

text \<open>The project's rules come first, the last one of the file foremost.\<close>

lemma load_filter_table_order:
  "toml content = Some (1, rules) \<Longrightarrow>
   load_filter_table re toml (Some content) = rev (List.map_filter (compile_rule re) rules) @ load_filter_table re toml None"
proof -
  have "fold (\<lambda>rule rs. case compile_rule re rule of None \<Rightarrow> rs | Some r \<Rightarrow> r # rs) rules rs =
      rev (List.map_filter (compile_rule re) rules) @ rs" for rs
    by (induction rules arbitrary: rs) (auto simp: map_filter_simps split: option.splits)
  then show "toml content = Some (1, rules) \<Longrightarrow> ?thesis" by (simp add: load_filter_table_def Let_def)
qed

text \<open>The flag is appended to the whole command line, after whatever follows the pull.\<close>

lemma no_stat_after_chain: "maybe_inject_no_stat ''git pull && make'' = ''git pull && make --no-stat''"
  by code_simp

end
