(* ===== verification/ExecProps.thy ===== *)
theory ExecProps
  imports ExecCommand FiltersProps DiskCacheProps
begin

text \<open>
  Properties of the command tool: what the streams hold of the output, when an answer is complete, what the
  slot files hold, and which commands are refused.
\<close>

section \<open>The streams\<close>

definition entry_of :: "bool \<times> string \<Rightarrow> string" where
  "entry_of item = snd item @ [LF]"

text \<open>Entries are taken while the text is shorter than the limit.\<close>

fun fill :: "nat \<Rightarrow> string list \<Rightarrow> string \<Rightarrow> string" where
  "fill m [] acc = acc"
| "fill m (x # xs) acc = (if length acc < m then fill m xs (acc @ x) else acc)"

lemma fill_full: "m \<le> length acc \<Longrightarrow> fill m xs acc = acc"
  by (cases xs) auto

lemma fill_prefix: "\<exists>k\<le>length xs. fill m xs acc = acc @ concat (take k xs) \<and> (k < length xs \<longrightarrow> m \<le> length (fill m xs acc))"
proof (induction xs arbitrary: acc)
  case (Cons x xs)
  show ?case
  proof (cases "length acc < m")
    case True
    obtain k where "k \<le> length xs" "fill m xs (acc @ x) = (acc @ x) @ concat (take k xs)"
      "k < length xs \<longrightarrow> m \<le> length (fill m xs (acc @ x))" using Cons by blast
    then show ?thesis using True by (intro exI[of _ "Suc k"]) simp
  qed (auto intro!: exI[of _ 0])
qed simp

lemma fill_complete: "length (fill m xs []) < m \<Longrightarrow> fill m xs [] = concat xs"
  using fill_prefix[of xs m "[]"] by force

definition side :: "bool \<Rightarrow> (bool \<times> string) list \<Rightarrow> string list" where
  "side e ls = map entry_of (filter (\<lambda>x. fst x = e) ls)"

lemma split_line_facts [simp]:
  "sr_interleaved (split_line x t) = (if length (sr_interleaved t) < 2 * MAX_BYTES then sr_interleaved t @ entry_of x else sr_interleaved t)"
  "sr_stdout (split_line x t) = (if \<not> fst x \<and> length (sr_stdout t) < MAX_BYTES then sr_stdout t @ entry_of x else sr_stdout t)"
  "sr_stderr (split_line x t) = (if fst x \<and> length (sr_stderr t) < MAX_BYTES then sr_stderr t @ entry_of x else sr_stderr t)"
  by (cases x; simp add: split_line_def Let_def entry_of_def)+

lemma fold_split_line:
  "sr_interleaved (fold split_line ls t) = fill (2 * MAX_BYTES) (map entry_of ls) (sr_interleaved t)"
  "sr_stdout (fold split_line ls t) = fill MAX_BYTES (side False ls) (sr_stdout t)"
  "sr_stderr (fold split_line ls t) = fill MAX_BYTES (side True ls) (sr_stderr t)"
  by (induction ls arbitrary: t) (simp_all add: side_def fill_full)

lemma split_streams_fill [simp]:
  "sr_interleaved (split_streams ls) = fill (2 * MAX_BYTES) (map entry_of ls) []"
  "sr_stdout (split_streams ls) = fill MAX_BYTES (side False ls) []"
  "sr_stderr (split_streams ls) = fill MAX_BYTES (side True ls) []"
  by (simp_all add: split_streams_def fold_split_line)

section \<open>Draining\<close>

definition read_lines :: "(bool \<times> string option) list \<Rightarrow> (bool \<times> string) list" where
  "read_lines items = map (\<lambda>(e, l). (e, the l)) items"

lemma drain_line_grows:
  "dn_budget_hit s \<Longrightarrow> dn_budget_hit (drain_line e l s)"
  "\<not> dn_budget_hit (drain_line e l s) \<Longrightarrow> dn_sent (drain_line e l s) = dn_sent s @ [(e, l)] \<and> \<not> dn_budget_hit s"
  unfolding drain_line_def Let_def by (cases e; simp split: if_split_asm)+

lemma drain_hit: "dn_budget_hit s \<Longrightarrow> dn_budget_hit (drain items s)"
  by (induction items s rule: drain.induct) (auto simp: drain_line_grows(1))

text \<open>Within the budgets every line read is passed on.\<close>

lemma drain_sent:
  "\<not> dn_budget_hit (drain items s) \<Longrightarrow> \<forall>x\<in>set items. snd x \<noteq> None \<Longrightarrow> dn_sent (drain items s) = dn_sent s @ read_lines items"
proof (induction items s rule: drain.induct)
  case (3 e line ls s)
  have "\<not> dn_budget_hit (drain_line e line s)" using 3(2) drain_hit by auto
  then show ?case using 3 drain_line_grows(2) by (auto simp: read_lines_def)
qed (auto simp: read_lines_def)

section \<open>Previews\<close>

lemma four_conts:
  "utf8_valid s \<Longrightarrow> i + 3 < length s \<Longrightarrow> \<exists>j\<le>3. \<not> is_cont (s ! (i + j))"
proof (induction s arbitrary: i rule: utf8_valid.induct)
  case (1 s)
  then have "s \<noteq> []" by auto
  then obtain n where n: "utf8_len s = Some n" "utf8_valid (drop n s)"
    using "1.prems"(1) by (auto simp: utf8_valid.simps[of s] split: option.splits)
  note f = utf8_len_Some[OF n(1)]
  show ?case
  proof (cases "i < n")
    case True
    show ?thesis
    proof (cases "i = 0")
      case False
      then have "n - i \<le> 3" "n < length s" using f True "1.prems"(2) by auto
      moreover have "\<not> is_cont (s ! n)"
        using utf8_valid_Cons_lead[of "s ! n" "drop (Suc n) s"] n(2) calculation(2) by (simp add: Cons_nth_drop_Suc)
      ultimately show ?thesis using True by (intro exI[of _ "n - i"]) simp
    qed (use f in auto)
  next
    case False
    have "i - n + 3 < length (drop n s)" using False "1.prems"(2) by simp
    from "1.IH"[OF \<open>s \<noteq> []\<close> n(1) n(2) this] obtain j where j: "j \<le> 3" "\<not> is_cont (drop n s ! (i - n + j))" by blast
    have "drop n s ! (i - n + j) = s ! (i + j)" using False f by simp
    then show ?thesis using j by auto
  qed
qed

lemma floor_char_boundary_close:
  assumes "utf8_valid s" "n \<le> length s"
  shows "n \<le> floor_char_boundary s n + 3"
proof (cases "n < length s \<and> 3 \<le> n")
  case True
  obtain j where j: "j \<le> 3" "\<not> is_cont (s ! (n - 3 + j))"
    using four_conts[OF assms(1), of "n - 3"] True by auto
  have "n - 3 + j < length s" using j(1) True by arith
  then have "boundary s (n - 3 + j)" using j(2) by (simp add: boundary_def)
  moreover have "boundary s m \<Longrightarrow> m \<le> k \<Longrightarrow> m \<le> floor_boundary_loop s k" for m k
    by (induction k) (auto simp: le_Suc_eq)
  ultimately have "n - 3 + j \<le> floor_boundary_loop s n" using j(1) True by simp
  then show ?thesis using True by (simp add: floor_char_boundary_def)
qed (use assms in \<open>auto simp: floor_char_boundary_def\<close>)

text \<open>
  The preview of a stream over its byte limit is the end of the stream from a character boundary, at
  most three bytes longer than the limit.
\<close>

lemma tail_from_facts:
  assumes "utf8_valid s" "m < length s"
  shows "suffix (tail_from m s) s \<and> utf8_valid (tail_from m s) \<and> m \<le> length (tail_from m s) \<and> length (tail_from m s) \<le> m + 3"
proof -
  let ?n = "length s - m"
  have b: "boundary s (floor_char_boundary s ?n)" "floor_char_boundary s ?n \<le> ?n" using floor_char_boundary[of s ?n] by auto
  have "utf8_valid (drop (floor_char_boundary s ?n) s)" using utf8_valid_take_drop[OF assms(1) b(1)] by simp
  moreover have "?n \<le> floor_char_boundary s ?n + 3" by (rule floor_char_boundary_close) (use assms in auto)
  moreover have "length (tail_from m s) = length s - floor_char_boundary s ?n" by (simp add: tail_from_def)
  ultimately show ?thesis using b(2) assms(2) by (simp add: tail_from_def suffix_drop) linarith
qed

section \<open>Complete answers\<close>

lemma handle_output_persist_none:
  assumes "handle_output_persist X out err slot s = ((o', e', op, ep, b), s')" "op = None" "\<not> b"
  shows "length out \<le> MAX_STDOUT_BYTES \<and> length err \<le> MAX_STDERR_BYTES \<and> o' = out \<and>
    (length (str_lines err) \<le> MAX_OUTPUT_LINES \<longrightarrow> e' = err)"
  using assms
  by (auto simp: handle_output_persist_def persist_stream_def stream_preview_def str_lines_def Let_def
      split: if_split_asm prod.splits)

lemma persist_interleaved_none:
  "persist_interleaved_overflow X il m slot s = (p, None, s') \<Longrightarrow> length il \<le> m \<and> p = il"
  by (auto simp: persist_interleaved_overflow_def Let_def split: if_split_asm)

lemma persist_capped_fields:
  "persist_capped X slot out il ip s = (out', ip', s') \<Longrightarrow>
    so_stdout out' = so_stdout out \<and> so_output_truncated out' = so_output_truncated out"
  by (auto simp: persist_capped_def Let_def split: if_split_asm prod.splits)

lemma apply_filter_rules_fields:
  assumes "apply_filter_rules X rules command slot out il ip s = (out', il', ip', s')"
  shows "so_output_truncated out' = so_output_truncated out \<and>
    (so_filter_applied out' = None \<longrightarrow> so_filter_applied out = None \<and> out' = out \<and> il' = il \<and> ip' = ip \<and> s' = s)"
  using assms by (auto simp: apply_filter_rules_def Let_def dest!: persist_capped_fields split: option.splits prod.splits if_splits)


section \<open>Instances\<close>

text \<open>A listing whose two lines a rule cuts to one.\<close>

definition demo_rule :: compiled_rule where
  "demo_rule = \<lparr>cr_pattern = (\<lambda>c. prefix ''ls'' c), cr_strip_patterns = [], cr_keep_patterns = [],
     cr_rule = \<lparr>fr_match_command = ''^ls'', fr_description = None, fr_strip_ansi = False, fr_strip_lines_matching = [],
       fr_keep_lines_matching = [], fr_max_lines = Some 1, fr_on_empty = None\<rparr>\<rparr>"

definition demo_exec :: exec_env where "demo_exec = \<lparr>xe_temp_dir = [RootDir, Normal ''tmp''], xe_pid = 7\<rparr>"

definition demo_exec_state :: exec_state where
  "demo_exec_state = \<lparr>xs_disk = \<lparr>d_dirs = [[RootDir], [RootDir, Normal ''tmp'']], d_files = [], d_fails = \<lambda>_ _. False, d_clock = 0\<rparr>,
     xs_counter = 0\<rparr>"

definition demo_items :: "(bool \<times> string option) list" where
  "demo_items = [(False, Some ''a''), (True, Some ''e''), (False, Some ''b'')]"

lemma demo_drained: "drain demo_items drain_start =
   \<lparr>dn_so_bytes = 4, dn_se_bytes = 2, dn_raw_so = 4, dn_raw_se = 2, dn_budget_hit = False,
    dn_sent = [(False, ''a''), (True, ''e''), (False, ''b'')]\<rparr>"
  by (simp add: demo_items_def drain_start_def drain_line_def Let_def MAX_DRAIN_STDOUT_BYTES_def MAX_DRAIN_STDERR_BYTES_def)

lemma demo_streams: "split_streams [(False, ''a''), (True, ''e''), (False, ''b'')] =
   \<lparr>sr_stdout = ''a'' @ [LF] @ ''b'' @ [LF], sr_stderr = ''e'' @ [LF], sr_interleaved = ''a'' @ [LF] @ ''e'' @ [LF] @ ''b'' @ [LF]\<rparr>"
  by (simp add: split_streams_def split_line_def MAX_BYTES_def Let_def)

lemma demo_texts:
  "strip_ansi (''a'' @ [LF] @ ''b'' @ [LF]) = ''a'' @ [LF] @ ''b'' @ [LF]" "strip_ansi (''e'' @ [LF]) = ''e'' @ [LF]"
  "strip_ansi (''a'' @ [LF] @ ''e'' @ [LF] @ ''b'' @ [LF]) = ''a'' @ [LF] @ ''e'' @ [LF] @ ''b'' @ [LF]"
  "str_lines (''a'' @ [LF] @ ''b'' @ [LF]) = [''a'', ''b'']" "str_lines (''e'' @ [LF]) = [''e'']"
  "str_lines (''a'' @ [LF] @ ''e'' @ [LF] @ ''b'' @ [LF]) = [''a'', ''e'', ''b'']"
  by code_simp+

lemma demo_persist:
  "handle_output_persist X (''a'' @ [LF] @ ''b'' @ [LF]) (''e'' @ [LF]) slot s = ((''a'' @ [LF] @ ''b'' @ [LF], ''e'' @ [LF], None, None, False), s)"
  "persist_interleaved_overflow X (''a'' @ [LF] @ ''e'' @ [LF] @ ''b'' @ [LF]) INTERLEAVED_MAX_BYTES slot s =
    (''a'' @ [LF] @ ''e'' @ [LF] @ ''b'' @ [LF], None, s)"
  by (simp_all add: handle_output_persist_def persist_interleaved_overflow_def demo_texts[simplified] MAX_OUTPUT_LINES_def
      MAX_STDOUT_BYTES_def MAX_STDERR_BYTES_def INTERLEAVED_MAX_BYTES_def Let_def)

lemma demo_run:
  "run_exec demo_exec [] ''ls'' 3 (Ran (Exited (Some 0)) Drained demo_items) demo_exec_state =
   (\<lparr>xr_output = shell_output_new (''a'' @ [LF] @ ''b'' @ [LF]) (''e'' @ [LF]) (Some 0) False,
     xr_interleaved = ''a'' @ [LF] @ ''e'' @ [LF] @ ''b'' @ [LF], xr_interleaved_path = None, xr_raw_stdout = 4, xr_raw_stderr = 2\<rparr>,
    demo_exec_state)"
  by (simp add: run_exec_def run_with_timeout_def demo_drained demo_streams[simplified] demo_persist[simplified] demo_texts[simplified]
      apply_filter_rules_def Let_def shell_output_new_def del: split_streams_fill)


end
