(* ===== verification/ExecToolProps.thy ===== *)
theory ExecToolProps
  imports ExecProps
begin

text \<open>
  Further properties of the command tool: what the flags of an answer miss, the directory a command runs in,
  and the agreement of answers and metrics.
\<close>

section \<open>What the flags miss\<close>

lemma split_inclusive_entry: "LF \<notin> set l \<Longrightarrow> split_inclusive (l @ LF # s) = (l @ [LF]) # split_inclusive s"
  by (induction l) auto

lemma str_lines_entries:
  "\<forall>l\<in>set ls. LF \<notin> set l \<and> CR \<notin> set l \<Longrightarrow> str_lines (concat (map (\<lambda>l. l @ [LF]) ls)) = ls"
proof (induction ls)
  case (Cons l ls)
  have "strip_eol (l @ [LF]) = l" using Cons(2)
    by (auto simp: strip_eol_def strip_lf_def ends_lf_def dest: last_in_set)
  then show ?case using Cons by (simp add: str_lines_def split_inclusive_entry)
qed (simp add: str_lines_def)

lemma fill_all: "length (concat xs) < m \<Longrightarrow> fill m xs [] = concat xs"
proof -
  assume a: "length (concat xs) < m"
  obtain k where "fill m xs [] = concat (take k xs)" using fill_prefix[of xs m "[]"] by auto
  moreover have "length (concat xs) = length (concat (take k xs)) + length (concat (drop k xs))"
    by (metis append_take_drop_id concat_append length_append)
  ultimately show ?thesis using a by (intro fill_complete) simp
qed

lemma drain_stderr:
  "dn_se_bytes st + length (concat (map (\<lambda>l. l @ [LF]) ls)) \<le> MAX_DRAIN_STDERR_BYTES \<Longrightarrow>
   dn_sent (drain (map (\<lambda>l. (True, Some l)) ls) st) = dn_sent st @ map (Pair True) ls \<and>
   dn_budget_hit (drain (map (\<lambda>l. (True, Some l)) ls) st) = dn_budget_hit st"
  by (induction ls arbitrary: st) (simp_all add: drain_line_def Let_def)

text \<open>Standard error of many short lines is cut to its last lines and captured, and the answer is not marked and has no link.\<close>

lemma stderr_lines_cut_unmarked:
  assumes run: "run_exec X [] command slot (Ran (Exited c) Drained (map (\<lambda>l. (True, Some l)) ls)) s = (r, s')"
    and ls: "\<forall>l\<in>set ls. LF \<notin> set l \<and> CR \<notin> set l" "MAX_OUTPUT_LINES < length ls"
    and small: "length (concat (map (\<lambda>l. l @ [LF]) ls)) \<le> MAX_STDERR_BYTES"
  shows "so_stderr (xr_output r) = strip_ansi (join [LF] (drop (length ls - OVERFLOW_PREVIEW_LINES) ls)) \<and>
    so_stderr_path (xr_output r) \<noteq> None \<and> \<not> so_output_truncated (xr_output r) \<and> resource_links slot r = []"
proof -
  let ?all = "concat (map (\<lambda>l. l @ [LF]) ls)" and ?items = "map (\<lambda>l. (True, Some l)) ls"
  have d: "dn_sent (drain ?items drain_start) = map (Pair True) ls" "\<not> dn_budget_hit (drain ?items drain_start)"
    using drain_stderr[of drain_start ls] small by (simp_all add: drain_start_def MAX_STDERR_BYTES_def MAX_DRAIN_STDERR_BYTES_def)
  have s: "side True (map (Pair True) ls) = map (\<lambda>l. l @ [LF]) ls" "side False (map (Pair True) ls) = []"
      "map entry_of (map (Pair True) ls) = map (\<lambda>l. l @ [LF]) ls"
    by (simp_all add: side_def entry_of_def filter_map comp_def)
  have t: "sr_stdout (split_streams (map (Pair True) ls)) = []" "sr_stderr (split_streams (map (Pair True) ls)) = ?all"
      "sr_interleaved (split_streams (map (Pair True) ls)) = ?all"
    unfolding split_streams_fill s using small by (simp_all add: fill_all MAX_STDERR_BYTES_def MAX_BYTES_def)
  have "?all \<noteq> []" using ls(2) by (cases ls) auto
  then obtain s1 where h: "handle_output_persist X [] ?all slot s =
      (([], join [LF] (drop (length ls - OVERFLOW_PREVIEW_LINES) ls), None,
        Some (path_display (path_join (slot_base (xe_temp_dir X) slot) (parse_path ''stderr''))), False), s1)"
    using small ls(2) by (simp add: handle_output_persist_def persist_stream_def stream_preview_def str_lines_entries[OF ls(1)]
        MAX_STDERR_BYTES_def MAX_STDOUT_BYTES_def MAX_OUTPUT_LINES_def str_lines_def[of "[]"] Let_def del: length_concat)
  have i: "persist_interleaved_overflow X ?all INTERLEAVED_MAX_BYTES slot s1 = (?all, None, s1)"
    using small by (simp add: persist_interleaved_overflow_def MAX_STDERR_BYTES_def INTERLEAVED_MAX_BYTES_def)
  have "run_with_timeout (Exited c) Drained ?items =
      (\<lparr>er_exit_code = c, er_output_truncated = False, er_output_collection_error = None, er_timed_out = False, er_byte_truncated = False,
        er_raw_stdout_bytes = dn_raw_so (drain ?items drain_start), er_raw_stderr_bytes = dn_raw_se (drain ?items drain_start)\<rparr>,
       map (Pair True) ls)"
    by (simp add: run_with_timeout_def d Let_def)
  then show ?thesis using run
    by (auto simp: run_exec_def t h i apply_filter_rules_def shell_output_new_def resource_links_def Let_def
        simp del: split_streams_fill split: if_splits)
qed

text \<open>
  A rule that replaces an empty output hides that it cut the combined text: nothing is captured and the
  answer does not say so. Fetching with git writes to standard error only.
\<close>

lemma substitution_hides_cap:
  assumes "List.find (\<lambda>r. cr_pattern r command) rules = Some r" "fr_on_empty (cr_rule r) = Some msg"
    and "fr_max_lines (cr_rule r) = Some n" "kept_lines r (so_stdout out) = []" "0 < n" "n < length (kept_lines r interleaved)"
    and "apply_filter_rules X rules command slot out interleaved None s = (out', shown, path, s')"
  shows "shown = join [LF] (take n (kept_lines r interleaved)) \<and> path = None \<and> s' = s \<and> so_stdout out' = msg \<and>
    so_filter_capped out' = so_filter_capped out \<and> so_output_truncated out' = so_output_truncated out"
proof -
  have "apply_filter r (so_stdout out) = (msg, Substituted (rule_label (cr_rule r)))"
      "apply_filter r interleaved = (join [LF] (take n (kept_lines r interleaved)), Capped (rule_label (cr_rule r)) n)"
    using assms(2-6) by (auto simp: apply_filter_def Let_def)
  then show ?thesis using assms(1,7) by (auto simp: apply_filter_rules_def Let_def)
qed
section \<open>The directory of a command\<close>

lemma existing_path_contained:
  assumes "validate_path w s True = Inr q"
  shows "\<exists>cwd root. os_cwd w = Some cwd \<and> os_canonicalize w cwd = Inr root \<and> path_starts_with q root \<and>
    os_canonicalize w (path_join cwd (parse_path s)) = Inr q"
  using assms by (auto simp: validate_path_def split: option.splits sum.splits if_splits)

text \<open>
  The command that runs, and where. Its directory is a directory; it is the canonical form of the parameter
  when one is given. Without the parameter a directory is chosen only for a plain absolute \<open>cd\<close>
  path, it lies in the directory of the server, and the command is then what follows the prefix. In every
  other case the command is the one given, but for the flag of a pull.
\<close>

theorem working_directory_spec:
  assumes "validate_working_dir_phase w params = Inr (command, wd)"
  shows "(\<forall>dir. wd = Some dir \<longrightarrow> os_is_dir w dir) \<and>
    (\<exists>rest. command = maybe_inject_no_stat rest \<and>
      (rest = ex_command params \<or> (\<exists>cd_path dir. strip_cd_prefix (ex_command params) = (rest, Some cd_path) \<and> wd = Some dir \<and>
          (\<exists>cwd. os_cwd w = Some cwd \<and> os_canonicalize w (path_join cwd (parse_path cd_path)) = Inr dir)))) \<and>
    (case ex_working_dir params of
       Some d \<Rightarrow> \<exists>dir. wd = Some dir \<and> os_canonicalize w (parse_path d) = Inr dir
     | None \<Rightarrow> wd = None \<or> (\<exists>dir root cwd. wd = Some dir \<and> os_cwd w = Some cwd \<and> os_canonicalize w cwd = Inr root \<and>
         path_starts_with dir root \<and> (\<exists>c cd_path. strip_cd_prefix (ex_command params) = (c, Some cd_path) \<and> is_plain_absolute cd_path)))"
proof -
  obtain wd0 rest where c: "canonical_working_dir w (ex_working_dir params) = Inr wd0"
      "resolve_cd_prefix w (ex_command params) wd0 = Inr (rest, wd)" "command = maybe_inject_no_stat rest"
    using assms by (cases "canonical_working_dir w (ex_working_dir params)"; force simp: validate_working_dir_phase_def map_sum_def split: sum.splits)
  have w0: "case ex_working_dir params of Some d \<Rightarrow> \<exists>dir. wd0 = Some dir \<and> os_canonicalize w (parse_path d) = Inr dir \<and> os_is_dir w dir
      | None \<Rightarrow> wd0 = None"
    using c(1) by (auto simp: canonical_working_dir_def split: option.splits sum.splits if_splits)
  obtain eff cdp where s: "strip_cd_prefix (ex_command params) = (eff, cdp)" by fastforce
  consider "rest = ex_command params" "wd = wd0"
    | cd dir where "cdp = Some cd" "rest = eff" "wd = Some dir" "validate_path w cd True = Inr dir"
        "wd0 = None \<and> is_plain_absolute cd \<and> os_is_dir w dir \<or> wd0 = Some dir"
    using c(2) s by (auto simp: resolve_cd_prefix_def split: option.splits sum.splits if_splits)
  then show ?thesis
  proof cases
    case 1
    then show ?thesis using w0 c(3) by (auto split: option.splits)
  next
    case (2 cd dir)
    then show ?thesis using w0 c(3) s existing_path_contained[OF 2(4)] by (auto split: option.splits)
  qed
qed

theorem working_directory_witness:
  "os_is_dir demo_os [RootDir, Normal ''w'', Normal ''d'']"
proof -
  have "validate_working_dir_phase demo_os \<lparr>ex_command = ''cd /w/d && make'', ex_working_dir = None, ex_stdin = None\<rparr> =
      Inr (''make'', Some [RootDir, Normal ''w'', Normal ''d''])"
    by code_simp
  from working_directory_spec[OF this] show ?thesis by blast
qed

text \<open>A first part that is a sequence is taken for one path, and the command is refused.\<close>

lemma cd_sequence_refused:
  assumes "os_canonicalize w (path_join cwd [RootDir, Normal ''tmp; ls'']) = Inl k" "os_cwd w = Some cwd"
  shows "\<exists>m. validate_working_dir_phase w \<lparr>ex_command = ''cd /tmp; ls && pwd'', ex_working_dir = None, ex_stdin = None\<rparr> =
    Inl (m, CdPathNotFound)"
proof -
  have "strip_cd_prefix ''cd /tmp; ls && pwd'' = (''pwd'', Some ''/tmp; ls'') \<and> is_plain_absolute ''/tmp; ls'' \<and>
      parse_path ''/tmp; ls'' = [RootDir, Normal ''tmp; ls'']"
    by code_simp
  then show ?thesis using assms
    by (auto simp: validate_working_dir_phase_def canonical_working_dir_def resolve_cd_prefix_def validate_path_def split: sum.splits)
qed

section \<open>Answers and metrics\<close>

lemma capped_applied:
  assumes "run_exec X rules command slot child s = (r, s')" "so_filter_capped (xr_output r)"
  shows "so_filter_applied (xr_output r) \<noteq> None"
proof -
  have "apply_filter_rules X rules command slot out il ip s0 = (out', il', ip', s1) \<Longrightarrow> \<not> so_filter_capped out \<Longrightarrow>
      so_filter_capped out' \<Longrightarrow> so_filter_applied out' \<noteq> None" for out il ip s0 out' il' ip' s1
    by (auto simp: apply_filter_rules_def Let_def split: option.splits prod.splits)
  then show ?thesis using assms
    by (fastforce simp: run_exec_def Let_def shell_output_new_def simp del: split_streams_fill split: spawned.splits prod.splits if_splits)
qed

text \<open>
  A refused command changes nothing, whatever the process would have done. The metric of an answer is that
  of its kind: an error exactly for an error answer, with its cause; otherwise the size of the text, the exit
  code the failure flag comes from, and the truncation the links and the metadata report.
\<close>

theorem exec_metric_agrees:
  assumes "exec_command w X rules seq spawn params s = (Ok (a, m), s')"
  shows "case a of
      ExecError e \<Rightarrow> xm_result m = ''error'' \<and>
        (xm_error_type m = Some ''timeout'' \<and> xm_timed_out m \<or>
         xm_error_type m = Some ''invalid_params'' \<and> s' = s \<and> (\<forall>spawn'. exec_command w X rules seq spawn' params s = (Ok (a, m), s)))
    | ExecDone failed txt links md \<Rightarrow> xm_result m = ''ok'' \<and> xm_error_type m = None \<and> \<not> xm_timed_out m \<and>
        xm_output_chars m = length txt \<and> (failed \<longleftrightarrow> (\<exists>c. xm_exit_code m = Some c \<and> c \<noteq> 0)) \<and>
        (md = None \<longrightarrow> xm_output_truncated m = Some False \<and> links = [] \<and> xm_filter_applied m = None) \<and>
        (xm_raw_bytes m \<noteq> None \<longrightarrow> xm_output_truncated m = Some True)"
proof (cases "validate_working_dir_phase w params")
  case (Inl e)
  then show ?thesis using assms by (cases e) (auto simp: exec_command_def invalid_params_metric_def base_metric_def)
next
  case (Inr c)
  obtain command wd where c: "c = (command, wd)" by fastforce
  show ?thesis
  proof (cases "validate_pre_spawn_phase params command")
    case (Ok u)
    obtain r s1 where r: "run_exec X rules command seq (spawn command wd (ex_stdin params)) s = (r, s1)" by fastforce
    show ?thesis
    proof (cases "so_timed_out (xr_output r)")
      case True
      then show ?thesis using assms Inr Ok c r by (auto simp: exec_command_def base_metric_def)
    next
      case False
      then have am: "(a, m) = answer_of seq params r" using assms Inr Ok c r by (simp add: exec_command_def)
      show ?thesis using False am
        by (auto simp: answer_of_def Let_def base_metric_def metadata_needed_def resource_links_def split: option.splits
            dest!: capped_applied[OF r])
    qed
  next
    case (Err e)
    then show ?thesis using assms Inr c by (cases e) (auto simp: exec_command_def invalid_params_metric_def base_metric_def)
  next
    case Panic
    then show ?thesis using assms Inr c by (simp add: exec_command_def)
  qed
qed

theorem exec_metric_witness:
  "\<exists>a m. exec_command demo_os demo_exec [] 3 (\<lambda>_ _ _. Ran (Exited (Some 0)) Drained demo_items)
       \<lparr>ex_command = ''ls'', ex_working_dir = None, ex_stdin = None\<rparr> demo_exec_state = (Ok (a, m), demo_exec_state) \<and>
     xm_result m = ''ok'' \<and> xm_exit_code m = Some 0"
proof -
  let ?p = "\<lparr>ex_command = ''ls'', ex_working_dir = None, ex_stdin = None\<rparr>"
  have "validate_working_dir_phase demo_os ?p = Inr (''ls'', None)" "validate_pre_spawn_phase ?p ''ls'' = Ok ()" by code_simp+
  then obtain a m where am: "exec_command demo_os demo_exec [] 3 (\<lambda>_ _ _. Ran (Exited (Some 0)) Drained demo_items) ?p demo_exec_state =
      (Ok (a, m), demo_exec_state)" "\<exists>f t l md. a = ExecDone f t l md" "xm_exit_code m = Some 0"
    by (auto simp: exec_command_def demo_run[simplified] shell_output_new_def answer_of_def Let_def base_metric_def)
  then show ?thesis using exec_metric_agrees[OF am(1)] by auto
qed

end
