(* ===== verification/GraphStore.thy ===== *)
theory GraphStore
  imports DiskCache Structural "HOL-Library.Option_ord"
begin

text \<open>
  The disk store of structural graphs, \<open>crates/aptu-coder-core/src/graph/store.rs\<close>: entries under a
  directory per first two characters of the key, a version header before the \<open>postcard\<close> encoding, and the
  removal of the oldest entries over the size limit. \<open>postcard\<close> is the parameter \<open>K\<close>; the \<open>wasm32\<close> stubs
  are left out.
\<close>

definition FORMAT_VERSION :: "32 word" where "FORMAT_VERSION = 2"

definition DEFAULT_MAX_DISK_CACHE_BYTES :: nat where "DEFAULT_MAX_DISK_CACHE_BYTES = 512 * 1024 * 1024"

text \<open>\<open>u32::to_le_bytes\<close> and \<open>u32::from_le_bytes\<close>.\<close>

definition u32_to_le_bytes :: "32 word \<Rightarrow> string" where
  "u32_to_le_bytes w = map (\<lambda>i. char_of (unat w div 256 ^ i)) [0..<4]"

definition u32_from_le_bytes :: "string \<Rightarrow> 32 word" where
  "u32_from_le_bytes b = of_nat (sum_list (map (\<lambda>i. byte (b ! i) * 256 ^ i) [0..<4]))"

record graph_store =
  gs_base_dir :: path
  gs_max_bytes :: nat

text \<open>\<open>postcard\<close> writes the graph without its symbol index, which is marked \<open>serde(skip)\<close>.\<close>

record graph_codec =
  gk_to_vec :: "digraph \<Rightarrow> string option"
  gk_from_bytes :: "string \<Rightarrow> digraph option"

definition graph_store_with_max_bytes :: "path \<Rightarrow> nat \<Rightarrow> disk \<Rightarrow> graph_store \<times> disk" where
  "graph_store_with_max_bytes base_dir max_bytes d =
     (\<lparr>gs_base_dir = base_dir, gs_max_bytes = max_bytes\<rparr>, snd (disk_create_dir_all base_dir d))"

definition graph_store_new :: "path \<Rightarrow> disk \<Rightarrow> graph_store \<times> disk" where
  "graph_store_new base_dir = graph_store_with_max_bytes base_dir DEFAULT_MAX_DISK_CACHE_BYTES"

text \<open>
  The key of a directory: the hash \<open>blake3\<close> over the root and, in the order of the paths, each path and
  the 32 bytes of its hash.
\<close>

definition graph_cache_key :: "(string \<Rightarrow> string) \<Rightarrow> (path \<Rightarrow> string) \<Rightarrow> path \<Rightarrow> (path \<times> string) list \<Rightarrow> string" where
  "graph_cache_key blake3_hex path_str root file_hashes =
     (let sorted = sort_key fst file_hashes in
      blake3_hex (path_str root @ concat (map (\<lambda>(p, h). path_str p @ h) sorted)))"

text \<open>\<open>None\<close> is the panic of \<open>&key[..2]\<close>.\<close>

definition graph_entry_path :: "graph_store \<Rightarrow> string \<Rightarrow> path option" where
  "graph_entry_path st key =
     map_option (\<lambda>shard. path_join (path_join (gs_base_dir st) (parse_path shard)) (parse_path (key @ ''.bin'')))
       (str_slice key 0 2)"

text \<open>The modification time set by a lookup, when the file opens for writing and the time can be set.\<close>

definition touch_mtime :: "path \<Rightarrow> disk \<Rightarrow> disk" where
  "touch_mtime p d =
     (if d_fails d DkOpen p \<or> d_fails d DkSetModified p then d
      else d\<lparr>d_files := map (\<lambda>(q, b, t). (q, b, if q = p then Some (d_clock d) else t)) (d_files d)\<rparr>)"

definition decode_graph :: "graph_codec \<Rightarrow> string \<Rightarrow> structural_graph option" where
  "decode_graph K bytes =
     (if length bytes < 4 then None
      else if u32_from_le_bytes (take 4 bytes) \<noteq> FORMAT_VERSION then None
      else map_option (\<lambda>g. rebuild_symbol_index \<lparr>sg_graph = g, sg_index = []\<rparr>) (gk_from_bytes K (drop 4 bytes)))"

text \<open>The outer \<open>None\<close> is a panic.\<close>

definition graph_get :: "graph_codec \<Rightarrow> graph_store \<Rightarrow> string \<Rightarrow> disk \<Rightarrow> (structural_graph option \<times> disk) option" where
  "graph_get K st key d =
     (case graph_entry_path st key of
        None \<Rightarrow> None
      | Some p \<Rightarrow>
          (case path_parent p of
             None \<Rightarrow> Some (None, d)
           | Some dir \<Rightarrow>
               let (locked, d1) = lock_shard_shared dir d in
               if \<not> locked then Some (None, d1)
               else (case Option.bind (disk_read p d1) (decode_graph K) of
                   None \<Rightarrow> Some (None, d1)
                 | Some graph \<Rightarrow> Some (Some graph, touch_mtime p d1))))"

section \<open>Eviction\<close>

text \<open>
  The \<open>.bin\<close> files of the shard directories with their size and modification time, in the order of the
  listing. A directory the system refuses to list contributes nothing, nor does a file without metadata.
\<close>

definition shard_files :: "path \<Rightarrow> disk \<Rightarrow> (path \<times> nat \<times> system_time option) list" where
  "shard_files shard d =
     (if d_fails d DkReadDir shard then []
      else List.map_filter (\<lambda>(p, b, t).
             if path_parent p = Some shard \<and> path_extension p = Some ''bin'' \<and> \<not> d_fails d DkMetadata p
             then Some (p, length b, t) else None) (d_files d))"

definition store_files :: "path \<Rightarrow> disk \<Rightarrow> (path \<times> nat \<times> system_time option) list" where
  "store_files base_dir d =
     concat (map (\<lambda>s. shard_files s d) (filter (\<lambda>s. path_parent s = Some base_dir) (d_dirs d)))"

definition disk_remove_file :: "path \<Rightarrow> disk \<Rightarrow> bool \<times> disk" where
  "disk_remove_file p d =
     (if d_fails d DkRemove p \<or> file_bytes d p = None then (False, d)
      else (True, d\<lparr>d_files := aremove p (d_files d)\<rparr>))"

text \<open>One entry: its shard is locked before it is removed; the removed size is subtracted.\<close>

definition evict_entry :: "path \<Rightarrow> path \<Rightarrow> nat \<Rightarrow> nat \<times> disk \<Rightarrow> nat \<times> disk" where
  "evict_entry base_dir p len st =
     (let (current_size, d) = st;
          shard_dir = (case path_parent p of None \<Rightarrow> base_dir | Some q \<Rightarrow> q);
          (locked, d1) = lock_shard_exclusive shard_dir d in
      if \<not> locked then (current_size, d1)
      else let (removed, d2) = disk_remove_file p d1 in
        (if removed then current_size - len else current_size, d2))"

fun evict_loop :: "path \<Rightarrow> nat \<Rightarrow> (path \<times> nat \<times> system_time option) list \<Rightarrow> nat \<times> disk \<Rightarrow> nat \<times> disk" where
  "evict_loop base_dir max_bytes [] st = st"
| "evict_loop base_dir max_bytes ((p, len, _) # es) st =
     (if fst st \<le> max_bytes then st else evict_loop base_dir max_bytes es (evict_entry base_dir p len st))"

definition total_size :: "(path \<times> nat \<times> system_time option) list \<Rightarrow> nat" where
  "total_size es = sum_list (map (fst \<circ> snd) es)"

text \<open>Files without a modification time count as the oldest.\<close>

definition oldest_first :: "(path \<times> nat \<times> system_time option) list \<Rightarrow> (path \<times> nat \<times> system_time option) list" where
  "oldest_first = sort_key (snd \<circ> snd)"

definition evict_lru_if_over_budget :: "path \<Rightarrow> nat \<Rightarrow> disk \<Rightarrow> disk" where
  "evict_lru_if_over_budget base_dir max_bytes d =
     (if d_fails d DkReadDir base_dir \<or> base_dir \<notin> set (d_dirs d) then d
      else let entries = store_files base_dir d; total = total_size entries in
        if total \<le> max_bytes then d
        else snd (evict_loop base_dir max_bytes (oldest_first entries) (total, d)))"

definition graph_put :: "graph_codec \<Rightarrow> graph_store \<Rightarrow> string \<Rightarrow> structural_graph \<Rightarrow> disk \<Rightarrow> disk option" where
  "graph_put K st key graph d =
     (case gk_to_vec K (sg_graph graph) of
        None \<Rightarrow> Some d
      | Some payload \<Rightarrow>
          let bytes = u32_to_le_bytes FORMAT_VERSION @ payload in
          (case graph_entry_path st key of
             None \<Rightarrow> None
           | Some p \<Rightarrow>
               (case path_parent p of
                  None \<Rightarrow> Some d
                | Some dir \<Rightarrow>
                    let (made, d1) = disk_create_dir_all dir d in
                    if \<not> made then Some d1
                    else let (written, d2) = write_entry_atomically dir p bytes d1 in
                      if \<not> written then Some d2
                      else Some (evict_lru_if_over_budget (gs_base_dir st) (gs_max_bytes st) d2))))"

end
