(* ===== verification/Resources.thy ===== *)
theory Resources
  imports GraphStore Pagination ExecRuntime
begin

text \<open>
  Resources read by URI, \<open>crates/aptu-coder/src/tools/resources.rs\<close>: parsing of the graph and overflow
  URIs, queries of a stored graph in pages, captures of overflowed output. Base64, percent
  encoding and JSON come from crates and are the parameter \<open>E\<close>.
\<close>

section \<open>URIs\<close>

definition PAGE_SIZE :: nat where "PAGE_SIZE = 50"
definition MAX_GRAPH_DEPTH :: nat where "MAX_GRAPH_DEPTH = 5"
definition DEFAULT_MAX_NODES :: nat where "DEFAULT_MAX_NODES = 50"

datatype output_format = JsonFormat | TextFormat

datatype graph_query =
    BlastRadius (gq_repo_hash: string) (gq_symbol: string) (gq_depth: nat) (gq_cursor_offset: nat)
  | Subgraph (gq_repo_hash: string) (gq_symbol: string) (gq_cursor_offset: nat)
  | BidirectionalBlastRadius (gq_repo_hash: string) (gq_symbols: "string list") (gq_max_nodes: nat) (gq_depth: nat)
      (gq_cursor_offset: nat)

text \<open>
  The bytes a percent-encoded text stands for, URL-safe base64 without padding, and the unsigned
  number under the key \<open>g\<close> of a JSON object.
\<close>

record uri_codec =
  uc_percent :: "string \<Rightarrow> string"
  uc_b64_encode :: "string \<Rightarrow> string"
  uc_b64_decode :: "string \<Rightarrow> string option"
  uc_json_g :: "string \<Rightarrow> nat option"

text \<open>An error without data.\<close>

definition plain_error :: "error_code \<Rightarrow> string \<Rightarrow> error_data" where
  "plain_error c m = error_new c m [] False []"

definition encode_graph_cursor :: "uri_codec \<Rightarrow> nat \<Rightarrow> string" where
  "encode_graph_cursor U offset = uc_b64_encode U (''{'' @ [CHR 0x22] @ ''g'' @ [CHR 0x22] @ '':'' @ nat_str offset @ ''}'')"

definition decode_graph_cursor :: "uri_codec \<Rightarrow> string \<Rightarrow> nat option" where
  "decode_graph_cursor U s =
     Option.bind (uc_b64_decode U s) (\<lambda>decoded. if utf8_valid decoded then uc_json_g U decoded else None)"

definition percent_decode_uri_component :: "uri_codec \<Rightarrow> string \<Rightarrow> error_data + string" where
  "percent_decode_uri_component U s =
     (let decoded = uc_percent U s in
      if utf8_valid decoded then Inr decoded
      else Inl (plain_error INVALID_PARAMS (''invalid percent-encoding in URI: '' @ s)))"

datatype overflow_stream = Stdout | Stderr | Interleaved

fun stream_file_name :: "overflow_stream \<Rightarrow> string" where
  "stream_file_name Stdout = ''stdout''"
| "stream_file_name Stderr = ''stderr''"
| "stream_file_name Interleaved = ''interleaved''"

definition segment_is_safe :: "string \<Rightarrow> bool" where
  "segment_is_safe s \<longleftrightarrow> s \<noteq> [] \<and> CHR ''/'' \<notin> set s \<and> CHR 0x5C \<notin> set s \<and> \<not> str_contains s ''..''"

definition percent_utf8 :: "uri_codec \<Rightarrow> string \<Rightarrow> string option" where
  "percent_utf8 U s = (if utf8_valid (uc_percent U s) then Some (uc_percent U s) else None)"

definition stream_of_name :: "string \<Rightarrow> overflow_stream option" where
  "stream_of_name s =
     (if s = ''stdout'' then Some Stdout else if s = ''stderr'' then Some Stderr
      else if s = ''interleaved'' then Some Interleaved else None)"

definition OVERFLOW_SCHEME :: string where "OVERFLOW_SCHEME = ''aptu-overflow://''"
definition GRAPH_SCHEME :: string where "GRAPH_SCHEME = ''aptu-coder://''"

definition parse_overflow_uri :: "uri_codec \<Rightarrow> string \<Rightarrow> (nat \<times> overflow_stream) option" where
  "parse_overflow_uri U uri =
     Option.bind (str_strip_prefix OVERFLOW_SCHEME uri) (\<lambda>rest.
     Option.bind (split_once_char (CHR ''/'') rest) (\<lambda>(slot_part, stream_part).
       if CHR ''/'' \<in> set stream_part then None else
       Option.bind (str_strip_prefix ''slot-'' slot_part) (\<lambda>slot_part.
       Option.bind (percent_utf8 U slot_part) (\<lambda>slot_decoded.
         if \<not> segment_is_safe slot_decoded \<or> \<not> list_all is_digit slot_decoded then None else
         Option.bind (parse_nat (2 ^ 32) slot_decoded) (\<lambda>slot.
         Option.bind (percent_utf8 U stream_part) (\<lambda>stream_decoded.
           if \<not> segment_is_safe stream_decoded then None
           else map_option (Pair slot) (stream_of_name stream_decoded)))))))"

definition graph_kind :: "string list \<Rightarrow> string" where
  "graph_kind parts =
     (if parts = [] \<or> hd parts \<noteq> ''graph'' then ''unknown''
      else case drop 2 parts of
          [] \<Rightarrow> ''unknown''
        | q # _ \<Rightarrow> if q = ''blast-radius'' then ''graph_blast_radius'' else if q = ''subgraph'' then ''graph_subgraph''
            else if q = ''blast-radius-bidirectional'' then ''graph_bidirectional'' else ''unknown'')"

definition classify_uri_kind :: "uri_codec \<Rightarrow> string \<Rightarrow> string" where
  "classify_uri_kind U uri =
     (if prefix OVERFLOW_SCHEME uri
      then (case parse_overflow_uri U uri of
              None \<Rightarrow> ''unknown''
            | Some (_, s) \<Rightarrow> ''overflow_'' @ stream_file_name s)
      else graph_kind (split_on (CHR ''/'')
             (case str_strip_prefix GRAPH_SCHEME uri of None \<Rightarrow> [] | Some v \<Rightarrow> takeWhile (\<lambda>c. c \<noteq> CHR ''?'') v)))"

section \<open>Graph queries\<close>

record graph_params =
  gp_cursor_offset :: nat
  gp_depth :: nat
  gp_max_nodes :: nat
  gp_format :: output_format

definition default_params :: graph_params where
  "default_params = \<lparr>gp_cursor_offset = 0, gp_depth = 3, gp_max_nodes = DEFAULT_MAX_NODES, gp_format = JsonFormat\<rparr>"

definition number_param :: "uri_codec \<Rightarrow> string \<Rightarrow> string \<Rightarrow> error_data + nat" where
  "number_param U name v =
     (case percent_decode_uri_component U v of
        Inl e \<Rightarrow> Inl e
      | Inr d \<Rightarrow> (case parse_nat (2 ^ 64) d of
            None \<Rightarrow> Inl (plain_error INVALID_PARAMS (''invalid '' @ name @ '' parameter: '' @ d))
          | Some n \<Rightarrow> Inr n))"

text \<open>One \<open>key=value\<close> of the query string; unknown keys are ignored.\<close>

definition parse_kv :: "uri_codec \<Rightarrow> string \<Rightarrow> graph_params \<Rightarrow> error_data + graph_params" where
  "parse_kv U kv p =
     (case str_strip_prefix ''cursor='' kv of
        Some token \<Rightarrow>
          (case percent_decode_uri_component U token of
             Inl e \<Rightarrow> Inl e
           | Inr token \<Rightarrow> (case decode_graph_cursor U token of
               None \<Rightarrow> Inl (plain_error INVALID_PARAMS (''invalid graph cursor token: '' @ token))
             | Some off \<Rightarrow> Inr (p\<lparr>gp_cursor_offset := off\<rparr>)))
      | None \<Rightarrow>
     (case str_strip_prefix ''depth='' kv of
        Some d \<Rightarrow> map_sum id (\<lambda>n. p\<lparr>gp_depth := n\<rparr>) (number_param U ''depth'' d)
      | None \<Rightarrow>
     (case str_strip_prefix ''max_nodes='' kv of
        Some m \<Rightarrow> map_sum id (\<lambda>n. p\<lparr>gp_max_nodes := n\<rparr>) (number_param U ''max_nodes'' m)
      | None \<Rightarrow>
     (case str_strip_prefix ''format='' kv of
        Some fmt \<Rightarrow>
          (case percent_decode_uri_component U fmt of
             Inl e \<Rightarrow> Inl e
           | Inr fmt \<Rightarrow>
               if fmt = ''text'' then Inr (p\<lparr>gp_format := TextFormat\<rparr>)
               else if fmt = ''json'' then Inr (p\<lparr>gp_format := JsonFormat\<rparr>)
               else Inl (plain_error INVALID_PARAMS (''invalid format parameter: expected text or json, got '' @ fmt)))
      | None \<Rightarrow> Inr p))))"

fun parse_kvs :: "uri_codec \<Rightarrow> string list \<Rightarrow> graph_params \<Rightarrow> error_data + graph_params" where
  "parse_kvs U [] p = Inr p"
| "parse_kvs U (kv # kvs) p = (case parse_kv U kv p of Inl e \<Rightarrow> Inl e | Inr p \<Rightarrow> parse_kvs U kvs p)"

definition depth_error :: "nat \<Rightarrow> error_data" where
  "depth_error depth = plain_error INVALID_PARAMS
     (''depth parameter exceeds maximum ('' @ nat_str MAX_GRAPH_DEPTH @ ''): got '' @ nat_str depth)"

definition make_query :: "string \<Rightarrow> string \<Rightarrow> string \<Rightarrow> graph_params \<Rightarrow> error_data + graph_query" where
  "make_query repo_hash query_type arg p =
     (if query_type = ''blast-radius'' then
        if MAX_GRAPH_DEPTH < gp_depth p then Inl (depth_error (gp_depth p))
        else Inr (BlastRadius repo_hash arg (gp_depth p) (gp_cursor_offset p))
      else if query_type = ''subgraph'' then Inr (Subgraph repo_hash arg (gp_cursor_offset p))
      else if query_type = ''blast-radius-bidirectional'' then
        let symbols = filter (\<lambda>s. s \<noteq> []) (map trim (split_on (CHR '','') arg)) in
        if symbols = [] then
          Inl (plain_error INVALID_PARAMS ''blast-radius-bidirectional requires at least one non-empty symbol name'')
        else if gp_depth p < 1 then Inl (plain_error INVALID_PARAMS ''depth parameter must be at least 1'')
        else if MAX_GRAPH_DEPTH < gp_depth p then Inl (depth_error (gp_depth p))
        else if gp_max_nodes p < 1 then Inl (plain_error INVALID_PARAMS ''max_nodes parameter must be at least 1'')
        else Inr (BidirectionalBlastRadius repo_hash symbols (gp_max_nodes p) (gp_depth p) (gp_cursor_offset p))
      else Inl (plain_error INVALID_PARAMS (''unknown query type '' @ quoted query_type @
          '': expected blast-radius, subgraph, or blast-radius-bidirectional'')))"

definition parse_graph_uri :: "uri_codec \<Rightarrow> string \<Rightarrow> error_data + (graph_query \<times> output_format)" where
  "parse_graph_uri U uri =
     (case str_strip_prefix GRAPH_SCHEME uri of
        None \<Rightarrow> Inl (plain_error INVALID_PARAMS (''invalid URI scheme: expected aptu-coder://, got '' @ uri))
      | Some rest \<Rightarrow>
          let (path_part, kvs) = (case split_once_char (CHR ''?'') rest of
                 None \<Rightarrow> (rest, [])
               | Some (path_part, qs) \<Rightarrow> (path_part, split_on (CHR ''&'') qs)) in
          (case parse_kvs U kvs default_params of
             Inl e \<Rightarrow> Inl e
           | Inr p \<Rightarrow>
               let segments = split_on (CHR ''/'') path_part in
               if length segments < 4 \<or> segments ! 0 \<noteq> ''graph'' then
                 Inl (plain_error INVALID_PARAMS
                   (''invalid URI path: expected graph/{repo_hash}/{query_type}/{arg}, got '' @ uri))
               else (case percent_decode_uri_component U (join ''/'' (drop 3 segments)) of
                   Inl e \<Rightarrow> Inl e
                 | Inr arg \<Rightarrow> map_sum id (\<lambda>q. (q, gp_format p)) (make_query (segments ! 1) (segments ! 2) arg p))))"

section \<open>Answers\<close>

text \<open>
  \<open>re_node_json\<close> and \<open>re_edge_json\<close> are \<open>serde_json::to_value\<close>; \<open>re_to_string\<close> renders the payload, with
  the message of a failure. \<open>re_order\<close> and \<open>re_iter\<close> are the orders of petgraph and of hash sets.
\<close>

record 'j graph_payload =
  gl_nodes :: "'j list"
  gl_edges :: "(nat \<times> nat \<times> 'j) list"
  gl_next_cursor :: "string option"
  gl_total :: nat

record 'j resource_env =
  re_uri :: uri_codec
  re_node_json :: "node \<Rightarrow> 'j option"
  re_edge_json :: "edge \<Rightarrow> 'j option"
  re_to_string :: "'j graph_payload \<Rightarrow> string + string"
  re_order :: "dedge list \<Rightarrow> dedge list"
  re_iter :: "nat set \<Rightarrow> nat list"
  re_temp_dir :: path
  re_graphs :: graph_codec

definition graph_error_text :: "graph_error \<Rightarrow> string" where
  "graph_error_text e =
     (case e of
        SymbolNotFound s hint \<Rightarrow> ''Symbol not found: '' @ quoted s @ ''. '' @ hint
      | MultipleCandidates q cs \<Rightarrow> ''Multiple candidates matched '' @ quoted q @ '': '' @ format_candidates cs @
          ''. Use match_mode=exact to target one of the candidates listed above, or refine the symbol name.'')"

definition graph_symbol_error :: "graph_error \<Rightarrow> error_data" where
  "graph_symbol_error e = plain_error INVALID_PARAMS (graph_error_text e)"

text \<open>The traversal a query asks for.\<close>

definition run_query :: "'j resource_env \<Rightarrow> structural_graph \<Rightarrow> graph_query \<Rightarrow> error_data + (nat list \<times> dedge list)" where
  "run_query E g q =
     (case q of
        BlastRadius _ symbol depth _ \<Rightarrow> map_sum graph_symbol_error id (blast_radius_subgraph (re_order E) g symbol depth)
      | Subgraph _ symbol _ \<Rightarrow> map_sum graph_symbol_error id (blast_radius_subgraph (re_order E) g symbol 2)
      | BidirectionalBlastRadius _ symbols max_nodes depth _ \<Rightarrow>
          Inr (blast_radius_bidirectional (re_order E) g (find_symbols g symbols) max_nodes depth))"

text \<open>The nodes that serialize, and for each its position in the answer.\<close>

fun place_nodes :: "(nat \<Rightarrow> 'j option) \<Rightarrow> nat list \<Rightarrow> (nat \<times> nat) list \<times> 'j list \<Rightarrow> (nat \<times> nat) list \<times> 'j list" where
  "place_nodes js [] st = st"
| "place_nodes js (i # is) (pos, nodes) =
     (case js i of
        None \<Rightarrow> place_nodes js is (pos, nodes)
      | Some j \<Rightarrow> place_nodes js is (ainsert i (length nodes) pos, nodes @ [j]))"

definition place_edge :: "(nat \<times> nat) list \<Rightarrow> (edge \<Rightarrow> 'j option) \<Rightarrow> dedge \<Rightarrow> (nat \<times> nat \<times> 'j) option" where
  "place_edge pos js e =
     (case e of (s, t, w) \<Rightarrow>
        (case (alookup s pos, alookup t pos, js w) of
           (Some sp, Some tp, Some j) \<Rightarrow> Some (sp, tp, j)
         | _ \<Rightarrow> None))"

definition query_to_graph ::
    "'j resource_env \<Rightarrow> structural_graph \<Rightarrow> graph_query \<Rightarrow> error_data + ('j list \<times> (nat \<times> nat \<times> 'j) list)" where
  "query_to_graph E g q =
     (case run_query E g q of
        Inl e \<Rightarrow> Inl e
      | Inr (node_indices, edge_tuples) \<Rightarrow>
          let (pos, nodes) = place_nodes (\<lambda>i. re_node_json E (dg_nodes (sg_graph g) ! i)) node_indices ([], []) in
          Inr (nodes, List.map_filter (place_edge pos (re_edge_json E)) edge_tuples))"

definition graph_page :: "uri_codec \<Rightarrow> 'j list \<Rightarrow> (nat \<times> nat \<times> 'j) list \<Rightarrow> nat \<Rightarrow> 'j graph_payload" where
  "graph_page U all_nodes all_edges offset =
     (let page = take PAGE_SIZE (drop offset all_nodes); page_end = offset + length page in
      \<lparr>gl_nodes = page,
       gl_edges = map (\<lambda>(s, t, j). (s - offset, t - offset, j))
         (filter (\<lambda>(s, t, _). offset \<le> s \<and> s < page_end \<and> offset \<le> t \<and> t < page_end) all_edges),
       gl_next_cursor = (if page_end < length all_nodes then Some (encode_graph_cursor U page_end) else None),
       gl_total = length all_nodes\<rparr>)"

record resource_contents =
  rc_uri :: string
  rc_mime_type :: string
  rc_text :: string

definition read_overflow :: "'j resource_env \<Rightarrow> string \<Rightarrow> nat \<Rightarrow> overflow_stream \<Rightarrow> disk \<Rightarrow> error_data + resource_contents" where
  "read_overflow E uri slot stream d =
     (case disk_read (path_join (slot_base (re_temp_dir E) slot) (parse_path (stream_file_name stream))) d of
        Some text \<Rightarrow>
          if \<not> utf8_valid text then Inl (plain_error RESOURCE_NOT_FOUND (''overflow capture not found for slot '' @ nat_str slot @ '' ('' @
              stream_file_name stream @ ''); slot files are retained only until the slot is overwritten by a later run''))
          else if text = [] then Inl (plain_error RESOURCE_NOT_FOUND (''overflow capture for slot '' @ nat_str slot @ '' ('' @
              stream_file_name stream @ '') is empty''))
          else Inr \<lparr>rc_uri = uri, rc_mime_type = ''text/plain'', rc_text = text\<rparr>
      | None \<Rightarrow> Inl (plain_error RESOURCE_NOT_FOUND (''overflow capture not found for slot '' @ nat_str slot @ '' ('' @
              stream_file_name stream @ ''); slot files are retained only until the slot is overwritten by a later run'')))"

definition cold_cache :: error_data where
  "cold_cache = plain_error RESOURCE_NOT_FOUND
     ''graph not built yet -- call analyze_symbol on this directory first to build the graph cache''"

definition answer_query ::
    "'j resource_env \<Rightarrow> string \<Rightarrow> structural_graph \<Rightarrow> graph_query \<Rightarrow> output_format \<Rightarrow> error_data + resource_contents" where
  "answer_query E uri g q fmt =
     (if fmt = TextFormat then
        (case run_query E g q of
           Inl e \<Rightarrow> Inl e
         | Inr (node_indices, _) \<Rightarrow>
             Inr \<lparr>rc_uri = uri, rc_mime_type = ''text/plain'',
                  rc_text = render_subgraph_text (re_order E) (re_iter E) g node_indices\<rparr>)
      else
        (case query_to_graph E g q of
           Inl e \<Rightarrow> Inl e
         | Inr (nodes, edges) \<Rightarrow>
             (case re_to_string E (graph_page (re_uri E) nodes edges (gq_cursor_offset q)) of
                Inl m \<Rightarrow> Inl (plain_error INTERNAL_ERROR (''failed to serialize graph payload: '' @ m))
              | Inr text \<Rightarrow> Inr \<lparr>rc_uri = uri, rc_mime_type = ''application/json'', rc_text = text\<rparr>)))"

definition lift_sum :: "'e + 'a \<Rightarrow> ('e, 'a) outcome" where
  "lift_sum r = (case r of Inl e \<Rightarrow> Err e | Inr a \<Rightarrow> Ok a)"

definition read_resource ::
    "'j resource_env \<Rightarrow> graph_store \<Rightarrow> string \<Rightarrow> disk \<Rightarrow> (error_data, resource_contents) outcome \<times> disk" where
  "read_resource E st uri d =
     (case parse_overflow_uri (re_uri E) uri of
        Some (slot, stream) \<Rightarrow> (lift_sum (read_overflow E uri slot stream d), d)
      | None \<Rightarrow>
          (case parse_graph_uri (re_uri E) uri of
             Inl e \<Rightarrow> (Err e, d)
           | Inr (q, fmt) \<Rightarrow>
               (case graph_get (re_graphs E) st (gq_repo_hash q) d of
                  None \<Rightarrow> (Panic, d)
                | Some (None, d1) \<Rightarrow> (Err cold_cache, d1)
                | Some (Some g, d1) \<Rightarrow> (lift_sum (answer_query E uri g q fmt), d1))))"

section \<open>Listings\<close>

record resource_template =
  rt_uri :: string
  rt_name :: string
  rt_description :: string

definition resource_templates :: "resource_template list" where
  "resource_templates =
     [\<lparr>rt_uri = ''aptu-coder://graph/{repo_hash}/blast-radius/{symbol}?depth={depth}&format={format}'',
       rt_name = ''graph-blast-radius'',
       rt_description = ''BFS blast-radius traversal from a symbol (depth 1-5, default 3; format: text or json default json)''\<rparr>,
      \<lparr>rt_uri = ''aptu-coder://graph/{repo_hash}/subgraph/{symbol}?format={format}'',
       rt_name = ''graph-subgraph'',
       rt_description = ''Subgraph centered on a symbol (format: text or json default json)''\<rparr>,
      \<lparr>rt_uri = ''aptu-coder://graph/{repo_hash}/blast-radius-bidirectional/{symbols}?max_nodes={max_nodes}&depth={depth}&format={format}'',
       rt_name = ''graph-blast-radius-bidirectional'',
       rt_description = ''Bidirectional BFS from one or more comma-separated seed symbols (max_nodes: 1-'' @
         [CHR 0xE2, CHR 0x88, CHR 0x9E] @ '' default 50, depth: 1-5 default 3, format: text or json default json)''\<rparr>]"

definition cursor_to_offset :: "cursor_codec \<Rightarrow> string option \<Rightarrow> error_data + nat" where
  "cursor_to_offset C cursor =
     (case cursor of
        None \<Rightarrow> Inr 0
      | Some s \<Rightarrow> (case decode_cursor C s of
            Inl e \<Rightarrow> Inl (plain_error INVALID_PARAMS (pagination_error_display e))
          | Inr c \<Rightarrow> Inr (cd_offset c)))"

definition list_resource_templates ::
    "cursor_codec \<Rightarrow> string option \<Rightarrow> error_data + (resource_template list \<times> string option)" where
  "list_resource_templates C cursor =
     (case cursor_to_offset C cursor of
        Inl e \<Rightarrow> Inl e
      | Inr offset \<Rightarrow>
          (case paginate_slice C resource_templates offset DEFAULT_PAGE_SIZE PageDefault of
             Inl e \<Rightarrow> Inl (plain_error INTERNAL_ERROR (pagination_error_display e))
           | Inr r \<Rightarrow> Inr (pr_items r, pr_next_cursor r)))"

end
