(* ===== verification/GraphStoreProps.thy ===== *)
theory GraphStoreProps
  imports GraphStore DiskCacheProps StructuralProps "HOL-Library.Multiset"
begin

text \<open>
  Properties of the graph store: where an entry is, which keys make it panic, that a stored graph comes back
  with its symbol index, and which entries the size limit removes.
\<close>

section \<open>The header\<close>

lemma upt4: "[0..<4] = [0, 1, 2, 3::nat]"
  by (simp add: upt_rec)

lemma four_bytes:
  assumes "n < 2 ^ 32"
  shows "n mod 256 + n div 256 mod 256 * 256 + n div 65536 mod 256 * 65536 + n div 16777216 mod 256 * 16777216 = (n::nat)"
proof -
  define a b r where abr: "a = n mod 256" "b = n div 256 mod 256" "r = n div 65536 mod 256"
  define m q where mq: "m = n div 256" "q = n div 65536"
  have q: "q = m div 256" "n div 16777216 = q div 256" by (simp_all add: mq div_mult2_eq[symmetric])
  have "q div 256 < 256" using assms by (simp add: mq div_mult2_eq[symmetric] less_mult_imp_div_less)
  moreover have "n = 256 * m + a" unfolding abr mq by (rule mult_div_mod_eq[symmetric])
  moreover have "m = 256 * q + b" unfolding q(1) unfolding abr mq by (rule mult_div_mod_eq[symmetric])
  moreover have "q = 256 * (q div 256) + r" unfolding abr mq by (rule mult_div_mod_eq[symmetric])
  ultimately have "a + b * 256 + r * 65536 + (n div 16777216 mod 256) * 16777216 = n"
    unfolding q(2) by simp
  then show ?thesis by (simp only: abr)
qed

lemma u32_le_bytes: "u32_from_le_bytes (u32_to_le_bytes w) = w"
proof -
  have "sum_list (map (\<lambda>i. byte (u32_to_le_bytes w ! i) * 256 ^ i) [0..<4]) = unat w"
    using four_bytes[of "unat w"] unsigned_less[of w, where ?'a = nat] by (simp add: u32_to_le_bytes_def upt4)
  then show ?thesis by (simp only: u32_from_le_bytes_def) simp
qed

lemma length_header [simp]: "length (u32_to_le_bytes w) = 4"
  by (simp add: u32_to_le_bytes_def)

text \<open>What is wrong with an entry that is refused: fewer than four bytes, another version, or a body that does not decode.\<close>

lemma decode_graph_header:
  "decode_graph K (u32_to_le_bytes FORMAT_VERSION @ payload) =
   map_option (\<lambda>g. rebuild_symbol_index \<lparr>sg_graph = g, sg_index = []\<rparr>) (gk_from_bytes K payload)"
  by (simp add: decode_graph_def u32_le_bytes)

section \<open>The symbol index\<close>

lemma build_symbol_index_snoc:
  "build_symbol_index \<lparr>dg_nodes = ns @ [n], dg_edges = es\<rparr> =
   (case symbol_name n of None \<Rightarrow> build_symbol_index \<lparr>dg_nodes = ns, dg_edges = es'\<rparr>
    | Some s \<Rightarrow> apush s (length ns) (build_symbol_index \<lparr>dg_nodes = ns, dg_edges = es'\<rparr>))"
proof -
  have "fold (\<lambda>i ix. case symbol_name ((ns @ [n]) ! i) of None \<Rightarrow> ix | Some s \<Rightarrow> apush s i ix) [0..<length ns] [] =
        fold (\<lambda>i ix. case symbol_name (ns ! i) of None \<Rightarrow> ix | Some s \<Rightarrow> apush s i ix) [0..<length ns] []"
    by (rule fold_cong) (simp_all add: nth_append)
  then show ?thesis by (simp add: build_symbol_index_def node_count_def split: option.splits)
qed

lemma build_symbol_index_edges: "build_symbol_index (g\<lparr>dg_edges := es\<rparr>) = build_symbol_index g"
  by (simp add: build_symbol_index_def node_count_def)

definition index_ok :: "build_state \<Rightarrow> bool" where
  "index_ok b \<longleftrightarrow> b_index b = build_symbol_index (b_graph b)"

lemma index_ok_edge [simp]: "index_ok (add_edge_once p w b) = index_ok b"
  by (simp add: index_ok_def add_edge_once_def build_symbol_index_edges)

lemma index_ok_node: "index_ok b \<Longrightarrow> symbol_name n = None \<Longrightarrow> index_ok (add_node n b)"
  using build_symbol_index_snoc[of "dg_nodes (b_graph b)" n "dg_edges (b_graph b)" "dg_edges (b_graph b)"]
  by (cases "b_graph b") (simp add: index_ok_def add_node_def)

lemma index_ok_symbol:
  "index_ok b \<Longrightarrow> symbol_name n = Some s \<Longrightarrow> b_index (add_node n b) = b_index b \<and>
   build_symbol_index (b_graph (add_node n b)) = apush s (node_count (b_graph b)) (b_index b)"
  using build_symbol_index_snoc[of "dg_nodes (b_graph b)" n "dg_edges (b_graph b)" "dg_edges (b_graph b)"]
  by (cases "b_graph b") (simp add: index_ok_def add_node_def node_count_def)

lemma index_ok_fold: "(\<And>x b. index_ok b \<Longrightarrow> index_ok (f x b)) \<Longrightarrow> index_ok b \<Longrightarrow> index_ok (fold f xs b)"
  by (induction xs arbitrary: b) auto

lemma index_edge_fields [simp]:
  "b_index (add_edge_once p w b) = b_index b"
  "build_symbol_index (b_graph (add_edge_once p w b)) = build_symbol_index (b_graph b)"
  by (simp_all add: add_edge_once_def build_symbol_index_edges)

lemma index_ok_entry: "index_ok b \<Longrightarrow> index_ok (add_entry en b)"
proof -
  assume b: "index_ok b"
  have "index_ok b \<Longrightarrow> index_ok (add_function fp i f b)" for fp i f b
    using index_ok_symbol[of b "Symbol (fi_name f) FunctionKind fp (fi_line f)"]
    by (simp add: add_function_def Let_def index_ok_def)
  moreover have "index_ok b \<Longrightarrow> index_ok (add_class fp i c b)" for fp i c b
    using index_ok_symbol[of b "Symbol (ci_name c) ClassKind fp (ci_line c)"]
    by (simp add: add_class_def Let_def index_ok_def)
  moreover have "index_ok b \<Longrightarrow> index_ok (add_import i im b)" for i im b
    by (simp add: add_import_def index_ok_node)
  ultimately show ?thesis
    by (simp add: add_entry_def Let_def index_ok_fold index_ok_node b)
qed

lemma index_ok_call: "index_ok b \<Longrightarrow> index_ok (add_resolved_call a c f l n b)"
  by (simp add: add_resolved_call_def split: option.splits)

lemma index_ok_build_nodes: "index_ok (build_nodes entries)"
  unfolding build_nodes_def
  by (rule index_ok_fold) (simp_all add: index_ok_entry, simp add: index_ok_def build_symbol_index_def node_count_def)

text \<open>Both constructions give a graph whose index is the one rebuilt from its nodes.\<close>

lemma index_from_nodes:
  "rebuild_symbol_index (build_from_analysis entries) = build_from_analysis entries"
  "rebuild_symbol_index (from_call_graph path_str entries cg) = from_call_graph path_str entries cg"
proof -
  have 1: "index_ok (fold (\<lambda>en. fold (\<lambda>cl. add_resolved_call (ca_caller cl) (ca_callee cl) (fa_path en) (ca_line cl) (ca_arg_count cl))
      (sa_calls (fa_semantic en))) entries (build_nodes entries))"
    by (rule index_ok_fold) (auto intro: index_ok_fold index_ok_call index_ok_build_nodes)
  then show "rebuild_symbol_index (build_from_analysis entries) = build_from_analysis entries"
    by (simp add: build_from_analysis_def rebuild_symbol_index_def Let_def index_ok_def)
  have "index_ok (fold (\<lambda>(caller, es). fold (\<lambda>edge. add_resolved_call caller (ce_neighbor edge)
      (path_str (ce_path edge)) (ce_line edge) None) es) (cg_callees cg) (build_nodes entries))"
    by (rule index_ok_fold) (auto intro: index_ok_fold index_ok_call index_ok_build_nodes)
  then show "rebuild_symbol_index (from_call_graph path_str entries cg) = from_call_graph path_str entries cg"
    by (simp add: from_call_graph_def rebuild_symbol_index_def Let_def index_ok_def)
qed

section \<open>Paths and panics\<close>

lemma graph_entry_path_shape:
  assumes "is_hash_hex key"
  shows "graph_entry_path st key = Some (gs_base_dir st @ [Normal (take 2 key), Normal (key @ ''.bin'')])"
proof -
  have "plain_name key" using assms hash_hex_plain[of key 64] by (simp add: is_hash_hex_def)
  then have "plain_name (key @ ''.bin'')" by (rule plain_append) simp_all
  then show ?thesis
    using assms hash_hex_slice[of key] hash_hex_plain[of key 2]
    by (simp add: graph_entry_path_def parse_plain_name path_join_def is_absolute_def)
qed

lemma str_slice_2: "str_slice s 0 2 = None \<longleftrightarrow> length s < 2 \<or> (2 < length s \<and> is_cont (s ! 2))"
  by (auto simp: str_slice_def boundary_def)

text \<open>A key from elsewhere than \<open>blake3\<close> can be too short, or be cut inside a character.\<close>

lemma graph_get_panics:
  "graph_get K st key d = None \<longleftrightarrow> length key < 2 \<or> (2 < length key \<and> is_cont (key ! 2))"
  using str_slice_2[of key]
  by (auto simp: graph_get_def graph_entry_path_def Let_def split: option.splits prod.splits if_splits)

section \<open>Eviction\<close>

text \<open>A listing gives each path once, and no call fails.\<close>

definition wf_disk :: "disk \<Rightarrow> bool" where
  "wf_disk d \<longleftrightarrow> distinct (map fst (d_files d)) \<and> distinct (d_dirs d) \<and>
     (\<forall>s\<in>set (d_dirs d). lock_name s \<notin> set (d_dirs d)) \<and> (\<forall>p\<in>set (map fst (d_files d)). p \<notin> set (d_dirs d))"

definition never_fails :: "disk \<Rightarrow> bool" where
  "never_fails d \<longleftrightarrow> d_fails d = (\<lambda>_ _. False)"

lemma alookup_files:
  "distinct (map fst fs) \<Longrightarrow> alookup p fs = Some v \<longleftrightarrow> (p, v) \<in> set fs"
proof (induction fs)
  case (Cons e fs)
  obtain q w where e: "e = (q, w)" by (cases e)
  show ?case
  proof (cases "p = q")
    case True
    have "(p, v) \<notin> set fs" using Cons.prems e True by (auto simp: image_iff)
    then show ?thesis using e True by auto
  qed (use Cons e in auto)
qed simp

lemma store_files_member:
  "(p, len, t) \<in> set (store_files base d) \<Longrightarrow>
   \<exists>s b. s \<in> set (d_dirs d) \<and> path_parent s = Some base \<and> path_parent p = Some s \<and>
     path_extension p = Some ''bin'' \<and> (p, b, t) \<in> set (d_files d) \<and> len = length b"
  by (auto simp: store_files_def shard_files_def map_filter_def split: if_splits)

lemma map_filter_fst:
  "distinct (map fst xs) \<Longrightarrow> (\<And>x y. f x = Some y \<Longrightarrow> fst y = fst x) \<Longrightarrow> distinct (map fst (List.map_filter f xs))"
proof (induction xs)
  case (Cons x xs)
  have "y \<in> set (List.map_filter f xs) \<Longrightarrow> fst y \<in> fst ` set xs" for y
    using Cons.prems(2) by (force simp: map_filter_def)
  then show ?case using Cons by (cases "f x") (auto simp: map_filter_simps)
qed (simp add: map_filter_simps)

lemma shard_files_parent: "p \<in> fst ` set (shard_files s d) \<Longrightarrow> path_parent p = Some s"
  by (auto simp: shard_files_def map_filter_def split: if_splits)

lemma distinct_store_files:
  assumes "wf_disk d"
  shows "distinct (map fst (store_files base d))"
proof -
  have "distinct (map fst (shard_files s d))" for s
    unfolding shard_files_def using assms
    by (auto simp: wf_disk_def intro!: map_filter_fst split: if_splits)
  moreover have "fst ` set (shard_files s d) \<inter> fst ` set (shard_files s' d) = {}" if "s \<noteq> s'" for s s'
    using that shard_files_parent by (metis disjoint_iff option.inject)
  moreover have "distinct ss \<Longrightarrow> distinct (map fst (concat (map (\<lambda>s. shard_files s d) ss)))" for ss
  proof (induction ss)
    case (Cons s ss)
    have "fst ` set (shard_files s d) \<inter> (\<Union>s'\<in>set ss. fst ` set (shard_files s' d)) = {}"
    proof (rule equals0I)
      fix p assume "p \<in> fst ` set (shard_files s d) \<inter> (\<Union>s'\<in>set ss. fst ` set (shard_files s' d))"
      then obtain s' where "s' \<in> set ss" "p \<in> fst ` set (shard_files s d)" "p \<in> fst ` set (shard_files s' d)" by blast
      then show False using shard_files_parent[of p s] shard_files_parent[of p s'] Cons.prems by simp
    qed
    then show ?case using Cons calculation(1) by (simp add: image_UN)
  qed simp
  ultimately show ?thesis using assms by (simp add: store_files_def wf_disk_def)
qed

lemma lock_not_bin: "path_extension p = Some ''bin'' \<Longrightarrow> p \<noteq> lock_name s"
  by (auto simp: lock_name_def path_join_def is_absolute_def path_extension_def path_file_name_def name_extension_def)

lemma bin_not_lock: "path_extension (lock_name s) = None"
  by (simp add: lock_name_def path_join_def is_absolute_def path_extension_def path_file_name_def name_extension_def)

text \<open>Whatever fails, eviction changes no file but the \<open>.bin\<close> files it listed and the lock files.\<close>

lemma disk_remove_file_facts:
  "file_bytes (snd (disk_remove_file p d)) q = (if q = p \<and> fst (disk_remove_file p d) then None else file_bytes d q)"
  "d_dirs (snd (disk_remove_file p d)) = d_dirs d" "d_fails (snd (disk_remove_file p d)) = d_fails d"
  by (auto simp: disk_remove_file_def file_bytes_def)

lemma evict_entry_facts:
  assumes "evict_entry base p len (n, d) = (n', d')"
  shows "q \<noteq> p \<Longrightarrow> (\<And>s. q \<noteq> lock_name s) \<Longrightarrow> file_bytes d' q = file_bytes d q"
    "d_dirs d' = d_dirs d" "d_fails d' = d_fails d"
proof -
  obtain l d1 where l: "lock_exclusive (lock_name (case path_parent p of None \<Rightarrow> base | Some q \<Rightarrow> q)) d = (l, d1)" by fastforce
  note f = lock_exclusive_facts[OF l] disk_remove_file_facts[of p d1]
  have "d' = (if l then snd (disk_remove_file p d1) else d1)"
    using assms l by (auto simp: evict_entry_def lock_shard_exclusive_def split: prod.splits if_splits)
  then show "q \<noteq> p \<Longrightarrow> (\<And>s. q \<noteq> lock_name s) \<Longrightarrow> file_bytes d' q = file_bytes d q"
    "d_dirs d' = d_dirs d" "d_fails d' = d_fails d"
    using f by simp_all
qed

lemma evict_loop_facts:
  "evict_loop base m es (n, d) = (n', d') \<Longrightarrow> q \<notin> fst ` set es \<Longrightarrow> (\<And>s. q \<noteq> lock_name s) \<Longrightarrow>
   file_bytes d' q = file_bytes d q"
proof (induction es arbitrary: n d)
  case (Cons e es)
  obtain p len t where e: "e = (p, len, t)" by (cases e)
  obtain n1 d1 where s: "evict_entry base p len (n, d) = (n1, d1)" by fastforce
  show ?case
  proof (cases "n \<le> m")
    case False
    then have "evict_loop base m es (n1, d1) = (n', d')" using Cons.prems(1) e s by simp
    then show ?thesis using Cons.IH Cons.prems(2,3) evict_entry_facts(1)[OF s] e by auto
  qed (use Cons.prems e in simp)
qed simp

lemma evict_other_files:
  assumes "path_extension q \<noteq> Some ''bin''" "\<And>s. q \<noteq> lock_name s"
  shows "file_bytes (evict_lru_if_over_budget base m d) q = file_bytes d q"
proof -
  have "q \<notin> fst ` set (store_files base d)" using assms(1) store_files_member by fastforce
  then show ?thesis
    using evict_loop_facts[OF prod.collapse[symmetric], of q "oldest_first (store_files base d)"] assms(2)
    by (auto simp: evict_lru_if_over_budget_def oldest_first_def Let_def)
qed

text \<open>Without failures every entry reached is removed, and its size is what was subtracted.\<close>

definition evictable :: "disk \<Rightarrow> path \<times> nat \<times> system_time option \<Rightarrow> bool" where
  "evictable d e \<longleftrightarrow> (\<exists>s. path_parent (fst e) = Some s \<and> s \<in> set (d_dirs d) \<and> lock_name s \<notin> set (d_dirs d)) \<and>
     file_bytes d (fst e) \<noteq> None \<and> (\<forall>s. fst e \<noteq> lock_name s)"

lemma lock_parent: "path_parent (lock_name s) = Some s"
  by (simp add: lock_name_def path_join_def is_absolute_def path_parent_def)

lemma lock_exclusive_succeeds:
  "never_fails d \<Longrightarrow> s \<in> set (d_dirs d) \<Longrightarrow> lock_name s \<notin> set (d_dirs d) \<Longrightarrow> fst (lock_exclusive (lock_name s) d)"
  by (simp add: lock_exclusive_def open_lock_file_def never_fails_def lock_parent Let_def)

lemma evict_entry_removes:
  assumes "never_fails d" "evictable d (p, len, t)"
  obtains d' where "evict_entry base p len (n, d) = (n - len, d')" "never_fails d'" "d_dirs d' = d_dirs d"
    and "\<And>q. (\<And>s. q \<noteq> lock_name s) \<Longrightarrow> file_bytes d' q = (if q = p then None else file_bytes d q)"
proof -
  obtain s where s: "path_parent p = Some s" "s \<in> set (d_dirs d)" "lock_name s \<notin> set (d_dirs d)"
    using assms(2) by (auto simp: evictable_def)
  obtain d1 where l: "lock_exclusive (lock_name s) d = (True, d1)"
    using lock_exclusive_succeeds[OF assms(1) s(2,3)] by (metis prod.collapse)
  note f = lock_exclusive_facts[OF l]
  have "file_bytes d1 p \<noteq> None" "never_fails d1"
    using assms f(1)[of p] f(3) by (auto simp: evictable_def never_fails_def)
  then have r: "fst (disk_remove_file p d1)" by (simp add: disk_remove_file_def never_fails_def)
  show thesis
    by (rule that[of "snd (disk_remove_file p d1)"])
      (use s l r f disk_remove_file_facts[of p d1] assms(1) in
        \<open>auto simp: evict_entry_def lock_shard_exclusive_def never_fails_def split: prod.splits\<close>)
qed

text \<open>How many of the oldest entries go: as few as bring the rest under the limit.\<close>

fun evict_count :: "nat \<Rightarrow> (path \<times> nat \<times> system_time option) list \<Rightarrow> nat" where
  "evict_count m [] = 0"
| "evict_count m (e # es) = (if total_size (e # es) \<le> m then 0 else Suc (evict_count m es))"

lemma total_size_simps [simp]:
  "total_size [] = 0" "total_size (e # es) = fst (snd e) + total_size es"
  by (auto simp: total_size_def split: prod.split)

lemma evict_count_least:
  "evict_count m es \<le> length es \<and> total_size (drop (evict_count m es) es) \<le> m \<and>
   (\<forall>j<evict_count m es. m < total_size (drop j es))"
proof (induction es)
  case (Cons e es)
  then show ?case by (auto simp: less_Suc_eq_0_disj)
qed simp

lemma evict_loop_exact:
  assumes "never_fails d" "distinct (map fst es)" "\<forall>e\<in>set es. evictable d e" "\<And>s. q \<noteq> lock_name s"
  shows "file_bytes (snd (evict_loop base m es (total_size es, d))) q =
    (if q \<in> fst ` set (take (evict_count m es) es) then None else file_bytes d q)"
  using assms
proof (induction es arbitrary: d)
  case (Cons e es)
  obtain p len t where e: "e = (p, len, t)" by (cases e)
  show ?case
  proof (cases "total_size (e # es) \<le> m")
    case False
    have ev: "evictable d (p, len, t)" using Cons.prems(3) e by simp
    show ?thesis
    proof (rule evict_entry_removes[OF Cons.prems(1) ev, of base "total_size (e # es)"])
      fix d' assume d': "evict_entry base p len (total_size (e # es), d) = (total_size (e # es) - len, d')"
        "never_fails d'" "d_dirs d' = d_dirs d"
        "\<And>q. (\<And>s. q \<noteq> lock_name s) \<Longrightarrow> file_bytes d' q = (if q = p then None else file_bytes d q)"
      have "\<forall>x\<in>set es. evictable d' x"
        using Cons.prems(2,3) d'(3,4) e by (force simp: evictable_def image_iff)
      then have "file_bytes (snd (evict_loop base m es (total_size es, d'))) q =
          (if q \<in> fst ` set (take (evict_count m es) es) then None else file_bytes d' q)"
        using Cons.IH[OF d'(2)] Cons.prems(2,4) by simp
      then show ?thesis using False e d'(1) d'(4)[OF Cons.prems(4)] by auto
    qed
  qed (simp add: e)
qed simp

lemma evict_loop_fields:
  "d_dirs (snd (evict_loop base m es st)) = d_dirs (snd st) \<and> d_fails (snd (evict_loop base m es st)) = d_fails (snd st)"
proof (induction es arbitrary: st)
  case (Cons e es)
  obtain p len t where e: "e = (p, len, t)" by (cases e)
  show ?case
    using Cons.IH evict_entry_facts(2,3)[OF prod.collapse[symmetric], of base p len "fst st" "snd st"] e by simp
qed simp

lemma evict_fields [simp]:
  "d_dirs (evict_lru_if_over_budget base m d) = d_dirs d" "d_fails (evict_lru_if_over_budget base m d) = d_fails d"
  by (simp_all add: evict_lru_if_over_budget_def Let_def evict_loop_fields)

lemma set_oldest_first [simp]: "set (oldest_first es) = set es" "total_size (oldest_first es) = total_size es"
  "distinct (map fst (oldest_first es)) = distinct (map fst es)"
proof -
  have m: "mset (oldest_first es) = mset es" by (simp add: oldest_first_def)
  then show "set (oldest_first es) = set es" by (rule mset_eq_setD)
  have "mset (map f (oldest_first es)) = mset (map f es)" for f :: "_ \<Rightarrow> 'b"
    using m by (metis mset_map)
  then show "total_size (oldest_first es) = total_size es" "distinct (map fst (oldest_first es)) = distinct (map fst es)"
    unfolding total_size_def by (metis sum_mset_sum_list, metis mset_eq_imp_distinct_iff)
qed

lemma store_files_evictable:
  assumes "wf_disk d" "e \<in> set (store_files base d)"
  shows "evictable d e"
proof -
  obtain p len t where e: "e = (p, len, t)" by (cases e)
  obtain s b where s: "s \<in> set (d_dirs d)" "path_parent p = Some s" "path_extension p = Some ''bin''" "(p, b, t) \<in> set (d_files d)"
    using store_files_member assms(2) e by blast
  have "alookup p (d_files d) = Some (b, t)"
    using alookup_files[of "d_files d" p "(b, t)"] s(4) assms(1) by (simp add: wf_disk_def)
  then show ?thesis using s e assms(1) lock_not_bin[OF s(3)] by (auto simp: evictable_def wf_disk_def file_bytes_def)
qed

lemma evict_removes_oldest:
  assumes "wf_disk d" "never_fails d" "base \<in> set (d_dirs d)"
    and es: "es = oldest_first (store_files base d)"
  shows "\<exists>k\<le>length es. total_size (drop k es) \<le> m \<and> (\<forall>j<k. m < total_size (drop j es)) \<and>
    (\<forall>q. (\<forall>s. q \<noteq> lock_name s) \<longrightarrow> file_bytes (evict_lru_if_over_budget base m d) q =
      (if q \<in> fst ` set (take k es) then None else file_bytes d q))"
proof (intro exI[of _ "evict_count m es"] conjI allI impI)
  fix q assume q: "\<forall>s. q \<noteq> lock_name s"
  have "distinct (map fst es)" "\<forall>e\<in>set es. evictable d e"
    using assms(1) by (simp_all add: es distinct_store_files store_files_evictable)
  then have "file_bytes (snd (evict_loop base m es (total_size es, d))) q =
      (if q \<in> fst ` set (take (evict_count m es) es) then None else file_bytes d q)"
    by (rule evict_loop_exact[OF assms(2)]) (use q in blast)
  moreover have "total_size es \<le> m \<Longrightarrow> evict_count m es = 0" by (cases es) simp_all
  ultimately show "file_bytes (evict_lru_if_over_budget base m d) q =
      (if q \<in> fst ` set (take (evict_count m es) es) then None else file_bytes d q)"
    using assms(2,3) by (auto simp: evict_lru_if_over_budget_def never_fails_def es Let_def)
qed (use evict_count_least[of m es] in auto)

text \<open>
  C23. When no call fails, eviction removes the oldest entries, as few as leave the rest within the limit,
  and changes no other file.
\<close>

theorem evict_oldest_first:
  assumes "wf_disk d" "never_fails d" "base \<in> set (d_dirs d)"
    and es: "es = oldest_first (store_files base d)"
  shows "\<exists>k\<le>length es. total_size (drop k es) \<le> m \<and> (\<forall>j<k. m < total_size (drop j es)) \<and>
    (\<forall>q. (\<forall>s. q \<noteq> lock_name s) \<longrightarrow> file_bytes (evict_lru_if_over_budget base m d) q =
      (if q \<in> fst ` set (take k es) then None else file_bytes d q))"
  using evict_removes_oldest[OF assms] .

section \<open>What is stored comes back\<close>

lemma wf_set_file: "wf_disk d \<Longrightarrow> p \<notin> set (d_dirs d) \<Longrightarrow> wf_disk (set_file p b d)"
  by (auto simp: wf_disk_def set_file_def distinct_ainsert) (auto simp: ainsert_def aremove_def)

lemma set_file_members:
  "(q, b', t) \<in> set (d_files (set_file p b d)) \<Longrightarrow> (q = p \<and> b' = b \<and> t = Some (d_clock d)) \<or> (q \<noteq> p \<and> (q, b', t) \<in> set (d_files d))"
  by (auto simp: set_file_def ainsert_def aremove_def)

lemma newest_survives:
  assumes "sorted (map (snd \<circ> snd) es)" "distinct (map fst es)" "(p, len, t) \<in> set es"
    and newest: "\<And>q l u. (q, l, u) \<in> set es \<Longrightarrow> q \<noteq> p \<Longrightarrow> u < (t :: 'b::linorder)"
    and k: "\<forall>j<k. m < sum_list (map (fst \<circ> snd) (drop j es))" and "len \<le> (m::nat)"
  shows "p \<notin> fst ` set (take k es)"
proof
  assume mem: "p \<in> fst ` set (take k es)"
  obtain xs ys where xy: "es = xs @ (p, len, t) # ys" using assms(3) by (auto simp: in_set_conv_decomp)
  have "ys = []"
  proof (cases ys)
    case (Cons y ys')
    obtain q l u where y: "y = (q, l, u)" by (cases y)
    have "q \<noteq> p" using assms(2) xy Cons y by auto
    then have "u < t" using newest[of q l u] xy Cons y by simp
    moreover have "t \<le> u" using assms(1) xy Cons y by (simp add: sorted_append)
    ultimately show ?thesis by simp
  qed simp
  moreover have "p \<notin> fst ` set xs" using assms(2) xy by auto
  then have "length xs < k" using mem xy set_take_subset[of k xs] by (cases "k \<le> length xs") auto
  ultimately show False using k assms(6) xy by fastforce
qed

definition codec_lawful :: "graph_codec \<Rightarrow> bool" where
  "codec_lawful K \<longleftrightarrow> (\<forall>g b. gk_to_vec K g = Some b \<longrightarrow> gk_from_bytes K b = Some g)"

lemma wf_write_entry:
  assumes "wf_disk d" "never_fails d" "dir \<in> set (d_dirs d)" "p \<notin> set (d_dirs d)" "p \<noteq> lock_name dir"
  obtains d' where "write_entry_atomically dir p b d = (True, d')" "wf_disk d'" "d_dirs d' = d_dirs d"
    "d_fails d' = d_fails d" "file_bytes d' p = Some b" "(p, b, Some (d_clock d)) \<in> set (d_files d')"
    "\<And>q c t. (q, c, t) \<in> set (d_files d') \<Longrightarrow> q = p \<or> q = lock_name dir \<or> (q, c, t) \<in> set (d_files d)"
proof -
  have nl: "lock_name dir \<notin> set (d_dirs d)" using assms(1,3) by (simp add: wf_disk_def)
  obtain d1 where l: "lock_exclusive (lock_name dir) d = (True, d1)"
    using lock_exclusive_succeeds[OF assms(2,3) nl] by (metis prod.collapse)
  note f = lock_exclusive_facts[OF l]
  have wf: "wf_disk d1" using f(5) assms(1) wf_set_file[OF assms(1) nl] by auto
  have mem: "(q, c, t) \<in> set (d_files d1) \<Longrightarrow> q = lock_name dir \<or> (q, c, t) \<in> set (d_files d)" for q c t
    using f(5) set_file_members[of q c t "lock_name dir" "[]" d] by auto
  show thesis
  proof (rule that[of "set_file p b d1"])
    show "write_entry_atomically dir p b d = (True, set_file p b d1)"
      using l assms(2,4) f(2,3) by (simp add: write_entry_atomically_def lock_shard_exclusive_def never_fails_def)
    show "wf_disk (set_file p b d1)" using wf_set_file[OF wf] assms(4) f(2) by simp
    show "(p, b, Some (d_clock d)) \<in> set (d_files (set_file p b d1))" by (simp add: set_file_def ainsert_def f(4))
    show "\<And>q c t. (q, c, t) \<in> set (d_files (set_file p b d1)) \<Longrightarrow> q = p \<or> q = lock_name dir \<or> (q, c, t) \<in> set (d_files d)"
      using set_file_members mem by blast
  qed (simp_all add: f)
qed

lemma store_files_lists:
  assumes "(p, b, t) \<in> set (d_files d)" "path_parent p = Some s" "path_parent s = Some base" "s \<in> set (d_dirs d)"
    "path_extension p = Some ''bin''" "never_fails d"
  shows "(p, length b, t) \<in> set (store_files base d)"
proof -
  have "(p, length b, t) \<in> set (shard_files s d)"
    using assms by (force simp: shard_files_def map_filter_def never_fails_def)
  then show ?thesis using assms(3,4) by (auto simp: store_files_def)
qed

lemma bin_extension: "path_extension (b @ [Normal (key @ ''.bin'')]) = Some ''bin''" if "is_hash_hex key"
  using that by (auto simp: path_extension_def path_file_name_def name_extension_def is_hash_hex_def Let_def append_eq_Cons_conv)

text \<open>Eviction after the store leaves the entry just written, when it alone is within the limit.\<close>

lemma evict_keeps_newest:
  assumes "wf_disk d" "never_fails d" "base \<in> set (d_dirs d)" "\<And>s. p \<noteq> lock_name s"
    and p: "(p, len, Some c) \<in> set (store_files base d)" "len \<le> m"
    and newest: "\<And>q l u. (q, l, u) \<in> set (store_files base d) \<Longrightarrow> q \<noteq> p \<Longrightarrow> u < Some c"
  shows "file_bytes (evict_lru_if_over_budget base m d) p = file_bytes d p"
proof -
  let ?es = "oldest_first (store_files base d)"
  have 1: "sorted (map (snd \<circ> snd) ?es)" unfolding oldest_first_def by (rule sorted_sort_key)
  obtain k where k: "\<forall>j<k. m < total_size (drop j ?es)"
    "file_bytes (evict_lru_if_over_budget base m d) p = (if p \<in> fst ` set (take k ?es) then None else file_bytes d p)"
    using evict_removes_oldest[OF assms(1-3) refl, of m] assms(4) by blast
  have "p \<notin> fst ` set (take k ?es)"
    by (rule newest_survives[where t = "Some c" and len = len and m = m])
      (use 1 k(1) p newest in \<open>simp_all add: distinct_store_files assms(1) total_size_def\<close>)
  then show ?thesis using k(2) by simp
qed

lemma graph_put_get:
  assumes "codec_lawful K" "is_hash_hex key" "gk_to_vec K (sg_graph g) = Some payload"
    and dir: "dir = gs_base_dir st @ [Normal (take 2 key)]" "disk_create_dir_all dir d = (True, d1)"
    and d: "never_fails d" "wf_disk d1" "gs_base_dir st \<in> set (d_dirs d)" "dir @ [Normal (key @ ''.bin'')] \<notin> set (d_dirs d1)"
    and newest: "\<And>q b t. (q, b, t) \<in> set (d_files d) \<Longrightarrow> t < Some (d_clock d)"
    and small: "length payload + 4 \<le> gs_max_bytes st"
  shows "\<exists>d' d''. graph_put K st key g d = Some d' \<and> graph_get K st key d' = Some (Some (rebuild_symbol_index g), d'')"
proof -
  let ?p = "dir @ [Normal (key @ ''.bin'')]" and ?b = "u32_to_le_bytes FORMAT_VERSION @ payload"
  have p: "graph_entry_path st key = Some ?p" "path_parent ?p = Some dir" "path_parent dir = Some (gs_base_dir st)"
      "path_extension ?p = Some ''bin''"
    using graph_entry_path_shape[OF assms(2), of st] bin_extension[OF assms(2), of dir] dir(1)
    by (simp_all add: path_parent_def del: append_assoc)
  note m = disk_create_dir_all_facts[OF dir(2)]
  have pl: "?p \<noteq> lock_name s" for s using lock_not_bin[OF p(4)] .
  have base: "gs_base_dir st \<in> set (d_dirs d1)" using m(5) d(3) by blast
  have nf: "never_fails d1" using d(1) m(2) by (simp add: never_fails_def)
  show ?thesis
  proof (rule wf_write_entry[OF d(2) nf m(4)[OF TrueI] d(4) pl, of ?b])
    fix d2 assume d2: "write_entry_atomically dir ?p ?b d1 = (True, d2)" "wf_disk d2" "d_dirs d2 = d_dirs d1"
      "d_fails d2 = d_fails d1" "file_bytes d2 ?p = Some ?b" "(?p, ?b, Some (d_clock d1)) \<in> set (d_files d2)"
      "\<And>q c t. (q, c, t) \<in> set (d_files d2) \<Longrightarrow> q = ?p \<or> q = lock_name dir \<or> (q, c, t) \<in> set (d_files d1)"
    have nf2: "never_fails d2" using nf d2(4) by (simp add: never_fails_def)
    let ?d3 = "evict_lru_if_over_budget (gs_base_dir st) (gs_max_bytes st) d2"
    have put: "graph_put K st key g d = Some ?d3"
      using assms(3) p(1,2) dir(2) d2(1) by (simp add: graph_put_def Let_def)
    have "file_bytes ?d3 ?p = file_bytes d2 ?p"
    proof (rule evict_keeps_newest[OF d2(2) nf2 _ pl])
      show "(?p, length ?b, Some (d_clock d1)) \<in> set (store_files (gs_base_dir st) d2)"
        by (rule store_files_lists[OF d2(6) p(2,3) _ p(4) nf2]) (simp add: d2(3) m(4))
      fix q l u assume q: "(q, l, u) \<in> set (store_files (gs_base_dir st) d2)" "q \<noteq> ?p"
      then obtain c where "(q, c, u) \<in> set (d_files d2)" "path_extension q = Some ''bin''"
        using store_files_member[OF q(1)] by blast
      then have "(q, c, u) \<in> set (d_files d)" using d2(7) q(2) lock_not_bin m(1) by metis
      then show "u < Some (d_clock d1)" using newest m(3) by simp
    qed (use base d2(3) small in simp_all)
    then have b3: "file_bytes ?d3 ?p = Some ?b" using d2(5) by simp
    have "lock_name dir \<notin> set (d_dirs ?d3)" "dir \<in> set (d_dirs ?d3)" "never_fails ?d3"
      using d2(2,3) m(4) nf2 by (simp_all add: wf_disk_def never_fails_def)
    then have sh: "fst (lock_shared (lock_name dir) ?d3)"
      by (simp add: lock_shared_def open_lock_file_def never_fails_def lock_parent Let_def)
    obtain d4 where l: "lock_shared (lock_name dir) ?d3 = (True, d4)" using sh by (metis prod.collapse)
    have "disk_read ?p d4 = Some ?b"
      using lock_shared_facts(1)[OF l pl] lock_shared_facts(3)[OF l] b3 nf2 by (simp add: disk_read_def never_fails_def)
    moreover have "decode_graph K ?b = Some (rebuild_symbol_index g)"
      using assms(1,3) by (simp add: decode_graph_header codec_lawful_def rebuild_symbol_index_def)
    ultimately show ?thesis using put p(1,2) l by (simp add: graph_get_def lock_shard_shared_def)
  qed
qed


section \<open>Instances\<close>

text \<open>A store with two entries of three bytes, the second one newer, and a graph of one file.\<close>

definition demo_store :: graph_store where
  "demo_store = \<lparr>gs_base_dir = [RootDir, Normal ''g''], gs_max_bytes = 10\<rparr>"

definition demo_old :: path where "demo_old = [RootDir, Normal ''g'', Normal ''ab'', Normal ''abc.bin'']"
definition demo_new :: path where "demo_new = [RootDir, Normal ''g'', Normal ''ab'', Normal ''abd.bin'']"

definition demo_graph_disk :: disk where
  "demo_graph_disk = \<lparr>d_dirs = [[], [RootDir], [RootDir, Normal ''g''], [RootDir, Normal ''g'', Normal ''ab'']],
     d_files = [(demo_new, ''new'', Some 2), (demo_old, ''old'', Some 1)], d_fails = \<lambda>_ _. False, d_clock = 5\<rparr>"

definition demo_entries :: "file_analysis_output list" where
  "demo_entries = [\<lparr>fa_formatted = [], fa_path = ''a.rs'', fa_semantic =
     \<lparr>sa_functions = [], sa_classes = [], sa_imports = [], sa_references = [], sa_call_frequency = [], sa_calls = [],
      sa_impl_traits = [], sa_def_use_sites = []\<rparr>, fa_line_count = 0, fa_next_cursor = None, fa_unsupported = None\<rparr>]"

definition demo_graph_codec :: graph_codec where
  "demo_graph_codec = (let g = sg_graph (build_from_analysis demo_entries) in
     \<lparr>gk_to_vec = \<lambda>h. if h = g then Some ''x'' else None, gk_from_bytes = \<lambda>_. Some g\<rparr>)"

lemma demo_graph_codec_lawful:
  "codec_lawful demo_graph_codec" "gk_to_vec demo_graph_codec (sg_graph (build_from_analysis demo_entries)) = Some ''x''"
  by (simp_all add: codec_lawful_def demo_graph_codec_def Let_def)

lemma demo_graph_disk_wf: "wf_disk demo_graph_disk" "never_fails demo_graph_disk"
  by (simp_all add: wf_disk_def never_fails_def demo_graph_disk_def demo_old_def demo_new_def lock_name_def path_join_def is_absolute_def)

definition demo_listing :: "(path \<times> nat \<times> system_time option) list" where
  "demo_listing = [(demo_old, 3, Some 1), (demo_new, 3, Some 2)]"

theorem evict_oldest_witness:
  "\<exists>k\<le>length demo_listing. total_size (drop k demo_listing) \<le> 5 \<and> (\<forall>j<k. 5 < total_size (drop j demo_listing)) \<and>
    (\<forall>q. (\<forall>s. q \<noteq> lock_name s) \<longrightarrow> file_bytes (evict_lru_if_over_budget (gs_base_dir demo_store) 5 demo_graph_disk) q =
      (if q \<in> fst ` set (take k demo_listing) then None else file_bytes demo_graph_disk q))"
proof (rule evict_oldest_first[OF demo_graph_disk_wf])
  show "demo_listing = oldest_first (store_files (gs_base_dir demo_store) demo_graph_disk)"
    by (simp add: demo_graph_disk_def demo_store_def store_files_def shard_files_def path_parent_def oldest_first_def demo_old_def
        demo_new_def map_filter_simps path_extension_def path_file_name_def name_extension_def Let_def demo_listing_def)
qed (simp add: demo_graph_disk_def demo_store_def)

definition demo_shard :: path where "demo_shard = [RootDir, Normal ''g'', Normal ''aa'']"

lemma demo_shard_made:
  "disk_create_dir_all demo_shard demo_graph_disk = (True, demo_graph_disk\<lparr>d_dirs := d_dirs demo_graph_disk @ [demo_shard]\<rparr>)"
  by (simp add: disk_create_dir_all_def demo_graph_disk_def file_bytes_def demo_shard_def demo_old_def demo_new_def upt_rec)


end
