(* ===== verification/ResourcesProps.thy ===== *)
theory ResourcesProps
  imports Resources GraphStoreProps BlastRadius
begin

text \<open>
  Properties of the resources: which queries a URI can ask for, that the links to captured output parse
  back and stay in their slot, what the pages of a graph hold together, and the keys that make a read panic.
\<close>

section \<open>Queries\<close>

definition query_in_bounds :: "graph_query \<Rightarrow> bool" where
  "query_in_bounds q \<longleftrightarrow>
     (case q of
        BlastRadius _ _ depth _ \<Rightarrow> depth \<le> MAX_GRAPH_DEPTH
      | Subgraph _ _ _ \<Rightarrow> True
      | BidirectionalBlastRadius _ symbols max_nodes depth _ \<Rightarrow>
          symbols \<noteq> [] \<and> (\<forall>s\<in>set symbols. s \<noteq> [] \<and> (\<exists>x. s = trim x)) \<and> 1 \<le> max_nodes \<and> 1 \<le> depth \<and> depth \<le> MAX_GRAPH_DEPTH)"

lemma make_query_bounds: "make_query h qt arg p = Inr q \<Longrightarrow> query_in_bounds q \<and> gq_repo_hash q = h"
  by (auto simp: make_query_def query_in_bounds_def Let_def split: if_splits)

lemma parse_graph_uri_Inr:
  assumes "parse_graph_uri U uri = Inr (q, fmt)"
  obtains path_part rest segments arg p where "uri = GRAPH_SCHEME @ rest" "path_part = takeWhile (\<lambda>c. c \<noteq> CHR ''?'') rest"
    "segments = split_on (CHR ''/'') path_part" "4 \<le> length segments" "segments ! 0 = ''graph''"
    "make_query (segments ! 1) (segments ! 2) arg p = Inr q"
proof -
  obtain rest where r: "str_strip_prefix GRAPH_SCHEME uri = Some rest"
    using assms by (auto simp: parse_graph_uri_def split: option.splits)
  define pp where "pp = (case split_once_char (CHR ''?'') rest of None \<Rightarrow> rest | Some (a, b) \<Rightarrow> a)"
  have pp: "pp = takeWhile (\<lambda>c. c \<noteq> CHR ''?'') rest"
    by (auto simp: pp_def split_once_char_def intro!: takeWhile_eq_all_conv[THEN iffD2, symmetric])
  let ?seg = "split_on (CHR ''/'') pp"
  obtain arg p where "make_query (?seg ! 1) (?seg ! 2) arg p = Inr q" "4 \<le> length ?seg" "?seg ! 0 = ''graph''"
    using assms r by (auto simp: parse_graph_uri_def pp_def Let_def map_sum_def split: option.splits sum.splits if_splits prod.splits)
  then show thesis using that[of rest pp ?seg arg p] r pp by (simp add: str_strip_prefix_Some)
qed

definition query_kind :: "graph_query \<Rightarrow> string" where
  "query_kind q = (case q of BlastRadius _ _ _ _ \<Rightarrow> ''graph_blast_radius'' | Subgraph _ _ _ \<Rightarrow> ''graph_subgraph''
     | BidirectionalBlastRadius _ _ _ _ _ \<Rightarrow> ''graph_bidirectional'')"

text \<open>
  A parsed query respects the documented limits, carries the second path segment as its key, and is the one
  the telemetry classifies the URI as.
\<close>

theorem parsed_query_bounds:
  assumes "parse_graph_uri U uri = Inr (q, fmt)"
  shows "query_in_bounds q \<and> CHR ''/'' \<notin> set (gq_repo_hash q) \<and> CHR ''?'' \<notin> set (gq_repo_hash q) \<and>
    classify_uri_kind U uri = query_kind q"
proof (rule parse_graph_uri_Inr[OF assms])
  fix rest pp segments arg p
  assume u: "uri = GRAPH_SCHEME @ rest" "pp = takeWhile (\<lambda>c. c \<noteq> CHR ''?'') rest" "segments = split_on (CHR ''/'') pp"
    "4 \<le> length segments" "segments ! 0 = ''graph''" and q: "make_query (segments ! 1) (segments ! 2) arg p = Inr q"
  have mem: "segments ! 1 \<in> set segments" using u(4) by simp
  have "set (segments ! 1) \<subseteq> set pp" using split_on_chars mem u(3) by blast
  moreover have "CHR ''?'' \<notin> set pp" using u(2) set_takeWhileD by fastforce
  moreover have "CHR ''/'' \<notin> set (segments ! 1)" using split_on_no_sep mem u(3) by metis
  moreover have "graph_kind segments = query_kind q"
  proof -
    have "drop 2 segments = segments ! 2 # drop 3 segments" using u(4) Cons_nth_drop_Suc[of 2 segments] by (simp add: numeral_3_eq_3 numeral_2_eq_2)
    moreover have "segments \<noteq> []" "hd segments = ''graph''" using u(4,5) by (cases segments; simp)+
    ultimately show ?thesis using q
      by (auto simp: graph_kind_def query_kind_def make_query_def Let_def split: if_splits)
  qed
  moreover have "\<not> prefix OVERFLOW_SCHEME uri" by (simp add: u(1) OVERFLOW_SCHEME_def GRAPH_SCHEME_def)
  ultimately show ?thesis
    using make_query_bounds[OF q] u(1-3) by (auto simp: classify_uri_kind_def)
qed

section \<open>Captured output\<close>

text \<open>The URI of a captured stream, as the command tool writes it.\<close>

definition overflow_uri :: "nat \<Rightarrow> overflow_stream \<Rightarrow> string" where
  "overflow_uri slot s = OVERFLOW_SCHEME @ ''slot-'' @ nat_str slot @ ''/'' @ stream_file_name s"

text \<open>The documented behaviour of the codec: a text without a percent sign stands for itself.\<close>

definition percent_plain :: "uri_codec \<Rightarrow> bool" where
  "percent_plain U \<longleftrightarrow> (\<forall>s. CHR ''%'' \<notin> set s \<longrightarrow> uc_percent U s = s)"

lemma digit_not: "is_digit c \<Longrightarrow> c \<noteq> CHR ''/'' \<and> c \<noteq> CHR ''%'' \<and> c \<noteq> CHR 0x5C \<and> c \<noteq> CHR ''.'' \<and> byte c < 128"
  by (auto simp: is_digit_def)

lemma nat_str_plain: "c \<in> set (nat_str n) \<Longrightarrow> c \<noteq> CHR ''/'' \<and> c \<noteq> CHR ''%'' \<and> c \<noteq> CHR 0x5C \<and> c \<noteq> CHR ''.'' \<and> byte c < 128"
  using nat_str_digits[of n] digit_not by (auto simp: list_all_iff)

lemma not_contains_dots: "CHR ''.'' \<notin> set s \<Longrightarrow> \<not> str_contains s ''..''"
  by (auto simp: str_contains_iff sublist_def)

lemma stream_name_facts:
  "stream_of_name (stream_file_name s) = Some s" "segment_is_safe (stream_file_name s)"
  "CHR ''/'' \<notin> set (stream_file_name s)" "CHR ''%'' \<notin> set (stream_file_name s)" "utf8_valid (stream_file_name s)"
  by (cases s; simp add: stream_of_name_def segment_is_safe_def not_contains_dots utf8_valid_ascii)+

text \<open>The links the command tool emits are parsed back to their slot and stream.\<close>

lemma overflow_uri_roundtrip:
  assumes "percent_plain U" "slot < 2 ^ 32"
  shows "parse_overflow_uri U (overflow_uri slot s) = Some (slot, s)"
proof -
  have digits: "utf8_valid (nat_str slot)" "segment_is_safe (nat_str slot)" "CHR ''%'' \<notin> set (nat_str slot)"
      "CHR ''/'' \<notin> set (nat_str slot)" "list_all is_digit (nat_str slot)"
    using nat_str_plain[of _ slot] nat_str_digits[of slot]
    by (auto simp: segment_is_safe_def intro!: utf8_valid_ascii dest!: not_contains_dots[THEN notE, rotated])
  have "split_once_char (CHR ''/'') (''slot-'' @ nat_str slot @ ''/'' @ stream_file_name s) =
      Some (''slot-'' @ nat_str slot, stream_file_name s)"
    using split_once_char_append[of "CHR ''/''" "''slot-'' @ nat_str slot" "stream_file_name s"] digits(4) by simp
  moreover have "str_strip_prefix ''slot-'' (''slot-'' @ nat_str slot) = Some (nat_str slot)" by (rule str_strip_prefix_append)
  moreover have "percent_utf8 U (nat_str slot) = Some (nat_str slot)" "percent_utf8 U (stream_file_name s) = Some (stream_file_name s)"
    using digits stream_name_facts[of s] assms(1) by (simp_all add: percent_utf8_def percent_plain_def)
  ultimately show ?thesis
    using digits stream_name_facts[of s] parse_nat_str[OF assms(2)] by (simp add: parse_overflow_uri_def overflow_uri_def)
qed

text \<open>
  Reading a capture touches no file and answers with the file of the parsed slot and stream, which is in the
  overflow directory whatever the URI says.
\<close>

lemma parse_plain_component: "plain_name s \<Longrightarrow> path_join p (parse_path s) = p @ [Normal s]"
  by (simp add: parse_plain_name path_join_def is_absolute_def)

lemma slot_base_shape: "slot_base tmp n = tmp @ [Normal ''aptu-coder-overflow'', Normal (''slot-'' @ nat_str n)]"
proof -
  have "plain_name (''slot-'' @ nat_str n)" using nat_str_plain[of _ n] by (auto simp: plain_name_def)
  then show ?thesis by (simp add: slot_base_def parse_plain_component plain_name_def)
qed

definition capture_file :: "path \<Rightarrow> nat \<Rightarrow> overflow_stream \<Rightarrow> path" where
  "capture_file tmp n s = tmp @ [Normal ''aptu-coder-overflow'', Normal (''slot-'' @ nat_str n), Normal (stream_file_name s)]"

lemma capture_path: "path_join (slot_base tmp n) (parse_path (stream_file_name s)) = capture_file tmp n s"
  by (cases s) (simp_all add: parse_plain_component plain_name_def slot_base_shape capture_file_def)

lemma read_overflow_Inr:
  "read_overflow E uri n s d = Inr r \<longleftrightarrow>
   (\<exists>text. disk_read (capture_file (re_temp_dir E) n s) d = Some text \<and> utf8_valid text \<and> text \<noteq> [] \<and>
     r = \<lparr>rc_uri = uri, rc_mime_type = ''text/plain'', rc_text = text\<rparr>)"
  by (auto simp: read_overflow_def capture_path split: option.splits)

section \<open>Panics\<close>

lemma lift_sum_not_Panic [simp]: "lift_sum r \<noteq> Panic"
  by (simp add: lift_sum_def split: sum.splits)

lemma graph_get_returns: "graph_get K st key d = Some r \<Longrightarrow> 2 \<le> length key \<and> (2 < length key \<longrightarrow> \<not> is_cont (key ! 2))"
  using graph_get_panics[of K st key d] by auto

text \<open>
  The key of a graph URI is not validated: a read panics exactly when it is shorter than two bytes or its
  second byte ends inside a character.
\<close>

theorem read_resource_panics:
  "fst (read_resource E st uri d) = Panic \<longleftrightarrow> parse_overflow_uri (re_uri E) uri = None \<and>
    (\<exists>q fmt. parse_graph_uri (re_uri E) uri = Inr (q, fmt) \<and>
      (length (gq_repo_hash q) < 2 \<or> (2 < length (gq_repo_hash q) \<and> is_cont (gq_repo_hash q ! 2))))"
  by (auto simp: read_resource_def graph_get_panics split: option.splits sum.splits prod.splits dest: graph_get_returns)

text \<open>A key that begins with two dots names an entry beside the store's directory, not in it.\<close>

lemma dotdot_key_leaves_store:
  "plain_name (''..'' @ k @ ''.bin'') \<Longrightarrow> \<not> is_cont (hd (k @ ''.'')) \<Longrightarrow>
   graph_entry_path st (''..'' @ k) = Some (gs_base_dir st @ [ParentDir, Normal (''..'' @ k @ ''.bin'')])"
proof -
  assume k: "plain_name (''..'' @ k @ ''.bin'')" "\<not> is_cont (hd (k @ ''.''))"
  have "str_slice (''..'' @ k) 0 2 = Some ''..''"
    using k(2) by (cases k) (simp_all add: str_slice_def boundary_def numeral_2_eq_2)
  moreover have "parse_path ''..'' = [ParentDir]" by (simp add: parse_path_def comp_of_def)
  moreover have "parse_path ((''..'' @ k) @ ''.bin'') = [Normal (''..'' @ k @ ''.bin'')]"
    using parse_plain_name[OF k(1)] by simp
  ultimately show ?thesis unfolding graph_entry_path_def by (simp only: option.map) (simp add: path_join_def is_absolute_def)
qed

section \<open>Pages\<close>

definition cursor_ok :: "uri_codec \<Rightarrow> bool" where
  "cursor_ok U \<longleftrightarrow> (\<forall>n. decode_graph_cursor U (encode_graph_cursor U n) = Some n)"

lemma place_nodes_range:
  "place_nodes js is (pos, ns) = (pos', ns') \<Longrightarrow> \<forall>k\<in>snd ` set pos. k < length ns \<Longrightarrow>
   length ns \<le> length ns' \<and> (\<forall>k\<in>snd ` set pos'. k < length ns')"
proof (induction "is" arbitrary: pos ns)
  case (Cons i "is")
  show ?case
  proof (cases "js i")
    case (Some j)
    have "\<forall>k\<in>snd ` set (ainsert i (length ns) pos). k < length (ns @ [j])"
      using Cons.prems(2) by (auto simp: ainsert_def aremove_def less_Suc_eq image_iff)
    then show ?thesis using Cons.IH[of "ainsert i (length ns) pos" "ns @ [j]"] Cons.prems(1) Some by auto
  qed (use Cons in auto)
qed auto

lemma query_edges_in_range:
  assumes "query_to_graph E g q = Inr (ns, es)" "(s, t, j) \<in> set es"
  shows "s < length ns \<and> t < length ns"
proof -
  obtain ixs eds where r: "run_query E g q = Inr (ixs, eds)"
    using assms(1) by (auto simp: query_to_graph_def split: sum.splits)
  obtain pos ns' where p: "place_nodes (\<lambda>i. re_node_json E (dg_nodes (sg_graph g) ! i)) ixs ([], []) = (pos, ns')" by fastforce
  have e: "ns = ns'" "es = List.map_filter (place_edge pos (re_edge_json E)) eds"
    using assms(1) r p by (simp_all add: query_to_graph_def)
  obtain a b where "alookup a pos = Some s" "alookup b pos = Some t"
    using assms(2) by (auto simp: e(2) map_filter_def place_edge_def split: option.splits)
  then have "s \<in> snd ` set pos" "t \<in> snd ` set pos" using alookup_Some_in by force+
  then show ?thesis using place_nodes_range[OF p] e(1) by auto
qed

text \<open>
  The pages of an answer: following the cursors gives every node once, in order; an edge is on a page exactly
  when both its ends are, so an edge whose ends fall on two pages is on none.
\<close>

theorem graph_pages:
  assumes "query_to_graph E g q = Inr (ns, es)" "cursor_ok U"
    and n: "n = (length ns + 49) div 50" and page: "\<And>i. page i = graph_page U ns es (50 * i)"
  shows "concat (map (\<lambda>i. gl_nodes (page i)) [0..<n]) = ns \<and>
    (\<forall>i<n. (case gl_next_cursor (page i) of None \<Rightarrow> Suc i = n | Some c \<Rightarrow> Suc i < n \<and> decode_graph_cursor U c = Some (50 * Suc i)) \<and>
      gl_edges (page i) = map (\<lambda>(s, t, j). (s mod 50, t mod 50, j)) (filter (\<lambda>(s, t, _). s div 50 = i \<and> t div 50 = i) es))"
proof (intro conjI allI impI)
  have "concat (map (\<lambda>i. take 50 (drop (50 * i) xs)) [0..<k]) = take (50 * k) xs" for k and xs :: "'a list"
    by (induction k) (simp_all add: take_add[symmetric] add.commute)
  then show "concat (map (\<lambda>i. gl_nodes (page i)) [0..<n]) = ns"
    by (simp add: page graph_page_def PAGE_SIZE_def n Let_def)
next
  fix i assume i: "i < n"
  have len: "length (take 50 (drop (50 * i) ns)) = min 50 (length ns - 50 * i)" by simp
  show "case gl_next_cursor (page i) of None \<Rightarrow> Suc i = n | Some c \<Rightarrow> Suc i < n \<and> decode_graph_cursor U c = Some (50 * Suc i)"
    using i assms(2) by (auto simp: page graph_page_def PAGE_SIZE_def cursor_ok_def Let_def n min_def)
  define on where "on = (\<lambda>s. 50 * i \<le> s \<and> s < 50 * i + min 50 (length ns - 50 * i))"
  have on: "on s = (s div 50 = i)" if "s < length ns" for s
    using that by (auto simp: on_def min_def)
  have "filter (\<lambda>(s, t, _). on s \<and> on t) es = filter (\<lambda>(s, t, _). s div 50 = i \<and> t div 50 = i) es"
  proof (rule filter_cong[OF refl])
    fix e assume e: "e \<in> set es"
    obtain s t j where "e = (s, t, j)" by (cases e)
    then show "(case e of (s, t, _) \<Rightarrow> on s \<and> on t) = (case e of (s, t, _) \<Rightarrow> s div 50 = i \<and> t div 50 = i)"
      using query_edges_in_range[OF assms(1), of s t j] e on[of s] on[of t] by simp
  qed
  moreover have "(\<lambda>(s, t, _::'a). 50 * i \<le> s \<and> s < 50 * i + min 50 (length ns - 50 * i) \<and> 50 * i \<le> t \<and> t < 50 * i + min 50 (length ns - 50 * i)) =
      (\<lambda>(s, t, _). on s \<and> on t)" by (auto simp: on_def fun_eq_iff)
  moreover have "s div 50 = i \<Longrightarrow> s - 50 * i = s mod 50" for s :: nat by (simp add: modulo_nat_def mult.commute)
  ultimately show "gl_edges (page i) = map (\<lambda>(s, t, j). (s mod 50, t mod 50, j)) (filter (\<lambda>(s, t, _). s div 50 = i \<and> t div 50 = i) es)"
    by (auto simp: page graph_page_def PAGE_SIZE_def Let_def min.commute)
qed

section \<open>Instances\<close>

text \<open>Codecs that satisfy the hypotheses, on the small graph of the traversal examples.\<close>

definition demo_uri :: uri_codec where
  "demo_uri = \<lparr>uc_percent = \<lambda>s. s, uc_b64_encode = \<lambda>s. s, uc_b64_decode = Some,
     uc_json_g = \<lambda>s. Some (digits_value (filter is_digit s))\<rparr>"

definition demo_resources :: "string resource_env" where
  "demo_resources = \<lparr>re_uri = demo_uri, re_node_json = symbol_name, re_edge_json = \<lambda>_. Some ''e'',
     re_to_string = \<lambda>p. Inr (concat (gl_nodes p)), re_order = \<lambda>es. es, re_iter = sorted_list_of_set,
     re_temp_dir = [RootDir, Normal ''tmp''], re_graphs = demo_graph_codec\<rparr>"

lemma demo_percent_plain: "percent_plain demo_uri"
  by (simp add: percent_plain_def demo_uri_def)

lemma demo_cursor_ok: "cursor_ok demo_uri"
proof -
  have f: "filter is_digit (nat_str n) = nat_str n" for n
    using nat_str_digits[of n] by (simp add: filter_id_conv list_all_iff)
  have "utf8_valid (''{'' @ [CHR 0x22] @ ''g'' @ [CHR 0x22] @ '':'' @ nat_str n @ ''}'')" for n
    using nat_str_plain[of _ n] by (intro utf8_valid_ascii) auto
  then show ?thesis
    by (simp add: cursor_ok_def decode_graph_cursor_def encode_graph_cursor_def demo_uri_def is_digit_def[of "CHR ''{''"]
        is_digit_def[of "CHR 0x22"] is_digit_def[of "CHR ''g''"] is_digit_def[of "CHR '':''"] is_digit_def[of "CHR ''}''"] f
        digits_value_nat_str)
qed

lemma overflow_uri_example: "parse_overflow_uri demo_uri ''aptu-overflow://slot-17/stderr'' = Some (17, Stderr)"
proof -
  have "overflow_uri 17 Stderr = ''aptu-overflow://slot-17/stderr''"
    by code_simp
  then show ?thesis using overflow_uri_roundtrip[OF demo_percent_plain, of 17 Stderr] by simp
qed

lemma demo_uri_parsed:
  "parse_graph_uri demo_uri ''aptu-coder://graph/ab12/subgraph/f?x=9&format=text'' = Inr (Subgraph ''ab12'' ''f'' 0, TextFormat)"
  by code_simp

theorem parsed_query_bounds_witness:
  "query_in_bounds (Subgraph ''ab12'' ''f'' 0) \<and> CHR ''/'' \<notin> set ''ab12'' \<and>
   classify_uri_kind demo_uri ''aptu-coder://graph/ab12/subgraph/f?x=9&format=text'' = ''graph_subgraph''"
  using parsed_query_bounds[OF demo_uri_parsed] by (simp add: query_kind_def)

lemma demo_query:
  "query_to_graph demo_resources demo_structural (Subgraph ''ab12'' ''f'' 0) =
   Inr ([''f'', ''g'', ''h''], [(0, 1, ''e''), (1, 2, ''e'')])"
  by code_simp

theorem graph_pages_witness:
  "gl_nodes (graph_page demo_uri [''f'', ''g'', ''h''] [(0, 1, ''e''), (1, 2, ''e'')] 0) = [''f'', ''g'', ''h'']"
  using graph_pages[OF demo_query demo_cursor_ok refl refl] by simp

text \<open>A key of one byte makes any read of its graph panic.\<close>

lemma short_key_panics:
  "re_uri E = demo_uri \<Longrightarrow> fst (read_resource E st ''aptu-coder://graph/a/subgraph/f'' d) = Panic"
proof -
  assume E: "re_uri E = demo_uri"
  have "parse_overflow_uri demo_uri ''aptu-coder://graph/a/subgraph/f'' = None \<and>
      parse_graph_uri demo_uri ''aptu-coder://graph/a/subgraph/f'' = Inr (Subgraph ''a'' ''f'' 0, JsonFormat)"
    by code_simp
  moreover have "graph_get (re_graphs E) st ''a'' d = None" by (simp add: graph_get_panics)
  ultimately show ?thesis by (simp add: read_resource_def E)
qed

end
