(* ===== verification/ExecCapture.thy ===== *)
theory ExecCapture
  imports ExecProps ResourcesProps
begin

text \<open>
  The command tool and the resources together: what the links of an answer read back.
\<close>

section \<open>The slot directory\<close>

definition captured :: "path \<Rightarrow> nat \<Rightarrow> exec_state \<Rightarrow> overflow_stream \<Rightarrow> string option" where
  "captured tmp slot s st = file_bytes (xs_disk s) (capture_file tmp slot st)"

text \<open>A slot whose files can be written: no call fails, no file is in the way of its directory and no directory in the way of its files.\<close>

definition slot_free :: "path \<Rightarrow> nat \<Rightarrow> exec_state \<Rightarrow> bool" where
  "slot_free tmp slot s \<longleftrightarrow>
     (\<forall>op p. \<not> d_fails (xs_disk s) op p) \<and>
     (\<forall>k \<le> length tmp + 2. file_bytes (xs_disk s) (take k (slot_base tmp slot)) = None) \<and>
     (\<forall>n. slot_base tmp slot @ [Normal n] \<notin> set (d_dirs (xs_disk s)))"

lemma slot_base_length: "length (slot_base tmp slot) = length tmp + 2"
  by (simp add: slot_base_shape)

lemma capture_file_base: "capture_file tmp slot st = slot_base tmp slot @ [Normal (stream_file_name st)]"
  by (simp add: capture_file_def slot_base_shape)

lemma capture_file_inject: "capture_file tmp slot st = capture_file tmp slot st' \<longleftrightarrow> st = st'"
  by (cases st; cases st') (simp_all add: capture_file_def)

lemma make_dirs_facts:
  assumes "slot_free tmp slot s"
  shows "slot_free tmp slot (make_dirs (slot_base tmp slot) s)"
    "slot_base tmp slot \<in> set (d_dirs (xs_disk (make_dirs (slot_base tmp slot) s)))"
    "captured tmp slot (make_dirs (slot_base tmp slot) s) = captured tmp slot s"
proof -
  let ?b = "slot_base tmp slot"
  obtain ok d where d: "disk_create_dir_all ?b (xs_disk s) = (ok, d)" by fastforce
  note f = disk_create_dir_all_facts[OF d]
  have "\<not> list_ex (\<lambda>k. file_bytes (xs_disk s) (take k ?b) \<noteq> None) [0..<Suc (length ?b)]"
    using assms by (auto simp: slot_free_def list_ex_iff slot_base_length)
  then have ok: "ok" "d_dirs d = d_dirs (xs_disk s) @ filter (\<lambda>q. q \<notin> set (d_dirs (xs_disk s))) (map (\<lambda>k. take k ?b) [0..<Suc (length ?b)])"
    using d assms by (auto simp: disk_create_dir_all_def slot_free_def split: if_splits)
  have "?b @ [Normal n] \<noteq> take k ?b" for n k
  proof
    assume "?b @ [Normal n] = take k ?b"
    then have "length (?b @ [Normal n]) = length (take k ?b)" by simp
    then show False by simp
  qed
  then show "slot_free tmp slot (make_dirs ?b s)"
    using assms d f(1,2) ok(2) file_bytes_cong[OF f(1)] by (auto simp: slot_free_def make_dirs_def)
  show "?b \<in> set (d_dirs (xs_disk (make_dirs ?b s)))" using f(4) ok(1) d by (simp add: make_dirs_def)
  show "captured tmp slot (make_dirs ?b s) = captured tmp slot s"
    using d file_bytes_cong[OF f(1)] by (auto simp: captured_def make_dirs_def)
qed

lemma tmp_path_shape:
  "\<exists>n. tmp_path X (capture_file tmp slot st) c = slot_base tmp slot @ [Normal n] \<and> n \<notin> range stream_file_name"
proof -
  let ?n = "stream_file_name st @ ''.'' @ nat_str (xe_pid X) @ ''.'' @ nat_str c @ ''.tmp''"
  have "plain_name ?n" using stream_name_facts(3)[of st] nat_str_plain by (auto simp: plain_name_def)
  moreover have "last ?n = CHR ''p''" by simp
  then have "?n \<noteq> stream_file_name st'" for st' by (cases st') auto
  ultimately show ?thesis
    by (auto simp: tmp_path_def capture_file_base path_file_name_def parse_plain_component intro!: exI[of _ ?n])
qed

lemma file_bytes_removed [simp]:
  "file_bytes (d\<lparr>d_files := aremove p (d_files d)\<rparr>) q = (if q = p then None else file_bytes d q)"
  by (auto simp: file_bytes_def)

text \<open>A write to a free slot succeeds and changes no other capture.\<close>

lemma atomic_write_captured:
  assumes "slot_free tmp slot s" "slot_base tmp slot \<in> set (d_dirs (xs_disk s))"
  obtains s' where "atomic_write X (capture_file tmp slot st) bytes s = (True, s')" "slot_free tmp slot s'"
    "slot_base tmp slot \<in> set (d_dirs (xs_disk s'))" "captured tmp slot s' = (captured tmp slot s)(st := Some bytes)"
proof -
  let ?b = "slot_base tmp slot" and ?d = "xs_disk s"
  obtain n where n: "tmp_path X (capture_file tmp slot st) (xs_counter s) = ?b @ [Normal n]" "n \<notin> range stream_file_name"
    using tmp_path_shape by blast
  let ?d' = "set_file (capture_file tmp slot st) bytes (?d\<lparr>d_files := aremove (?b @ [Normal n]) (d_files ?d)\<rparr>)"
  have w: "atomic_write X (capture_file tmp slot st) bytes s = (True, s\<lparr>xs_counter := xs_counter s + 1, xs_disk := ?d'\<rparr>)"
    using assms n(1) by (auto simp: atomic_write_def Let_def path_parent_def slot_free_def capture_file_base)
  have "take k ?b \<noteq> ?b @ [c]" for k c
  proof
    assume "take k ?b = ?b @ [c]"
    then have "length (take k ?b) = length (?b @ [c])" by simp
    then show False by simp
  qed
  then have "slot_free tmp slot (s\<lparr>xs_counter := xs_counter s + 1, xs_disk := ?d'\<rparr>)"
    using assms(1) by (auto simp: slot_free_def capture_file_base)
  moreover have "captured tmp slot (s\<lparr>xs_counter := xs_counter s + 1, xs_disk := ?d'\<rparr>) = (captured tmp slot s)(st := Some bytes)"
    using n(2) by (auto simp: captured_def fun_eq_iff capture_file_inject) (auto simp: capture_file_base)
  ultimately show thesis using that w assms(2) by simp
qed

lemmas capture_paths = capture_path[of _ _ Stdout, simplified] capture_path[of _ _ Stderr, simplified]
  capture_path[of _ _ Interleaved, simplified]

section \<open>The writers\<close>

lemma persist_stream_captured:
  assumes "slot_free tmp slot s" "slot_base tmp slot \<in> set (d_dirs (xs_disk s))"
    "persist_stream X (capture_file tmp slot st) w s = (op, s')"
  shows "slot_free tmp slot s' \<and> slot_base tmp slot \<in> set (d_dirs (xs_disk s')) \<and> (op \<noteq> None \<longrightarrow> w \<noteq> []) \<and>
    captured tmp slot s' = (if op = None then captured tmp slot s else (captured tmp slot s)(st := Some w))"
proof -
  obtain s1 where "atomic_write X (capture_file tmp slot st) w s = (True, s1)" "slot_free tmp slot s1"
      "slot_base tmp slot \<in> set (d_dirs (xs_disk s1))" "captured tmp slot s1 = (captured tmp slot s)(st := Some w)"
    by (rule atomic_write_captured[OF assms(1,2)])
  then show ?thesis using assms by (auto simp: persist_stream_def split: if_splits)
qed

lemma handle_output_persist_captured:
  assumes "slot_free (xe_temp_dir X) slot s" "handle_output_persist X out err slot s = ((o', e', op, ep, b), s')"
  shows "slot_free (xe_temp_dir X) slot s' \<and>
    (op \<noteq> None \<longrightarrow> out \<noteq> [] \<and> captured (xe_temp_dir X) slot s' Stdout = Some out) \<and>
    (ep \<noteq> None \<longrightarrow> err \<noteq> [] \<and> captured (xe_temp_dir X) slot s' Stderr = Some err)"
proof (cases "length (str_lines out) > MAX_OUTPUT_LINES \<or> length (str_lines err) > MAX_OUTPUT_LINES \<or>
    length out > MAX_STDOUT_BYTES \<or> length err > MAX_STDERR_BYTES")
  case True
  let ?t = "xe_temp_dir X" and ?s = "make_dirs (slot_base (xe_temp_dir X) slot) s"
  obtain op1 s1 where 1: "persist_stream X (capture_file ?t slot Stdout) out ?s = (op1, s1)" by fastforce
  obtain ep1 s2 where 2: "persist_stream X (capture_file ?t slot Stderr) err s1 = (ep1, s2)" by fastforce
  have r: "op = op1" "ep = ep1" "s' = s2"
    using assms(2) True 1 2 by (auto simp: handle_output_persist_def Let_def capture_paths split: if_splits)
  note a = persist_stream_captured[OF make_dirs_facts(1,2)[OF assms(1)] 1]
  show ?thesis using persist_stream_captured[OF a[THEN conjunct1] a[THEN conjunct2, THEN conjunct1] 2] a by (auto simp: r split: if_splits)
qed (use assms in \<open>auto simp: handle_output_persist_def\<close>)

lemma handle_output_persist_out:
  "handle_output_persist X out err slot s = ((o', e', None, ep, b), s') \<Longrightarrow> o' = out"
  by (auto simp: handle_output_persist_def persist_stream_def stream_preview_def str_lines_def Let_def
      split: if_split_asm prod.splits)

lemma persist_interleaved_captured:
  assumes "slot_free (xe_temp_dir X) slot s" "persist_interleaved_overflow X il m slot s = (p, ip, s')"
  shows "slot_free (xe_temp_dir X) slot s' \<and> (\<forall>st. st \<noteq> Interleaved \<longrightarrow> captured (xe_temp_dir X) slot s' st = captured (xe_temp_dir X) slot s st) \<and>
    (ip \<noteq> None \<longrightarrow> il \<noteq> [] \<and> captured (xe_temp_dir X) slot s' Interleaved = Some il)"
proof (cases "length il \<le> m")
  case False
  obtain s1 where w: "atomic_write X (capture_file (xe_temp_dir X) slot Interleaved) il (make_dirs (slot_base (xe_temp_dir X) slot) s) = (True, s1)"
      "slot_free (xe_temp_dir X) slot s1" "captured (xe_temp_dir X) slot s1 = (captured (xe_temp_dir X) slot s)(Interleaved := Some il)"
    using atomic_write_captured[OF make_dirs_facts(1,2)[OF assms(1)]] make_dirs_facts(3)[OF assms(1)] by metis
  have "s' = s1" using assms(2) False w(1) by (simp add: persist_interleaved_overflow_def Let_def capture_paths)
  then show ?thesis using w False by auto
qed (use assms in \<open>auto simp: persist_interleaved_overflow_def\<close>)

lemma persist_pre_filter_captured:
  assumes "slot_free tmp slot s"
  obtains s' where "persist_pre_filter X (capture_file tmp slot st) w s = (True, s')" "slot_free tmp slot s'"
    "captured tmp slot s' = (captured tmp slot s)(st := Some w)"
proof -
  have p: "path_parent (capture_file tmp slot st) = Some (slot_base tmp slot)" by (simp add: path_parent_def capture_file_base)
  obtain s1 where "atomic_write X (capture_file tmp slot st) w (make_dirs (slot_base tmp slot) s) = (True, s1)" "slot_free tmp slot s1"
      "captured tmp slot s1 = (captured tmp slot s)(st := Some w)"
    using atomic_write_captured[OF make_dirs_facts(1,2)[OF assms]] make_dirs_facts(3)[OF assms] by metis
  then show thesis using that[of s1] p by (simp add: persist_pre_filter_def)
qed

text \<open>What a step leaves of the paths and captures: an old path keeps its capture, a new one has the text it was given.\<close>

definition capped_ok :: "path \<Rightarrow> nat \<Rightarrow> shell_output \<Rightarrow> string \<Rightarrow> string option \<Rightarrow> exec_state \<Rightarrow> shell_output \<Rightarrow> string option \<Rightarrow> exec_state \<Rightarrow> bool" where
  "capped_ok tmp slot out il ip s out' ip' s' \<longleftrightarrow>
     slot_free tmp slot s' \<and> so_stderr_path out' = so_stderr_path out \<and> captured tmp slot s' Stderr = captured tmp slot s Stderr \<and>
     (so_stdout_path out' \<noteq> None \<longrightarrow> captured tmp slot s' Stdout =
        (if so_stdout_path out = None then Some (so_stdout out) else captured tmp slot s Stdout) \<and>
        (so_stdout_path out = None \<longrightarrow> so_stdout out \<noteq> [])) \<and>
     (ip' \<noteq> None \<longrightarrow> captured tmp slot s' Interleaved = (if ip = None then Some il else captured tmp slot s Interleaved) \<and>
        (ip = None \<longrightarrow> il \<noteq> []))"

lemma persist_capped_captured:
  assumes "slot_free (xe_temp_dir X) slot s" "persist_capped X slot out il ip s = (out', ip', s')"
  shows "capped_ok (xe_temp_dir X) slot out il ip s out' ip' s'"
proof -
  let ?t = "xe_temp_dir X"
  obtain out1 s1 where 1: "(if so_stdout_path out = None \<and> so_stdout out \<noteq> [] then
      let (written, s) = persist_pre_filter X (capture_file ?t slot Stdout) (so_stdout out) s
      in (if written then out\<lparr>so_stdout_path := Some (path_display (capture_file ?t slot Stdout))\<rparr> else out, s) else (out, s)) = (out1, s1)"
    by fastforce
  have f1: "slot_free ?t slot s1 \<and> capped_ok ?t slot out il ip s out1 None s1 \<and> captured ?t slot s1 Interleaved = captured ?t slot s Interleaved"
  proof (cases "so_stdout_path out = None \<and> so_stdout out \<noteq> []")
    case True
    obtain s2 where "persist_pre_filter X (capture_file ?t slot Stdout) (so_stdout out) s = (True, s2)" "slot_free ?t slot s2"
        "captured ?t slot s2 = (captured ?t slot s)(Stdout := Some (so_stdout out))"
      by (rule persist_pre_filter_captured[OF assms(1)])
    then show ?thesis using 1 True by (auto simp: capped_ok_def)
  next
    case False
    then have "out1 = out" "s1 = s" using 1 by auto
    then show ?thesis using False assms(1) by (auto simp: capped_ok_def)
  qed
  show ?thesis
  proof (cases "ip = None \<and> il \<noteq> []")
    case True
    obtain s2 where 2: "persist_pre_filter X (capture_file ?t slot Interleaved) il s1 = (True, s2)" "slot_free ?t slot s2"
      "captured ?t slot s2 = (captured ?t slot s1)(Interleaved := Some il)"
      by (rule persist_pre_filter_captured[OF f1[THEN conjunct1]])
    have "out' = out1" "s' = s2" "ip' = Some (path_display (capture_file ?t slot Interleaved))"
      using assms(2) 1 2 True by (auto simp: persist_capped_def Let_def capture_paths cong: if_cong split: prod.splits)
    then show ?thesis using f1 2 True by (auto simp: capped_ok_def)
  next
    case False
    then have "out' = out1" "s' = s1" "ip' = ip"
      using assms(2) 1 by (auto simp: persist_capped_def Let_def capture_paths cong: if_cong split: prod.splits)
    then show ?thesis using f1 False by (auto simp: capped_ok_def)
  qed
qed

lemma apply_filter_rules_captured:
  assumes "slot_free (xe_temp_dir X) slot s" "apply_filter_rules X rules command slot out il ip s = (out', il', ip', s')"
  shows "capped_ok (xe_temp_dir X) slot out il ip s out' ip' s'"
  using assms persist_capped_captured[OF assms(1), of out il ip]
  by (auto simp: apply_filter_rules_def Let_def capped_ok_def split: option.splits prod.splits if_splits)

section \<open>Reading the links\<close>

definition stream_of :: "overflow_stream \<Rightarrow> streams \<Rightarrow> string" where
  "stream_of st t = (case st of Stdout \<Rightarrow> sr_stdout t | Stderr \<Rightarrow> sr_stderr t | Interleaved \<Rightarrow> sr_interleaved t)"

definition lines_of :: "overflow_stream \<Rightarrow> (bool \<times> string) list \<Rightarrow> string list" where
  "lines_of st ls = (case st of Stdout \<Rightarrow> side False ls | Stderr \<Rightarrow> side True ls | Interleaved \<Rightarrow> map entry_of ls)"

definition stream_limit :: "overflow_stream \<Rightarrow> nat" where
  "stream_limit st = (if st = Interleaved then 2 * MAX_BYTES else MAX_BYTES)"

lemma stream_of_fill: "stream_of st (split_streams ls) = fill (stream_limit st) (lines_of st ls) []"
  by (cases st) (simp_all add: stream_of_def stream_limit_def lines_of_def)

lemma utf8_valid_concat: "\<forall>x\<in>set xs. utf8_valid x \<Longrightarrow> utf8_valid (concat xs)"
  by (induction xs) (auto simp: utf8_valid_append)

lemma drain_line_sent: "set (dn_sent (drain_line e l s)) \<subseteq> insert (e, l) (set (dn_sent s))"
  unfolding drain_line_def Let_def by (cases e) auto

lemma drain_sent_read: "set (dn_sent (drain items s)) \<subseteq> set (dn_sent s) \<union> {(e, l). (e, Some l) \<in> set items}"
proof (induction items s rule: drain.induct)
  case (3 e l items s)
  then show ?case using drain_line_sent[of e l s] by auto
qed auto

lemma stream_of_facts:
  assumes "\<forall>x\<in>set items. \<forall>l. snd x = Some l \<longrightarrow> utf8_valid l" "ls = dn_sent (drain items drain_start)"
  shows "utf8_valid (stream_of st (split_streams ls)) \<and> prefix (stream_of st (split_streams ls)) (concat (lines_of st ls)) \<and>
    (length (stream_of st (split_streams ls)) < stream_limit st \<longrightarrow> stream_of st (split_streams ls) = concat (lines_of st ls))"
proof -
  have "\<forall>x\<in>set ls. utf8_valid (snd x)"
    using drain_sent_read[of items drain_start] assms by (fastforce simp: drain_start_def)
  then have v: "\<forall>x\<in>set (lines_of st ls). utf8_valid x"
    by (cases st) (auto simp: lines_of_def side_def entry_of_def utf8_valid_append utf8_valid_ascii)
  obtain k where k: "stream_of st (split_streams ls) = concat (take k (lines_of st ls))"
    using fill_prefix[of "lines_of st ls" "stream_limit st" "[]"] by (auto simp: stream_of_fill)
  have "utf8_valid (concat (take k (lines_of st ls)))" using v set_take_subset by (fastforce intro: utf8_valid_concat)
  moreover have "concat (lines_of st ls) = concat (take k (lines_of st ls)) @ concat (drop k (lines_of st ls))"
    by (metis append_take_drop_id concat_append)
  then have "prefix (stream_of st (split_streams ls)) (concat (lines_of st ls))" unfolding k by (rule prefixI)
  ultimately show ?thesis
    using fill_complete[of "stream_limit st" "lines_of st ls"] k by (simp add: stream_of_fill)
qed

lemma overflow_link_uri: "overflow_link slot (stream_file_name st) = overflow_uri slot st"
  by (simp add: overflow_link_def overflow_uri_def OVERFLOW_SCHEME_def)

lemma read_link:
  assumes "percent_plain (re_uri E)" "slot < 2 ^ 32" "captured (re_temp_dir E) slot s st = Some w" "slot_free (re_temp_dir E) slot s"
    "utf8_valid w" "w \<noteq> []"
  shows "fst (read_resource E G (overflow_uri slot st) (xs_disk s)) =
    Ok \<lparr>rc_uri = overflow_uri slot st, rc_mime_type = ''text/plain'', rc_text = w\<rparr>"
proof -
  have "disk_read (capture_file (re_temp_dir E) slot st) (xs_disk s) = Some w"
    using assms(3,4) by (simp add: disk_read_def captured_def slot_free_def)
  then have "read_overflow E (overflow_uri slot st) slot st (xs_disk s) =
      Inr \<lparr>rc_uri = overflow_uri slot st, rc_mime_type = ''text/plain'', rc_text = w\<rparr>"
    using assms(5,6) by (simp add: read_overflow_Inr)
  then show ?thesis
    using overflow_uri_roundtrip[OF assms(1,2), of st] by (simp add: read_resource_def lift_sum_def)
qed


section \<open>Instances\<close>

lemma demo_slot_free: "slot_free (xe_temp_dir demo_exec) slot demo_exec_state"
  by (simp add: slot_free_def demo_exec_def demo_exec_state_def file_bytes_def slot_base_shape)

lemma demo_filtered:
  "apply_filter demo_rule (''a'' @ [LF] @ ''b'' @ [LF]) = (''a'', Capped ''^ls'' 1)"
  "apply_filter demo_rule (''a'' @ [LF] @ ''e'' @ [LF] @ ''b'' @ [LF]) = (''a'', Capped ''^ls'' 1)"
  by code_simp+

lemma demo_capped_run:
  "\<exists>r s'. run_exec demo_exec [demo_rule] ''ls'' 3 (Ran (Exited (Some 0)) Drained demo_items) demo_exec_state = (r, s') \<and>
    overflow_link 3 ''stdout'' \<in> set (resource_links 3 r)"
proof -
  obtain s1 where 1: "persist_pre_filter demo_exec (capture_file (xe_temp_dir demo_exec) 3 Stdout) (''a'' @ [LF] @ ''b'' @ [LF]) demo_exec_state = (True, s1)"
      "slot_free (xe_temp_dir demo_exec) 3 s1"
    by (rule persist_pre_filter_captured[OF demo_slot_free])
  obtain s2 where 2: "persist_pre_filter demo_exec (capture_file (xe_temp_dir demo_exec) 3 Interleaved) (''a'' @ [LF] @ ''e'' @ [LF] @ ''b'' @ [LF]) s1 = (True, s2)"
    by (rule persist_pre_filter_captured[OF 1(2)])
  have "cr_pattern demo_rule ''ls''" by (simp add: demo_rule_def)
  then show ?thesis
    by (simp add: run_exec_def run_with_timeout_def demo_drained demo_streams[simplified] demo_persist[simplified] demo_texts[simplified]
      apply_filter_rules_def demo_filtered[simplified] persist_capped_def capture_paths 1[simplified] 2[simplified] Let_def shell_output_new_def
      resource_links_def del: split_streams_fill)
qed


end
