(* ===== verification/Summary.thy ===== *)
theory Summary
  imports FileAnalysis
begin

text \<open>
  The reports on a directory and on a symbol: \<open>formatter/summary.rs\<close>, with \<open>aggregate_dir_stats\<close> and
  \<open>render_top_files_section\<close> of \<open>formatter/emit.rs\<close> and \<open>format_focused_paginated\<close> of
  \<open>formatter/pagination.rs\<close>, of \<open>crates/aptu-coder-core/src\<close>. The iteration order of a hash map is a
  parameter (\<open>iter\<close>), as are \<open>canonicalize\<close> (\<open>canon\<close>) and \<open>Path::to_string_lossy\<close> (\<open>path_str\<close>).
\<close>

section \<open>Totals\<close>

definition depth_label :: "nat option \<Rightarrow> string" where
  "depth_label max_depth =
     (case max_depth of Some n \<Rightarrow> if n > 0 then '' (max_depth='' @ nat_str n @ '')'' else [] | None \<Rightarrow> [])"

definition lang_counts :: "file_info list \<Rightarrow> (string \<times> nat) list" where
  "lang_counts results =
     fold (\<lambda>a m. ainsert (fl_language a) (case alookup (fl_language a) m of Some n \<Rightarrow> n + 1 | None \<Rightarrow> 1) m) results []"

definition percentage :: "nat \<Rightarrow> nat \<Rightarrow> nat" where
  "percentage n tot = (if tot = 0 then 0 else n * 100 div tot)"

text \<open>\<open>max_by_key\<close> takes the last of several maxima.\<close>

fun last_max :: "('a \<times> nat) list \<Rightarrow> ('a \<times> nat) option" where
  "last_max [] = None"
| "last_max (x # xs) = (case last_max xs of None \<Rightarrow> Some x | Some y \<Rightarrow> Some (if snd x \<le> snd y then y else x))"

text \<open>The entries of a hash map in the order its keys are iterated.\<close>

definition in_order :: "('k list \<Rightarrow> 'k list) \<Rightarrow> ('k \<times> 'v) list \<Rightarrow> ('k \<times> 'v) list" where
  "in_order iter m = map (\<lambda>k. (k, the (alookup k m))) (iter (map fst m))"

definition primary_lang :: "(string list \<Rightarrow> string list) \<Rightarrow> file_info list \<Rightarrow> string" where
  "primary_lang iter results =
     (case last_max (in_order iter (lang_counts results)) of
        None \<Rightarrow> ''unknown 0%''
      | Some (name, count) \<Rightarrow> name @ '' '' @ nat_str (percentage count (length results)) @ ''%'')"

definition languages_line :: "file_info list \<Rightarrow> string" where
  "languages_line results =
     (if lang_counts results = [] then []
      else line (''Languages: '' @ join '', '' (map (\<lambda>(name, count). name @ '' ('' @ nat_str (percentage count (length results)) @ ''%)'')
        (sort_key fst (lang_counts results)))))"

definition stats_str :: "nat \<Rightarrow> nat \<Rightarrow> nat \<Rightarrow> string" where
  "stats_str loc fs cs = nat_str loc @ ''L, '' @ nat_str fs @ ''F, '' @ nat_str cs @ ''C''"

text \<open>The sums over a list of files: lines, functions and classes.\<close>

definition aggregate_dir_stats :: "file_info list \<Rightarrow> nat \<times> nat \<times> nat" where
  "aggregate_dir_stats fs =
     (sum_list (map fl_line_count fs), sum_list (map fl_function_count fs), sum_list (map fl_class_count fs))"

definition files_label :: "file_info list \<Rightarrow> string" where
  "files_label results =
     nat_str (length results) @ '' files ('' @ nat_str (length (filter (\<lambda>a. \<not> fl_is_test a) results)) @ '' prod, '' @
     nat_str (length (filter fl_is_test results)) @ '' test), ''"

definition totals :: "file_info list \<Rightarrow> string" where
  "totals results = (let (loc, fs, cs) = aggregate_dir_stats results in stats_str loc fs cs)"

definition analysis_map :: "file_info list \<Rightarrow> (string \<times> file_info) list" where
  "analysis_map results = fold (\<lambda>a m. ainsert (fl_path a) a m) results []"

text \<open>\<open>file_name\<close> as text, a question mark when there is none or it is not UTF-8.\<close>

definition shown_name :: "path \<Rightarrow> string" where
  "shown_name p = (case path_file_name p of Some n \<Rightarrow> if utf8_valid n then n else ''?'' | None \<Rightarrow> ''?'')"

section \<open>The tree of a directory\<close>

text \<open>The line of an entry in the main part, or in the part for test files.\<close>

definition tree_line :: "(string \<times> file_info) list \<Rightarrow> bool \<Rightarrow> walk_entry \<Rightarrow> string" where
  "tree_line m tests e =
     (let indent = concat (replicate (we_depth e - 1) ''  ''); name = shown_name (we_path e) in
      if we_depth e = 0 then []
      else if we_is_dir e then (if tests then [] else line (indent @ name @ ''/''))
      else case alookup (path_display (we_path e)) m of
          None \<Rightarrow> []
        | Some a \<Rightarrow>
            (case format_file_info_parts (fl_line_count a) (fl_function_count a) (fl_class_count a) of
               None \<Rightarrow> []
             | Some info \<Rightarrow> if fl_is_test a = tests then line (indent @ name @ '' '' @ info) else []))"

definition format_structure ::
    "(string list \<Rightarrow> string list) \<Rightarrow> walk_entry list \<Rightarrow> file_info list \<Rightarrow> nat option \<Rightarrow> string" where
  "format_structure iter entries results max_depth =
     (let m = analysis_map results; test_buf = concat (map (tree_line m True) entries) in
      line (nat_str (length results) @ '' files, '' @ totals results @ '' ('' @ primary_lang iter results @ '')'') @
      line ''SUMMARY:'' @ line (''Shown: '' @ files_label results @ totals results @ depth_label max_depth) @
      languages_line results @ [LF] @ line ''PATH [LOC, FUNCTIONS, CLASSES]'' @
      concat (map (tree_line m False) entries) @
      (if test_buf = [] then [] else [LF] @ line ''TEST FILES [LOC, FUNCTIONS, CLASSES]'' @ test_buf))"

section \<open>The summary of a directory\<close>

text \<open>The binary search over the sorted counts.\<close>

function bsearch :: "'k::linorder \<Rightarrow> ('k \<times> 'v) list \<Rightarrow> nat \<Rightarrow> nat \<Rightarrow> 'v option" where
  "bsearch k xs lo hi =
     (if lo < hi \<and> hi \<le> length xs then
        let mid = lo + (hi - lo) div 2; x = xs ! mid in
        if fst x = k then Some (snd x) else if fst x < k then bsearch k xs (mid + 1) hi else bsearch k xs lo mid
      else None)"
  by pat_completeness auto
termination by (relation "measure (\<lambda>(_, _, lo, hi). hi - lo)") auto

declare bsearch.simps [simp del]

definition binary_search :: "'k::linorder \<Rightarrow> ('k \<times> 'v) list \<Rightarrow> 'v option" where
  "binary_search k xs = bsearch k xs 0 (length xs)"

definition top_file :: "path \<Rightarrow> bool \<Rightarrow> file_info \<Rightarrow> string" where
  "top_file dir_path has_classes f =
     (case path_strip_prefix (parse_path (fl_path f)) dir_path of
        None \<Rightarrow> shown_name (parse_path (fl_path f)) | Some p \<Rightarrow> path_display p) @
     ''('' @ nat_str (if has_classes then fl_class_count f else fl_function_count f) @ (if has_classes then ''C)'' else ''F)'')"

definition render_top_files_section :: "file_info list \<Rightarrow> path \<Rightarrow> bool \<Rightarrow> string" where
  "render_top_files_section files dir_path has_classes =
     (let sorted = (if has_classes
            then sort_key (\<lambda>f. (- int (fl_class_count f), - int (fl_function_count f), fl_path f)) files
            else sort_key (\<lambda>f. (- int (fl_function_count f), 0::int, fl_path f)) files);
          top_n = map (top_file dir_path has_classes)
            (filter (\<lambda>f. if has_classes then fl_class_count f > 0 else fl_function_count f > 0) (take 3 sorted))
      in if top_n = [] then [] else '' top: '' @ join '', '' top_n)"

definition subdirs_suffix :: "walk_entry list \<Rightarrow> path \<Rightarrow> string" where
  "subdirs_suffix entries dir =
     (let subdirs = remdups_adj (sort (List.map_filter (\<lambda>e. Option.bind (path_file_name (we_path e)) (\<lambda>n. if utf8_valid n then Some n else None))
            (filter (\<lambda>e. we_depth e = 2 \<and> we_is_dir e \<and> path_starts_with (we_path e) dir) entries)))
      in if subdirs = [] then [] else ''  sub: '' @ join '', '' (map (\<lambda>s. s @ ''/'') (take 5 subdirs)))"

text \<open>The largest directory so far: its name and canonical path, and its count.\<close>

type_synonym largest = "(string \<times> string) option \<times> nat"

definition track_largest :: "(path \<Rightarrow> path option) \<Rightarrow> walk_entry \<Rightarrow> nat \<Rightarrow> largest \<Rightarrow> largest" where
  "track_largest canon e count st =
     (if shown_name (we_path e) \<notin> set EXCLUDED_DIRS \<and> count > snd st
      then (Some (shown_name (we_path e), path_display (canon_or_self canon (we_path e))), count) else st)"

definition files_in_dir :: "file_info list \<Rightarrow> walk_entry \<Rightarrow> file_info list" where
  "files_in_dir results e = filter (\<lambda>f. path_starts_with (parse_path (fl_path f)) (we_path e)) results"

text \<open>The count shown for a directory: from the whole subtree where it is known, else of the analyzed files.\<close>

definition effective_count :: "(path \<times> nat) list option \<Rightarrow> file_info list \<Rightarrow> walk_entry \<Rightarrow> nat" where
  "effective_count subtree_counts results e =
     (case subtree_counts of
        None \<Rightarrow> length (files_in_dir results e)
      | Some counts \<Rightarrow> (case binary_search (we_path e) counts of Some n \<Rightarrow> n | None \<Rightarrow> length (files_in_dir results e)))"

definition depth_val :: "nat option \<Rightarrow> string" where
  "depth_val max_depth = nat_str (case max_depth of Some d \<Rightarrow> d | None \<Rightarrow> 0)"

definition summary_dir_line ::
    "walk_entry list \<Rightarrow> file_info list \<Rightarrow> nat option \<Rightarrow> (path \<times> nat) list option \<Rightarrow> walk_entry \<Rightarrow> string" where
  "summary_dir_line entries results max_depth subtree_counts e =
     (let name = shown_name (we_path e); files = files_in_dir results e; true_count = effective_count subtree_counts results e in
      if files = [] then
        (if subtree_counts \<noteq> None \<and> true_count > 0
         then line (''  '' @ name @ ''/ ['' @ nat_str true_count @ '' files total; showing 0 at depth='' @ depth_val max_depth @ '', 0L, 0F, 0C]'')
         else line (''  '' @ name @ ''/''))
      else
        let (loc, fs, cs) = aggregate_dir_stats files;
            hint = (if length files > 1 \<and> (cs > 0 \<or> fs > 0)
                    then render_top_files_section files (parse_path (path_display (we_path e))) (list_ex (\<lambda>f. fl_class_count f > 0) files)
                    else []);
            label = (if subtree_counts = None \<or> true_count = length files
                     then nat_str (length files) @ '' files, '' @ stats_str loc fs cs
                     else nat_str true_count @ '' files total; showing '' @ nat_str (length files) @ '' at depth='' @ depth_val max_depth @
                       '', '' @ stats_str loc fs cs)
        in line (''  '' @ name @ ''/ ['' @ label @ '']'' @ hint @ subdirs_suffix entries (we_path e)))"

definition summary_file_line :: "(string \<times> file_info) list \<Rightarrow> walk_entry \<Rightarrow> string" where
  "summary_file_line m e =
     (case alookup (path_display (we_path e)) m of
        None \<Rightarrow> []
      | Some a \<Rightarrow>
          (case format_file_info_parts (fl_line_count a) (fl_function_count a) (fl_class_count a) of
             Some info \<Rightarrow> line (''  '' @ shown_name (we_path e) @ '' '' @ info)
           | None \<Rightarrow> line (''  '' @ shown_name (we_path e))))"

definition summary_step ::
    "(path \<Rightarrow> path option) \<Rightarrow> walk_entry list \<Rightarrow> file_info list \<Rightarrow> nat option \<Rightarrow> (path \<times> nat) list option \<Rightarrow> walk_entry \<Rightarrow>
     string \<times> largest \<Rightarrow> string \<times> largest" where
  "summary_step canon entries results max_depth subtree_counts e st =
     (if we_is_dir e then
        (fst st @ summary_dir_line entries results max_depth subtree_counts e,
         if files_in_dir results e = [] \<and> subtree_counts = None then snd st
         else track_largest canon e (effective_count subtree_counts results e) (snd st))
      else (fst st @ summary_file_line (analysis_map results) e, snd st))"

definition depth1_entries :: "walk_entry list \<Rightarrow> walk_entry list" where
  "depth1_entries entries = sort_key we_path (filter (\<lambda>e. we_depth e = 1) entries)"

definition suggestion :: "largest \<Rightarrow> string" where
  "suggestion st =
     (case fst st of
        Some (name, p) \<Rightarrow> line (''SUGGESTION: Largest source directory: '' @ name @ ''/ ('' @ nat_str (snd st) @
          '' files total). For module details, re-run with path='' @ p @ '' and max_depth=2.'')
      | None \<Rightarrow> line ''SUGGESTION:'' @ line ''Use a narrower path for details (e.g., analyze src/core/)'')"

definition format_summary ::
    "(path \<Rightarrow> path option) \<Rightarrow> walk_entry list \<Rightarrow> file_info list \<Rightarrow> nat option \<Rightarrow> (path \<times> nat) list option \<Rightarrow> string" where
  "format_summary canon entries results max_depth subtree_counts =
     (let (structure, largest) = fold (summary_step canon entries results max_depth subtree_counts) (depth1_entries entries) ([], (None, 0)) in
      line ''SUMMARY:'' @ line (files_label results @ totals results @ depth_label max_depth) @ languages_line results @ [LF] @
      line ''STRUCTURE (depth 1):'' @ structure @ [LF] @ suggestion largest)"

section \<open>The report on a symbol\<close>

definition is_test_chain :: "chain \<Rightarrow> bool" where
  "is_test_chain c = (case c of [] \<Rightarrow> False | (name, p, _) # _ \<Rightarrow> is_test_file p \<or> prefix ''test_'' name)"

record prologue =
  pr_output :: string
  pr_prod :: "chain list"
  pr_test :: "chain list"
  pr_outgoing :: "chain list"

definition definition_lines :: "call_graph \<Rightarrow> string \<Rightarrow> path option \<Rightarrow> string" where
  "definition_lines g symbol base_path =
     (case alookup symbol (cg_definitions g) of
        None \<Rightarrow> line ''DEFINED: (not found)''
      | Some defs \<Rightarrow> line ''DEFINED:'' @
          concat (map (\<lambda>(p, l). line (''  '' @ strip_base_path p base_path @ '':'' @ nat_str l)) defs))"

definition focused_prologue ::
    "call_graph \<Rightarrow> string \<Rightarrow> nat \<Rightarrow> path option \<Rightarrow> chain list option \<Rightarrow> chain list option \<Rightarrow> graph_error + prologue" where
  "focused_prologue g symbol follow_depth base_path incoming_chains outgoing_chains =
     (case (case incoming_chains of Some inc \<Rightarrow> Inr inc | None \<Rightarrow> find_incoming_chains g symbol follow_depth) of
        Inl e \<Rightarrow> Inl e
      | Inr incoming \<Rightarrow>
          (case (case outgoing_chains of Some out \<Rightarrow> Inr out | None \<Rightarrow> find_outgoing_chains g symbol follow_depth) of
             Inl e \<Rightarrow> Inl e
           | Inr outgoing \<Rightarrow>
               let prod = filter (\<lambda>c. \<not> is_test_chain c) incoming; tst = filter is_test_chain incoming in
               Inr \<lparr>pr_output =
                   line (''FOCUS: '' @ symbol @ '' ('' @ nat_str (length (lookups symbol (cg_definitions g))) @ '' defs, '' @
                     nat_str (unique_first_count prod) @ '' callers, '' @ nat_str (unique_first_count outgoing) @ '' callees)'') @
                   line (''DEPTH: '' @ nat_str follow_depth) @ definition_lines g symbol base_path,
                 pr_prod = prod, pr_test = tst, pr_outgoing = outgoing\<rparr>))"

text \<open>The files of the test callers, sorted and without duplicates.\<close>

definition test_caller_files :: "(path \<Rightarrow> string) \<Rightarrow> chain list \<Rightarrow> string list" where
  "test_caller_files path_str chs =
     remdups_adj (sort (List.map_filter (\<lambda>c. case c of [] \<Rightarrow> None | (_, p, _) # _ \<Rightarrow> Some (path_str p)) chs))"

definition chain_tree :: "chain list \<Rightarrow> string \<Rightarrow> string \<Rightarrow> string" where
  "chain_tree chs arrow symbol =
     (let refs = List.map_filter chain_arrow chs in
      if refs = [] then line ''  (none)'' else format_chains_as_tree refs arrow symbol)"

definition chain_paths :: "chain list \<Rightarrow> path list" where
  "chain_paths chs = concat (map (map (\<lambda>(_, p, _). p)) chs)"

definition files_section :: "path list \<Rightarrow> path option \<Rightarrow> string" where
  "files_section files base_path =
     (let prod = remdups_adj (sort (filter (\<lambda>p. \<not> is_test_file p) files)); tst = remdups_adj (sort (filter is_test_file files)) in
      line ''FILES:'' @
      (if prod = [] \<and> tst = [] then line ''  (none)''
       else concat (map (\<lambda>p. line (''  '' @ strip_base_path p base_path)) prod) @
         (if tst = [] then [] else line ''  TEST FILES:'' @ concat (map (\<lambda>p. line (''    '' @ strip_base_path p base_path)) tst))))"

definition render_focused_full ::
    "(path \<Rightarrow> string) \<Rightarrow> prologue \<Rightarrow> path option \<Rightarrow> def_use_site list \<Rightarrow> string \<Rightarrow> call_graph \<Rightarrow> string option" where
  "render_focused_full path_str pr base_path sites symbol g =
     (let body = pr_output pr @ line ''CALLERS:'' @ chain_tree (pr_prod pr) ''<-'' symbol @
            (if pr_test pr = [] then []
             else line (''CALLERS (test): '' @ nat_str (length (pr_test pr)) @ '' test functions (in '' @
               join '', '' (map (\<lambda>f. strip_base_path (parse_path f) base_path) (test_caller_files path_str (pr_test pr))) @ '')'')) @
            line ''CALLEES:'' @ chain_tree (pr_outgoing pr) ''->'' symbol @
            files_section (chain_paths (pr_prod pr) @ chain_paths (pr_outgoing pr) @ map fst (lookups symbol (cg_definitions g))) base_path
      in if sites = [] then Some body
         else
           let (w, r) = def_use_write_read_counts sites in
           case (render_def_use_group sites ''WRITES'' is_write base_path,
                 render_def_use_group sites ''READS'' (\<lambda>s. du_kind s = DuRead) base_path) of
             (Some ws, Some rs) \<Rightarrow> Some (body @ line (''DEF-USE SITES  '' @ symbol @ ''  ('' @ nat_str (length sites) @ '' total: '' @
                 nat_str w @ '' writes, '' @ nat_str r @ '' reads)'') @ ws @ rs)
           | _ \<Rightarrow> None)"

text \<open>The names by frequency: unstable sorting of a hash map gives any order of equal counts, as \<open>iter\<close> does.\<close>

definition caller_freq :: "path option \<Rightarrow> chain list \<Rightarrow> (string \<times> nat \<times> string) list" where
  "caller_freq base_path chs =
     fold (\<lambda>c m. case c of [] \<Rightarrow> m
       | (name, p, _) # _ \<Rightarrow> ainsert name (case alookup name m of Some (n, f) \<Rightarrow> (n + 1, f) | None \<Rightarrow> (1, strip_base_path p base_path)) m) chs []"

definition callee_freq :: "chain list \<Rightarrow> (string \<times> nat) list" where
  "callee_freq chs =
     fold (\<lambda>c m. case c of [] \<Rightarrow> m
       | (name, _) # _ \<Rightarrow> ainsert name (case alookup name m of Some n \<Rightarrow> n + 1 | None \<Rightarrow> 1) m) chs []"

definition render_focused_summary ::
    "(string list \<Rightarrow> string list) \<Rightarrow> (path \<Rightarrow> string) \<Rightarrow> prologue \<Rightarrow> path option \<Rightarrow> def_use_site list \<Rightarrow> string" where
  "render_focused_summary iter path_str pr base_path sites =
     pr_output pr @ line ''CALLERS (top 10):'' @
     (if pr_prod pr = [] then line ''  (none)''
      else concat (map (\<lambda>(name, _, file). line (''  '' @ name @ '' '' @ file))
        (take 10 (sort_key (\<lambda>(_, n, _). - int n) (in_order iter (caller_freq base_path (pr_prod pr))))))) @
     (if pr_test pr = [] then []
      else line (''CALLERS (test): '' @ nat_str (length (pr_test pr)) @ '' test functions (in '' @
        nat_str (length (test_caller_files path_str (pr_test pr))) @ '' files)'')) @
     line ''CALLEES (top 10):'' @
     (if pr_outgoing pr = [] then line ''  (none)''
      else concat (map (\<lambda>(name, _). line (''  '' @ name))
        (take 10 (sort_key (\<lambda>(_, n). - int n) (in_order iter (callee_freq (pr_outgoing pr))))))) @
     line ''SUGGESTION:'' @ line ''Use summary=false with force=true for full output'' @
     (if sites = [] then []
      else let (w, r) = def_use_write_read_counts sites in
        line (''DEF-USE SITES: '' @ nat_str (length sites) @ '' total ('' @ nat_str w @ '' writes, '' @ nat_str r @ '' reads)''))"

definition format_focused_internal ::
    "(path \<Rightarrow> string) \<Rightarrow> call_graph \<Rightarrow> string \<Rightarrow> nat \<Rightarrow> path option \<Rightarrow> chain list option \<Rightarrow> chain list option \<Rightarrow> def_use_site list \<Rightarrow>
     (graph_error, string) outcome" where
  "format_focused_internal path_str g symbol follow_depth base_path incoming outgoing sites =
     (case focused_prologue g symbol follow_depth base_path incoming outgoing of
        Inl e \<Rightarrow> Err e
      | Inr pr \<Rightarrow> or_panic (render_focused_full path_str pr base_path sites symbol g))"

definition format_focused_summary_internal ::
    "(string list \<Rightarrow> string list) \<Rightarrow> (path \<Rightarrow> string) \<Rightarrow> call_graph \<Rightarrow> string \<Rightarrow> nat \<Rightarrow> path option \<Rightarrow> chain list option \<Rightarrow>
     chain list option \<Rightarrow> def_use_site list \<Rightarrow> graph_error + string" where
  "format_focused_summary_internal iter path_str g symbol follow_depth base_path incoming outgoing sites =
     map_sum id (\<lambda>pr. render_focused_summary iter path_str pr base_path sites)
       (focused_prologue g symbol follow_depth base_path incoming outgoing)"

definition format_focused_summary ::
    "(string list \<Rightarrow> string list) \<Rightarrow> (path \<Rightarrow> string) \<Rightarrow> call_graph \<Rightarrow> string \<Rightarrow> nat \<Rightarrow> path option \<Rightarrow> graph_error + string" where
  "format_focused_summary iter path_str g symbol follow_depth base_path =
     format_focused_summary_internal iter path_str g symbol follow_depth base_path None None []"

section \<open>A page of the report\<close>

text \<open>The two other modes are an \<open>unreachable!\<close>, here \<open>None\<close>. Positions wrap as in a release build.\<close>

definition format_focused_paginated ::
    "(path \<Rightarrow> string) \<Rightarrow> chain list \<Rightarrow> nat \<Rightarrow> pagination_mode \<Rightarrow> string \<Rightarrow> chain list \<Rightarrow> chain list \<Rightarrow> chain list \<Rightarrow> nat \<Rightarrow> nat \<Rightarrow>
     path option \<Rightarrow> string option" where
  "format_focused_paginated path_str page tot mode symbol prod_chains test_chains outgoing def_count offset base_path =
     (let range = nat_str ((offset + 1) mod 2 ^ 64) @ ''-'' @ nat_str ((offset + length page) mod 2 ^ 64) @ '' of '' @ nat_str tot;
          hdr = line (''FOCUS: '' @ symbol @ '' ('' @ nat_str def_count @ '' defs, '' @ nat_str (length prod_chains) @ '' callers, '' @
            nat_str (length outgoing) @ '' callees)'')
      in case mode of
           PageCallers \<Rightarrow> Some (hdr @ line (''CALLERS ('' @ range @ ''):'') @ render_paginated_page page ''<-'' symbol @
             (if test_chains = [] then []
              else line (''CALLERS (test): '' @ nat_str (length test_chains) @ '' test functions (in '' @
                join '', '' (map (\<lambda>f. strip_base_path (parse_path f) base_path) (test_caller_files path_str test_chains)) @ '')'')) @
             (if first_names outgoing = {} then line ''CALLEES: (none)''
              else line (''CALLEES: '' @ nat_str (length outgoing) @ '' (use cursor for callee pagination)'')))
         | PageCallees \<Rightarrow> Some (hdr @ line (''CALLERS: '' @ nat_str (length prod_chains) @ '' production callers'') @
             (if test_chains = [] then [] else line (''CALLERS (test): '' @ nat_str (length test_chains) @ '' test functions'')) @
             line (''CALLEES ('' @ range @ ''):'') @ render_paginated_page page ''->'' symbol)
         | _ \<Rightarrow> None)"

end
