(* ===== verification/Focused.thy ===== *)
theory Focused
  imports Summary GraphStore
begin

text \<open>
  The analysis of one symbol over a directory, \<open>crates/aptu-coder-core/src/analyze_focused.rs\<close>: the analysis of
  every file, the tiers of the structural graph, symbol resolution with the filter on trait
  implementations, call chains and definition and use sites. The parser's entry points, the hash and the
  environment are in the parameter \<open>Z\<close>, as are the moments at which the cancellation token is seen set.
  The parallel map keeps the order of the files; only the order in which timeouts arrive is a parameter.
\<close>

section \<open>Parameters and results\<close>

record focus_env =
  fz_extract :: "string \<Rightarrow> string \<Rightarrow> nat option \<Rightarrow> nat option \<Rightarrow> parser_error + semantic_analysis"
  fz_def_use :: "string \<Rightarrow> string \<Rightarrow> string \<Rightarrow> string \<Rightarrow> nat option \<Rightarrow> def_use_site list"
  fz_lower :: "string \<Rightarrow> string"
  fz_hash :: "string \<Rightarrow> string"
  fz_hex :: "string \<Rightarrow> string"
  fz_path_str :: "path \<Rightarrow> string"
  fz_iter :: "string list \<Rightarrow> string list"
  fz_arrival :: "(path \<times> nat) list \<Rightarrow> (path \<times> nat) list"
  fz_view :: file_view
  fz_is_file :: "path \<Rightarrow> bool"
  fz_cancelled :: "nat \<Rightarrow> bool"
  fz_cancelled_file :: "path \<Rightarrow> bool"
  fz_cancelled_site :: "path \<Rightarrow> bool"
  fz_data_home :: "string option"
  fz_home :: "string option"
  fz_cache_dir :: "string option"
  fz_cache_max :: "string option"
  fz_graphs :: graph_codec

record focused_config =
  fc_focus :: string
  fc_match_mode :: symbol_match_mode
  fc_follow_depth :: nat
  fc_limit :: "nat option"
  fc_use_summary :: bool
  fc_impl_only :: "bool option"
  fc_def_use :: bool
  fc_timeout :: "nat option"

record call_chain_entry =
  cc_symbol :: string
  cc_file :: string
  cc_line :: nat

record focused_output =
  fo_formatted :: string
  fo_next_cursor :: "string option"
  fo_prod_chains :: "chain list"
  fo_test_chains :: "chain list"
  fo_outgoing_chains :: "chain list"
  fo_def_count :: nat
  fo_unfiltered_callers :: nat
  fo_impl_callers :: nat
  fo_callers :: "call_chain_entry list option"
  fo_test_callers :: "call_chain_entry list option"
  fo_callees :: "call_chain_entry list option"
  fo_sites :: "def_use_site list"
  fo_content_hash :: "string option"

text \<open>The variants of \<open>AnalyzeError\<close> these functions return.\<close>

datatype focused_error = FocusCancelled | FocusTimeout path nat | FocusGraph graph_error | FocusFormatter graph_error
  | FocusTraversal traversal_error

section \<open>The analysis of the files\<close>

definition read_text :: "file_view \<Rightarrow> path \<Rightarrow> string option" where
  "read_text v p = (case fv_read v p of Inr bytes \<Rightarrow> if utf8_valid bytes then Some bytes else None | Inl _ \<Rightarrow> None)"

text \<open>What one file adds: its hash, its analysis, its timeout, and whether it counts as progress.\<close>

record file_report =
  rp_hash :: "(path \<times> string) option"
  rp_result :: "(path \<times> semantic_analysis) option"
  rp_timeout :: "(path \<times> nat) option"
  rp_counted :: bool

definition locate :: "path \<Rightarrow> semantic_analysis \<Rightarrow> semantic_analysis" where
  "locate p sem = (set_locations (path_display p) sem)
     \<lparr>sa_impl_traits := map (\<lambda>i. i\<lparr>it_path := p\<rparr>) (sa_impl_traits sem)\<rparr>"

definition analyze_entry :: "focus_env \<Rightarrow> focused_config \<Rightarrow> walk_entry \<Rightarrow> file_report" where
  "analyze_entry Z c e =
     (let p = we_path e; nothing = \<lparr>rp_hash = None, rp_result = None, rp_timeout = None, rp_counted = True\<rparr> in
      if fz_cancelled_file Z p then nothing\<lparr>rp_counted := False\<rparr>
      else if too_large (fz_view Z) p then nothing
      else case read_text (fz_view Z) p of
        None \<Rightarrow> nothing
      | Some source \<Rightarrow>
          let hashed = nothing\<lparr>rp_hash := Some (p, fz_hash Z source)\<rparr>;
              language = (case path_language p of Some l \<Rightarrow> l | None \<Rightarrow> ''unknown'')
          in case fz_extract Z source language (fc_limit c) (fc_timeout c) of
               Inr sem \<Rightarrow> hashed\<lparr>rp_result := Some (p, locate p sem)\<rparr>
             | Inl (ParserTimeout micros) \<Rightarrow> hashed\<lparr>rp_timeout := Some (p, micros)\<rparr>
             | Inl _ \<Rightarrow> hashed)"

definition collect_file_analysis ::
    "focus_env \<Rightarrow> focused_config \<Rightarrow> walk_entry list \<Rightarrow>
     nat \<times> (focused_error + (path \<times> semantic_analysis) list \<times> impl_trait_info list \<times> (path \<times> string) list)" where
  "collect_file_analysis Z c entries =
     (if fz_cancelled Z 1 then (0, Inl FocusCancelled)
      else
        let reports = map (analyze_entry Z c) (init_analysis_context entries);
            results = List.map_filter rp_result reports
        in (length (filter rp_counted reports),
            if fz_cancelled Z 2 then Inl FocusCancelled
            else case fz_arrival Z (List.map_filter rp_timeout reports) of
                (p, micros) # _ \<Rightarrow> Inl (FocusTimeout p micros)
              | [] \<Rightarrow> Inr (results, concat (map (\<lambda>(_, sem). sa_impl_traits sem) results), List.map_filter rp_hash reports)))"

section \<open>The structural graph\<close>

definition compute_cache_key :: "focus_env \<Rightarrow> path \<Rightarrow> walk_entry list \<Rightarrow> (path \<times> string) list \<Rightarrow> string option" where
  "compute_cache_key Z root entries precomputed =
     (let hash_map = fold (\<lambda>(p, h). ainsert p h) precomputed [];
          hash = (\<lambda>p. case alookup p hash_map of Some h \<Rightarrow> Some h
            | None \<Rightarrow> (case fv_read (fz_view Z) p of Inr bytes \<Rightarrow> Some (fz_hash Z bytes) | Inl _ \<Rightarrow> None))
      in map_option (graph_cache_key (fz_hex Z) (fz_path_str Z) root)
           (those (map (\<lambda>e. map_option (Pair (we_path e)) (hash (we_path e))) (init_analysis_context entries))))"

definition create_graph_store :: "focus_env \<Rightarrow> disk \<Rightarrow> graph_store \<times> disk" where
  "create_graph_store Z =
     (let data_home = (case fz_data_home Z of Some h \<Rightarrow> parse_path h
            | None \<Rightarrow> (case fz_home Z of Some h \<Rightarrow> path_join (parse_path h) (parse_path ''.local/share'') | None \<Rightarrow> []));
          base = (case fz_cache_dir Z of Some dir \<Rightarrow> parse_path dir
            | None \<Rightarrow> path_join (path_join data_home (parse_path ''aptu-coder'')) (parse_path ''analysis-cache''));
          max_bytes = (case Option.bind (fz_cache_max Z) (parse_nat (2 ^ 64)) of Some n \<Rightarrow> n | None \<Rightarrow> DEFAULT_MAX_DISK_CACHE_BYTES)
      in graph_store_with_max_bytes base max_bytes)"

text \<open>The disk, the graph cache when there is one, and the files counted.\<close>

record 'c focus_state =
  fs_disk :: disk
  fs_cache :: "'c lru_state option"
  fs_progress :: nat

definition cache_graph ::
    "(string, structural_graph, 'c) lru_ops \<Rightarrow> string \<Rightarrow> structural_graph \<Rightarrow> 'c focus_state \<Rightarrow> 'c focus_state" where
  "cache_graph L key sg s = s\<lparr>fs_cache := map_option (lru_put L key sg) (fs_cache s)\<rparr>"

definition cached_graph ::
    "(string, structural_graph, 'c) lru_ops \<Rightarrow> string \<Rightarrow> 'c focus_state \<Rightarrow> structural_graph option \<times> 'c focus_state" where
  "cached_graph L key s =
     (case fs_cache s of
        None \<Rightarrow> (None, s)
      | Some m \<Rightarrow> let (r, m) = lru_get L key m in (r, s\<lparr>fs_cache := Some m\<rparr>))"

text \<open>The store when the graph must be built; an outer \<open>None\<close> is a panic.\<close>

definition graph_tier ::
    "focus_env \<Rightarrow> (string, structural_graph, 'c) lru_ops \<Rightarrow> string \<Rightarrow> 'c focus_state \<Rightarrow>
     (graph_store option \<times> 'c focus_state) option" where
  "graph_tier Z L key s =
     (let (hit, s) = cached_graph L key s in
      if hit \<noteq> None then Some (None, s)
      else
        let (store, d) = create_graph_store Z (fs_disk s) in
        case graph_get (fz_graphs Z) store key d of
          None \<Rightarrow> None
        | Some (Some graph, d) \<Rightarrow> Some (None, cache_graph L key graph (s\<lparr>fs_disk := d\<rparr>))
        | Some (None, d) \<Rightarrow> Some (Some store, s\<lparr>fs_disk := d\<rparr>))"

definition build_structural :: "focus_env \<Rightarrow> (path \<times> semantic_analysis) list \<Rightarrow> call_graph \<Rightarrow> structural_graph" where
  "build_structural Z results g =
     from_call_graph (fz_path_str Z) (map (\<lambda>(p, sem). file_output (fz_path_str Z p) [] sem 0) results) g"

definition store_graph ::
    "focus_env \<Rightarrow> (string, structural_graph, 'c) lru_ops \<Rightarrow> string option \<Rightarrow> (path \<times> semantic_analysis) list \<Rightarrow> call_graph \<Rightarrow>
     'c focus_state \<Rightarrow> 'c focus_state option" where
  "store_graph Z L key results g s =
     (case key of
        None \<Rightarrow> Some s
      | Some key \<Rightarrow>
          (case graph_tier Z L key s of
             None \<Rightarrow> None
           | Some (None, s) \<Rightarrow> Some s
           | Some (Some store, s) \<Rightarrow>
               let sg = build_structural Z results g in
               (case graph_put (fz_graphs Z) store key sg (fs_disk s) of
                  None \<Rightarrow> None
                | Some d \<Rightarrow> Some (cache_graph L key sg (s\<lparr>fs_disk := d\<rparr>)))))"

section \<open>The symbol\<close>

definition unique_callers :: "call_graph \<Rightarrow> string \<Rightarrow> nat" where
  "unique_callers g symbol = card (set (map ce_neighbor (lookups symbol (cg_callers g))))"

text \<open>The resolved name, the counts of callers before and after the filter, and the filtered graph.\<close>

definition resolve_focus ::
    "focus_env \<Rightarrow> focused_config \<Rightarrow> call_graph \<Rightarrow> graph_error + (string \<times> nat \<times> nat \<times> call_graph)" where
  "resolve_focus Z c g =
     (let resolved =
            (if fc_match_mode c = Exact then
               (if alookup (fc_focus c) (cg_definitions g) \<noteq> None \<or> alookup (fc_focus c) (cg_callers g) \<noteq> None \<or>
                   alookup (fc_focus c) (cg_callees g) \<noteq> None
                then Inr (fc_focus c) else Inl (SymbolNotFound (fc_focus c) exact_hint))
             else resolve_symbol_indexed (fz_lower Z) g (fc_focus c) (fc_match_mode c))
      in case resolved of
           Inl e \<Rightarrow> Inl e
         | Inr symbol \<Rightarrow>
             let unfiltered = unique_callers g symbol;
                 g' = (if fc_impl_only c = Some True then retain_impl g else g)
             in Inr (symbol, unfiltered, if fc_impl_only c = Some True then unique_callers g' symbol else unfiltered, g'))"

section \<open>Chains\<close>

definition chain_entry :: "path option \<Rightarrow> chain \<Rightarrow> call_chain_entry option" where
  "chain_entry root c =
     (case c of [] \<Rightarrow> None
      | (symbol, p, ln) # _ \<Rightarrow>
          Some \<lparr>cc_symbol = symbol, cc_file = path_display (case root of Some r \<Rightarrow> relative_to r p | None \<Rightarrow> p), cc_line = ln\<rparr>)"

definition chains_to_entries :: "chain list \<Rightarrow> path option \<Rightarrow> call_chain_entry list option" where
  "chains_to_entries chs root =
     (let entries = List.map_filter (chain_entry root) (take 10 chs) in if entries = [] then None else Some entries)"

record chain_data =
  cd_formatted :: string
  cd_prod :: "chain list"
  cd_test :: "chain list"
  cd_outgoing :: "chain list"
  cd_def_count :: nat

definition filter_header :: "nat \<Rightarrow> nat \<Rightarrow> string" where
  "filter_header shown tot = line (''FILTER: impl_only=true ('' @ nat_str shown @ '' of '' @ nat_str tot @ '' callers shown)'')"

definition compute_chains ::
    "focus_env \<Rightarrow> focused_config \<Rightarrow> call_graph \<Rightarrow> string \<Rightarrow> path \<Rightarrow> nat \<Rightarrow> nat \<Rightarrow> def_use_site list \<Rightarrow>
     (focused_error, chain_data) outcome" where
  "compute_chains Z c g symbol root unfiltered impl sites =
     (case (find_incoming_chains g symbol (fc_follow_depth c), find_outgoing_chains g symbol (fc_follow_depth c)) of
        (Inl e, _) \<Rightarrow> Err (FocusGraph e)
      | (_, Inl e) \<Rightarrow> Err (FocusGraph e)
      | (Inr incoming, Inr outgoing) \<Rightarrow>
          let formatted =
                (if fc_use_summary c
                 then (case format_focused_summary_internal (fz_iter Z) (fz_path_str Z) g symbol (fc_follow_depth c) (Some root)
                         (Some incoming) (Some outgoing) sites of Inl e \<Rightarrow> Err e | Inr t \<Rightarrow> Ok t)
                 else format_focused_internal (fz_path_str Z) g symbol (fc_follow_depth c) (Some root) (Some incoming) (Some outgoing) sites)
          in (case formatted of
                Panic \<Rightarrow> Panic
              | Err e \<Rightarrow> Err (FocusFormatter e)
              | Ok t \<Rightarrow> Ok \<lparr>cd_formatted = (if fc_impl_only c = Some True then filter_header impl unfiltered @ t else t),
                  cd_prod = filter (\<lambda>ch. \<not> is_test_chain ch) incoming, cd_test = filter is_test_chain incoming,
                  cd_outgoing = outgoing, cd_def_count = length (lookups symbol (cg_definitions g))\<rparr>))"

text \<open>The direct callers, test callers and callees, whatever the depth of the chains.\<close>

definition direct_entries ::
    "focused_config \<Rightarrow> call_graph \<Rightarrow> string \<Rightarrow> path \<Rightarrow> chain_data \<Rightarrow>
     call_chain_entry list option \<times> call_chain_entry list option \<times> call_chain_entry list option" where
  "direct_entries c g symbol root d =
     (if fc_follow_depth c \<le> 1
      then (chains_to_entries (cd_prod d) (Some root), chains_to_entries (cd_test d) (Some root), chains_to_entries (cd_outgoing d) (Some root))
      else
        let incoming1 = (case find_incoming_chains g symbol 1 of Inr cs \<Rightarrow> cs | Inl _ \<Rightarrow> []);
            outgoing1 = (case find_outgoing_chains g symbol 1 of Inr cs \<Rightarrow> cs | Inl _ \<Rightarrow> [])
        in (chains_to_entries (filter (\<lambda>ch. \<not> is_test_chain ch) incoming1) (Some root),
            chains_to_entries (filter is_test_chain incoming1) (Some root), chains_to_entries outgoing1 (Some root)))"

section \<open>Definition and use sites\<close>

definition entry_sites :: "focus_env \<Rightarrow> string \<Rightarrow> nat option \<Rightarrow> path \<Rightarrow> walk_entry \<Rightarrow> def_use_site list" where
  "entry_sites Z symbol limit root e =
     (let p = we_path e in
      if fz_cancelled_site Z p \<or> too_large (fz_view Z) p then []
      else case read_text (fz_view Z) p of
        None \<Rightarrow> []
      | Some source \<Rightarrow>
          (case language_for_extension (case path_extension p of Some x \<Rightarrow> x | None \<Rightarrow> []) of
             None \<Rightarrow> []
           | Some lang \<Rightarrow> fz_def_use Z source lang symbol (path_display (relative_to root p)) limit))"

definition site_order :: "def_use_site \<Rightarrow> nat \<times> string \<times> nat \<times> nat" where
  "site_order s = (if is_write s then 0 else 1, du_file s, du_line s, du_column s)"

definition collect_def_use_sites :: "focus_env \<Rightarrow> walk_entry list \<Rightarrow> string \<Rightarrow> nat option \<Rightarrow> path \<Rightarrow> def_use_site list" where
  "collect_def_use_sites Z entries symbol limit root =
     sort_key site_order (concat (map (entry_sites Z symbol limit root) (init_analysis_context entries)))"

section \<open>The analysis\<close>

definition empty_focus :: "string \<Rightarrow> focused_output" where
  "empty_focus formatted =
     \<lparr>fo_formatted = formatted, fo_next_cursor = None, fo_prod_chains = [], fo_test_chains = [], fo_outgoing_chains = [],
      fo_def_count = 0, fo_unfiltered_callers = 0, fo_impl_callers = 0, fo_callers = None, fo_test_callers = None,
      fo_callees = None, fo_sites = [], fo_content_hash = None\<rparr>"

text \<open>A symbol that is in no call graph but has definition and use sites.\<close>

definition sites_only :: "focused_config \<Rightarrow> def_use_site list \<Rightarrow> focused_output" where
  "sites_only c sites =
     (let (w, r) = (length (filter is_write sites), length (filter (\<lambda>s. du_kind s = DuRead) sites)) in
      (empty_focus (line (''FOCUS: '' @ fc_focus c @ '' (0 defs, 0 callers, 0 callees)'') @
         line (''DEF-USE SITES  '' @ fc_focus c @ ''  ('' @ nat_str (length sites) @ '' total: '' @ nat_str w @ '' writes, '' @
           nat_str r @ '' reads)'')))\<lparr>fo_sites := sites\<rparr>)"

fun is_not_found :: "graph_error \<Rightarrow> bool" where
  "is_not_found (SymbolNotFound _ _) = True"
| "is_not_found _ = False"

text \<open>The phases after the graph is built.\<close>

definition focus_phases ::
    "focus_env \<Rightarrow> focused_config \<Rightarrow> path \<Rightarrow> walk_entry list \<Rightarrow> call_graph \<Rightarrow> (focused_error, focused_output) outcome" where
  "focus_phases Z c root entries g =
     (if fz_cancelled Z 4 then Err FocusCancelled
      else case resolve_focus Z c g of
        Inl e \<Rightarrow>
          (let sites = collect_def_use_sites Z entries (fc_focus c) (fc_limit c) root in
           if is_not_found e \<and> fc_def_use c \<and> sites \<noteq> [] then Ok (sites_only c sites) else Err (FocusGraph e))
      | Inr (symbol, unfiltered, impl, g) \<Rightarrow>
          if fz_cancelled Z 5 then Err FocusCancelled
          else
            let sites = (if fc_def_use c then collect_def_use_sites Z entries (fc_focus c) (fc_limit c) root else []) in
            bind_outcome (compute_chains Z c g symbol root unfiltered impl sites) (\<lambda>d.
              let (callers, test_callers, callees) = direct_entries c g symbol root d in
              Ok \<lparr>fo_formatted = cd_formatted d, fo_next_cursor = None, fo_prod_chains = cd_prod d, fo_test_chains = cd_test d,
                  fo_outgoing_chains = cd_outgoing d, fo_def_count = cd_def_count d, fo_unfiltered_callers = unfiltered,
                  fo_impl_callers = impl, fo_callers = callers, fo_test_callers = test_callers, fo_callees = callees,
                  fo_sites = sites, fo_content_hash = None\<rparr>))"

definition analyze_focused_entries ::
    "focus_env \<Rightarrow> (string, structural_graph, 'c) lru_ops \<Rightarrow> focused_config \<Rightarrow> path \<Rightarrow> walk_entry list \<Rightarrow> 'c focus_state \<Rightarrow>
     (focused_error, focused_output) outcome \<times> 'c focus_state" where
  "analyze_focused_entries Z L c root entries s =
     (if fz_cancelled Z 0 then (Err FocusCancelled, s)
      else if fz_is_file Z root then
        (Ok (empty_focus (line ''Single-file focus not supported. Please provide a directory path for cross-file call graph analysis.'')), s)
      else
        let (counted, collected) = collect_file_analysis Z c entries; s = s\<lparr>fs_progress := fs_progress s + counted\<rparr> in
        case collected of
          Inl e \<Rightarrow> (Err e, s)
        | Inr (results, impl_traits, hashes) \<Rightarrow>
            if fz_cancelled Z 3 then (Err FocusCancelled, s)
            else
              let g = build_from_results (fz_lower Z) results impl_traits False in
              (case store_graph Z L (compute_cache_key Z root entries hashes) results g s of
                 None \<Rightarrow> (Panic, s)
               | Some s \<Rightarrow> (focus_phases Z c root entries g, s)))"

text \<open>The entry points that walk the directory first.\<close>

definition analyze_focused_with_progress ::
    "focus_env \<Rightarrow> (string, structural_graph, 'c) lru_ops \<Rightarrow> (path \<Rightarrow> nat option \<Rightarrow> traversal_error + walk_entry list) \<Rightarrow>
     focused_config \<Rightarrow> nat option \<Rightarrow> path \<Rightarrow> 'c focus_state \<Rightarrow> (focused_error, focused_output) outcome \<times> 'c focus_state" where
  "analyze_focused_with_progress Z L walk c max_depth root s =
     (case walk root max_depth of
        Inl e \<Rightarrow> (Err (FocusTraversal e), s)
      | Inr entries \<Rightarrow>
          let (r, s') = analyze_focused_entries Z L c root entries (s\<lparr>fs_cache := None\<rparr>) in (r, s'\<lparr>fs_cache := fs_cache s\<rparr>))"

definition analyze_focused ::
    "focus_env \<Rightarrow> (string, structural_graph, 'c) lru_ops \<Rightarrow> (path \<Rightarrow> nat option \<Rightarrow> traversal_error + walk_entry list) \<Rightarrow>
     path \<Rightarrow> string \<Rightarrow> nat \<Rightarrow> nat option \<Rightarrow> nat option \<Rightarrow> 'c focus_state \<Rightarrow> (focused_error, focused_output) outcome \<times> 'c focus_state" where
  "analyze_focused Z L walk root focus follow_depth max_depth limit s =
     analyze_focused_with_progress (Z\<lparr>fz_cancelled := \<lambda>_. False, fz_cancelled_file := \<lambda>_. False, fz_cancelled_site := \<lambda>_. False\<rparr>) L walk
       \<lparr>fc_focus = focus, fc_match_mode = Exact, fc_follow_depth = follow_depth, fc_limit = limit, fc_use_summary = False,
        fc_impl_only = None, fc_def_use = False, fc_timeout = None\<rparr> max_depth root s"

end
