(* ===== verification/FocusedProps.thy ===== *)
theory FocusedProps
  imports Focused FormatterProps GraphStoreProps DiskCacheProps
begin

text \<open>
  Correctness of the analysis of a symbol: it never panics, its counts and lists are those of the call graph,
  its sites come in order, and when it fails.
\<close>

section \<open>No panic\<close>

lemma snippet_one_line_Some: "\<exists>t. snippet_one_line s = Some t"
  using ellipsis_at_Some[of SNIPPET_TRUNCATION_POINT] by (fastforce simp: snippet_one_line_def Let_def)

lemma those_total: "\<forall>x\<in>set xs. \<exists>y. f x = Some y \<Longrightarrow> \<exists>ys. those (map f xs) = Some ys"
  by (induction xs) auto

lemma render_def_use_group_Some: "\<exists>t. render_def_use_group sites heading pred base_path = Some t"
proof -
  have "\<exists>y. site_line base_path True x = Some y" for x
    using snippet_one_line_Some[of "du_snippet x"] by (auto simp: site_line_def)
  then show ?thesis using those_total[of "filter pred sites" "site_line base_path True"]
    by (auto simp: render_def_use_group_def Let_def)
qed

lemma render_focused_full_Some: "\<exists>t. render_focused_full path_str pr base_path sites symbol g = Some t"
proof -
  obtain w where w: "render_def_use_group sites ''WRITES'' is_write base_path = Some w" using render_def_use_group_Some by blast
  obtain r where r: "render_def_use_group sites ''READS'' (\<lambda>s. du_kind s = DuRead) base_path = Some r" using render_def_use_group_Some by blast
  show ?thesis by (simp add: render_focused_full_def Let_def w r split: prod.split)
qed

lemma format_focused_no_panic: "format_focused_internal path_str g symbol d base_path inc out sites \<noteq> Panic"
proof (cases "focused_prologue g symbol d base_path inc out")
  case (Inr pr)
  obtain t where "render_focused_full path_str pr base_path sites symbol g = Some t" using render_focused_full_Some by blast
  then show ?thesis by (simp add: format_focused_internal_def Inr)
qed (simp add: format_focused_internal_def)

lemma compute_chains_no_panic: "compute_chains Z c g symbol root u i sites \<noteq> Panic"
  using format_focused_no_panic by (simp add: compute_chains_def Let_def split: sum.split outcome.split)

lemma focus_phases_no_panic: "focus_phases Z c root entries g \<noteq> Panic"
  using compute_chains_no_panic
  by (auto simp: focus_phases_def Let_def bind_outcome_Panic_iff split: sum.split prod.split if_split)

lemma hash_hex_key:
  assumes "is_hash_hex h"
  shows "graph_get K st h d \<noteq> None" "graph_put K st h sg d \<noteq> None"
  using graph_entry_path_shape[OF assms, of st]
  by (simp_all add: graph_get_def graph_put_def path_parent_def Let_def split: option.split prod.split)

lemma store_graph_returns:
  assumes "key = None \<or> is_hash_hex (the key)"
  shows "\<exists>s'. store_graph Z L key results g s = Some s'"
proof (cases key)
  case (Some k)
  then have k: "is_hash_hex k" using assms by simp
  obtain hit s0 where hit: "cached_graph L k s = (hit, s0)" by fastforce
  obtain st0 d0 where st0: "create_graph_store Z (fs_disk s0) = (st0, d0)" by fastforce
  obtain r d1 where "graph_get (fz_graphs Z) st0 k d0 = Some (r, d1)" using hash_hex_key(1)[OF k] by fastforce
  then have "graph_tier Z L k s \<noteq> None" by (cases r) (simp_all add: graph_tier_def hit st0)
  then obtain t where t: "graph_tier Z L k s = Some t" by blast
  obtain st s1 where t': "t = (st, s1)" by (cases t)
  show ?thesis
  proof (cases st)
    case (Some store)
    obtain d where "graph_put (fz_graphs Z) store k (build_structural Z results g) (fs_disk s1) = Some d"
      using hash_hex_key(2)[OF k] by blast
    then show ?thesis by (simp add: store_graph_def \<open>key = Some k\<close> t t' Some Let_def)
  qed (simp add: store_graph_def Some t t')
qed (simp add: store_graph_def)

lemma compute_cache_key_hex: "compute_cache_key Z root entries hashes = Some k \<Longrightarrow> \<exists>x. k = fz_hex Z x"
  by (auto simp: compute_cache_key_def graph_cache_key_def Let_def)


section \<open>The filter on trait implementations\<close>

lemma lookups_map_snd: "lookups k (map (\<lambda>(k, es). (k, filter P es)) m) = filter P (lookups k m)"
  by (induction m) (auto simp: lookups_def)

text \<open>
  The counts of a resolved symbol: its distinct callers before and after the filter. The filter removes the
  other callers of every symbol and nothing else.
\<close>

theorem impl_filter_counts:
  assumes "resolve_focus Z c g = Inr (symbol, unfiltered, impl, g')"
  shows "unfiltered = card (set (map ce_neighbor (lookups symbol (cg_callers g)))) \<and>
    cg_definitions g' = cg_definitions g \<and> cg_callees g' = cg_callees g \<and> impl \<le> unfiltered \<and>
    (if fc_impl_only c = Some True
     then (\<forall>s. lookups s (cg_callers g') = filter ce_is_impl (lookups s (cg_callers g))) \<and>
       impl = card (ce_neighbor ` {e \<in> set (lookups symbol (cg_callers g)). ce_is_impl e})
     else g' = g \<and> impl = unfiltered)"
proof -
  have r: "unfiltered = unique_callers g symbol" "g' = (if fc_impl_only c = Some True then retain_impl g else g)"
      "impl = (if fc_impl_only c = Some True then unique_callers g' symbol else unfiltered)"
    using assms by (auto simp: resolve_focus_def Let_def split: sum.splits)
  have f: "lookups s (cg_callers (retain_impl g)) = filter ce_is_impl (lookups s (cg_callers g))" for s
    by (simp add: retain_impl_def lookups_map_snd)
  have "card (ce_neighbor ` {e \<in> set (lookups symbol (cg_callers g)). ce_is_impl e}) \<le> card (ce_neighbor ` set (lookups symbol (cg_callers g)))"
    by (intro card_mono image_mono) auto
  then show ?thesis using r f by (auto simp: unique_callers_def retain_impl_def)
qed

section \<open>Sites\<close>

text \<open>
  The definition and use sites are those of every file, the writes first, each group by file, line and column.
\<close>

theorem sites_in_order:
  "\<exists>ws rs. collect_def_use_sites Z entries symbol limit root = ws @ rs \<and>
     mset (ws @ rs) = mset (concat (map (entry_sites Z symbol limit root) (init_analysis_context entries))) \<and>
     list_all is_write ws \<and> list_all (\<lambda>s. \<not> is_write s) rs \<and>
     sorted (map (\<lambda>s. (du_file s, du_line s, du_column s)) ws) \<and> sorted (map (\<lambda>s. (du_file s, du_line s, du_column s)) rs)"
proof -
  let ?all = "concat (map (entry_sites Z symbol limit root) (init_analysis_context entries))"
  let ?s = "sort_key site_order ?all" and ?pos = "\<lambda>s. (du_file s, du_line s, du_column s)"
  have sorted: "sorted (map site_order ?s)" by simp
  let ?ws = "takeWhile is_write ?s" and ?rs = "dropWhile is_write ?s"
  have split: "?s = ?ws @ ?rs" by simp
  have "sorted (map site_order (?ws @ ?rs))" using sorted by simp
  then have parts: "sorted (map site_order ?ws)" "sorted (map site_order ?rs)" by (simp_all only: map_append sorted_append)
  have no: "\<not> is_write s" if s: "s \<in> set ?rs" for s
  proof -
    obtain r rs where r: "?rs = r # rs" using s by (cases ?rs) auto
    then have "\<not> is_write r" using hd_dropWhile[of is_write ?s] by (metis list.discI list.sel(1))
    moreover have "site_order r \<le> site_order s" using parts(2) s r by (auto simp: sorted_wrt_map)
    ultimately show ?thesis by (auto simp: site_order_def)
  qed
  have w: "sorted (map ?pos xs)" if "sorted (map site_order xs)" "\<forall>x\<in>set xs. is_write x = b" for xs b
    using that by (induction xs) (auto simp: site_order_def)
  have ws: "\<forall>x\<in>set ?ws. is_write x" by (meson set_takeWhileD)
  have "sorted (map ?pos ?ws)" "sorted (map ?pos ?rs)" using w[OF parts(1), of True] w[OF parts(2), of False] no ws by blast+
  moreover have "mset (?ws @ ?rs) = mset ?all" unfolding split[symmetric] by simp
  moreover have "collect_def_use_sites Z entries symbol limit root = ?ws @ ?rs" unfolding split[symmetric] by (simp add: collect_def_use_sites_def)
  ultimately show ?thesis using no ws unfolding list_all_iff by blast
qed

section \<open>Files, progress and timeouts\<close>

lemma map_filter_Nil_iff: "List.map_filter f xs = [] \<longleftrightarrow> (\<forall>x\<in>set xs. f x = None)"
  by (induction xs) (auto simp: map_filter_simps split: option.split)

lemma store_graph_progress: "store_graph Z L key results g s = Some s' \<Longrightarrow> fs_progress s' = fs_progress s"
  by (auto simp: store_graph_def graph_tier_def cached_graph_def cache_graph_def Let_def split: option.splits prod.splits if_splits)

lemma focus_phases_no_timeout: "focus_phases Z c root entries g \<noteq> Err (FocusTimeout p n)"
proof -
  have "compute_chains Z c g' symbol root u i sites \<noteq> Err (FocusTimeout p n)" for g' symbol u i sites
    by (simp add: compute_chains_def Let_def split: sum.split outcome.split)
  then show ?thesis
    by (auto simp: focus_phases_def Let_def split: sum.split prod.split if_split elim!: bind_outcome.elims)
      (simp_all split: prod.splits)
qed

text \<open>
  Without cancellation every regular file counts as progress once, whether or not it can be read, and the
  analysis fails with a timeout exactly when one of the files times out.
\<close>

theorem one_timeout_fails_all:
  assumes quiet: "\<And>k. \<not> fz_cancelled Z k" "\<And>p. \<not> fz_cancelled_file Z p"
    and dir: "\<not> fz_is_file Z root" and order: "\<And>xs. set (fz_arrival Z xs) = set xs"
    and run: "analyze_focused_entries Z L c root entries s = (r, s')" "r \<noteq> Panic"
  shows "fs_progress s' = fs_progress s + length (init_analysis_context entries) \<and>
    ((\<exists>p n. r = Err (FocusTimeout p n)) \<longleftrightarrow>
     (\<exists>e\<in>set (init_analysis_context entries). rp_timeout (analyze_entry Z c e) \<noteq> None))"
proof -
  let ?files = "init_analysis_context entries"
  let ?reports = "map (analyze_entry Z c) ?files"
  have "rp_counted (analyze_entry Z c e)" for e
    using quiet(2) by (simp add: analyze_entry_def Let_def split: option.split sum.split parser_error.split)
  then have counted: "length (filter rp_counted ?reports) = length ?files" by (simp add: filter_map comp_def)
  have late: "fz_arrival Z (List.map_filter rp_timeout ?reports) = [] \<longleftrightarrow> (\<forall>e\<in>set ?files. rp_timeout (analyze_entry Z c e) = None)"
    using order[of "List.map_filter rp_timeout ?reports"] map_filter_Nil_iff[of rp_timeout ?reports] by (metis (no_types, lifting) image_iff list.set_map set_empty)
  show ?thesis
  proof (cases "fz_arrival Z (List.map_filter rp_timeout ?reports)")
    case (Cons x xs)
    then show ?thesis using run quiet(1) dir counted late
      by (cases x) (auto simp: analyze_focused_entries_def collect_file_analysis_def Let_def)
  next
    case Nil
    then obtain results impls hashes where "collect_file_analysis Z c entries = (length ?files, Inr (results, impls, hashes))"
      using quiet(1) counted by (auto simp: collect_file_analysis_def Let_def)
    then show ?thesis using run quiet(1) dir late Nil focus_phases_no_timeout
      by (auto simp: analyze_focused_entries_def Let_def dest: store_graph_progress split: option.splits)
  qed
qed

section \<open>The key of the structural graph\<close>

text \<open>
  The key depends on the files only, and a hit keeps the graph that is cached: an analysis with another
  recursion limit leaves the graph of the first one in place.
\<close>

lemma collected_hashes:
  "collect_file_analysis Z c entries = (n, Inr (results, impls, hashes)) \<Longrightarrow>
   hashes = List.map_filter (\<lambda>e. if fz_cancelled_file Z (we_path e) \<or> too_large (fz_view Z) (we_path e) then None
     else map_option (\<lambda>source. (we_path e, fz_hash Z source)) (read_text (fz_view Z) (we_path e))) (init_analysis_context entries)"
proof -
  assume a: "collect_file_analysis Z c entries = (n, Inr (results, impls, hashes))"
  have h: "rp_hash (analyze_entry Z c e) = (if fz_cancelled_file Z (we_path e) \<or> too_large (fz_view Z) (we_path e) then None
     else map_option (\<lambda>source. (we_path e, fz_hash Z source)) (read_text (fz_view Z) (we_path e)))" for e
    by (simp add: analyze_entry_def Let_def split: option.split sum.split parser_error.split)
  have "hashes = List.map_filter rp_hash (map (analyze_entry Z c) (init_analysis_context entries))"
    using a by (auto simp: collect_file_analysis_def Let_def split: if_splits list.splits prod.splits)
  then show ?thesis by (simp add: List.map_filter_def comp_def h filter_map)
qed

lemma graph_key_ignores_limits:
  assumes "collect_file_analysis Z c entries = (n, Inr (results, impls, hashes))"
    "collect_file_analysis Z c' entries = (n', Inr (results', impls', hashes'))"
  shows "compute_cache_key Z root entries hashes = compute_cache_key Z root entries hashes'"
  using collected_hashes[OF assms(1)] collected_hashes[OF assms(2)] by simp

lemma hit_keeps_graph:
  "cached_graph L key s = (Some sg, s') \<Longrightarrow> store_graph Z L (Some key) results g s = Some s'"
  by (simp add: store_graph_def graph_tier_def)

section \<open>Instances\<close>

text \<open>One file that takes too long, in a system whose hashes are constant.\<close>

definition demo_focus_env :: focus_env where
  "demo_focus_env = \<lparr>fz_extract = \<lambda>_ _ _ _. Inl (ParserTimeout 5), fz_def_use = \<lambda>_ _ _ _ _. [], fz_lower = \<lambda>s. s,
     fz_hash = \<lambda>_. [], fz_hex = \<lambda>_. demo_hex, fz_path_str = path_display, fz_iter = \<lambda>ks. ks, fz_arrival = \<lambda>xs. xs,
     fz_view = \<lparr>fv_is_dir = \<lambda>_. False, fv_exists = \<lambda>_. True, fv_len = \<lambda>_. Some 1, fv_modified = \<lambda>_. None,
       fv_read = \<lambda>_. Inr ''x'', fv_canonicalize = Some\<rparr>,
     fz_is_file = \<lambda>_. False, fz_cancelled = \<lambda>_. False, fz_cancelled_file = \<lambda>_. False, fz_cancelled_site = \<lambda>_. False,
     fz_data_home = None, fz_home = None, fz_cache_dir = None, fz_cache_max = None, fz_graphs = demo_graph_codec\<rparr>"

definition demo_focus :: focused_config where
  "demo_focus = \<lparr>fc_focus = ''f'', fc_match_mode = Exact, fc_follow_depth = 1, fc_limit = None, fc_use_summary = False,
     fc_impl_only = Some True, fc_def_use = False, fc_timeout = Some 5\<rparr>"

definition demo_focus_state :: "'c focus_state" where
  "demo_focus_state = \<lparr>fs_disk = demo_disk, fs_cache = None, fs_progress = 0\<rparr>"

definition demo_impl_graph :: call_graph where
  "demo_impl_graph = \<lparr>cg_callers = [(''f'', [\<lparr>ce_path = [], ce_line = 1, ce_neighbor = ''g'', ce_is_impl = True\<rparr>,
       \<lparr>ce_path = [], ce_line = 2, ce_neighbor = ''h'', ce_is_impl = False\<rparr>])], cg_callees = [], cg_definitions = [], cg_lowercase = []\<rparr>"


theorem impl_filter_witness: "\<exists>g'. resolve_focus demo_focus_env demo_focus demo_impl_graph = Inr (''f'', 2, 1, g') \<and> (1::nat) \<le> 2"
proof -
  have "resolve_focus demo_focus_env demo_focus demo_impl_graph = Inr (''f'', 2, 1, retain_impl demo_impl_graph)"
    by (simp add: resolve_focus_def demo_focus_def demo_impl_graph_def unique_callers_def lookups_def retain_impl_def)
  then show ?thesis using impl_filter_counts by blast
qed

theorem one_timeout_witness:
  "\<exists>p n. fst (analyze_focused_entries demo_focus_env list_lru demo_focus [RootDir] [demo_walk [''a.rs'']] demo_focus_state) = Err (FocusTimeout p n)"
proof -
  obtain r s' where r: "analyze_focused_entries demo_focus_env list_lru demo_focus [RootDir] [demo_walk [''a.rs'']] demo_focus_state = (r, s')" by fastforce
  have np: "r \<noteq> Panic" using r
    by (auto simp: analyze_focused_entries_def demo_focus_env_def collect_file_analysis_def analyze_entry_def init_analysis_context_def
        demo_walk_def too_large_def MAX_FILE_SIZE_BYTES_def read_text_def utf8_valid_ascii Let_def List.map_filter_def)
  have e: "rp_timeout (analyze_entry demo_focus_env demo_focus (demo_walk [''a.rs''])) = Some ([RootDir, Normal ''a.rs''], 5)"
    by (simp add: analyze_entry_def demo_focus_env_def demo_walk_def too_large_def MAX_FILE_SIZE_BYTES_def read_text_def utf8_valid_ascii Let_def)
  have "(\<exists>p n. r = Err (FocusTimeout p n)) \<longleftrightarrow>
      (\<exists>e\<in>set (init_analysis_context [demo_walk [''a.rs'']]). rp_timeout (analyze_entry demo_focus_env demo_focus e) \<noteq> None)"
    using one_timeout_fails_all[OF _ _ _ _ r np] by (simp add: demo_focus_env_def)
  then show ?thesis using r e by (simp add: init_analysis_context_def demo_walk_def)
qed

end
