(* ===== verification/SummaryProps.thy ===== *)
theory SummaryProps
  imports Summary
begin

text \<open>
  Correctness of the reports: the counts of the directory summary and the directory it suggests, and the
  counts of the report on a symbol.
\<close>

section \<open>The binary search\<close>

lemma bsearch_Some: "bsearch k xs lo hi = Some v \<Longrightarrow> (k, v) \<in> set xs"
proof (induction k xs lo hi rule: bsearch.induct)
  case (1 k xs lo hi)
  let ?mid = "lo + (hi - lo) div 2"
  have r: "lo < hi \<and> hi \<le> length xs" using 1(3) by (subst (asm) bsearch.simps) (auto split: if_splits)
  then have mid: "?mid < length xs" by auto
  consider "fst (xs ! ?mid) = k" "snd (xs ! ?mid) = v"
    | "fst (xs ! ?mid) \<noteq> k" "fst (xs ! ?mid) < k" "bsearch k xs (?mid + 1) hi = Some v"
    | "fst (xs ! ?mid) \<noteq> k" "\<not> fst (xs ! ?mid) < k" "bsearch k xs lo ?mid = Some v"
    using 1(3) r by (subst (asm) bsearch.simps) (auto simp: Let_def split: if_splits)
  then show ?case
  proof cases
    case 1
    then have "xs ! ?mid = (k, v)" by (metis prod.collapse)
    then show ?thesis using nth_mem[OF mid] by simp
  qed (use 1 r in \<open>auto simp: Let_def\<close>)
qed

lemma bsearch_None:
  "bsearch k xs lo hi = None \<Longrightarrow> sorted_wrt (<) (map fst xs) \<Longrightarrow> hi \<le> length xs \<Longrightarrow> lo \<le> i \<Longrightarrow> i < hi \<Longrightarrow> fst (xs ! i) \<noteq> k"
proof (induction k xs lo hi rule: bsearch.induct)
  case (1 k xs lo hi)
  let ?mid = "lo + (hi - lo) div 2"
  have r: "lo < hi \<and> hi \<le> length xs" using 1 by auto
  then have mid: "?mid < hi" by auto
  have less: "a < b \<Longrightarrow> b < length xs \<Longrightarrow> fst (xs ! a) < fst (xs ! b)" for a b
    using sorted_wrt_nth_less[OF 1(4), of a b] by simp
  have ne: "fst (xs ! ?mid) \<noteq> k" using 1(3) r by (subst (asm) bsearch.simps) (auto simp: Let_def)
  show ?case
  proof (cases "fst (xs ! ?mid) < k")
    case True
    then have n: "bsearch k xs (?mid + 1) hi = None" using 1(3) r ne by (subst (asm) bsearch.simps) (simp add: Let_def)
    show ?thesis
    proof (cases "i \<le> ?mid")
      case le: True
      then have "fst (xs ! i) \<le> fst (xs ! ?mid)" using less[of i ?mid] mid r by (cases "i = ?mid") auto
      then show ?thesis using True by auto
    qed (use 1(1)[OF r refl refl ne True n 1(4,5)] 1(7) in auto)
  next
    case False
    then have n: "bsearch k xs lo ?mid = None" using 1(3) r ne by (subst (asm) bsearch.simps) (simp add: Let_def)
    show ?thesis
    proof (cases "?mid \<le> i")
      case le: True
      then have "fst (xs ! ?mid) \<le> fst (xs ! i)" using less[of ?mid i] 1(7) r by (cases "i = ?mid") auto
      then show ?thesis using False ne by auto
    qed (use 1(2)[OF r refl refl ne False n 1(4)] 1(6) mid r in auto)
  qed
qed

lemma binary_search_lookup: "sorted_wrt (<) (map fst xs) \<Longrightarrow> binary_search k xs = alookup k xs"
proof (cases "binary_search k xs")
  case None
  assume s: "sorted_wrt (<) (map fst xs)"
  have "\<forall>i<length xs. fst (xs ! i) \<noteq> k" using bsearch_None[OF _ s, of k 0 "length xs"] None by (simp add: binary_search_def)
  then have "alookup k xs = None" by (force simp: alookup_None_iff in_set_conv_nth)
  then show ?thesis using None by simp
next
  case (Some v)
  assume s: "sorted_wrt (<) (map fst xs)"
  then have "distinct (map fst xs)" by (simp add: strict_sorted_iff)
  moreover have "(k, v) \<in> set xs" using Some bsearch_Some by (auto simp: binary_search_def)
  ultimately have "alookup k xs = Some v" by (induction xs) force+
  then show ?thesis using Some by simp
qed

section \<open>The counts of a directory\<close>

text \<open>
  The count the summary shows for a directory below the root is the number of files of the whole walk
  under it outside the excluded directories, also beyond the depth that was analyzed; without such files
  it is the number of analyzed ones.
\<close>

theorem directory_count_spec:
  assumes "root \<noteq> []" "sorted (map we_path walk)" "\<And>x. x \<in> set walk \<Longrightarrow> wf_path (we_path x)"
  shows "effective_count (Some (subtree_counts_from_entries root walk)) results e =
    (let below = filter (\<lambda>x. subtree_key root x = Some (we_path e)) walk in
     if below = [] then length (files_in_dir results e) else length below)"
proof -
  let ?K = "{k. \<exists>x\<in>set walk. subtree_key root x = Some k}"
  let ?n = "\<lambda>k. length (filter (\<lambda>x. subtree_key root x = Some k) walk)"
  have c: "subtree_counts_from_entries root walk = map (\<lambda>k. (k, ?n k)) (sorted_list_of_set ?K)"
    by (rule subtree_counts_spec[OF assms])
  have "finite ?K" by (rule finite_subset[of _ "(\<lambda>x. the (subtree_key root x)) ` set walk"]) force+
  then have s: "set (sorted_list_of_set ?K) = ?K" "sorted_wrt (<) (sorted_list_of_set ?K)" by simp_all
  have "binary_search k (subtree_counts_from_entries root walk) = (if k \<in> ?K then Some (?n k) else None)" for k
  proof -
    have "binary_search k (subtree_counts_from_entries root walk) = alookup k (map (\<lambda>k. (k, ?n k)) (sorted_list_of_set ?K))"
      unfolding c by (rule binary_search_lookup) (simp add: comp_def s(2))
    moreover have "alookup k (map (\<lambda>k. (k, f k)) ks) = (if k \<in> set ks then Some (f k) else None)" for f :: "path \<Rightarrow> nat" and ks
      by (induction ks) auto
    ultimately show ?thesis using s(1) by simp
  qed
  moreover have "we_path e \<in> ?K \<longleftrightarrow> filter (\<lambda>x. subtree_key root x = Some (we_path e)) walk \<noteq> []"
    by (auto simp: filter_empty_conv)
  ultimately show ?thesis by (auto simp: effective_count_def Let_def)
qed

theorem directory_count_witness:
  "effective_count (Some (subtree_counts_from_entries [RootDir] [demo_walk [''a'', ''x''], demo_walk [''a'', ''y'', ''z'']])) []
     (demo_walk [''a'']) = 2"
proof -
  let ?es = "[demo_walk [''a'', ''x''], demo_walk [''a'', ''y'', ''z'']]"
  have "sorted (map we_path ?es)" by code_simp
  moreover have "wf_path (we_path e)" if "e \<in> set ?es" for e
    using that by (auto simp: demo_walk_def wf_path_def)
  ultimately have "effective_count (Some (subtree_counts_from_entries [RootDir] ?es)) [] (demo_walk [''a'']) =
    (let below = filter (\<lambda>x. subtree_key [RootDir] x = Some (we_path (demo_walk [''a'']))) ?es in
     if below = [] then length (files_in_dir [] (demo_walk [''a''])) else length below)"
    by (intro directory_count_spec) auto
  moreover have "filter (\<lambda>x. subtree_key [RootDir] x = Some (we_path (demo_walk [''a'']))) ?es = ?es" by code_simp
  ultimately show ?thesis by simp
qed

section \<open>The suggested directory\<close>

text \<open>The reference: of the directories that may be suggested, the first with the highest count.\<close>

definition may_suggest :: "(path \<times> nat) list option \<Rightarrow> file_info list \<Rightarrow> walk_entry \<Rightarrow> bool" where
  "may_suggest counts results e \<longleftrightarrow> we_is_dir e \<and> shown_name (we_path e) \<notin> set EXCLUDED_DIRS \<and> 0 < effective_count counts results e"

definition suggested :: "(path \<Rightarrow> path option) \<Rightarrow> (path \<times> nat) list option \<Rightarrow> file_info list \<Rightarrow> walk_entry list \<Rightarrow> largest" where
  "suggested canon counts results es =
     (case filter (may_suggest counts results) es of
        [] \<Rightarrow> (None, 0)
      | ds \<Rightarrow>
          let m = Max (set (map (effective_count counts results) ds));
              e = hd (filter (\<lambda>e. effective_count counts results e = m) ds)
          in (Some (shown_name (we_path e), path_display (canon_or_self canon (we_path e))), m))"

lemma suggested_none: "filter (may_suggest counts results) es = [] \<Longrightarrow> suggested canon counts results es = (None, 0)"
  by (simp add: suggested_def)

lemma suggested_some:
  assumes "ds = filter (may_suggest counts results) es" "ds \<noteq> []" "m = Max (effective_count counts results ` set ds)"
    "e = hd (filter (\<lambda>e. effective_count counts results e = m) ds)"
  shows "suggested canon counts results es = (Some (shown_name (we_path e), path_display (canon_or_self canon (we_path e))), m)"
proof -
  obtain a l where "ds = a # l" using assms(2) by (cases ds) auto
  then show ?thesis unfolding suggested_def assms(1)[symmetric] assms(3,4) by (simp only: list.case Let_def set_map)
qed

lemma suggested_snoc:
  "suggested canon counts results (es @ [e]) =
   (if may_suggest counts results e \<and> snd (suggested canon counts results es) < effective_count counts results e
    then (Some (shown_name (we_path e), path_display (canon_or_self canon (we_path e))), effective_count counts results e)
    else suggested canon counts results es)"
proof (cases "may_suggest counts results e")
  case False
  then show ?thesis by (simp add: suggested_def)
next
  case may: True
  let ?f = "effective_count counts results" and ?ds = "filter (may_suggest counts results) es"
  show ?thesis
  proof (cases "?ds = []")
    case True
    then have "suggested canon counts results (es @ [e]) =
        (Some (shown_name (we_path e), path_display (canon_or_self canon (we_path e))), ?f e)"
      using may by (intro suggested_some[of "[e]"]) simp_all
    then show ?thesis using may True by (simp add: suggested_none may_suggest_def)
  next
    case False
    define ds where ds: "ds = ?ds"
    let ?m = "Max (?f ` set ds)"
    let ?e = "hd (filter (\<lambda>e. ?f e = ?m) ds)"
    have nonempty: "ds \<noteq> []" "?f ` set ds \<noteq> {}" using False ds by (simp_all only: ds image_is_empty set_empty) simp_all
    have old: "suggested canon counts results es = (Some (shown_name (we_path ?e), path_display (canon_or_self canon (we_path ?e))), ?m)"
      by (rule suggested_some[OF ds nonempty(1) refl refl])
    have max: "Max (?f ` set (ds @ [e])) = max (?f e) ?m" using nonempty by simp
    have ne: "filter (\<lambda>e. ?f e = ?m) ds \<noteq> []"
    proof -
      have "?m \<in> ?f ` set ds" by (rule Max_in) (use nonempty in simp_all)
      then show ?thesis by (auto simp: filter_empty_conv)
    qed
    have "suggested canon counts results (es @ [e]) =
        (Some (shown_name (we_path x), path_display (canon_or_self canon (we_path x))), max (?f e) ?m)"
      if "x = hd (filter (\<lambda>e'. ?f e' = max (?f e) ?m) (ds @ [e]))" for x
      by (rule suggested_some[of "ds @ [e]"]) (use may max that in \<open>simp_all add: ds[symmetric]\<close>)
    note new = this[OF refl]
    show ?thesis
    proof (cases "?m < ?f e")
      case True
      then have "\<forall>x\<in>set ds. ?f x < ?f e" using Max_less_iff[of "?f ` set ds"] nonempty by simp
      then have "filter (\<lambda>e'. ?f e' = ?f e) ds = []" by (auto simp: filter_empty_conv)
      then show ?thesis using new True may old by (simp add: max_def)
    next
      case False
      then have "hd (filter (\<lambda>e'. ?f e' = max (?f e) ?m) (ds @ [e])) = ?e" using ne by (simp add: max_def hd_append)
      then show ?thesis using new False old by (simp add: max_def)
    qed
  qed
qed

lemma summary_fold:
  "snd (fold (summary_step canon entries results max_depth counts) es ([], (None, 0))) = suggested canon counts results es"
proof (induction es rule: rev_induct)
  case (snoc e es)
  let ?st = "fold (summary_step canon entries results max_depth counts) es ([], (None, 0))"
  have "files_in_dir results e = [] \<Longrightarrow> counts = None \<Longrightarrow> effective_count counts results e = 0" by (simp add: effective_count_def)
  then show ?case using snoc
    by (auto simp: summary_step_def track_largest_def suggested_snoc may_suggest_def)
qed (simp add: suggested_none)

text \<open>
  The suggestion at the end of the summary names, of the first-level directories that have files and no
  excluded name, the first in path order with the most files; without one it is the general advice.
\<close>

theorem summary_suggests_largest:
  "\<exists>body. format_summary canon entries results max_depth counts =
     line ''SUMMARY:'' @ line (files_label results @ totals results @ depth_label max_depth) @ languages_line results @ [LF] @
     line ''STRUCTURE (depth 1):'' @ body @ [LF] @
     suggestion (suggested canon counts results (sort_key we_path (filter (\<lambda>e. we_depth e = 1) entries)))"
  using summary_fold[of canon entries results max_depth counts "depth1_entries entries"]
  by (auto simp: format_summary_def Let_def depth1_entries_def split: prod.splits)

section \<open>The callers of a page\<close>

text \<open>The report counts the distinct callers, its pages count the chains.\<close>

lemma page_counts_chains:
  "\<exists>rest. format_focused_paginated path_str [] 0 PageCallees ''f'' [[(''g'', p, 1)], [(''g'', p, 2)]] [] [] 1 0 None =
     Some (line ''FOCUS: f (1 defs, 2 callers, 0 callees)'' @ rest) \<and>
   unique_first_count [[(''g'', p, 1)], [(''g'', p, 2)]] = 1"
proof -
  have "nat_str 0 = ''0'' \<and> nat_str 1 = ''1'' \<and> nat_str 2 = ''2''" by code_simp
  then show ?thesis by (simp add: format_focused_paginated_def Let_def unique_first_count_def first_names_def line_def numeral_2_eq_2)
qed

end
