(* ===== verification/Metrics.thy ===== *)
theory Metrics
  imports ExecRuntime GraphStore FileAnalysis
begin

text \<open>
  The metrics of the server, \<open>crates/aptu-coder/src/metrics.rs\<close> and \<open>metrics_export.rs\<close>: events, the bounded
  channel, the writer with its batches, daily files and session summary, the counters of OpenTelemetry, and
  the removal of old files. The serialization of events and summaries (\<open>serde_json\<close>) is a parameter, as are
  the clock and the environment. A panic while an old file is read would be \<open>None\<close>.
\<close>

section \<open>Events\<close>

record metric_event =
  mv_ts :: nat
  mv_tool :: string
  mv_duration_ms :: nat
  mv_output_chars :: nat
  mv_param_path_depth :: nat
  mv_max_depth :: "nat option"
  mv_result :: string
  mv_uri_kind :: "string option"
  mv_error_type :: "string option"
  mv_error_subtype :: "string option"
  mv_error_kind :: "string option"
  mv_session_id :: "string option"
  mv_seq :: "nat option"
  mv_cache_hit :: "bool option"
  mv_cache_tier :: "string option"
  mv_cache_write_failure :: "bool option"
  mv_exit_code :: "int option"
  mv_timed_out :: bool
  mv_output_truncated :: "bool option"
  mv_chars_threshold_breach :: bool
  mv_file_ext :: "string option"
  mv_filter_applied :: "string option"
  mv_language :: "string option"
  mv_git_ref_used :: bool
  mv_summary_mode :: bool
  mv_is_paginated :: bool
  mv_fields_projected :: bool
  mv_match_mode :: "string option"
  mv_follow_depth :: "nat option"
  mv_mode :: "string option"
  mv_impl_only :: bool
  mv_stdin_provided :: bool
  mv_working_dir_used :: bool
  mv_l1_eviction_count :: "nat option"
  mv_l2_entry_count :: "nat option"
  mv_l2_size_bytes :: "nat option"
  mv_stdout_bytes_raw :: "nat option"
  mv_stderr_bytes_raw :: "nat option"
  mv_edit_count :: "nat option"
  mv_est_output_tokens :: "nat option"
  mv_schema_chars :: "(string \<times> nat) list option"
  mv_output_schema_chars :: "(string \<times> nat) list option"

text \<open>The builder: the event a new one builds, every other field at its default. Setters are record updates.\<close>

definition metric_event_new :: "nat \<Rightarrow> string \<Rightarrow> string \<Rightarrow> nat \<Rightarrow> metric_event" where
  "metric_event_new ts tool result duration_ms =
     \<lparr>mv_ts = ts, mv_tool = tool, mv_duration_ms = duration_ms, mv_output_chars = 0, mv_param_path_depth = 0,
      mv_max_depth = None, mv_result = result, mv_uri_kind = None, mv_error_type = None, mv_error_subtype = None,
      mv_error_kind = None, mv_session_id = None, mv_seq = None, mv_cache_hit = None, mv_cache_tier = None,
      mv_cache_write_failure = None, mv_exit_code = None, mv_timed_out = False, mv_output_truncated = None,
      mv_chars_threshold_breach = False, mv_file_ext = None, mv_filter_applied = None, mv_language = None,
      mv_git_ref_used = False, mv_summary_mode = False, mv_is_paginated = False, mv_fields_projected = False,
      mv_match_mode = None, mv_follow_depth = None, mv_mode = None, mv_impl_only = False, mv_stdin_provided = False,
      mv_working_dir_used = False, mv_l1_eviction_count = None, mv_l2_entry_count = None, mv_l2_size_bytes = None,
      mv_stdout_bytes_raw = None, mv_stderr_bytes_raw = None, mv_edit_count = None, mv_est_output_tokens = None,
      mv_schema_chars = None, mv_output_schema_chars = None\<rparr>"

text \<open>The startup event. A tool is its name and the texts its two schemas serialize to, when they do.\<close>

definition schema_surface_event :: "nat \<Rightarrow> (string \<times> string option \<times> string option) list \<Rightarrow> metric_event" where
  "schema_surface_event ts tools =
     (let written = List.map_filter (\<lambda>(name, input, output). map_option (\<lambda>j. (name, length j, case output of Some t \<Rightarrow> length t | None \<Rightarrow> 0)) input) tools;
          schema = fold (\<lambda>(name, n, _). ainsert name n) written [];
          output_schema = fold (\<lambda>(name, _, n). ainsert name n) written []
      in (metric_event_new ts ''schema_surface'' ''ok'' 0)
           \<lparr>mv_output_chars := sum_list (map snd schema), mv_schema_chars := Some schema, mv_output_schema_chars := Some output_schema\<rparr>)"

definition is_tool_call_event :: "metric_event \<Rightarrow> bool" where
  "is_tool_call_event e \<longleftrightarrow> mv_result e \<noteq> ''received'' \<and> mv_tool e \<noteq> ''schema_surface''"

section \<open>The channel\<close>

definition METRICS_CHANNEL_CAPACITY :: nat where "METRICS_CHANNEL_CAPACITY = 4096"

record metrics_channel =
  mc_queue :: "metric_event list"
  mc_closed :: bool
  mc_dropped :: nat

text \<open>\<open>send\<close> never waits: over the capacity the event is dropped and counted; a closed channel drops it uncounted.\<close>

definition metrics_send :: "metric_event \<Rightarrow> metrics_channel \<Rightarrow> metrics_channel" where
  "metrics_send e ch =
     (if mc_closed ch then ch
      else if length (mc_queue ch) \<ge> METRICS_CHANNEL_CAPACITY then ch\<lparr>mc_dropped := mc_dropped ch + 1\<rparr>
      else ch\<lparr>mc_queue := mc_queue ch @ [e]\<rparr>)"

section \<open>OpenTelemetry\<close>

definition otel_method_name :: "string \<Rightarrow> string" where
  "otel_method_name tool = (if tool = ''read_resource'' then ''resources/read'' else ''tools/call'')"

text \<open>A recorded point: the duration and the call with tool, method and error type; cache hits and failed writes.\<close>

datatype otel_point =
    OtelCall string string string nat
  | OtelCacheHit string string
  | OtelCacheWriteFailure string

definition record_otel_metrics :: "metric_event \<Rightarrow> otel_point list" where
  "record_otel_metrics e =
     (if \<not> is_tool_call_event e then []
      else OtelCall (mv_tool e) (otel_method_name (mv_tool e)) (case mv_error_type e of Some t \<Rightarrow> t | None \<Rightarrow> ''success'') (mv_duration_ms e) #
        (if mv_cache_hit e = Some True then [OtelCacheHit (mv_tool e) (case mv_cache_tier e of Some t \<Rightarrow> t | None \<Rightarrow> ''unknown'')] else []) @
        (if mv_cache_write_failure e = Some True then [OtelCacheWriteFailure (mv_tool e)] else []))"

section \<open>Dates\<close>

definition date_to_days_since_epoch :: "32 word \<Rightarrow> 32 word \<Rightarrow> 32 word \<Rightarrow> 32 word" where
  "date_to_days_since_epoch y m d =
     (let (y, m) = (if m \<le> 2 then (y - 1, m + 9) else (y, m - 3));
          era = y div 400; yoe = y - era * 400;
          doy = (153 * m + 2) div 5 + d - 1;
          doe = yoe * 365 + yoe div 4 - yoe div 100 + doy;
          t = era * 146097 + doe
      in if t < 719468 then 0 else t - 719468)"

definition date_of_days :: "32 word \<Rightarrow> 32 word \<times> 32 word \<times> 32 word" where
  "date_of_days days =
     (let z = days + 719468; era = z div 146097; doe = z - era * 146097;
          yoe = (doe - doe div 1460 + doe div 36524 - doe div 146096) div 365;
          y = yoe + era * 400;
          doy = doe - (365 * yoe + yoe div 4 - yoe div 100);
          mp = (5 * doy + 2) div 153;
          d = doy - (153 * mp + 2) div 5 + 1;
          m = (if mp < 10 then mp + 3 else mp - 9)
      in (if m \<le> 2 then y + 1 else y, m, d))"

text \<open>\<open>{:04}\<close> and \<open>{:02}\<close>.\<close>

definition zero_pad :: "nat \<Rightarrow> string \<Rightarrow> string" where
  "zero_pad n s = replicate (n - length s) (CHR ''0'') @ s"

definition MILLIS_PER_DAY :: nat where "MILLIS_PER_DAY = 86400000"

definition days_of_ms :: "nat \<Rightarrow> 32 word" where
  "days_of_ms ms = (let n = ms div MILLIS_PER_DAY in if n < 2 ^ 32 then of_nat n else - 1)"

definition current_date_str :: "nat \<Rightarrow> string" where
  "current_date_str ms =
     (let (y, m, d) = date_of_days (days_of_ms ms) in
      zero_pad 4 (nat_str (unat y)) @ ''-'' @ zero_pad 2 (nat_str (unat m)) @ ''-'' @ zero_pad 2 (nat_str (unat d)))"

section \<open>Names\<close>

definition path_component_count :: "string \<Rightarrow> nat" where
  "path_component_count s = length (parse_path s)"

definition path_file_ext :: "string \<Rightarrow> string option" where
  "path_file_ext s =
     (case path_extension (parse_path s) of
        None \<Rightarrow> None
      | Some ext \<Rightarrow>
          if ext = [] then None
          else if language_for_extension ext \<noteq> None then List.find (\<lambda>e. eq_ignore_ascii_case e ext) supported_extensions
          else Some ''other'')"

definition metric_language :: "string \<Rightarrow> string option" where
  "metric_language s =
     (case path_extension (parse_path s) of None \<Rightarrow> None | Some ext \<Rightarrow> if ext = [] then None else language_for_extension ext)"

definition xdg_metrics_dir :: "string option \<Rightarrow> string option \<Rightarrow> path" where
  "xdg_metrics_dir xdg_data_home home =
     (case xdg_data_home of
        Some x \<Rightarrow> if x \<noteq> [] then path_join (parse_path x) (parse_path ''aptu-coder'') else
          (case home of Some h \<Rightarrow> path_join (parse_path h) (parse_path ''.local/share/aptu-coder'') | None \<Rightarrow> parse_path ''.'')
      | None \<Rightarrow> (case home of Some h \<Rightarrow> path_join (parse_path h) (parse_path ''.local/share/aptu-coder'') | None \<Rightarrow> parse_path ''.''))"

section \<open>Old files\<close>

datatype old_file = Keep | Remove

text \<open>What is done with a file of the directory; \<open>None\<close> would be the panic of a slice.\<close>

definition file_days :: "string \<Rightarrow> 32 word option option" where
  "file_days file_name =
     (if \<not> prefix ''metrics-'' file_name \<or> \<not> (case name_extension file_name of Some e \<Rightarrow> eq_ignore_ascii_case e ''jsonl'' | None \<Rightarrow> False)
      then Some None
      else case str_slice file_name 8 (length file_name - 6) of
        None \<Rightarrow> None
      | Some date_part \<Rightarrow>
          if length date_part \<noteq> 10 \<or> date_part ! 4 \<noteq> CHR ''-'' \<or> date_part ! 7 \<noteq> CHR ''-'' then Some None
          else (case (str_slice date_part 0 4, str_slice date_part 5 7, str_slice date_part 8 10) of
              (Some ys, Some ms, Some ds) \<Rightarrow>
                Some (case (parse_nat (2 ^ 32) ys, parse_nat (2 ^ 32) ms, parse_nat (2 ^ 32) ds) of
                    (Some year, Some month, Some day) \<Rightarrow>
                      if month = 0 \<or> month > 12 \<or> day = 0 \<or> day > 31 then None
                      else Some (date_to_days_since_epoch (of_nat year) (of_nat month) (of_nat day))
                  | _ \<Rightarrow> None)
            | _ \<Rightarrow> None))"

definition old_file :: "32 word \<Rightarrow> string \<Rightarrow> old_file option" where
  "old_file now_days file_name =
     map_option (\<lambda>r. case r of Some days \<Rightarrow> if now_days > days \<and> now_days - days > 30 then Remove else Keep | None \<Rightarrow> Keep)
       (file_days file_name)"

text \<open>The name of the lock file beside a metrics file.\<close>

definition metrics_lock :: "path \<Rightarrow> path" where
  "metrics_lock p = parse_path (path_display p @ ''.lock'')"

text \<open>
  The entries of the directory as listed; \<open>None\<close> is an entry that cannot be read. The name looked at is the
  lossy UTF-8 of the entry's (\<open>to_string_lossy\<close>, a parameter). Removal is best effort.
\<close>

fun cleanup_entries :: "(string \<Rightarrow> string) \<Rightarrow> path \<Rightarrow> 32 word \<Rightarrow> string option list \<Rightarrow> disk \<Rightarrow> disk option" where
  "cleanup_entries lossy base_dir now_days [] d = Some d"
| "cleanup_entries lossy base_dir now_days (None # ns) d = cleanup_entries lossy base_dir now_days ns d"
| "cleanup_entries lossy base_dir now_days (Some name # ns) d =
     (case old_file now_days (lossy name) of
        None \<Rightarrow> None
      | Some Keep \<Rightarrow> cleanup_entries lossy base_dir now_days ns d
      | Some Remove \<Rightarrow>
          let p = base_dir @ [Normal name]; d1 = snd (disk_remove_file p d); d2 = snd (disk_remove_file (metrics_lock p) d1)
          in cleanup_entries lossy base_dir now_days ns d2)"

definition cleanup_old_files :: "(string \<Rightarrow> string) \<Rightarrow> path \<Rightarrow> nat \<Rightarrow> string option list option \<Rightarrow> disk \<Rightarrow> disk option" where
  "cleanup_old_files lossy base_dir ms listing d =
     (case listing of None \<Rightarrow> Some d | Some names \<Rightarrow> cleanup_entries lossy base_dir (days_of_ms ms) names d)"

section \<open>Error codes\<close>

text \<open>The codes that \<open>rmcp\<close> names, and any other.\<close>

datatype mcp_code = Mcp_RESOURCE_NOT_FOUND | Mcp_INVALID_PARAMS | Mcp_INVALID_REQUEST | Mcp_METHOD_NOT_FOUND | Mcp_PARSE_ERROR | Mcp_INTERNAL_ERROR | OtherCode int

fun classify_error_code :: "mcp_code \<Rightarrow> string \<times> string option" where
  "classify_error_code Mcp_RESOURCE_NOT_FOUND = (''RESOURCE_NOT_FOUND'', None)"
| "classify_error_code Mcp_INVALID_PARAMS = (''INVALID_PARAMS'', None)"
| "classify_error_code Mcp_INVALID_REQUEST = (''INVALID_REQUEST'', None)"
| "classify_error_code Mcp_METHOD_NOT_FOUND = (''METHOD_NOT_FOUND'', None)"
| "classify_error_code Mcp_PARSE_ERROR = (''PARSE_ERROR'', None)"
| "classify_error_code Mcp_INTERNAL_ERROR = (''INTERNAL_ERROR'', None)"
| "classify_error_code (OtherCode _) = (''MCP_ERROR'', None)"

section \<open>The session summary\<close>

record tool_metrics =
  tm_count :: nat
  tm_duration_ms :: nat
  tm_output_chars :: nat

record session_counts =
  sc_tools :: "(string \<times> tool_metrics) list"
  sc_session_id :: "string option"

definition no_counts :: session_counts where
  "no_counts = \<lparr>sc_tools = [], sc_session_id = None\<rparr>"

text \<open>A failed cache write is signalled by an event of its own after the call's; it is not a call.\<close>

definition accumulate_event :: "metric_event \<Rightarrow> session_counts \<Rightarrow> session_counts" where
  "accumulate_event e c =
     (if \<not> is_tool_call_event e \<or> mv_cache_write_failure e = Some True then c
      else
        let m = (case alookup (mv_tool e) (sc_tools c) of Some m \<Rightarrow> m | None \<Rightarrow> \<lparr>tm_count = 0, tm_duration_ms = 0, tm_output_chars = 0\<rparr>);
            m = \<lparr>tm_count = tm_count m + 1, tm_duration_ms = tm_duration_ms m + mv_duration_ms e,
                 tm_output_chars = tm_output_chars m + mv_output_chars e\<rparr>
        in \<lparr>sc_tools = ainsert (mv_tool e) m (sc_tools c),
            sc_session_id = (if sc_session_id c = None then mv_session_id e else sc_session_id c)\<rparr>)"

record session_summary =
  ss_session_id :: string
  ss_tool_calls :: "(string \<times> nat \<times> nat \<times> nat) list"
  ss_total_duration_ms :: nat
  ss_total_output_chars :: nat

definition summary_of_counts :: "session_counts \<Rightarrow> session_summary" where
  "summary_of_counts c =
     (let rows = map (\<lambda>(name, m). (name, tm_count m, tm_duration_ms m, tm_output_chars m)) (sort_key fst (sc_tools c)) in
      \<lparr>ss_session_id = (case sc_session_id c of Some i \<Rightarrow> i | None \<Rightarrow> []),
       ss_tool_calls = rows,
       ss_total_duration_ms = sum_list (map (\<lambda>(_, _, d, _). d) rows),
       ss_total_output_chars = sum_list (map (\<lambda>(_, _, _, o'). o') rows)\<rparr>)"

section \<open>The writer\<close>

text \<open>What is not under \<open>src/\<close>: the JSON of an event and of a summary, when they serialize.\<close>

record metrics_json =
  mj_event :: "metric_event \<Rightarrow> string option"
  mj_summary :: "session_summary \<Rightarrow> string option"

record metrics_writer =
  mw_base_dir :: path
  mw_dir_created :: bool
  mw_current_date :: string
  mw_current_file :: "path option"
  mw_counts :: session_counts

text \<open>The state of a started writer; the clock is read once more for its date.\<close>

definition writer_start :: "path \<Rightarrow> nat \<Rightarrow> metrics_writer" where
  "writer_start base_dir ms =
     \<lparr>mw_base_dir = base_dir, mw_dir_created = False, mw_current_date = current_date_str ms, mw_current_file = None,
      mw_counts = no_counts\<rparr>"

definition estimate_tokens :: "metric_event \<Rightarrow> metric_event" where
  "estimate_tokens e =
     (if is_tool_call_event e \<and> mv_est_output_tokens e = None then e\<lparr>mv_est_output_tokens := Some (mv_output_chars e div 4)\<rparr> else e)"

definition METRICS_BATCH :: nat where "METRICS_BATCH = 100"

text \<open>One event is awaited, at most 99 more are taken; \<open>None\<close>: nothing is queued.\<close>

definition receive_batch ::
    "metric_event list \<Rightarrow> session_counts \<Rightarrow> (metric_event list \<times> metric_event list \<times> session_counts) option" where
  "receive_batch queue c =
     (case queue of
        [] \<Rightarrow> None
      | e # es \<Rightarrow>
          let batch = map estimate_tokens (e # take (METRICS_BATCH - 1) es)
          in Some (batch, drop (METRICS_BATCH - 1) es, fold accumulate_event batch c))"

definition metrics_file :: "path \<Rightarrow> string \<Rightarrow> path" where
  "metrics_file base_dir date = path_join base_dir (parse_path (''metrics-'' @ date @ ''.jsonl''))"

definition rotate_metrics_file :: "nat \<Rightarrow> metrics_writer \<Rightarrow> path \<times> metrics_writer" where
  "rotate_metrics_file ms w =
     (let new_date = current_date_str ms;
          w = (if new_date \<noteq> mw_current_date w then w\<lparr>mw_current_date := new_date, mw_current_file := None, mw_dir_created := False\<rparr> else w);
          p = (case mw_current_file w of Some p \<Rightarrow> p | None \<Rightarrow> metrics_file (mw_base_dir w) (mw_current_date w))
      in (p, w\<lparr>mw_current_file := Some p\<rparr>))"

text \<open>Nothing is created for a path without a parent, or with the empty one.\<close>

definition ensure_metrics_dir :: "path \<Rightarrow> metrics_writer \<Rightarrow> disk \<Rightarrow> metrics_writer \<times> disk" where
  "ensure_metrics_dir p w d =
     (if mw_dir_created w then (w, d)
      else case path_parent p of
        None \<Rightarrow> (w, d)
      | Some parent \<Rightarrow>
          if path_display parent = [] then (w, d)
          else let (made, d) = disk_create_dir_all parent d in (if made then w\<lparr>mw_dir_created := True\<rparr> else w, d))"

text \<open>The lock is best effort: without it the batch is written all the same.\<close>

definition acquire_metrics_lock :: "path \<Rightarrow> disk \<Rightarrow> bool \<times> disk" where
  "acquire_metrics_lock p d = lock_exclusive (metrics_lock p) d"

definition append_file :: "path \<Rightarrow> string \<Rightarrow> disk \<Rightarrow> disk" where
  "append_file p bytes d =
     (if d_fails d DkWrite p then d
      else set_file p ((case file_bytes d p of Some old \<Rightarrow> old | None \<Rightarrow> []) @ bytes) d)"

fun flush_events :: "metrics_json \<Rightarrow> path \<Rightarrow> metric_event list \<Rightarrow> otel_point list \<Rightarrow> disk \<Rightarrow> otel_point list \<times> disk" where
  "flush_events J p [] otel d = (otel, d)"
| "flush_events J p (e # es) otel d =
     flush_events J p es (otel @ record_otel_metrics e)
       (case mj_event J e of Some json \<Rightarrow> append_file p (json @ [LF]) d | None \<Rightarrow> d)"

definition flush_batch :: "metrics_json \<Rightarrow> path \<Rightarrow> metric_event list \<Rightarrow> otel_point list \<Rightarrow> disk \<Rightarrow> otel_point list \<times> disk" where
  "flush_batch J p batch otel d = flush_events J p batch otel (snd (acquire_metrics_lock p d))"

text \<open>The state of the pipeline: the channel, the writer, the recorded points, the disk.\<close>

record metrics_state =
  ms_channel :: metrics_channel
  ms_writer :: metrics_writer
  ms_otel :: "otel_point list"
  ms_disk :: disk

text \<open>One round of the loop. A batch whose file cannot be opened is dropped, with its points.\<close>

definition writer_round :: "metrics_json \<Rightarrow> nat \<Rightarrow> metrics_state \<Rightarrow> metrics_state" where
  "writer_round J ms s =
     (let ch = ms_channel s; w = ms_writer s in
      case receive_batch (mc_queue ch) (mw_counts w) of
        None \<Rightarrow> s
      | Some (batch, rest, counts) \<Rightarrow>
          let (p, w) = rotate_metrics_file ms (w\<lparr>mw_counts := counts\<rparr>);
              (w, d) = ensure_metrics_dir p w (ms_disk s);
              (opened, d) = open_lock_file p d;
              (otel, d) = (if opened then flush_batch J p batch (ms_otel s) d else (ms_otel s, d))
          in \<lparr>ms_channel = ch\<lparr>mc_queue := rest\<rparr>, ms_writer = w, ms_otel = otel, ms_disk = d\<rparr>)"

text \<open>The pipeline as the server starts it.\<close>

definition metrics_start :: "path \<Rightarrow> nat \<Rightarrow> disk \<Rightarrow> metrics_state" where
  "metrics_start base_dir ms d =
     \<lparr>ms_channel = \<lparr>mc_queue = [], mc_closed = False, mc_dropped = 0\<rparr>, ms_writer = writer_start base_dir ms, ms_otel = [], ms_disk = d\<rparr>"

text \<open>Tools send while the writer runs.\<close>

datatype metrics_op = MSend metric_event | MRound nat

fun metrics_step :: "metrics_json \<Rightarrow> metrics_op \<Rightarrow> metrics_state \<Rightarrow> metrics_state" where
  "metrics_step J (MSend e) s = s\<lparr>ms_channel := metrics_send e (ms_channel s)\<rparr>"
| "metrics_step J (MRound ms) s = writer_round J ms s"

definition metrics_run :: "metrics_json \<Rightarrow> metrics_op list \<Rightarrow> metrics_state \<Rightarrow> metrics_state" where
  "metrics_run J ops s = fold (metrics_step J) ops s"

text \<open>What is exported when the channel is closed and empty.\<close>

definition export_summary :: "metrics_json \<Rightarrow> exec_env \<Rightarrow> string option \<Rightarrow> session_counts \<Rightarrow> exec_state \<Rightarrow> exec_state" where
  "export_summary J X export_path c xs =
     (case export_path of
        None \<Rightarrow> xs
      | Some s \<Rightarrow>
          if \<not> is_absolute (parse_path s) then xs
          else case mj_summary J (summary_of_counts c) of
            None \<Rightarrow> xs
          | Some json \<Rightarrow> snd (atomic_write X (parse_path s) json xs))"

end
