(* ===== verification/Calendar.thy ===== *)
theory Calendar
  imports Main
begin

text \<open>
  The proleptic Gregorian calendar on natural numbers: the date of a day and the day of a date, counted from
  1 March of year 0, with the proof that they are inverse. The metrics files are named by the date.
\<close>

section \<open>The calendar on numbers\<close>

definition year_start :: "nat \<Rightarrow> nat" where "year_start y = 365 * y + y div 4 - y div 100"

definition year_index :: "nat \<Rightarrow> nat" where "year_index x = x - x div 1460 + x div 36524 - x div 146096"

lemma div_step: "Suc x div n = (if n dvd Suc x then Suc (x div n) else x div n)" if "0 < n" for n :: nat
  using that by (simp add: div_Suc dvd_eq_mod_eq_0)

lemma index_step:
  assumes "c1 \<le> x" "c1' \<le> Suc c1" "c1' \<le> Suc x" "c2 + c3' \<le> c2' + c3" "c3 \<le> c2" "c3' \<le> c2'"
  shows "x - c1 + c2 - c3 \<le> Suc x - c1' + c2' - (c3' :: nat)"
  using assms by linarith

lemma year_index_step: "year_index x \<le> year_index (Suc x)"
  unfolding year_index_def
proof (rule index_step)
  have "(36524::nat) dvd Suc x" if "146096 dvd Suc x"
    by (rule dvd_trans[OF _ that]) simp
  then show "x div 36524 + Suc x div 146096 \<le> Suc x div 36524 + x div 146096"
    by (simp only: div_step zero_less_numeral split: if_splits) (auto simp only: add_Suc add_Suc_right add.commute le_refl Suc_le_mono)
  show "Suc x div 1460 \<le> Suc (x div 1460)" using div_step[of 1460 x] by simp
  show "x div 1460 \<le> x" "Suc x div 1460 \<le> Suc x" by (rule div_le_dividend)+
  show "x div 146096 \<le> x div 36524" "Suc x div 146096 \<le> Suc x div 36524" by (rule div_le_mono2, simp_all)+
qed

lemma year_index_mono: "a \<le> b \<Longrightarrow> year_index a \<le> year_index b"
  by (rule lift_Suc_mono_le[of year_index, OF year_index_step])

lemma div_bounds: "k * (x div k) \<le> x" "0 < k \<Longrightarrow> x < k * (x div k) + k" for x k :: nat
  using mult_div_mod_eq[of k x] mod_less_divisor[of k x] by linarith+

lemma index_ge: "c1 \<le> q \<Longrightarrow> h \<le> c2 \<Longrightarrow> h \<le> q \<Longrightarrow> 365 * y \<le> 365 * y + q - h - c1 + c2 - (0 :: nat)"
  by linarith

lemma index_less:
  "e + 1 + h = 365 * Suc y + q \<Longrightarrow> q \<le> c1 \<Longrightarrow> c2 \<le> h \<Longrightarrow> c1 \<le> e \<Longrightarrow> e - c1 + c2 - c3 < 365 * Suc y" for c3 :: nat
  by linarith

lemma year_start_index:
  assumes "y < 400"
  shows "365 * y \<le> year_index (year_start y)"
proof -
  define q h where "q = y div 4" and "h = y div 100"
  have q: "4 * q \<le> y" "y \<le> 4 * q + 3" and h: "100 * h \<le> y" "y \<le> 100 * h + 99"
    unfolding q_def h_def using div_bounds[of 4 y] div_bounds[of 100 y] by linarith+
  have b: "q \<le> 99" "h \<le> q" "25 * h \<le> q" using q h assms by linarith+
  have s: "year_start y = 365 * y + q - h" by (simp add: year_start_def q_def h_def)
  have "year_start y < Suc q * 1460" unfolding s using q b by simp
  then have "year_start y div 1460 \<le> q" using less_mult_imp_div_less[of "year_start y"] by fastforce
  moreover have "h * 36524 \<le> year_start y" unfolding s using q h b by simp
  then have "h \<le> year_start y div 36524" by (simp add: less_eq_div_iff_mult_less_eq)
  moreover have "year_start y div 146096 = 0" unfolding s using assms b by simp
  ultimately show ?thesis using index_ge[OF _ _ b(2), of "year_start y div 1460" "year_start y div 36524" y]
    unfolding year_index_def by (simp only: s[symmetric])
qed

lemma year_end_index:
  assumes "y < 400"
  shows "year_index (year_start (Suc y) - 1) < 365 * Suc y"
proof -
  define q h where "q = Suc y div 4" and "h = Suc y div 100"
  have q: "4 * q \<le> Suc y" "Suc y \<le> 4 * q + 3" and h: "100 * h \<le> Suc y" "Suc y \<le> 100 * h + 99"
    unfolding q_def h_def using div_bounds[of 4 "Suc y"] div_bounds[of 100 "Suc y"] by linarith+
  have b: "q \<le> 100" "h \<le> q" "q \<le> 25 * h + 24" "h = q \<Longrightarrow> q = 0" using q h assms by linarith+
  define e where "e = year_start (Suc y) - 1"
  have s: "e + 1 + h = 365 * Suc y + q" using b by (simp add: e_def year_start_def q_def h_def)
  have "q * 1460 \<le> e" using s q b by (cases "h < q") simp_all
  then have "q \<le> e div 1460" by (simp add: less_eq_div_iff_mult_less_eq)
  moreover have "e < Suc h * 36524" using s h b by simp
  then have "e div 36524 \<le> h" using less_mult_imp_div_less[of e] by fastforce
  moreover have "e div 1460 \<le> e" by (rule div_le_dividend)
  ultimately show ?thesis using index_less[OF s] unfolding year_index_def e_def[symmetric] by blast
qed

lemma start_step:
  fixes c1 c2 c1' c2' y :: nat
  assumes "c2' + c1 \<le> c1' + c2" "c1' \<le> Suc c1" "c2 \<le> c2'" "c2 \<le> c1" "c2' \<le> c1'"
  shows "365 * y + c1 - c2 < 365 * Suc y + c1' - c2' \<and> 365 * Suc y + c1' - c2' \<le> 365 * y + c1 - c2 + 366"
proof -
  obtain a b where "c1 = c2 + a" "c1' = c2' + b" using assms(4,5) by (auto simp: le_iff_add)
  then show ?thesis using assms(1-3) by auto
qed

lemma year_length: "year_start y < year_start (Suc y) \<and> year_start (Suc y) \<le> year_start y + 366"
  unfolding year_start_def
proof (rule start_step)
  have "(4::nat) dvd Suc y" if "100 dvd Suc y" by (rule dvd_trans[OF _ that]) simp
  then show "Suc y div 100 + y div 4 \<le> Suc y div 4 + y div 100"
    by (simp only: div_step zero_less_numeral split: if_splits) (auto simp only: add_Suc add_Suc_right add.commute le_refl Suc_le_mono)
  show "Suc y div 4 \<le> Suc (y div 4)" using div_step[of 4 y] by simp
  show "y div 100 \<le> Suc y div 100" by (rule div_le_mono) simp
  show "y div 100 \<le> y div 4" "Suc y div 100 \<le> Suc y div 4" by (rule div_le_mono2, simp_all)+
qed

lemma year_start_mono: "y \<le> z \<Longrightarrow> year_start y \<le> year_start z"
  by (rule lift_Suc_mono_le[of year_start]) (simp_all add: year_length less_imp_le)

lemma year_exists: "x < year_start n \<Longrightarrow> \<exists>y<n. year_start y \<le> x \<and> x < year_start (Suc y)"
proof (induction n)
  case 0
  then show ?case by (simp add: year_start_def)
next
  case (Suc n)
  show ?case
  proof (cases "x < year_start n")
    case True
    then show ?thesis using Suc by (meson less_SucI)
  next
    case False
    then show ?thesis using Suc.prems(1) by (intro exI[of _ n]) simp
  qed
qed

lemma year_of_day:
  assumes "doe < 146097"
  obtains y where "y < 400" "year_index doe div 365 = y" "year_start y \<le> doe" "doe < year_start y + 366"
proof (cases "doe = 146096")
  case True
  then show thesis using that[of 399] by (simp add: year_index_def year_start_def)
next
  case False
  then have "doe < year_start 400" using assms by (simp add: year_start_def)
  from year_exists[OF this] obtain y where y: "y < 400" "year_start y \<le> doe" "doe < year_start (Suc y)" by auto
  have f: "365 * y \<le> year_index (year_start y)" "year_index (year_start (Suc y) - 1) < 365 * Suc y"
      "year_start (Suc y) \<le> year_start y + 366"
    using year_start_index year_end_index year_length y(1) by simp_all
  have "year_index (year_start y) \<le> year_index doe" using y by (intro year_index_mono) simp_all
  moreover have "year_index doe \<le> year_index (year_start (Suc y) - 1)" using y by (intro year_index_mono) simp_all
  ultimately have "year_index doe div 365 = y" using f by (intro div_nat_eqI) simp_all
  then show ?thesis using that[of y] y f by simp
qed

definition civil :: "nat \<Rightarrow> nat \<times> nat \<times> nat" where
  "civil z =
     (let era = z div 146097; doe = z - era * 146097; yoe = year_index doe div 365; y = yoe + era * 400;
          doy = doe - year_start yoe; mp = (5 * doy + 2) div 153; d = doy - (153 * mp + 2) div 5 + 1;
          m = (if mp < 10 then mp + 3 else mp - 9)
      in (if m \<le> 2 then y + 1 else y, m, d))"

definition civil_days :: "nat \<Rightarrow> nat \<Rightarrow> nat \<Rightarrow> nat" where
  "civil_days y m d =
     (let (y, m) = (if m \<le> 2 then (y - 1, m + 9) else (y, m - 3)); era = y div 400; yoe = y - era * 400
      in era * 146097 + (year_start yoe + ((153 * m + 2) div 5 + d - 1)))"

lemma months:
  assumes "doy < (366::nat)" and mp: "mp = (5 * doy + 2) div 153"
  shows "mp \<le> 11" "(153 * mp + 2) div 5 \<le> doy" "doy - (153 * mp + 2) div 5 + 1 \<le> 31"
proof -
  define t where "t = (153 * mp + 2) div 5"
  have "153 * mp \<le> 5 * doy + 2" "5 * doy + 2 < 153 * mp + 153" "5 * t \<le> 153 * mp + 2" "153 * mp + 2 < 5 * t + 5"
    unfolding mp t_def using div_bounds[of 153 "5 * doy + 2"] div_bounds[of 5 "153 * ((5 * doy + 2) div 153) + 2"] by simp_all
  then show "mp \<le> 11" "t \<le> doy" "doy - t + 1 \<le> 31" using assms(1) by linarith+
qed

lemma civil_round_trip:
  assumes "civil z = (y, m, d)"
  shows "civil_days y m d = z" and "1 \<le> m" "m \<le> 12" "1 \<le> d" "d \<le> 31" "y \<le> z div 146097 * 400 + 400" "m \<le> 2 \<Longrightarrow> 1 \<le> y"
proof -
  define era doe where "era = z div 146097" and "doe = z - era * 146097"
  have doe: "doe < 146097" "era * 146097 + doe = z"
    by (simp_all add: era_def doe_def minus_div_mult_eq_mod)
  obtain yoe where y: "yoe < 400" "year_index doe div 365 = yoe" "year_start yoe \<le> doe" "doe < year_start yoe + 366"
    using year_of_day[OF doe(1)] by blast
  define doy mp where "doy = doe - year_start yoe" and "mp = (5 * doy + 2) div 153"
  have doy: "doy < 366" "year_start yoe + doy = doe" using y by (auto simp: doy_def)
  have mp: "mp \<le> 11" "(153 * mp + 2) div 5 \<le> doy" "doy - (153 * mp + 2) div 5 + 1 \<le> 31"
    using months[OF doy(1) mp_def] by simp_all
  have c: "d = doy - (153 * mp + 2) div 5 + 1" "m = (if mp < 10 then mp + 3 else mp - 9)"
      "y = (if m \<le> 2 then yoe + era * 400 + 1 else yoe + era * 400)"
    using assms unfolding civil_def Let_def era_def[symmetric] doe_def[symmetric] y(2) doy_def[symmetric] mp_def[symmetric]
    by (auto simp only: prod.inject)
  have era: "(yoe + era * 400) div 400 = era" using y(1) by simp
  show "1 \<le> m" "m \<le> 12" "1 \<le> d" "d \<le> 31" "y \<le> z div 146097 * 400 + 400" "m \<le> 2 \<Longrightarrow> 1 \<le> y"
    using c mp y(1) by (auto simp: era_def[symmetric] split: if_splits)
  have shift: "(if m \<le> 2 then (y - 1, m + 9) else (y, m - 3)) = (yoe + era * 400, mp)"
    using c mp by (auto split: if_splits)
  have "(153 * mp + 2) div 5 + d - 1 = doy" using c(1) mp(2) by simp
  then show "civil_days y m d = z" using doy doe era by (simp add: civil_days_def shift)
qed

end
