(* ===== verification/MetricsDates.thy ===== *)
theory MetricsDates
  imports Metrics Calendar
begin

text \<open>
  The dates of the metrics files: the 32-bit arithmetic of the code is the calendar's up to the year 9999, so
  the date of a day is read back as that day.
\<close>

section \<open>Words\<close>

definition LAST_DAY :: nat where "LAST_DAY = 2932896"

lemma unat_of_nat32: "n < 2 ^ 32 \<Longrightarrow> unat (of_nat n :: 32 word) = n"
  by (simp add: unat_of_nat take_bit_nat_eq_self)

lemma of_nat_div32: "a < 2 ^ 32 \<Longrightarrow> b < 2 ^ 32 \<Longrightarrow> (of_nat a :: 32 word) div of_nat b = of_nat (a div b)"
  by (rule word_unat_eq_iff[THEN iffD2]) (simp add: unat_div unat_of_nat32 le_less_trans[OF div_le_dividend])

lemma of_nat_le32: "a < 2 ^ 32 \<Longrightarrow> b < 2 ^ 32 \<Longrightarrow> (of_nat a :: 32 word) \<le> of_nat b \<longleftrightarrow> a \<le> b"
  by (simp add: word_le_nat_alt unat_of_nat32)

lemma of_nat_less32: "a < 2 ^ 32 \<Longrightarrow> b < 2 ^ 32 \<Longrightarrow> (of_nat a :: 32 word) < of_nat b \<longleftrightarrow> a < b"
  by (simp add: word_less_nat_alt unat_of_nat32)

lemma date_of_days_civil:
  assumes n: "n \<le> LAST_DAY" and c: "civil (n + 719468) = (y, m, d)"
  shows "date_of_days (of_nat n) = (of_nat y, of_nat m, of_nat d)"
proof -
  define z era doe where "z = n + 719468" and "era = z div 146097" and "doe = z - era * 146097"
  have z: "z < 2 ^ 32" using n by (simp add: z_def LAST_DAY_def)
  have doe: "doe < 146097" "era * 146097 \<le> z" by (simp_all add: era_def doe_def minus_div_mult_eq_mod)
  obtain yoe where y: "yoe < 400" "year_index doe div 365 = yoe" "year_start yoe \<le> doe" "doe < year_start yoe + 366"
    using year_of_day[OF doe(1)] by blast
  define doy mp where "doy = doe - year_start yoe" and "mp = (5 * doy + 2) div 153"
  have doy: "doy < 366" using y by (auto simp: doy_def)
  note mp = months[OF doy mp_def]
  have c': "d = doy - (153 * mp + 2) div 5 + 1" "m = (if mp < 10 then mp + 3 else mp - 9)"
      "y = (if m \<le> 2 then yoe + era * 400 + 1 else yoe + era * 400)"
    using c unfolding civil_def Let_def z_def[symmetric] era_def[symmetric] doe_def[symmetric] y(2) doy_def[symmetric] mp_def[symmetric]
    by (auto simp only: prod.inject)
  define W where "W = (of_nat :: nat \<Rightarrow> 32 word)"
  have num: "numeral k = W (numeral k)" "1 = W 1" for k by (simp_all add: W_def)
  have ops: "W a + W b = W (a + b)" "W a * W b = W (a * b)" for a b by (simp_all add: W_def)
  have dv: "a < 2 ^ 32 \<Longrightarrow> b < 2 ^ 32 \<Longrightarrow> W a div W b = W (a div b)" for a b by (simp add: W_def of_nat_div32)
  have sb: "b \<le> a \<Longrightarrow> W a - W b = W (a - b)" for a b by (simp add: W_def)
  have z': "W n + 719468 = W z" by (simp add: z_def W_def)
  have era': "W z div 146097 = W era" using z by (simp add: num dv era_def)
  have doe': "W z - W era * 146097 = W doe" using doe(2) by (simp add: num ops sb doe_def)
  have le: "doe div 1460 \<le> doe" "doe div 146096 \<le> doe - doe div 1460 + doe div 36524"
    using div_le_dividend[of doe 1460] div_le_mono2[of 36524 146096 doe] by simp_all
  have yoe': "(W doe - W doe div 1460 + W doe div 36524 - W doe div 146096) div 365 = W yoe"
  proof -
    have b: "doe - doe div 1460 + doe div 36524 - doe div 146096 < 2 ^ 32"
      using doe(1) div_le_dividend[of doe 36524] by simp
    have d: "W doe div 1460 = W (doe div 1460)" "W doe div 36524 = W (doe div 36524)" "W doe div 146096 = W (doe div 146096)"
      using doe(1) by (simp_all add: num dv)
    have "W doe - W doe div 1460 + W doe div 36524 - W doe div 146096 = W (doe - doe div 1460 + doe div 36524 - doe div 146096)"
      unfolding d sb[OF le(1)] ops sb[OF le(2)] by (rule refl)
    moreover have "W (doe - doe div 1460 + doe div 36524 - doe div 146096) div 365 = W ((doe - doe div 1460 + doe div 36524 - doe div 146096) div 365)"
      unfolding num by (rule dv[OF b]) simp
    ultimately show ?thesis using y(2) by (simp only: year_index_def)
  qed
  have start: "365 * W yoe + W yoe div 4 - W yoe div 100 = W (year_start yoe)"
  proof -
    have d: "W yoe div 4 = W (yoe div 4)" "W yoe div 100 = W (yoe div 100)" "365 * W yoe = W (365 * yoe)"
      using y(1) by (simp_all add: num dv ops)
    have "yoe div 100 \<le> yoe div 4" by (rule div_le_mono2) simp_all
    then have l: "yoe div 100 \<le> 365 * yoe + yoe div 4" by simp
    show ?thesis unfolding d ops sb[OF l] year_start_def by (rule refl)
  qed
  have doy': "W doe - W (year_start yoe) = W doy" using y(3) by (simp add: sb doy_def)
  have mp': "(5 * W doy + 2) div 153 = W mp" using doy by (simp add: num ops dv mp_def)
  have t': "(153 * W mp + 2) div 5 = W ((153 * mp + 2) div 5)" using mp(1) by (simp add: num ops dv)
  have d': "W doy - W ((153 * mp + 2) div 5) + 1 = W d" unfolding sb[OF mp(2)] num(2) ops c'(1) by (rule refl)
  have "m \<le> 12" using c'(2) mp(1) by (auto split: if_splits)
  then have small: "W mp < W 10 \<longleftrightarrow> mp < 10" "W m \<le> W 2 \<longleftrightarrow> m \<le> 2"
    using of_nat_less32[of mp 10] of_nat_le32[of m 2] mp(1) by (simp_all add: W_def)
  have m': "(if W mp < 10 then W mp + 3 else W mp - 9) = W m"
    using sb[of 9 mp] unfolding num small c'(2) ops by auto
  have y': "(if W m \<le> 2 then W yoe + W era * 400 + 1 else W yoe + W era * 400) = W y"
    unfolding num small c'(3) ops by simp
  show ?thesis
    unfolding date_of_days_def Let_def W_def[symmetric] z' era' doe' yoe' start doy' mp' t' d' m' y' by (rule refl)
qed

lemma civil_year:
  assumes n: "n \<le> LAST_DAY" and c: "civil (n + 719468) = (y, m, d)"
  shows "y < 10000"
proof (rule ccontr)
  assume "\<not> y < 10000"
  have z: "n + 719468 < 3652365" using n by (simp add: LAST_DAY_def)
  have "(n + 719468) div 146097 \<le> 24" using less_mult_imp_div_less[of "n + 719468" 25 146097] z by simp
  then have y: "y = 10000" using civil_round_trip(6)[OF c] \<open>\<not> y < 10000\<close> by simp
  have "(153 * (m + 9) + 2) div 5 \<ge> 306" using civil_round_trip(2)[OF c] div_le_mono[of 1532 "153 * (m + 9) + 2" 5] by simp
  then have "civil_days y m d \<ge> 3652365" using y civil_round_trip(4)[OF c] by (auto simp: civil_days_def year_start_def)
  then show False using civil_round_trip(1)[OF c] z by simp
qed

lemma days_of_civil:
  assumes n: "n \<le> LAST_DAY" and c: "civil (n + 719468) = (y, m, d)"
  shows "date_to_days_since_epoch (of_nat y) (of_nat m) (of_nat d) = of_nat n"
proof -
  note r = civil_round_trip[OF c]
  have y: "y < 10000" by (rule civil_year[OF n c])
  have z: "n + 719468 < 2 ^ 32" using n by (simp add: LAST_DAY_def)
  define y0 m0 where "y0 = (if m \<le> 2 then y - 1 else y)" and "m0 = (if m \<le> 2 then m + 9 else m - 3)"
  define era yoe where "era = y0 div 400" and "yoe = y0 - era * 400"
  have bounds: "y0 < 10000" "m0 \<le> 11" "yoe < 400" "era * 400 \<le> y0"
    using y r(3) by (auto simp: y0_def m0_def yoe_def era_def minus_div_mult_eq_mod)
  have sum: "era * 146097 + (year_start yoe + ((153 * m0 + 2) div 5 + d - 1)) = n + 719468"
    using r(1) by (simp add: civil_days_def y0_def m0_def era_def yoe_def Let_def split: if_splits)
  define W where "W = (of_nat :: nat \<Rightarrow> 32 word)"
  have num: "numeral k = W (numeral k)" "1 = W 1" for k by (simp_all add: W_def)
  have ops: "W a + W b = W (a + b)" "W a * W b = W (a * b)" for a b by (simp_all add: W_def)
  have dv: "a < 2 ^ 32 \<Longrightarrow> b < 2 ^ 32 \<Longrightarrow> W a div W b = W (a div b)" for a b by (simp add: W_def of_nat_div32)
  have sb: "b \<le> a \<Longrightarrow> W a - W b = W (a - b)" for a b by (simp add: W_def)
  have shift: "(if W m \<le> 2 then (W y - 1, W m + 9) else (W y, W m - 3)) = (W y0, W m0)"
  proof -
    have small: "W m \<le> W 2 \<longleftrightarrow> m \<le> 2" using of_nat_le32[of m 2] r(3) by (simp add: W_def)
    show ?thesis using sb[of 1 y] sb[of 3 m] r(7) unfolding num small y0_def m0_def ops by auto
  qed
  have era': "W y0 div 400 = W era" using bounds by (simp add: num dv era_def)
  have yoe': "W y0 - W era * 400 = W yoe" unfolding num ops sb[OF bounds(4)] yoe_def by (rule refl)
  have t': "(153 * W m0 + 2) div 5 + W d - 1 = W ((153 * m0 + 2) div 5 + d - 1)"
  proof -
    have "(153 * W m0 + 2) div 5 = W ((153 * m0 + 2) div 5)" using bounds(2) by (simp add: num ops dv)
    moreover have "1 \<le> (153 * m0 + 2) div 5 + d" using r(4) by simp
    ultimately show ?thesis by (simp only: num ops sb)
  qed
  have start: "W yoe * 365 + W yoe div 4 - W yoe div 100 = W (year_start yoe)"
  proof -
    have d: "W yoe div 4 = W (yoe div 4)" "W yoe div 100 = W (yoe div 100)" "W yoe * 365 = W (365 * yoe)"
      using bounds by (simp_all add: num dv ops mult.commute)
    have "yoe div 100 \<le> yoe div 4" by (rule div_le_mono2) simp_all
    then have l: "yoe div 100 \<le> 365 * yoe + yoe div 4" by simp
    show ?thesis unfolding d ops sb[OF l] year_start_def by (rule refl)
  qed
  have total: "W era * 146097 + (W (year_start yoe) + W ((153 * m0 + 2) div 5 + d - 1)) = W (n + 719468)"
    unfolding num ops sum by (rule refl)
  have "(if W (n + 719468) < 719468 then 0 else W (n + 719468) - 719468) = W n"
    using of_nat_less32[OF z, of 719468] by (simp add: W_def)
  then show ?thesis
    unfolding date_to_days_since_epoch_def W_def[symmetric] shift Let_def prod.case era' yoe' t' start total .
qed

section \<open>Names\<close>

lemma nat_str_length: "v < 10 ^ n \<Longrightarrow> 0 < n \<Longrightarrow> length (nat_str v) \<le> n"
proof (induction v arbitrary: n rule: nat_str.induct)
  case (1 v)
  show ?case
  proof (cases "v < 10")
    case True
    then show ?thesis using 1(3) by (subst nat_str.simps) simp
  next
    case False
    then obtain k where k: "n = Suc k" "0 < k" using 1(2,3) by (cases n; cases "n - 1") auto
    have "v div 10 < 10 ^ k" using 1(2) k by (simp add: less_mult_imp_div_less mult.commute)
    then have "length (nat_str (v div 10)) \<le> k" using 1(1) False k by simp
    then show ?thesis using False k by (subst nat_str.simps) simp
  qed
qed

lemma zero_padded:
  assumes "v < 10 ^ n" "0 < n"
  shows "length (zero_pad n (nat_str v)) = n" "list_all is_digit (zero_pad n (nat_str v))" "digits_value (zero_pad n (nat_str v)) = v"
proof -
  have z: "digits_value (replicate k (CHR ''0'') @ s) = digits_value s" for k s
    by (induction k) (simp_all add: digits_value_def)
  show "length (zero_pad n (nat_str v)) = n" using nat_str_length[OF assms] by (simp add: zero_pad_def)
  show "list_all is_digit (zero_pad n (nat_str v))" using nat_str_digits[of v]
    by (auto simp: zero_pad_def is_digit_def list_all_iff split: if_splits)
  show "digits_value (zero_pad n (nat_str v)) = v" by (simp add: zero_pad_def z digits_value_nat_str)
qed

lemma parse_digits: "list_all is_digit s \<Longrightarrow> s \<noteq> [] \<Longrightarrow> digits_value s < bound \<Longrightarrow> parse_nat bound s = Some (digits_value s)"
  by (cases s) (auto simp: parse_nat_def is_digit_def)

definition digits_of :: "nat \<Rightarrow> nat \<Rightarrow> string \<Rightarrow> bool" where
  "digits_of k v s \<longleftrightarrow> length s = k \<and> list_all is_digit s \<and> parse_nat (2 ^ 32) s = Some v"

lemma digits_of_padded: "v < 10 ^ k \<Longrightarrow> 0 < k \<Longrightarrow> v < 2 ^ 32 \<Longrightarrow> digits_of k v (zero_pad k (nat_str v))"
  unfolding digits_of_def using zero_padded[of v k] parse_digits[of "zero_pad k (nat_str v)" "2 ^ 32"] by fastforce

lemma date_str_shape:
  assumes ms: "days_of_ms ms = of_nat n" and n: "n \<le> LAST_DAY"
  obtains ys mo ds y m d where "current_date_str ms = ys @ ''-'' @ mo @ ''-'' @ ds"
    "digits_of 4 y ys" "digits_of 2 m mo" "digits_of 2 d ds" "civil (n + 719468) = (y, m, d)"
proof -
  obtain y m d where c: "civil (n + 719468) = (y, m, d)" by (cases "civil (n + 719468)") auto
  note r = civil_round_trip[OF c] and y = civil_year[OF n c]
  show thesis
  proof (rule that[OF _ _ _ _ c])
    show "current_date_str ms = zero_pad 4 (nat_str y) @ ''-'' @ zero_pad 2 (nat_str m) @ ''-'' @ zero_pad 2 (nat_str d)"
      unfolding current_date_str_def ms date_of_days_civil[OF n c] using r(3,5) y by (simp add: unat_of_nat32)
    show "digits_of 4 y (zero_pad 4 (nat_str y))" using y by (intro digits_of_padded) simp_all
    show "digits_of 2 m (zero_pad 2 (nat_str m))" using r(3) by (intro digits_of_padded) simp_all
    show "digits_of 2 d (zero_pad 2 (nat_str d))" using r(5) by (intro digits_of_padded) simp_all
  qed
qed

lemma jsonl_extension: "s \<noteq> [] \<Longrightarrow> name_extension (s @ ''.jsonl'') = Some ''jsonl''"
  by (cases s) (auto simp: name_extension_def Let_def)

lemma digit_not_cont: "is_digit c \<Longrightarrow> \<not> is_cont c"
  by (simp add: is_digit_def is_cont_def)

lemma dated_file_days:
  assumes "digits_of 4 y ys" "digits_of 2 m mo" "digits_of 2 d ds"
  shows "file_days (''metrics-'' @ (ys @ ''-'' @ mo @ ''-'' @ ds) @ ''.jsonl'') =
    Some (if m = 0 \<or> m > 12 \<or> d = 0 \<or> d > 31 then None else Some (date_to_days_since_epoch (of_nat y) (of_nat m) (of_nat d)))"
proof -
  have len: "length ys = 4" "length mo = 2" "length ds = 2" using assms by (simp_all add: digits_of_def)
  obtain a b c e where ys: "ys = [a, b, c, e]" using len(1) by (auto simp: numeral_eq_Suc length_Suc_conv)
  obtain f g where mo: "mo = [f, g]" using len(2) by (auto simp: numeral_eq_Suc length_Suc_conv)
  obtain h i where ds: "ds = [h, i]" using len(3) by (auto simp: numeral_eq_Suc length_Suc_conv)
  define date where "date = ys @ ''-'' @ mo @ ''-'' @ ds"
  have nc: "\<not> is_cont a" "\<not> is_cont f" "\<not> is_cont h" "\<not> is_cont (CHR ''-'')" "\<not> is_cont (CHR ''.'')"
    using assms ys mo ds by (auto simp: digits_of_def digit_not_cont) (simp_all add: is_cont_def)
  have l: "length date = 10" "length (''metrics-'' @ date @ ''.jsonl'') - 6 = 18" by (simp_all add: date_def ys mo ds)
  have ext: "name_extension (''metrics-'' @ date @ ''.jsonl'') = Some ''jsonl''"
    using jsonl_extension[of "''metrics-'' @ date"] by simp
  have s: "str_slice (''metrics-'' @ date @ ''.jsonl'') 8 18 = Some date"
    using nc(1,5) by (simp add: str_slice_def boundary_def date_def ys mo ds eval_nat_numeral)
  have parts: "str_slice date 0 4 = Some ys" "str_slice date 5 7 = Some mo" "str_slice date 8 10 = Some ds"
      "date ! 4 = CHR ''-''" "date ! 7 = CHR ''-''"
    using nc(2-4) by (simp_all add: str_slice_def boundary_def date_def ys mo ds eval_nat_numeral)
  have p: "parse_nat (2 ^ 32) ys = Some y" "parse_nat (2 ^ 32) mo = Some m" "parse_nat (2 ^ 32) ds = Some d"
    using assms by (auto simp: digits_of_def)
  show ?thesis
    unfolding date_def[symmetric] file_days_def l(2) ext s option.case Let_def parts prod.case p
    using l by (simp add: eq_ignore_ascii_case_def)
qed

lemma date_file_days:
  assumes "days_of_ms ms = of_nat n" "n \<le> LAST_DAY"
  shows "file_days (''metrics-'' @ current_date_str ms @ ''.jsonl'') = Some (Some (of_nat n))"
proof -
  obtain ys mo ds y m d where s: "current_date_str ms = ys @ ''-'' @ mo @ ''-'' @ ds"
      "digits_of 4 y ys" "digits_of 2 m mo" "digits_of 2 d ds" and c: "civil (n + 719468) = (y, m, d)"
    using date_str_shape[OF assms] by metis
  show ?thesis
    unfolding s(1) dated_file_days[OF s(2-4)] days_of_civil[OF assms(2) c] using civil_round_trip[OF c] by auto
qed

end
