(* ===== verification/MetricsProps.thy ===== *)
theory MetricsProps
  imports MetricsDates "HOL-Library.Sublist" "HOL-Library.Multiset"
begin

text \<open>
  The properties of the metrics: the removal of old files, the order and completeness of what the writer
  takes from the channel, and the session summary.
\<close>

section \<open>Old files\<close>

lemma slice_utf8:
  assumes v: "utf8_valid s" and t: "str_slice s a b = Some t"
  shows "utf8_valid t"
proof -
  have ab: "a \<le> b" "boundary s a" "boundary s b" and t: "t = take (b - a) (drop a s)"
    using t by (auto simp: str_slice_def split: if_splits)
  have "utf8_valid (take b s)" using utf8_valid_take_drop[OF v ab(3)] by simp
  moreover have "boundary (take b s) a" using ab boundary_le[OF ab(2)] by (auto simp: boundary_def min_def)
  ultimately have "utf8_valid (drop a (take b s))" using utf8_valid_take_drop by blast
  then show ?thesis using ab t by (simp add: drop_take)
qed

lemma ascii_boundary: "i < length s \<Longrightarrow> s ! i = c \<Longrightarrow> byte c < 128 \<Longrightarrow> boundary s i"
  by (simp add: boundary_def is_cont_def)

lemma after_ascii_boundary:
  assumes "utf8_valid s" "i < length s" "s ! i = c" "byte c < 128"
  shows "boundary s (Suc i)"
proof -
  have "s = take i s @ c # drop (Suc i) s" using assms(2,3) id_take_nth_drop by blast
  then have "utf8_valid (drop (Suc i) s)" using utf8_valid_ascii_mid[OF assms(4), of "take i s" "drop (Suc i) s"] assms(1) by simp
  then show ?thesis using boundary_take_drop[of s "Suc i"] assms(1,2) by simp
qed

lemma extension_suffix:
  assumes "name_extension s = Some e"
  shows "\<exists>t. s = t @ CHR ''.'' # e \<and> t \<noteq> []"
proof -
  let ?d = "dropWhile (\<lambda>c. c \<noteq> CHR ''.'') (rev s)"
  have e: "e = rev (takeWhile (\<lambda>c. c \<noteq> CHR ''.'') (rev s))" "\<not> length s - length e \<le> 1"
    using assms by (auto simp: name_extension_def Let_def split: if_splits)
  have split: "rev s = rev e @ ?d" using takeWhile_dropWhile_id[of "\<lambda>c. c \<noteq> CHR ''.''" "rev s"] e(1) by simp
  then have "length s = length e + length ?d" by (metis length_append length_rev)
  then have "1 < length ?d" using e(2) by simp
  then obtain u where u: "?d = CHR ''.'' # u" "u \<noteq> []"
    using hd_dropWhile[of "\<lambda>c. c \<noteq> CHR ''.''" "rev s"] by (cases ?d) auto
  have "s = rev (rev e @ ?d)" using split by (metis rev_rev_ident)
  then have "s = rev u @ CHR ''.'' # e" unfolding u(1) by simp
  then show ?thesis using u(2) by (intro exI[of _ "rev u"]) simp
qed

text \<open>The slices of a name cut at character boundaries: after the prefix, before the extension, around the dashes.\<close>

lemma file_days_total:
  assumes v: "utf8_valid name"
  shows "file_days name \<noteq> None"
proof (cases "prefix ''metrics-'' name \<and> (case name_extension name of Some e \<Rightarrow> eq_ignore_ascii_case e ''jsonl'' | None \<Rightarrow> False)")
  case False
  then show ?thesis by (auto simp: file_days_def)
next
  case True
  then obtain e where e: "name_extension name = Some e" "eq_ignore_ascii_case e ''jsonl''" by (auto split: option.splits)
  then have le: "length e = 5" using arg_cong[of "map ascii_lower e" "map ascii_lower ''jsonl''" length] by (auto simp: eq_ignore_ascii_case_def dest: arg_cong[where f = length])
  obtain t where t: "name = t @ CHR ''.'' # e" "t \<noteq> []" using extension_suffix[OF e(1)] by blast
  obtain r where r: "name = ''metrics-'' @ r" using True by (auto simp: prefix_def)
  have "8 \<le> length t"
  proof (rule ccontr)
    assume "\<not> 8 \<le> length t"
    then have l: "length t < length ''metrics-''" by simp
    then have "name ! length t = ''metrics-'' ! length t" unfolding r by (rule nth_append_left)
    then have "name ! length t \<in> set ''metrics-''" using nth_mem[OF l] by (simp only:)
    then show False using t(1) by (simp add: nth_append)
  qed
  then have "8 \<le> length name - 6" using t le by simp
  moreover have "boundary name 8" using after_ascii_boundary[OF v, of 7 "CHR ''-''"] r by simp
  moreover have "boundary name (length name - 6)" using t(1) le by (intro ascii_boundary[of _ _ "CHR ''.''"]) (simp_all add: nth_append)
  ultimately obtain date where d: "str_slice name 8 (length name - 6) = Some date" by (simp add: str_slice_def)
  have vd: "utf8_valid date" by (rule slice_utf8[OF v d])
  show ?thesis
  proof (cases "length date \<noteq> 10 \<or> date ! 4 \<noteq> CHR ''-'' \<or> date ! 7 \<noteq> CHR ''-''")
    case True
    then show ?thesis by (simp add: file_days_def d)
  next
    case False
    then have "boundary date 4" "boundary date 5" "boundary date 7" "boundary date 8"
      using after_ascii_boundary[OF vd, of 4] after_ascii_boundary[OF vd, of 7] by (simp_all add: ascii_boundary)
    then have "str_slice date 0 4 \<noteq> None" "str_slice date 5 7 \<noteq> None" "str_slice date 8 10 \<noteq> None"
      using False boundary_length[of date] by (simp_all add: str_slice_def)
    then show ?thesis by (auto simp: file_days_def d)
  qed
qed


definition demo_lossy :: "string \<Rightarrow> string" where "demo_lossy s = (if utf8_valid s then s else [])"

definition demo_metrics_disk :: disk where
  "demo_metrics_disk = \<lparr>d_dirs = [[RootDir]], d_files = [([RootDir, Normal ''metrics-1970-01-01.jsonl''], ''{}'', None)],
     d_fails = \<lambda>_ _. False, d_clock = 0\<rparr>"


text \<open>
  A file is kept for the 30 days after the day it was written on and removed later: the name it got from
  the clock of that day is read back, by the cleanup of any later day, as exactly that day.
\<close>

theorem metrics_file_age:
  assumes "ms div MILLIS_PER_DAY = n" "n \<le> LAST_DAY" "now div MILLIS_PER_DAY = m" "m < 2 ^ 32"
  shows "old_file (days_of_ms now) (''metrics-'' @ current_date_str ms @ ''.jsonl'') = Some (if n + 30 < m then Remove else Keep)"
proof -
  have n: "days_of_ms ms = of_nat n" using assms(1,2) by (simp add: days_of_ms_def LAST_DAY_def)
  have m: "days_of_ms now = of_nat m" using assms(3,4) by (simp add: days_of_ms_def)
  have b: "n < 2 ^ 32" using assms(2) by (simp add: LAST_DAY_def)
  have less: "(of_nat n :: 32 word) < of_nat m \<longleftrightarrow> n < m" by (rule of_nat_less32[OF b assms(4)])
  have "(30 :: 32 word) < of_nat m - of_nat n \<longleftrightarrow> n + 30 < m" if "n < m"
  proof -
    have "(of_nat m - of_nat n :: 32 word) = of_nat (m - n)" using that by simp
    then show ?thesis using of_nat_less32[of 30 "m - n"] assms(4) that by auto
  qed
  then show ?thesis unfolding old_file_def date_file_days[OF n assms(2)] m by (auto simp: less)
qed

theorem metrics_file_age_witness:
  "old_file (days_of_ms (20031 * MILLIS_PER_DAY)) (''metrics-'' @ current_date_str (20000 * MILLIS_PER_DAY + 5) @ ''.jsonl'') = Some Remove"
proof -
  have "(20000 * MILLIS_PER_DAY + 5) div MILLIS_PER_DAY = 20000" "20031 * MILLIS_PER_DAY div MILLIS_PER_DAY = 20031"
    "20000 \<le> LAST_DAY" "(20031::nat) < 2 ^ 32" by (simp_all add: MILLIS_PER_DAY_def LAST_DAY_def)
  from metrics_file_age[OF this(1,3,2,4)] show ?thesis by simp
qed

section \<open>The channel and the writer\<close>

definition sent :: "metrics_op list \<Rightarrow> metric_event list" where
  "sent ops = List.map_filter (\<lambda>op. case op of MSend e \<Rightarrow> Some e | MRound _ \<Rightarrow> None) ops"

lemma accumulate_estimate [simp]: "accumulate_event (estimate_tokens e) = accumulate_event e"
  by (rule ext) (simp add: accumulate_event_def estimate_tokens_def is_tool_call_event_def)

lemma fold_accumulate_estimate: "fold accumulate_event (map estimate_tokens es) c = fold accumulate_event es c"
  by (induction es arbitrary: c) simp_all

lemma receive_batch_Some:
  assumes "receive_batch queue c = Some (batch, rest, c')"
  shows "\<exists>t. queue = t @ rest \<and> batch = map estimate_tokens t \<and> length t \<le> METRICS_BATCH \<and> c' = fold accumulate_event t c"
proof -
  obtain e es where q: "queue = e # es" using assms by (cases queue) (auto simp: receive_batch_def)
  define t where "t = e # take (METRICS_BATCH - 1) es"
  have "batch = map estimate_tokens t" "rest = drop (METRICS_BATCH - 1) es" "c' = fold accumulate_event (map estimate_tokens t) c"
    using assms unfolding receive_batch_def q list.case t_def[symmetric] Let_def by auto
  moreover have "length t \<le> METRICS_BATCH" by (simp add: t_def METRICS_BATCH_def)
  ultimately show ?thesis unfolding fold_accumulate_estimate by (intro exI[of _ t]) (simp add: q t_def)
qed

lemma writer_round_channel:
  "\<exists>t. mc_queue (ms_channel s) = t @ mc_queue (ms_channel (writer_round J ms s)) \<and>
     mw_counts (ms_writer (writer_round J ms s)) = fold accumulate_event t (mw_counts (ms_writer s)) \<and>
     mc_closed (ms_channel (writer_round J ms s)) = mc_closed (ms_channel s) \<and>
     mc_dropped (ms_channel (writer_round J ms s)) = mc_dropped (ms_channel s)"
proof (cases "receive_batch (mc_queue (ms_channel s)) (mw_counts (ms_writer s))")
  case None
  then show ?thesis by (intro exI[of _ "[]"]) (simp add: writer_round_def Let_def)
next
  case (Some r)
  obtain batch rest counts where r: "r = (batch, rest, counts)" by (cases r)
  obtain p w where rot: "rotate_metrics_file ms (ms_writer s\<lparr>mw_counts := counts\<rparr>) = (p, w)" by fastforce
  obtain w' d' where ens: "ensure_metrics_dir p w (ms_disk s) = (w', d')" by fastforce
  have c: "mw_counts w' = counts"
    using rot ens by (auto simp: rotate_metrics_file_def ensure_metrics_dir_def Let_def split: if_splits option.splits prod.splits)
  show ?thesis
    using receive_batch_Some[OF Some[unfolded r]] c
    by (auto simp: writer_round_def Some r rot ens Let_def split: prod.splits)
qed

definition pipeline_ok :: "metric_event list \<Rightarrow> metrics_state \<Rightarrow> metric_event list \<Rightarrow> bool" where
  "pipeline_ok es s taken \<longleftrightarrow>
     subseq (taken @ mc_queue (ms_channel s)) es \<and> \<not> mc_closed (ms_channel s) \<and>
     length es = length taken + length (mc_queue (ms_channel s)) + mc_dropped (ms_channel s) \<and>
     length (mc_queue (ms_channel s)) \<le> METRICS_CHANNEL_CAPACITY \<and>
     mw_counts (ms_writer s) = fold accumulate_event taken no_counts"

lemma pipeline_send:
  assumes "pipeline_ok es s taken"
  shows "pipeline_ok (es @ [e]) (metrics_step J (MSend e) s) taken"
proof -
  have "subseq (taken @ mc_queue (ms_channel s)) (es @ [e])" "subseq ((taken @ mc_queue (ms_channel s)) @ [e]) (es @ [e])"
    using assms by (auto simp: pipeline_ok_def intro: list_emb_append2 list_emb_append_mono simp del: append_assoc)
  then show ?thesis using assms by (auto simp: pipeline_ok_def metrics_send_def)
qed

lemma pipeline_round:
  assumes "pipeline_ok es s taken"
  shows "\<exists>taken'. pipeline_ok es (metrics_step J (MRound ms) s) taken'"
proof -
  obtain t where t: "mc_queue (ms_channel s) = t @ mc_queue (ms_channel (writer_round J ms s))"
      "mw_counts (ms_writer (writer_round J ms s)) = fold accumulate_event t (mw_counts (ms_writer s))"
      "mc_closed (ms_channel (writer_round J ms s)) = mc_closed (ms_channel s)"
      "mc_dropped (ms_channel (writer_round J ms s)) = mc_dropped (ms_channel s)"
    using writer_round_channel by blast
  have "pipeline_ok es (writer_round J ms s) (taken @ t)"
    using assms t arg_cong[OF t(1), of length] unfolding pipeline_ok_def by simp
  then show ?thesis by auto
qed

text \<open>
  C28. Whatever the order in which tools send events and the writer takes batches, at any moment the events the
  writer has taken, followed by those still queued, are events that were sent, in the order they were sent; every
  missing one was counted as dropped; the queue never exceeds its capacity; and the session counts are those of
  the taken events, whatever the batches were and whatever became of their file.
\<close>

theorem metrics_in_order:
  "\<exists>taken. let s = metrics_run J ops (metrics_start base_dir ms d) in
     subseq (taken @ mc_queue (ms_channel s)) (sent ops) \<and>
     length (sent ops) = length taken + length (mc_queue (ms_channel s)) + mc_dropped (ms_channel s) \<and>
     length (mc_queue (ms_channel s)) \<le> METRICS_CHANNEL_CAPACITY \<and>
     mw_counts (ms_writer s) = fold accumulate_event taken no_counts"
proof -
  have "\<exists>taken. pipeline_ok (sent ops) (metrics_run J ops (metrics_start base_dir ms d)) taken"
  proof (induction ops rule: rev_induct)
    case Nil
    show ?case
      by (intro exI[of _ "[]"]) (simp add: pipeline_ok_def sent_def map_filter_simps metrics_run_def metrics_start_def writer_start_def)
  next
    case (snoc op ops)
    then obtain taken where t: "pipeline_ok (sent ops) (metrics_run J ops (metrics_start base_dir ms d)) taken" by blast
    show ?case
    proof (cases op)
      case (MSend e)
      then show ?thesis using pipeline_send[OF t, of e J] by (auto simp: sent_def map_filter_def metrics_run_def)
    next
      case (MRound ms)
      then show ?thesis using pipeline_round[OF t, of J ms] by (auto simp: sent_def map_filter_def metrics_run_def)
    qed
  qed
  then show ?thesis unfolding pipeline_ok_def Let_def by blast
qed

section \<open>The session summary\<close>

definition counted :: "metric_event \<Rightarrow> bool" where
  "counted e \<longleftrightarrow> is_tool_call_event e \<and> mv_cache_write_failure e \<noteq> Some True"

definition counts_ok :: "metric_event list \<Rightarrow> session_counts \<Rightarrow> bool" where
  "counts_ok es c \<longleftrightarrow> distinct (map fst (sc_tools c)) \<and>
     (\<forall>tool. alookup tool (sc_tools c) =
        (let mine = filter (\<lambda>e. counted e \<and> mv_tool e = tool) es in
         if mine = [] then None
         else Some \<lparr>tm_count = length mine, tm_duration_ms = sum_list (map mv_duration_ms mine), tm_output_chars = sum_list (map mv_output_chars mine)\<rparr>))"

lemma counts_ok_fold: "counts_ok es (fold accumulate_event es no_counts)"
proof (induction es rule: rev_induct)
  case Nil
  then show ?case by (simp add: counts_ok_def no_counts_def)
next
  case (snoc e es)
  then show ?case
    by (auto simp: counts_ok_def accumulate_event_def counted_def Let_def distinct_ainsert split: if_splits)
qed

lemma sum_by_key:
  assumes "finite K" "\<forall>e\<in>set es. P e \<longrightarrow> key e \<in> K"
  shows "(\<Sum>t\<in>K. sum_list (map f (filter (\<lambda>e. P e \<and> key e = t) es))) = (sum_list (map f (filter P es)) :: nat)"
  using assms(2)
proof (induction es)
  case (Cons e es)
  have "(\<Sum>t\<in>K. sum_list (map f (filter (\<lambda>e. P e \<and> key e = t) (e # es)))) =
      (\<Sum>t\<in>K. (if P e \<and> t = key e then f e else 0) + sum_list (map f (filter (\<lambda>e. P e \<and> key e = t) es)))"
    by (intro sum.cong) auto
  also have "\<dots> = (if P e then f e else 0) + sum_list (map f (filter P es))"
    unfolding sum.distrib using Cons assms(1) by (cases "P e") (simp_all add: sum.delta)
  finally show ?case by simp
qed simp

lemma sum_over_tools:
  assumes c: "counts_ok es c"
    and g: "\<And>mine. g \<lparr>tm_count = length mine, tm_duration_ms = sum_list (map mv_duration_ms mine), tm_output_chars = sum_list (map mv_output_chars mine)\<rparr> =
      (sum_list (map f mine) :: nat)"
  shows "sum_list (map (\<lambda>(_, m). g m) (sc_tools c)) = sum_list (map f (filter counted es))"
proof -
  let ?mine = "\<lambda>t. filter (\<lambda>e. counted e \<and> mv_tool e = t) es"
  let ?K = "fst ` set (sc_tools c)"
  have d: "distinct (map fst (sc_tools c))" using c by (simp add: counts_ok_def)
  have look: "alookup t (sc_tools c) = (if ?mine t = [] then None else
      Some \<lparr>tm_count = length (?mine t), tm_duration_ms = sum_list (map mv_duration_ms (?mine t)), tm_output_chars = sum_list (map mv_output_chars (?mine t))\<rparr>)" for t
    using c by (simp add: counts_ok_def Let_def)
  have v: "g m = sum_list (map f (?mine t))" if "(t, m) \<in> set (sc_tools c)" for t m
    using mem_alist_lookups[OF d, of t m] that look[of t] g[of "?mine t"] by (auto split: if_splits)
  have "sum_list (map (\<lambda>(_, m). g m) (sc_tools c)) = sum_list (map (\<lambda>x. sum_list (map f (?mine (fst x)))) (sc_tools c))"
    using v by (intro arg_cong[of _ _ sum_list] map_cong) auto
  also have "\<dots> = (\<Sum>t\<in>?K. sum_list (map f (?mine t)))"
    using sum_list_distinct_conv_sum_set[OF d, of "\<lambda>t. sum_list (map f (?mine t))"] by (simp add: o_def)
  also have "\<dots> = sum_list (map f (filter counted es))"
  proof (rule sum_by_key)
    show "\<forall>e\<in>set es. counted e \<longrightarrow> mv_tool e \<in> ?K"
    proof (intro ballI impI)
      fix e assume "e \<in> set es" "counted e"
      then have "?mine (mv_tool e) \<noteq> []" by (auto simp: filter_empty_conv)
      then have "alookup (mv_tool e) (sc_tools c) \<noteq> None" using look[of "mv_tool e"] by simp
      then show "mv_tool e \<in> ?K" by (metis alookup_None_iff)
    qed
  qed simp
  finally show ?thesis .
qed

lemma sum_sort_key: "sum_list (map (f :: _ \<Rightarrow> nat) (sort_key k xs)) = sum_list (map f xs)"
  by (metis mset_map mset_sort sum_mset_sum_list)

text \<open>
  The exported summary has one row per tool, by name, and its totals are those of the finished calls: the
  events that are no receipts, no startup event and no signal of a failed cache write.
\<close>

theorem summary_totals:
  "let S = summary_of_counts (fold accumulate_event es no_counts) in
     sorted (map fst (ss_tool_calls S)) \<and> distinct (map fst (ss_tool_calls S)) \<and>
     ss_total_duration_ms S = sum_list (map mv_duration_ms (filter counted es)) \<and>
     ss_total_output_chars S = sum_list (map mv_output_chars (filter counted es)) \<and>
     sum_list (map (\<lambda>(_, n, _). n) (ss_tool_calls S)) = length (filter counted es)"
proof -
  let ?c = "fold accumulate_event es no_counts"
  note ok = counts_ok_fold[of es]
  have rows: "ss_tool_calls (summary_of_counts ?c) =
      map (\<lambda>(name, m). (name, tm_count m, tm_duration_ms m, tm_output_chars m)) (sort_key fst (sc_tools ?c))"
    by (simp add: summary_of_counts_def Let_def)
  have names: "map fst (ss_tool_calls (summary_of_counts ?c)) = map fst (sort_key fst (sc_tools ?c))"
    unfolding rows by (simp add: o_def case_prod_unfold)
  have "mset (map fst (sort_key fst (sc_tools ?c))) = mset (map fst (sc_tools ?c))" by simp
  then have "distinct (map fst (ss_tool_calls (summary_of_counts ?c)))"
    using ok unfolding names counts_ok_def by (metis mset_eq_imp_distinct_iff)
  moreover have "sorted (map fst (ss_tool_calls (summary_of_counts ?c)))" unfolding names by (rule sorted_sort_key)
  moreover have "ss_total_duration_ms (summary_of_counts ?c) = sum_list (map (\<lambda>(_, m). tm_duration_ms m) (sc_tools ?c))"
    "ss_total_output_chars (summary_of_counts ?c) = sum_list (map (\<lambda>(_, m). tm_output_chars m) (sc_tools ?c))"
    "sum_list (map (\<lambda>(_, n, _). n) (ss_tool_calls (summary_of_counts ?c))) = sum_list (map (\<lambda>(_, m). tm_count m) (sc_tools ?c))"
    unfolding rows by (simp_all add: summary_of_counts_def Let_def o_def case_prod_unfold sum_sort_key)
  moreover have "sum_list (map (\<lambda>(_, m). tm_duration_ms m) (sc_tools ?c)) = sum_list (map mv_duration_ms (filter counted es))"
    "sum_list (map (\<lambda>(_, m). tm_output_chars m) (sc_tools ?c)) = sum_list (map mv_output_chars (filter counted es))"
    "sum_list (map (\<lambda>(_, m). tm_count m) (sc_tools ?c)) = sum_list (map (\<lambda>_. 1) (filter counted es))"
    by (rule sum_over_tools[OF ok]; simp add: sum_list_triv)+
  ultimately show ?thesis by (simp add: Let_def sum_list_triv)
qed

end
