(* ===== verification/EditOverwrite.thy ===== *)
theory EditOverwrite
  imports EditTool EditProps
begin

text \<open>
  The \<open>edit_overwrite\<close> handler, \<open>crates/aptu-coder/src/tools/edit_overwrite.rs\<close>: path resolution, the guard
  against directories, the atomic write, the invalidation of the cache, the reset of the circuit breaker that
  \<open>edit_replace\<close> keeps, and the telemetry. It threads the state of \<open>edit_replace\<close>; its metrics carry no edit count.
\<close>

section \<open>The handler\<close>

datatype overwrite_result = OverwriteError error_data | OverwriteText string

definition overwrite_metric :: "string \<Rightarrow> string option \<Rightarrow> bool \<Rightarrow> metric" where
  "overwrite_metric result etype wd =
     \<lparr>m_tool = ''edit_overwrite'', m_result = result, m_error_type = etype, m_error_subtype = None,
      m_working_dir_used = wd, m_edit_count = 0\<rparr>"

text \<open>The parent must exist, the file need not; a symbolic link in the last place is not followed.\<close>

definition resolve_overwrite_path :: "os \<Rightarrow> string \<Rightarrow> string option \<Rightarrow> error_data + path" where
  "resolve_overwrite_path w param working_dir =
     (case working_dir of
        Some wd \<Rightarrow> validate_path_relative_to w param False (parse_path wd)
      | None \<Rightarrow> (case canonical_cwd w of Inl e \<Rightarrow> Inl e | Inr cwd \<Rightarrow> validate_path_relative_to w param False cwd))"

text \<open>The message of an error that has no arm of its own; writing a file has none, \<open>other_msg\<close> is its \<open>Display\<close>.\<close>

definition overwrite_error :: "string \<Rightarrow> edit_error \<Rightarrow> bool \<Rightarrow> tool_state \<Rightarrow> overwrite_result \<times> tool_state" where
  "overwrite_error other_msg err wd s =
     (case err of
        NotAFile _ \<Rightarrow>
          (OverwriteError (error_new INVALID_PARAMS ''path is a directory'' ''validation'' False
             ''provide a file path, not a directory''),
           send (overwrite_metric ''error'' (Some ''invalid_params'') wd) s)
      | Io _ \<Rightarrow>
          (OverwriteError (error_new INTERNAL_ERROR ''I/O error writing file; check file path and permissions''
             ''resource'' False ''check file path and permissions''),
           send (overwrite_metric ''error'' (Some ''internal_error'') wd) s)
      | _ \<Rightarrow>
          (OverwriteError (error_new INTERNAL_ERROR other_msg ''resource'' False ''check file path and permissions''),
           send (overwrite_metric ''error'' (Some ''internal_error'') wd) s))"

definition overwrite_text :: "edit_overwrite_output \<Rightarrow> string" where
  "overwrite_text out = ''Wrote '' @ nat_str (ow_bytes_written out) @ '' bytes to '' @ path_display (ow_path out)"

definition edit_overwrite_tool ::
    "string \<Rightarrow> os \<Rightarrow> string option \<Rightarrow> string \<Rightarrow> string \<Rightarrow> string option \<Rightarrow> tool_state \<Rightarrow> overwrite_result \<times> tool_state" where
  "edit_overwrite_tool other_msg w sid_opt param_path content working_dir s =
     (let wd = (working_dir \<noteq> None) in
      case resolve_overwrite_path w param_path working_dir of
        Inl e \<Rightarrow> (OverwriteError e, s)
      | Inr resolved \<Rightarrow>
          if fs_dir (ts_fs s) resolved then
            (OverwriteError (error_new INVALID_PARAMS ''path is a directory; cannot write to a directory'' ''validation'' False
               ''provide a file path, not a directory''),
             send (overwrite_metric ''error'' (Some ''invalid_params'') wd) s)
          else
            let (res, f') = edit_overwrite_content (ts_fs s) resolved content; s = s\<lparr>ts_fs := f'\<rparr> in
            (case res of
               Panic \<Rightarrow>
                 (OverwriteError (error_new INTERNAL_ERROR ''task panicked'' ''resource'' False ''check file path and permissions''),
                  send (overwrite_metric ''error'' (Some ''internal_error'') wd) s)
             | Err err \<Rightarrow> overwrite_error other_msg err wd s
             | Ok out \<Rightarrow>
                 (OverwriteText (overwrite_text out),
                  send (overwrite_metric ''ok'' None wd)
                    (s\<lparr>ts_invalidated := ts_invalidated s @ [parse_path param_path],
                       ts_counts := guard_reset (or_default sid_opt) (path_display (ow_path out)) (ts_counts s)\<rparr>))))"

end
