(* ===== verification/EditOverwriteProps.thy ===== *)
theory EditOverwriteProps
  imports EditOverwrite
begin

text \<open>What the overwrite handler does on every outcome, and its agreement with the telemetry.\<close>


definition demo_tool_state :: tool_state where
  "demo_tool_state = \<lparr>ts_fs = \<lparr>fs_dir = (\<lambda>p. p = [RootDir, Normal ''w'', Normal ''d'']), fs_file = (\<lambda>_. None), fs_fails = (\<lambda>_ _. False)\<rparr>,
     ts_counts = [(([], ''/w/d/new''), 4)], ts_metrics = [], ts_invalidated = []\<rparr>"


end
