(* ===== verification/AnalyzeDirectory.thy ===== *)
theory AnalyzeDirectory
  imports AnalyzeFileTool Summary
begin

text \<open>
  The \<open>analyze_directory\<close> tool, \<open>crates/aptu-coder/src/tools/analyze_directory.rs\<close>, with the directory part of
  \<open>analyze.rs\<close>: the walk, the git filter, the two cache tiers, the analysis, and the answer as a tree, a
  summary or a page, made relative to the directory at the end. The walk never fails in this model. What is not under
  \<open>src/\<close> is the record \<open>directory_env\<close>; the moments of cancellation are given.
\<close>

section \<open>The analysis of a directory\<close>

record analysis_output =
  ao_formatted :: string
  ao_files :: "file_info list"
  ao_entries :: "walk_entry list"
  ao_subtree_counts :: "(path \<times> nat) list option"
  ao_next_cursor :: "string option"

definition build_analysis_output :: "(string list \<Rightarrow> string list) \<Rightarrow> walk_entry list \<Rightarrow> file_info list \<Rightarrow> analysis_output" where
  "build_analysis_output iter entries analysis_results =
     \<lparr>ao_formatted = format_structure iter entries analysis_results None, ao_files = analysis_results, ao_entries = entries,
      ao_subtree_counts = None, ao_next_cursor = None\<rparr>"

text \<open>Whether the request is cancelled before the analysis, when each file is reached, and after the files.\<close>

record cancellation =
  cn_before :: bool
  cn_at :: "walk_entry \<Rightarrow> bool"
  cn_after :: bool

definition analyze_directory_with_progress ::
    "extractor \<Rightarrow> file_view \<Rightarrow> (string list \<Rightarrow> string list) \<Rightarrow> cancellation \<Rightarrow> walk_entry list \<Rightarrow> analyze_error + analysis_output" where
  "analyze_directory_with_progress X v iter cn entries =
     (if cn_before cn then Inl AnalyzeCancelled
      else case run_parallel_analysis X v (cn_at cn) (cn_after cn) (init_analysis_context entries) of
        Inl e \<Rightarrow> Inl e
      | Inr analysis_results \<Rightarrow> Inr (build_analysis_output iter entries analysis_results))"

text \<open>What the disk keeps of an output: \<open>entries\<close> and \<open>subtree_counts\<close> are skipped by \<open>serde\<close> and come back empty.\<close>

definition directory_image :: "analysis_output \<Rightarrow> analysis_output option" where
  "directory_image out = Some (out\<lparr>ao_entries := [], ao_subtree_counts := None\<rparr>)"

section \<open>Relative paths\<close>

definition relativize_file_paths :: "path \<Rightarrow> analysis_output \<Rightarrow> analysis_output" where
  "relativize_file_paths base out =
     out\<lparr>ao_files := map (\<lambda>f. case path_strip_prefix (parse_path (fl_path f)) base of
           Some rel \<Rightarrow> f\<lparr>fl_path := path_display rel\<rparr> | None \<Rightarrow> f) (ao_files out)\<rparr>"

definition BACKSLASH :: char where "BACKSLASH = CHR 0x5C"

definition trim_separators :: "string \<Rightarrow> string" where
  "trim_separators s = rev (dropWhile (\<lambda>c. c = CHR ''/'' \<or> c = BACKSLASH) (rev s))"

definition swap_separator :: "char \<Rightarrow> char" where
  "swap_separator c = (if c = CHR ''/'' then BACKSLASH else if c = BACKSLASH then CHR ''/'' else c)"

definition push_new :: "string \<Rightarrow> string list \<Rightarrow> string list" where
  "push_new p ps = (if p \<in> set ps then ps else ps @ [p])"

text \<open>The two prefixes of a base; none of a root or of a base of one character.\<close>

definition add_prefixes :: "(path \<Rightarrow> string) \<Rightarrow> path \<Rightarrow> string list \<Rightarrow> string list" where
  "add_prefixes path_str base ps =
     (let trimmed = trim_separators (path_str base);
          is_bare_root = (is_absolute base \<and> path_parent base = None) in
      if trimmed = [] \<or> length trimmed \<le> 1 \<or> is_bare_root then ps
      else push_new (map swap_separator trimmed @ [BACKSLASH]) (push_new (trimmed @ ''/'') ps))"

text \<open>The scan: where a prefix starts it is dropped, otherwise one character is kept. Prefixes are never empty.\<close>

function strip_scan :: "string list \<Rightarrow> string \<Rightarrow> string" where
  "strip_scan ps rest =
     (if rest = [] then []
      else case List.find (\<lambda>p. p \<noteq> [] \<and> prefix p rest) ps of
        Some p \<Rightarrow> strip_scan ps (drop (length p) rest)
      | None \<Rightarrow>
          let n = (case utf8_len rest of Some n \<Rightarrow> max 1 n | None \<Rightarrow> 1) in take n rest @ strip_scan ps (drop n rest))"
  by pat_completeness auto
termination
  by (relation "measure (length \<circ> snd)") (auto simp: find_Some_iff split: option.splits)

declare strip_scan.simps [simp del]

definition relativize_formatted_text :: "(path \<Rightarrow> string) \<Rightarrow> path list \<Rightarrow> string \<Rightarrow> string" where
  "relativize_formatted_text path_str bases formatted = strip_scan (fold (add_prefixes path_str) bases []) formatted"

section \<open>The overview\<close>

record analyze_directory_params =
  dp_path :: string
  dp_max_depth :: "nat option"
  dp_git_ref :: "string option"
  dp_cursor :: "string option"
  dp_summary :: "bool option"

record dir_metric =
  dm_result :: string
  dm_error_type :: "string option"
  dm_output_chars :: nat
  dm_max_depth :: "nat option"
  dm_cache_tier :: "string option"
  dm_cache_hit :: "bool option"
  dm_cache_write_failure :: "bool option"
  dm_git_ref_used :: bool
  dm_summary_mode :: bool
  dm_is_paginated :: bool

record ('c, 'd) directory_state =
  ds_cache :: "('c, 'd) analysis_cache"
  ds_disk_cache :: disk_cache
  ds_disk :: disk
  ds_pending :: "(string \<times> analysis_output) list"
  ds_metrics :: "dir_metric list"

record 'd directory_env =
  de_lru :: "(directory_cache_key, analysis_output, 'd) lru_ops"
  de_codec :: "analysis_output disk_codec"
  de_blake3 :: "string \<Rightarrow> string"
  de_path_str :: "path \<Rightarrow> string"
  de_extractor :: extractor
  de_iter :: "string list \<Rightarrow> string list"
  de_cursor :: cursor_codec
  de_lossy :: "string \<Rightarrow> string"

text \<open>What the world shows to one call: the walk, git, the files and the cancellation.\<close>

record dir_world =
  dw_walker :: "path \<Rightarrow> nat option \<Rightarrow> walk_entry option list"
  dw_arrival :: "walk_entry option list \<Rightarrow> walk_entry list"
  dw_git :: "string list \<Rightarrow> spawn_error + cmd_output"
  dw_view :: file_view
  dw_cancel :: cancellation

fun traversal_error_display :: "traversal_error \<Rightarrow> string" where
  "traversal_error_display TraversalIo = ''IO error''"
| "traversal_error_display (TraversalInternal m) = ''internal concurrency error: '' @ m"
| "traversal_error_display (GitError m) = ''git error: '' @ m"

definition apply_git_ref_filter ::
    "'d directory_env \<Rightarrow> dir_world \<Rightarrow> path \<Rightarrow> walk_entry list \<Rightarrow> string option \<Rightarrow> error_data + walk_entry list" where
  "apply_git_ref_filter E w p entries git_ref =
     (case git_ref of
        None \<Rightarrow> Inr entries
      | Some r \<Rightarrow>
          if r = [] then Inr entries
          else case changed_files_from_git_ref (dw_git w) (de_lossy E) (fv_canonicalize (dw_view w)) p r of
            Inl e \<Rightarrow> Inl (error_new INVALID_PARAMS (''git_ref filter failed: '' @ traversal_error_display e) ''resource'' False
              ''ensure git is installed and path is inside a git repository'')
          | Inr changed \<Rightarrow> Inr (filter_entries_by_git_ref (fv_canonicalize (dw_view w)) entries changed p))"

text \<open>The outer \<open>Panic\<close> is that of the disk cache on a short key.\<close>

definition handle_overview_mode ::
    "'d directory_env \<Rightarrow> dir_world \<Rightarrow> analyze_directory_params \<Rightarrow> ('c, 'd) directory_state \<Rightarrow>
     (error_data, analysis_output \<times> cache_tier) outcome \<times> ('c, 'd) directory_state" where
  "handle_overview_mode E w params s =
     (let root = parse_path (dp_path params);
          walked = walk_directory (dw_walker w) (dw_arrival w) root (dp_max_depth params)
      in case apply_git_ref_filter E w root walked (dp_git_ref params) of
        Inl e \<Rightarrow> (Err e, s)
      | Inr all_entries \<Rightarrow>
          let canonical_max_depth = (if dp_max_depth params = Some 0 then None else dp_max_depth params);
              git_ref_val = (if dp_git_ref params = Some [] then None else dp_git_ref params);
              cache_key = directory_key_from_entries all_entries canonical_max_depth Overview git_ref_val;
              (cached, cache) = get_directory (de_lru E) cache_key (ds_cache s);
              s = s\<lparr>ds_cache := cache\<rparr>
          in case cached of
            Some out \<Rightarrow> (Ok (out, L1Memory), s)
          | None \<Rightarrow>
              let disk_key = directory_disk_key (de_blake3 E) (de_path_str E) cache_key root all_entries in
              (case disk_get (de_codec E) ''analyze_directory'' disk_key (ds_disk_cache s) (ds_disk s) of
                 None \<Rightarrow> (Panic, s)
               | Some (Some out, d) \<Rightarrow>
                   (Ok (out, L2Disk), s\<lparr>ds_disk := d, ds_cache := put_directory (de_lru E) cache_key out (ds_cache s)\<rparr>)
               | Some (None, d) \<Rightarrow>
                   let s = s\<lparr>ds_disk := d\<rparr>;
                       limited = (case dp_max_depth params of Some k \<Rightarrow> 0 < k | None \<Rightarrow> False);
                       subtree_counts = (if limited then Some (subtree_counts_from_entries root all_entries) else None);
                       entries = (if limited then filter (\<lambda>e. we_depth e \<le> the (dp_max_depth params)) all_entries else all_entries)
                   in case analyze_directory_with_progress (de_extractor E) (dw_view w) (de_iter E) (dw_cancel w) entries of
                     Inl AnalyzeCancelled \<Rightarrow>
                       (Err (error_new INTERNAL_ERROR ''Analysis cancelled'' ''transient'' True ''analysis was cancelled''), s)
                   | Inl e \<Rightarrow>
                       (Err (error_new INTERNAL_ERROR (''Error analyzing directory: '' @ analyze_error_display e) ''resource'' False
                          ''check path and file permissions''), s)
                   | Inr out \<Rightarrow>
                       let out = out\<lparr>ao_subtree_counts := subtree_counts\<rparr>
                       in (Ok (out, Miss),
                           s\<lparr>ds_cache := put_directory (de_lru E) cache_key out (ds_cache s),
                             ds_pending := ds_pending s @ [(disk_key, out)]\<rparr>)))"

section \<open>The handler\<close>

definition ANALYZE_DIRECTORY_PAGE_SIZE :: nat where "ANALYZE_DIRECTORY_PAGE_SIZE = 50"

text \<open>The answer: an error, or the text and its hash.\<close>

datatype dir_result = DirError error_data | DirText string string

definition dir_emit :: "dir_metric \<Rightarrow> ('c, 'd) directory_state \<Rightarrow> ('c, 'd) directory_state" where
  "dir_emit m s = s\<lparr>ds_metrics := ds_metrics s @ [m]\<rparr>"

definition emit_validation_error ::
    "analyze_directory_params \<Rightarrow> string option \<Rightarrow> string \<Rightarrow> ('c, 'd) directory_state \<Rightarrow> ('c, 'd) directory_state" where
  "emit_validation_error params cursor etype s =
     dir_emit \<lparr>dm_result = ''error'', dm_error_type = Some etype, dm_output_chars = 0, dm_max_depth = None, dm_cache_tier = None,
       dm_cache_hit = None, dm_cache_write_failure = None, dm_git_ref_used = False,
       dm_summary_mode = (dp_summary params = Some True), dm_is_paginated = (cursor \<noteq> None)\<rparr> s"

definition directory_text ::
    "'d directory_env \<Rightarrow> dir_world \<Rightarrow> analyze_directory_params \<Rightarrow> analysis_output \<Rightarrow> file_info pagination_result \<Rightarrow> string" where
  "directory_text E w params out page =
     (let summarise = use_summary (dp_summary params) (ao_formatted out); paginated = (dp_summary params = Some False);
          formatted = (if paginated then format_structure_paginated (pr_items page) (pr_total page) (dp_max_depth params)
                         (Some (parse_path (dp_path params))) False
                       else if summarise then format_summary (fv_canonicalize (dw_view w)) (ao_entries out) (ao_files out)
                         (dp_max_depth params) (ao_subtree_counts out)
                       else ao_formatted out);
          base = canon_or_self (fv_canonicalize (dw_view w)) (parse_path (dp_path params));
          raw = parse_path (rev (dropWhile (\<lambda>c. c = CHR ''/'') (rev (dp_path params))))
      in relativize_formatted_text (de_path_str E) [base, raw] formatted)"

definition render_directory ::
    "'d directory_env \<Rightarrow> dir_world \<Rightarrow> analyze_directory_params \<Rightarrow> string option \<Rightarrow> nat option \<Rightarrow> analysis_output \<Rightarrow> cache_tier \<Rightarrow>
     ('c, 'd) directory_state \<Rightarrow> dir_result \<times> ('c, 'd) directory_state" where
  "render_directory E w params cursor max_depth_val out tier s =
     (case decode_offset (de_cursor E) cursor of
        Inl e \<Rightarrow> (DirError e, emit_validation_error params cursor ''invalid_params'' s)
      | Inr offset \<Rightarrow>
          (case paginate_or_internal_error (de_cursor E) (ao_files out) offset ANALYZE_DIRECTORY_PAGE_SIZE of
             Inl e \<Rightarrow> (DirError e, emit_validation_error params cursor ''internal_error'' s)
           | Inr page \<Rightarrow>
               let next = (if dp_summary params = Some False then pr_next_cursor page else None);
                   final_text = append_pagination_footer (directory_text E w params out page) next cursor
               in (DirText final_text (de_blake3 E final_text),
                   dir_emit \<lparr>dm_result = ''ok'', dm_error_type = None, dm_output_chars = length final_text,
                     dm_max_depth = max_depth_val, dm_cache_tier = Some (cache_tier_str tier), dm_cache_hit = Some (tier \<noteq> Miss),
                     dm_cache_write_failure = None, dm_git_ref_used = (dp_git_ref params \<noteq> None),
                     dm_summary_mode = use_summary (dp_summary params) (ao_formatted out), dm_is_paginated = (cursor \<noteq> None)\<rparr> s)))"

definition analyze_directory_handler ::
    "'d directory_env \<Rightarrow> dir_world \<Rightarrow> analyze_directory_params \<Rightarrow> nat option \<Rightarrow> ('c, 'd) directory_state \<Rightarrow>
     (error_data, dir_result) outcome \<times> ('c, 'd) directory_state" where
  "analyze_directory_handler E w params max_depth_val s =
     (let cursor = normalize_cursor (dp_cursor params) in
      case handle_overview_mode E w params s of
        (Panic, s1) \<Rightarrow> (Panic, s1)
      | (Err e, s1) \<Rightarrow>
          (Ok (DirError e), emit_validation_error params cursor (if ed_code e = INVALID_PARAMS then ''invalid_params'' else ''internal_error'') s1)
      | (Ok (out, tier), s1) \<Rightarrow>
          if summary_cursor_conflict (dp_summary params) cursor
          then (Ok (DirError (error_new INVALID_PARAMS
                  ''summary=true is incompatible with a pagination cursor; use one or the other'' ''validation'' False
                  ''remove cursor or set summary=false'')),
                emit_validation_error params cursor ''invalid_params'' s1)
          else apfst Ok (render_directory E w params cursor max_depth_val out tier s1))"

definition dir_pending_write :: "'d directory_env \<Rightarrow> nat \<Rightarrow> ('c, 'd) directory_state \<Rightarrow> ('c, 'd) directory_state option" where
  "dir_pending_write E i s =
     (if i \<ge> length (ds_pending s) then Some s
      else let (disk_key, out) = ds_pending s ! i;
               s = s\<lparr>ds_pending := take i (ds_pending s) @ drop (Suc i) (ds_pending s)\<rparr>
           in case disk_put (de_codec E) ''analyze_directory'' disk_key out (ds_disk_cache s) (ds_disk s) of
                None \<Rightarrow> None
              | Some (c, d) \<Rightarrow>
                  let (failures, c) = drain_write_failures c; s = s\<lparr>ds_disk_cache := c, ds_disk := d\<rparr>
                  in Some (if failures > 0
                           then dir_emit \<lparr>dm_result = ''ok'', dm_error_type = None, dm_output_chars = 0, dm_max_depth = None,
                             dm_cache_tier = None, dm_cache_hit = None, dm_cache_write_failure = Some True, dm_git_ref_used = False,
                             dm_summary_mode = False, dm_is_paginated = False\<rparr> s
                           else s))"

end
