(* ===== verification/AnalyzeModule.thy ===== *)
theory AnalyzeModule
  imports AnalyzeFileTool
begin

text \<open>
  The \<open>analyze_module\<close> tool: \<open>crates/aptu-coder/src/tools/analyze_module.rs\<close>, with \<open>analyze_module_file\<close>
  (\<open>module_lookup.rs\<close>), \<open>extract_module_info\<close> (\<open>parser.rs\<close>) and \<open>format_module_info\<close> (\<open>formatter/render.rs\<close>)
  of the core. Its only cache is the disk cache, keyed by the bytes read first; on a miss the file is read a
  second time (\<open>v'\<close>). The disk write is a task that runs after the answer.
\<close>

section \<open>The module info\<close>

record module_info =
  mi_name :: string
  mi_line_count :: nat
  mi_language :: string
  mi_functions :: "(string \<times> nat) list"
  mi_imports :: "(string \<times> string list) list"
  mi_unsupported :: "bool option"

definition module_info_new :: "string \<Rightarrow> nat \<Rightarrow> string \<Rightarrow> (string \<times> nat) list \<Rightarrow> (string \<times> string list) list \<Rightarrow> module_info" where
  "module_info_new name line_count language functions imports =
     \<lparr>mi_name = name, mi_line_count = line_count, mi_language = language, mi_functions = functions, mi_imports = imports,
      mi_unsupported = None\<rparr>"

text \<open>What the module extraction takes from the syntax tree: the functions and the imports, or an error.\<close>

type_synonym module_elements = "string \<Rightarrow> string \<Rightarrow> parser_error + (function_info list \<times> import_info list)"

definition extract_module_info :: "module_elements \<Rightarrow> string \<Rightarrow> string \<Rightarrow> parser_error + module_info" where
  "extract_module_info elements source language =
     (case elements source language of
        Inl e \<Rightarrow> Inl e
      | Inr (functions, imports) \<Rightarrow>
          Inr (module_info_new [] (length (str_lines source)) language (map (\<lambda>f. (fi_name f, fi_line f)) functions)
            (map (\<lambda>i. (im_module i, im_items i)) imports)))"

definition module_language :: "string \<Rightarrow> string option" where
  "module_language p = Option.bind (path_extension (parse_path p)) language_for_extension"

definition analyze_module_file :: "extractor \<Rightarrow> module_elements \<Rightarrow> file_view \<Rightarrow> string \<Rightarrow> analyze_error + module_info" where
  "analyze_module_file X elements v p =
     (if too_large v (parse_path p) then Inl (AnalyzeParser (ParseError ''file too large''))
      else case view_read_to_string X v (parse_path p) of
        Inl e \<Rightarrow> Inl (AnalyzeParser (ParseError e))
      | Inr source \<Rightarrow>
          (case module_language p of
             None \<Rightarrow> Inl (AnalyzeParser (UnsupportedLanguage
               (case path_extension (parse_path p) of Some e \<Rightarrow> e | None \<Rightarrow> ''(no extension)'')))
           | Some language \<Rightarrow>
               (case extract_module_info elements source language of
                  Inl e \<Rightarrow> Inl (AnalyzeParser e)
                | Inr mi \<Rightarrow> Inr (mi\<lparr>mi_name := (case path_file_name (parse_path p) of Some n \<Rightarrow> n | None \<Rightarrow> ''unknown''),
                      mi_line_count := length (str_lines source)\<rparr>))))"

definition module_import_str :: "string \<times> string list \<Rightarrow> string" where
  "module_import_str i = (if snd i = [] then fst i else fst i @ '':'' @ join '', '' (snd i))"

definition format_module_info :: "module_info \<Rightarrow> string" where
  "format_module_info info =
     line (''FILE: '' @ mi_name info @ '' ('' @ nat_str (mi_line_count info) @ ''L, '' @ nat_str (length (mi_functions info)) @
       ''F, '' @ nat_str (length (mi_imports info)) @ ''I)'') @
     (if mi_functions info = [] then []
      else ''F:'' @ [LF] @ ''  '' @ line (join '', '' (map (\<lambda>(n, l). n @ '':'' @ nat_str l) (mi_functions info)))) @
     (if mi_imports info = [] then []
      else ''I:'' @ [LF] @ ''  '' @ line (join ''; '' (map module_import_str (mi_imports info))))"

section \<open>The handler\<close>

record module_metric =
  mm_result :: string
  mm_error_type :: "string option"
  mm_error_subtype :: "string option"
  mm_output_chars :: nat
  mm_cache_tier :: "string option"
  mm_cache_hit :: "bool option"
  mm_cache_write_failure :: "bool option"

definition module_metric_new :: "string \<Rightarrow> module_metric" where
  "module_metric_new result =
     \<lparr>mm_result = result, mm_error_type = None, mm_error_subtype = None, mm_output_chars = 0, mm_cache_tier = None,
      mm_cache_hit = None, mm_cache_write_failure = None\<rparr>"

record module_state =
  am_disk_cache :: disk_cache
  am_disk :: disk
  am_pending :: "(string \<times> module_info) list"
  am_metrics :: "module_metric list"

record module_env =
  me_codec :: "module_info disk_codec"
  me_blake3 :: "string \<Rightarrow> string"
  me_extractor :: extractor
  me_elements :: module_elements
  me_lossy :: "string \<Rightarrow> string"

text \<open>The answer: an error, or the text with the hash of its \<open>_meta\<close>.\<close>

datatype module_result = ModuleError error_data | ModuleText string string

definition module_text :: "module_env \<Rightarrow> module_info \<Rightarrow> module_result" where
  "module_text E mi = (let t = format_module_info mi in ModuleText t (me_blake3 E t))"

definition module_emit :: "module_metric \<Rightarrow> module_state \<Rightarrow> module_state" where
  "module_emit m s = s\<lparr>am_metrics := am_metrics s @ [m]\<rparr>"

definition unsupported_module :: "module_env \<Rightarrow> string \<Rightarrow> string \<Rightarrow> module_info" where
  "unsupported_module E p bytes =
     (module_info_new (case path_file_name (parse_path p) of Some n \<Rightarrow> n | None \<Rightarrow> []) (length (str_lines (me_lossy E bytes)))
        (case path_extension (parse_path p) of Some x \<Rightarrow> x | None \<Rightarrow> ''unknown'') [] [])\<lparr>mi_unsupported := Some True\<rparr>"

definition module_answer :: "module_env \<Rightarrow> module_info \<Rightarrow> cache_tier \<Rightarrow> module_state \<Rightarrow> module_result \<times> module_state" where
  "module_answer E mi tier s =
     (module_text E mi,
      module_emit ((module_metric_new ''ok'')\<lparr>mm_output_chars := length (format_module_info mi),
        mm_cache_tier := Some (cache_tier_str tier), mm_cache_hit := Some (tier \<noteq> Miss)\<rparr>) s)"

text \<open>The panic is that of the disk cache on a key shorter than its shard.\<close>

definition analyze_module_handler ::
    "module_env \<Rightarrow> file_view \<Rightarrow> file_view \<Rightarrow> string \<Rightarrow> module_state \<Rightarrow> (error_data, module_result) outcome \<times> module_state" where
  "analyze_module_handler E v v' p s =
     (if fv_is_dir v (parse_path p)
      then (Ok (ModuleError (error_new INVALID_PARAMS
              ''path is a directory; use analyze_directory for directories, or pass a file path to analyze_module'' ''validation'' False
              ''use analyze_directory for directories'')),
            module_emit ((module_metric_new ''error'')\<lparr>mm_error_type := Some ''invalid_params'', mm_error_subtype := Some PATH_IS_DIRECTORY\<rparr>) s)
      else case fv_read v (parse_path p) of
        Inl _ \<Rightarrow>
          (Ok (ModuleError (error_new INTERNAL_ERROR ''failed to read file; check file path and permissions'' ''resource'' False
             ''check file path and permissions'')),
           module_emit ((module_metric_new ''error'')\<lparr>mm_error_type := Some ''internal_error''\<rparr>) s)
      | Inr bytes \<Rightarrow>
          let disk_key = me_blake3 E bytes in
          (case disk_get (me_codec E) ''analyze_module'' disk_key (am_disk_cache s) (am_disk s) of
             None \<Rightarrow> (Panic, s)
           | Some (Some mi, d) \<Rightarrow> apfst Ok (module_answer E mi L2Disk (s\<lparr>am_disk := d\<rparr>))
           | Some (None, d) \<Rightarrow>
               let s = s\<lparr>am_disk := d\<rparr> in
               (case analyze_module_file (me_extractor E) (me_elements E) v' p of
                  Inr mi \<Rightarrow> apfst Ok (module_answer E mi Miss (s\<lparr>am_pending := am_pending s @ [(disk_key, mi)]\<rparr>))
                | Inl (AnalyzeParser (UnsupportedLanguage _)) \<Rightarrow>
                    (Ok (module_text E (unsupported_module E p bytes)), module_emit (module_metric_new ''ok'') s)
                | Inl e \<Rightarrow>
                    (Ok (ModuleError (error_new INTERNAL_ERROR (''Failed to analyze module: '' @ analyze_error_display e) ''internal'' False
                       ''report this as a bug'')),
                     module_emit ((module_metric_new ''error'')\<lparr>mm_error_type := Some ''internal_error''\<rparr>) s))))"

definition module_pending_write :: "module_env \<Rightarrow> nat \<Rightarrow> module_state \<Rightarrow> module_state option" where
  "module_pending_write E i s =
     (if i \<ge> length (am_pending s) then Some s
      else let (disk_key, mi) = am_pending s ! i;
               s = s\<lparr>am_pending := take i (am_pending s) @ drop (Suc i) (am_pending s)\<rparr>
           in case disk_put (me_codec E) ''analyze_module'' disk_key mi (am_disk_cache s) (am_disk s) of
                None \<Rightarrow> None
              | Some (c, d) \<Rightarrow>
                  let (failures, c) = drain_write_failures c; s = s\<lparr>am_disk_cache := c, am_disk := d\<rparr>
                  in Some (if failures > 0 then module_emit ((module_metric_new ''ok'')\<lparr>mm_cache_write_failure := Some True\<rparr>) s else s))"

end
