(* ===== verification/AnalyzeModuleProps.thy ===== *)
theory AnalyzeModuleProps
  imports AnalyzeModule DiskCacheProps
begin

text \<open>The answers of the module tool, and what its disk cache makes of two calls.\<close>

lemma disk_get_total: "valid_key (tool, hex) \<Longrightarrow> \<exists>r d'. disk_get K tool hex c d = Some (r, d')"
  using entry_path_shape[of tool hex c] by (auto simp: disk_get_def split: option.splits prod.splits)

text \<open>
  What a call answers. For a file that reads the same twice and is no directory the tool never panics, and its text is
  that of the module info stored for the file's bytes, if there is one; otherwise of a fresh analysis, which is
  then queued for the disk under the hash of the same bytes; and exactly one metric is sent.
\<close>

theorem module_answers:
  assumes "\<not> fv_is_dir v (parse_path p)" and read: "fv_read v (parse_path p) = Inr bytes"
    and hash: "\<And>b. valid_key (''analyze_module'', me_blake3 E b)"
    and run: "analyze_module_handler E v v p s = (r, s')"
  shows "\<exists>stored d. disk_get (me_codec E) ''analyze_module'' (me_blake3 E bytes) (am_disk_cache s) (am_disk s) = Some (stored, d) \<and>
    am_disk s' = d \<and> length (am_metrics s') = Suc (length (am_metrics s)) \<and>
    (case stored of
       Some mi \<Rightarrow> r = Ok (module_text E mi) \<and> am_pending s' = am_pending s
     | None \<Rightarrow>
         (case analyze_module_file (me_extractor E) (me_elements E) v p of
            Inr mi \<Rightarrow> r = Ok (module_text E mi) \<and> am_pending s' = am_pending s @ [(me_blake3 E bytes, mi)]
          | Inl (AnalyzeParser (UnsupportedLanguage _)) \<Rightarrow> r = Ok (module_text E (unsupported_module E p bytes)) \<and> am_pending s' = am_pending s
          | Inl _ \<Rightarrow> (\<exists>e. r = Ok (ModuleError e) \<and> ed_code e = INTERNAL_ERROR) \<and> am_pending s' = am_pending s))"
proof -
  obtain found d where g: "disk_get (me_codec E) ''analyze_module'' (me_blake3 E bytes) (am_disk_cache s) (am_disk s) = Some (found, d)"
    using disk_get_total[OF hash[of bytes]] by blast
  note defs = analyze_module_handler_def module_answer_def module_emit_def apfst_def Let_def
  show ?thesis
  proof (cases found)
    case (Some mi)
    then show ?thesis using run assms(1) read g by (auto simp: defs)
  next
    case None
    then show ?thesis using run assms(1) read g
      by (cases "analyze_module_file (me_extractor E) (me_elements E) v p")
        (auto simp: defs split: analyze_error.splits parser_error.splits)
  qed
qed

text \<open>Two Rust files with the same bytes, and a codec of the one module info they have.\<close>

definition demo_module :: module_info where "demo_module = module_info_new ''lib.rs'' 1 ''rust'' [] []"

definition demo_module_codec :: "module_info disk_codec" where
  "demo_module_codec = \<lparr>kd_to_vec = \<lambda>m. if m = demo_module then Some ''m'' else None, kd_from_slice = \<lambda>b. if b = ''m'' then Some demo_module else None,
     kd_compress = Some, kd_decompress = Some\<rparr>"

definition demo_module_env :: module_env where
  "demo_module_env = \<lparr>me_codec = demo_module_codec, me_blake3 = \<lambda>_. demo_hex,
     me_extractor = \<lparr>ex_extract = \<lambda>_ _ _. Inl InvalidUtf8, ex_counts = \<lambda>_ _. Inl InvalidUtf8, ex_python_symbols = \<lambda>_. None, ex_lower = id, ex_utf8_error = id\<rparr>,
     me_elements = \<lambda>_ _. Inr ([], []), me_lossy = id\<rparr>"

definition demo_module_view :: file_view where
  "demo_module_view = \<lparr>fv_is_dir = \<lambda>_. False, fv_exists = \<lambda>_. True, fv_len = \<lambda>_. Some 1, fv_modified = \<lambda>_. None,
     fv_read = \<lambda>_. Inr ''x'', fv_canonicalize = Some\<rparr>"

definition demo_module_state :: module_state where
  "demo_module_state = \<lparr>am_disk_cache = demo_cache, am_disk = demo_disk, am_pending = [], am_metrics = []\<rparr>"

lemma demo_module_hash: "valid_key (''analyze_module'', me_blake3 demo_module_env b)"
  using demo_hex_valid by (simp add: valid_key_def plain_name_def demo_module_env_def)

lemma demo_module_codec_image: "codec_image (me_codec demo_module_env) Some"
  by (simp add: codec_image_def demo_module_env_def demo_module_codec_def)

lemma demo_module_info:
  "analyze_module_file (me_extractor demo_module_env) (me_elements demo_module_env) demo_module_view ''lib.rs'' = Inr demo_module"
proof -
  have "module_language ''lib.rs'' = Some ''rust''" "path_file_name (parse_path ''lib.rs'') = Some ''lib.rs''" by code_simp+
  moreover have "str_lines ''x'' = [''x'']" "utf8_valid ''x''" by code_simp+
  ultimately show ?thesis
    by (simp add: analyze_module_file_def extract_module_info_def module_info_new_def demo_module_def demo_module_env_def
      demo_module_view_def too_large_def view_read_to_string_def MAX_FILE_SIZE_BYTES_def)
qed

lemma demo_miss:
  assumes v: "valid_key (tool, demo_hex)"
  shows "disk_get K tool demo_hex demo_cache demo_disk = Some (None, demo_disk)"
proof -
  have c: "dc_base demo_cache = [RootDir, Normal ''c'']" "\<not> dc_disabled demo_cache" by code_simp+
  let ?p = "[RootDir, Normal ''c'', Normal tool, Normal (take 2 demo_hex), Normal (demo_hex @ ''.json.snap'')]"
  have p: "entry_path demo_cache tool demo_hex = Some ?p" using entry_path_shape[OF v, of demo_cache] c by simp
  have "\<not> fst (lock_shared (lock_name (butlast ?p)) demo_disk)" "snd (lock_shared (lock_name (butlast ?p)) demo_disk) = demo_disk"
    by (simp_all add: lock_shared_def open_lock_file_def demo_disk_def lock_name_def path_join_def is_absolute_def path_parent_def)
  then show ?thesis using p c
    by (auto simp: disk_get_def lock_shard_shared_def path_parent_def split: prod.splits)
qed

lemma demo_put:
  assumes v: "valid_key (tool, demo_hex)" and z: "serialize_entry K x = Some z"
  shows "\<exists>c d. disk_put K tool demo_hex x demo_cache demo_disk = Some (c, d) \<and> dc_entry_count c \<noteq> dc_entry_count demo_cache"
proof -
  have c: "dc_base demo_cache = [RootDir, Normal ''c'']" "\<not> dc_disabled demo_cache" by code_simp+
  let ?p = "[RootDir, Normal ''c'', Normal tool, Normal (take 2 demo_hex), Normal (demo_hex @ ''.json.snap'')]"
  have p: "entry_path demo_cache tool demo_hex = Some ?p" using entry_path_shape[OF v, of demo_cache] c by simp
  show ?thesis using p c z
    by (auto simp: disk_put_def path_parent_def disk_create_dir_all_def demo_disk_def file_bytes_def write_entry_atomically_def
        lock_shard_exclusive_def lock_exclusive_def open_lock_file_def lock_name_def path_join_def is_absolute_def set_file_def Let_def
        split: prod.splits if_splits)
qed

lemma demo_module_run:
  "analyze_module_handler demo_module_env demo_module_view demo_module_view ''lib.rs'' demo_module_state =
     (Ok (module_text demo_module_env demo_module),
      snd (module_answer demo_module_env demo_module Miss (demo_module_state\<lparr>am_pending := [(demo_hex, demo_module)]\<rparr>)))"
proof -
  have e: "me_codec demo_module_env = demo_module_codec" "me_blake3 demo_module_env = (\<lambda>_. demo_hex)"
    by (simp_all add: demo_module_env_def)
  show ?thesis
    unfolding analyze_module_handler_def demo_module_info e
    using demo_miss[of "''analyze_module''" demo_module_codec] demo_module_hash[unfolded e]
    by (simp add: demo_module_view_def demo_module_state_def module_answer_def)
qed

theorem module_answers_witness:
  "length (am_metrics (snd (analyze_module_handler demo_module_env demo_module_view demo_module_view ''lib.rs'' demo_module_state))) = 1"
proof -
  obtain r s' where run: "analyze_module_handler demo_module_env demo_module_view demo_module_view ''lib.rs'' demo_module_state = (r, s')" by fastforce
  have "\<not> fv_is_dir demo_module_view (parse_path ''lib.rs'')" "fv_read demo_module_view (parse_path ''lib.rs'') = Inr ''x''"
    by (simp_all add: demo_module_view_def)
  from module_answers[OF this demo_module_hash run] show ?thesis using run by (auto simp: demo_module_state_def)
qed

lemma disk_get_drained:
  "disk_get K tool hex (snd (drain_write_failures c)) d = disk_get K tool hex c d"
  by (simp add: disk_get_def drain_write_failures_def entry_path_def)

text \<open>
  C29. A call repeats the answer of an earlier one about a file with the same bytes, once that answer has reached the
  disk: the same text, with the name of the first file, whatever the second is called.
\<close>

theorem module_second_call:
  assumes codec: "codec_image (me_codec E) Some" and hash: "\<And>b. valid_key (''analyze_module'', me_blake3 E b)"
    and first: "\<not> fv_is_dir v (parse_path p)" "fv_read v (parse_path p) = Inr bytes"
      "analyze_module_handler E v v p s = (Ok a, s1)" "am_pending s1 \<noteq> am_pending s"
    and stored: "module_pending_write E (length (am_pending s)) s1 = Some s2"
      "dc_entry_count (am_disk_cache s2) \<noteq> dc_entry_count (am_disk_cache s1)"
    and fails: "\<And>op q. op \<in> {DkOpen, DkLockShared, DkRead} \<Longrightarrow> \<not> d_fails (am_disk s1) op q"
    and second: "\<not> fv_is_dir w (parse_path q)" "fv_read w (parse_path q) = Inr bytes"
  shows "fst (analyze_module_handler E w w' q s2) = Ok a"
proof -
  obtain found d where g: "disk_get (me_codec E) ''analyze_module'' (me_blake3 E bytes) (am_disk_cache s) (am_disk s) = Some (found, d)"
    using disk_get_total[OF hash[of bytes]] by blast
  note defs = analyze_module_handler_def module_answer_def module_emit_def apfst_def Let_def
  have "found = None" using first g by (cases found) (auto simp: defs)
  then obtain mi where a: "a = module_text E mi" and pend: "am_pending s1 = am_pending s @ [(me_blake3 E bytes, mi)]"
      and c: "am_disk_cache s1 = am_disk_cache s"
    using first g
    by (cases "analyze_module_file (me_extractor E) (me_elements E) v p")
      (auto simp: defs split: analyze_error.splits parser_error.splits)
  obtain c d2 where put: "disk_put (me_codec E) ''analyze_module'' (me_blake3 E bytes) mi (am_disk_cache s1) (am_disk s1) = Some (c, d2)"
      and s2: "am_disk_cache s2 = snd (drain_write_failures c)" "am_disk s2 = d2"
    using stored(1) pend by (auto simp: module_pending_write_def module_emit_def Let_def nth_append split: option.splits prod.splits if_splits)
  have "dc_entry_count c \<noteq> dc_entry_count (am_disk_cache s1)" using stored(2) s2(1) by (simp add: drain_write_failures_def)
  from disk_put_get[OF codec hash put this fails]
  obtain d3 where "disk_get (me_codec E) ''analyze_module'' (me_blake3 E bytes) c d2 = Some (Some mi, d3)" by blast
  then show ?thesis using second a by (simp add: defs s2 disk_get_drained)
qed

theorem module_second_call_witness:
  "\<exists>s1 s2. analyze_module_handler demo_module_env demo_module_view demo_module_view ''lib.rs'' demo_module_state = (Ok (module_text demo_module_env demo_module), s1) \<and>
     module_pending_write demo_module_env 0 s1 = Some s2 \<and>
     fst (analyze_module_handler demo_module_env demo_module_view demo_module_view ''other.rs'' s2) = Ok (module_text demo_module_env demo_module)"
proof -
  define s1 where "s1 = snd (module_answer demo_module_env demo_module Miss (demo_module_state\<lparr>am_pending := [(demo_hex, demo_module)]\<rparr>))"
  note run = demo_module_run[folded s1_def]
  have s1: "am_pending s1 = [(demo_hex, demo_module)]" "am_disk s1 = demo_disk" "am_disk_cache s1 = demo_cache"
    by (simp_all add: s1_def module_answer_def module_emit_def demo_module_state_def)
  have v: "\<not> fv_is_dir demo_module_view (parse_path p)" "fv_read demo_module_view (parse_path p) = Inr ''x''" for p
    by (simp_all add: demo_module_view_def)
  have "serialize_entry demo_module_codec demo_module = Some ''m''" by (simp add: serialize_entry_def demo_module_codec_def)
  from demo_put[OF _ this, of "''analyze_module''"] obtain s2 where s2: "module_pending_write demo_module_env 0 s1 = Some s2" "dc_entry_count (am_disk_cache s2) \<noteq> dc_entry_count (am_disk_cache s1)"
    using s1 demo_module_hash by (auto simp: module_pending_write_def drain_write_failures_def module_emit_def Let_def demo_module_env_def)
  have pend: "am_pending s1 \<noteq> am_pending demo_module_state" by (simp add: s1 demo_module_state_def)
  have fails: "\<And>op q. op \<in> {DkOpen, DkLockShared, DkRead} \<Longrightarrow> \<not> d_fails (am_disk s1) op q" by (auto simp: s1 demo_disk_def)
  have i: "length (am_pending demo_module_state) = 0" by (simp add: demo_module_state_def)
  show ?thesis
    using module_second_call[OF demo_module_codec_image demo_module_hash v run pend _ s2(2) fails v, unfolded i, OF s2(1)] s2(1) run by blast
qed

end
