(* ===== verification/AnalyzeDirectoryProps.thy ===== *)
theory AnalyzeDirectoryProps
  imports AnalyzeDirectory AnalyzeModuleProps
begin

text \<open>The directory tool: its metrics, its two cache tiers, and the paths made relative.\<close>

section \<open>Lookups\<close>

definition directory_cache_ok where
  "directory_cache_ok D s \<longleftrightarrow> lru_documented D \<and> \<not> lc_poisoned (ac_directories s) \<and> 0 < op_cap D (lc_cache (ac_directories s))"

lemma get_directory_ok:
  assumes "directory_cache_ok D s" "get_directory D k s = (r, s')"
  shows "directory_cache_ok D s'" "r = alookup k (op_iter D (lc_cache (ac_directories s)))"
    "alookup k' (op_iter D (lc_cache (ac_directories s'))) = alookup k' (op_iter D (lc_cache (ac_directories s)))"
  using assms lru_laws(3,4,5)[of D]
  by (auto simp: directory_cache_ok_def get_directory_def lock_or_recover_def Let_def split_beta)

lemma put_directory_ok:
  assumes "directory_cache_ok D s"
  shows "directory_cache_ok D (put_directory D k v s)"
    "alookup k (op_iter D (lc_cache (ac_directories (put_directory D k v s)))) = Some v"
proof -
  have L: "lru_documented D" and p: "\<not> lc_poisoned (ac_directories s)" "0 < op_cap D (lc_cache (ac_directories s))"
    using assms by (auto simp: directory_cache_ok_def)
  have e: "ac_directories (put_directory D k v s) = (ac_directories s)\<lparr>lc_cache := snd (op_push D k v (lc_cache (ac_directories s)))\<rparr>"
    using p(1) by (simp add: put_directory_def lock_or_recover_def Let_def split_beta)
  show "directory_cache_ok D (put_directory D k v s)" using L p by (simp add: directory_cache_ok_def e lru_laws(8)[OF L])
  show "alookup k (op_iter D (lc_cache (ac_directories (put_directory D k v s)))) = Some v"
    by (simp add: e lru_laws(7)[OF L] push_entry_def split: option.splits)
qed

lemma get_directory_again:
  assumes "directory_cache_ok D s" "alookup k (op_iter D (lc_cache (ac_directories s))) = Some v"
  shows "\<exists>s'. get_directory D k s = (Some v, s')"
  using get_directory_ok(2)[OF assms(1)] assms(2) by (metis prod.exhaust_sel)

definition overview_key :: "'d directory_env \<Rightarrow> dir_world \<Rightarrow> analyze_directory_params \<Rightarrow> (directory_cache_key \<times> string \<times> walk_entry list) option" where
  "overview_key E w params =
     (let root = parse_path (dp_path params) in
      case apply_git_ref_filter E w root (walk_directory (dw_walker w) (dw_arrival w) root (dp_max_depth params)) (dp_git_ref params) of
        Inl _ \<Rightarrow> None
      | Inr es \<Rightarrow>
          let key = directory_key_from_entries es (if dp_max_depth params = Some 0 then None else dp_max_depth params) Overview
                      (if dp_git_ref params = Some [] then None else dp_git_ref params)
          in Some (key, directory_disk_key (de_blake3 E) (de_path_str E) key root es, es))"

lemma overview_hit:
  assumes "overview_key E w params = Some (key, hex, es)" "get_directory (de_lru E) key (ds_cache s) = (Some out, c)"
  shows "handle_overview_mode E w params s = (Ok (out, L1Memory), s\<lparr>ds_cache := c\<rparr>)"
  using assms by (auto simp: overview_key_def handle_overview_mode_def Let_def split: sum.splits)

lemma overview_Ok:
  assumes "handle_overview_mode E w params s = (Ok (out, tier), s1)"
  obtains key hex es c where "overview_key E w params = Some (key, hex, es)"
    "get_directory (de_lru E) key (ds_cache s) = (if tier = L1Memory then Some out else None, c)"
    "ds_disk_cache s1 = ds_disk_cache s"
    "ds_cache s1 = (if tier = L1Memory then c else put_directory (de_lru E) key out c)"
    "tier = Miss \<Longrightarrow> ds_pending s1 = ds_pending s @ [(hex, out)] \<and>
       (\<exists>d. disk_get (de_codec E) ''analyze_directory'' hex (ds_disk_cache s) (ds_disk s) = Some (None, d) \<and> ds_disk s1 = d)"
    "tier \<in> {L1Memory, L2Disk, Miss}"
proof -
  let ?root = "parse_path (dp_path params)"
  obtain es where es: "apply_git_ref_filter E w ?root (walk_directory (dw_walker w) (dw_arrival w) ?root (dp_max_depth params)) (dp_git_ref params) = Inr es"
    using assms by (auto simp: handle_overview_mode_def Let_def split: sum.splits)
  define key where "key = directory_key_from_entries es (if dp_max_depth params = Some 0 then None else dp_max_depth params) Overview
                      (if dp_git_ref params = Some [] then None else dp_git_ref params)"
  define hex where "hex = directory_disk_key (de_blake3 E) (de_path_str E) key ?root es"
  have k: "overview_key E w params = Some (key, hex, es)" by (simp add: overview_key_def es key_def hex_def Let_def)
  obtain r c where c: "get_directory (de_lru E) key (ds_cache s) = (r, c)" by fastforce
  note run = assms[unfolded handle_overview_mode_def Let_def es sum.case, folded key_def, unfolded c prod.case, folded hex_def]
  show thesis
  proof (cases r)
    case (Some v)
    then show ?thesis using run by (intro that[OF k]) (auto simp: c)
  next
    case None
    note run = run[unfolded None option.case]
    obtain st d where g: "disk_get (de_codec E) ''analyze_directory'' hex (ds_disk_cache s) (ds_disk s) = Some (st, d)"
      using run by (cases "disk_get (de_codec E) ''analyze_directory'' hex (ds_disk_cache s) (ds_disk s)") auto
    show ?thesis
    proof (cases st)
      case (Some v)
      then show ?thesis using run g by (intro that[OF k]) (auto simp: c None)
    next
      case n: None
      then show ?thesis using run g
        by (intro that[OF k]) (auto simp: c None split: sum.splits analyze_error.splits)
    qed
  qed
qed

section \<open>The tiers\<close>

text \<open>
  C30. A repeated call over an unchanged directory answers from memory what the first call answered, whichever tier that
  one came from.
\<close>

theorem directory_second_call:
  assumes "directory_cache_ok (de_lru E) (ds_cache s)" "handle_overview_mode E w params s = (Ok (out, tier), s1)"
  shows "fst (handle_overview_mode E w params s1) = Ok (out, L1Memory)"
proof (rule overview_Ok[OF assms(2)])
  fix key hex es c
  assume k: "overview_key E w params = Some (key, hex, es)"
    and c: "get_directory (de_lru E) key (ds_cache s) = (if tier = L1Memory then Some out else None, c)"
    and s1: "ds_cache s1 = (if tier = L1Memory then c else put_directory (de_lru E) key out c)"
  note g = get_directory_ok[OF assms(1) c]
  have ok: "directory_cache_ok (de_lru E) (ds_cache s1)"
    using g(1) put_directory_ok(1)[OF g(1)] by (simp add: s1)
  have "alookup key (op_iter (de_lru E) (lc_cache (ac_directories (ds_cache s1)))) = Some out"
    using g(2) g(3)[of key] put_directory_ok(2)[OF g(1)] by (simp add: s1 split: if_splits)
  from get_directory_again[OF ok this] show ?thesis using overview_hit[OF k] by fastforce
qed

text \<open>
  C31. After a restart the answer comes from the disk without the walk: the listing and the files are those of the first
  call, while the entries and the subtree counts are gone, so that a summary has no structure and suggests nothing.
\<close>

theorem directory_after_restart:
  assumes codec: "codec_image (de_codec E) directory_image" and hash: "\<And>b. valid_key (''analyze_directory'', de_blake3 E b)"
    and first: "handle_overview_mode E w params s = (Ok (out, Miss), s1)"
    and stored: "dir_pending_write E (length (ds_pending s)) s1 = Some s2"
      "dc_entry_count (ds_disk_cache s2) \<noteq> dc_entry_count (ds_disk_cache s1)"
    and fails: "\<And>op q. op \<in> {DkOpen, DkLockShared, DkRead} \<Longrightarrow> \<not> d_fails (ds_disk s1) op q"
    and restart: "ds_disk s3 = ds_disk s2" "ds_disk_cache s3 = ds_disk_cache s2" "\<And>k. fst (get_directory (de_lru E) k (ds_cache s3)) = None"
  shows "\<exists>out'. fst (handle_overview_mode E w params s3) = Ok (out', L2Disk) \<and>
    ao_formatted out' = ao_formatted out \<and> ao_files out' = ao_files out \<and>
    format_summary canon (ao_entries out') (ao_files out') (dp_max_depth params) (ao_subtree_counts out') =
      line ''SUMMARY:'' @ line (files_label (ao_files out) @ totals (ao_files out) @ depth_label (dp_max_depth params)) @
      languages_line (ao_files out) @ [LF] @ line ''STRUCTURE (depth 1):'' @ [LF] @
      line ''SUGGESTION:'' @ line ''Use a narrower path for details (e.g., analyze src/core/)''"
proof (rule overview_Ok[OF first])
  fix key hex es c
  assume k: "overview_key E w params = Some (key, hex, es)"
    and p: "Miss = Miss \<Longrightarrow> ds_pending s1 = ds_pending s @ [(hex, out)] \<and>
      (\<exists>d. disk_get (de_codec E) ''analyze_directory'' hex (ds_disk_cache s) (ds_disk s) = Some (None, d) \<and> ds_disk s1 = d)"
  have hex: "valid_key (''analyze_directory'', hex)"
    using k hash by (auto simp: overview_key_def directory_disk_key_def Let_def split: sum.splits)
  obtain c' d2 where put: "disk_put (de_codec E) ''analyze_directory'' hex out (ds_disk_cache s1) (ds_disk s1) = Some (c', d2)"
      and s2: "ds_disk_cache s2 = snd (drain_write_failures c')" "ds_disk s2 = d2"
    using stored(1) p by (auto simp: dir_pending_write_def dir_emit_def Let_def nth_append split: option.splits prod.splits if_splits)
  have "dc_entry_count c' \<noteq> dc_entry_count (ds_disk_cache s1)" using stored(2) s2(1) by (simp add: drain_write_failures_def)
  from disk_put_get[OF codec hex put this fails]
  obtain d3 where g: "disk_get (de_codec E) ''analyze_directory'' hex (ds_disk_cache s3) (ds_disk s3) =
      Some (Some (out\<lparr>ao_entries := [], ao_subtree_counts := None\<rparr>), d3)"
    by (auto simp: directory_image_def restart s2 disk_get_drained)
  obtain cc where "get_directory (de_lru E) key (ds_cache s3) = (None, cc)" using restart(3)[of key] by (metis prod.collapse)
  then have "fst (handle_overview_mode E w params s3) = Ok (out\<lparr>ao_entries := [], ao_subtree_counts := None\<rparr>, L2Disk)"
    using k g by (auto simp: overview_key_def handle_overview_mode_def Let_def split: sum.splits)
  then show ?thesis by (auto simp: format_summary_def depth1_entries_def suggestion_def)
qed

section \<open>Metrics\<close>

lemma overview_quiet:
  assumes hash: "\<And>b. valid_key (''analyze_directory'', de_blake3 E b)" and run: "handle_overview_mode E w params s = (o1, s1)"
  shows "ds_metrics s1 = ds_metrics s \<and> o1 \<noteq> Panic"
proof -
  let ?root = "parse_path (dp_path params)"
  let ?filtered = "apply_git_ref_filter E w ?root (walk_directory (dw_walker w) (dw_arrival w) ?root (dp_max_depth params)) (dp_git_ref params)"
  show ?thesis
  proof (cases ?filtered)
    case (Inl e)
    then show ?thesis using run by (simp add: handle_overview_mode_def) (auto simp: Let_def)
  next
    case (Inr es)
    note run = run[unfolded handle_overview_mode_def Let_def Inr sum.case]
    define key where "key = directory_key_from_entries es (if dp_max_depth params = Some 0 then None else dp_max_depth params) Overview
                      (if dp_git_ref params = Some [] then None else dp_git_ref params)"
    define hex where "hex = directory_disk_key (de_blake3 E) (de_path_str E) key ?root es"
    obtain r c where c: "get_directory (de_lru E) key (ds_cache s) = (r, c)" by fastforce
    note run = run[folded key_def, unfolded c prod.case, folded hex_def]
    have "valid_key (''analyze_directory'', hex)" using hash by (simp add: hex_def directory_disk_key_def)
    from disk_get_total[OF this] obtain st d where
      g: "disk_get (de_codec E) ''analyze_directory'' hex (ds_disk_cache s) (ds_disk s) = Some (st, d)" by blast
    show ?thesis
    proof (cases r)
      case None
      then show ?thesis using run g
        by (cases st) (auto split: sum.splits analyze_error.splits)
    qed (use run in auto)
  qed
qed

text \<open>
  C32. Every call of the tool ends with an answer and exactly one metric, which agrees with it: the length of a text, the class of
  an error.
\<close>

theorem directory_one_metric:
  assumes hash: "\<And>b. valid_key (''analyze_directory'', de_blake3 E b)"
    and run: "analyze_directory_handler E w params depth s = (r, s')"
  shows "\<exists>res m. r = Ok res \<and> ds_metrics s' = ds_metrics s @ [m] \<and>
    (case res of
       DirText t h \<Rightarrow> dm_result m = ''ok'' \<and> dm_error_type m = None \<and> dm_output_chars m = length t \<and> h = de_blake3 E t
     | DirError e \<Rightarrow> dm_result m = ''error'' \<and>
         dm_error_type m = Some (if ed_code e = INVALID_PARAMS then ''invalid_params'' else ''internal_error''))"
proof -
  obtain o1 s1 where h: "handle_overview_mode E w params s = (o1, s1)" by fastforce
  have s1: "ds_metrics s1 = ds_metrics s" "o1 \<noteq> Panic"
    using overview_quiet[OF hash h] by simp_all
  note e = dir_emit_def emit_validation_error_def
  show ?thesis
  proof (cases o1)
    case (Err x)
    then show ?thesis using run s1 by (auto simp: analyze_directory_handler_def h Let_def e)
  next
    case (Ok ot)
    obtain out tier where ot: "ot = (out, tier)" by fastforce
    have code: "decode_offset codec cu = Inl x \<Longrightarrow> ed_code x = INVALID_PARAMS"
      "paginate_or_internal_error codec (items :: file_info list) off n = Inl x \<Longrightarrow> ed_code x = INTERNAL_ERROR" for codec cu x items off n
      by (auto simp: decode_offset_def paginate_or_internal_error_def split: option.splits sum.splits)
    show ?thesis
      using run s1 unfolding analyze_directory_handler_def h Ok ot Let_def
      by (auto simp: render_directory_def e Let_def dest: code split: if_splits sum.splits)
  qed (use s1 in simp)
qed

section \<open>Relative texts\<close>

text \<open>A text without any of the prefixes is kept; but a prefix is dropped inside another path too.\<close>

lemma strip_scan_keeps: "\<forall>p\<in>set ps. p \<noteq> [] \<longrightarrow> \<not> sublist p s \<Longrightarrow> strip_scan ps s = s"
proof (induction ps s rule: strip_scan.induct)
  case (1 ps s)
  show ?case
  proof (cases "s = []")
    case True
    then show ?thesis by (simp add: strip_scan.simps)
  next
    case False
    have none: "List.find (\<lambda>p. p \<noteq> [] \<and> prefix p s) ps = None"
      using 1(3) by (auto simp: find_None_iff dest: prefix_imp_sublist)
    define n where "n = (case utf8_len s of Some n \<Rightarrow> max 1 n | None \<Rightarrow> 1)"
    have "\<not> sublist p (drop n s)" if "p \<in> set ps" "p \<noteq> []" for p
      using 1(3) that by (meson sublist_drop sublist_order.order_trans)
    then have "strip_scan ps (drop n s) = drop n s" using "1.IH"(1)[OF False none n_def] by blast
    then show ?thesis using False none by (subst strip_scan.simps) (simp add: n_def[symmetric] Let_def)
  qed
qed

lemma prefix_inside_another_path:
  "relativize_formatted_text path_display [[RootDir, Normal ''w'']] ''/data/w/src/a.rs'' = ''/datasrc/a.rs''"
  by code_simp

section \<open>Instances\<close>

text \<open>A directory with one subdirectory, on an empty cache.\<close>

definition demo_dir_entry :: walk_entry where
  "demo_dir_entry = \<lparr>we_path = [Normal ''r'', Normal ''d''], we_depth = 1, we_is_dir = True, we_is_symlink = False,
     we_symlink_target = None, we_mtime = None, we_canonical_path = [Normal ''r'', Normal ''d'']\<rparr>"

definition demo_dir_world :: dir_world where
  "demo_dir_world = \<lparr>dw_walker = \<lambda>_ _. [Some demo_dir_entry], dw_arrival = List.map_filter id, dw_git = \<lambda>_. Inl (NotOnPath []),
     dw_view = demo_module_view, dw_cancel = \<lparr>cn_before = False, cn_at = \<lambda>_. False, cn_after = False\<rparr>\<rparr>"

definition demo_dir_params :: analyze_directory_params where
  "demo_dir_params = \<lparr>dp_path = ''r'', dp_max_depth = None, dp_git_ref = None, dp_cursor = None, dp_summary = Some True\<rparr>"

definition demo_dir_output :: analysis_output where
  "demo_dir_output = build_analysis_output id [demo_dir_entry] []"

definition demo_dir_codec :: "analysis_output disk_codec" where
  "demo_dir_codec = \<lparr>kd_to_vec = \<lambda>v. if v = demo_dir_output then Some ''m'' else None,
     kd_from_slice = \<lambda>b. if b = ''m'' then directory_image demo_dir_output else None, kd_compress = Some, kd_decompress = Some\<rparr>"

definition demo_dir_env :: "(nat \<times> (directory_cache_key \<times> analysis_output) list) directory_env" where
  "demo_dir_env = \<lparr>de_lru = list_lru, de_codec = demo_dir_codec, de_blake3 = \<lambda>_. demo_hex, de_path_str = path_display,
     de_extractor = me_extractor demo_module_env, de_iter = id, de_cursor = demo_codec, de_lossy = id\<rparr>"

definition demo_dir_state :: "(unit, nat \<times> (directory_cache_key \<times> analysis_output) list) directory_state" where
  "demo_dir_state = \<lparr>ds_cache = \<lparr>ac_files = \<lparr>ls_capacity = 1, ls_cache = \<lparr>lc_cache = (), lc_poisoned = False\<rparr>, ls_evictions = 0\<rparr>,
       ac_directories = \<lparr>lc_cache = (20, []), lc_poisoned = False\<rparr>, ac_dir_capacity = 20\<rparr>,
     ds_disk_cache = demo_cache, ds_disk = demo_disk, ds_pending = [], ds_metrics = []\<rparr>"

lemma demo_dir_hash: "valid_key (''analyze_directory'', de_blake3 demo_dir_env b)"
  using demo_hex_valid by (simp add: valid_key_def plain_name_def demo_dir_env_def)

lemma demo_dir_first:
  "\<exists>s1. handle_overview_mode demo_dir_env demo_dir_world demo_dir_params demo_dir_state = (Ok (demo_dir_output, Miss), s1) \<and>
     ds_pending s1 = [(demo_hex, demo_dir_output)] \<and> ds_disk s1 = demo_disk \<and> ds_disk_cache s1 = demo_cache"
proof -
  have v: "valid_key (''analyze_directory'', demo_hex)" using demo_dir_hash by (simp add: demo_dir_env_def)
  have walk: "walk_directory (dw_walker demo_dir_world) (dw_arrival demo_dir_world) p None = [demo_dir_entry]" for p
    by (simp add: walk_directory_def finish_walk_def demo_dir_world_def map_filter_simps MAX_WALK_ENTRIES_def)
  have out: "analyze_directory_with_progress (de_extractor demo_dir_env) (dw_view demo_dir_world) (de_iter demo_dir_env) (dw_cancel demo_dir_world) [demo_dir_entry] =
      Inr demo_dir_output"
    by (simp add: analyze_directory_with_progress_def run_parallel_analysis_def init_analysis_context_def demo_dir_world_def demo_dir_entry_def
      map_filter_simps demo_dir_output_def demo_dir_env_def)
  have key: "directory_disk_key (de_blake3 demo_dir_env) ps k p es = demo_hex" for ps k p es
    by (simp add: directory_disk_key_def demo_dir_env_def)
  have miss: "fst (get_directory (de_lru demo_dir_env) k (ds_cache demo_dir_state)) = None" for k
    by (simp add: get_directory_def lock_or_recover_def demo_dir_env_def list_lru_def demo_dir_state_def)
  obtain c where c: "get_directory (de_lru demo_dir_env) (directory_key_from_entries [demo_dir_entry] None Overview None) (ds_cache demo_dir_state) = (None, c)"
    using miss by (metis prod.collapse)
  have st: "ds_disk_cache demo_dir_state = demo_cache" "ds_disk demo_dir_state = demo_disk" "ds_pending demo_dir_state = []"
    by (simp_all add: demo_dir_state_def)
  have depth: "dp_max_depth demo_dir_params = None" "dp_git_ref demo_dir_params = None" by (simp_all add: demo_dir_params_def)
  have same: "demo_dir_output\<lparr>ao_subtree_counts := None\<rparr> = demo_dir_output" by (simp add: demo_dir_output_def build_analysis_output_def)
  show ?thesis
    using demo_miss[OF v, of "de_codec demo_dir_env"] st
    by (simp add: handle_overview_mode_def apply_git_ref_filter_def walk out key depth same c Let_def)
qed

theorem directory_second_call_witness:
  "\<exists>s1. handle_overview_mode demo_dir_env demo_dir_world demo_dir_params demo_dir_state = (Ok (demo_dir_output, Miss), s1) \<and>
     fst (handle_overview_mode demo_dir_env demo_dir_world demo_dir_params s1) = Ok (demo_dir_output, L1Memory)"
proof -
  have "directory_cache_ok (de_lru demo_dir_env) (ds_cache demo_dir_state)"
    using list_lru_documented by (simp add: directory_cache_ok_def demo_dir_env_def demo_dir_state_def) (simp add: list_lru_def)
  from directory_second_call[OF this] show ?thesis using demo_dir_first by blast
qed

theorem directory_after_restart_witness:
  "\<exists>s1 s2 out'. handle_overview_mode demo_dir_env demo_dir_world demo_dir_params demo_dir_state = (Ok (demo_dir_output, Miss), s1) \<and>
     dir_pending_write demo_dir_env 0 s1 = Some s2 \<and>
     fst (handle_overview_mode demo_dir_env demo_dir_world demo_dir_params (demo_dir_state\<lparr>ds_disk := ds_disk s2, ds_disk_cache := ds_disk_cache s2\<rparr>)) =
       Ok (out', L2Disk) \<and> ao_formatted out' = ao_formatted demo_dir_output"
proof -
  obtain s1 where s1: "handle_overview_mode demo_dir_env demo_dir_world demo_dir_params demo_dir_state = (Ok (demo_dir_output, Miss), s1)"
      "ds_pending s1 = [(demo_hex, demo_dir_output)]" "ds_disk s1 = demo_disk" "ds_disk_cache s1 = demo_cache"
    using demo_dir_first by blast
  have image: "codec_image (de_codec demo_dir_env) directory_image"
    by (auto simp: codec_image_def demo_dir_env_def demo_dir_codec_def)
  have "serialize_entry demo_dir_codec demo_dir_output = Some ''m''" by (simp add: serialize_entry_def demo_dir_codec_def)
  from demo_put[OF _ this, of "''analyze_directory''"]
  obtain s2 where s2: "dir_pending_write demo_dir_env 0 s1 = Some s2" "dc_entry_count (ds_disk_cache s2) \<noteq> dc_entry_count (ds_disk_cache s1)"
    using s1 demo_dir_hash by (auto simp: dir_pending_write_def drain_write_failures_def dir_emit_def Let_def demo_dir_env_def)
  have fails: "\<And>op q. op \<in> {DkOpen, DkLockShared, DkRead} \<Longrightarrow> \<not> d_fails (ds_disk s1) op q" by (auto simp: s1 demo_disk_def)
  let ?s3 = "demo_dir_state\<lparr>ds_disk := ds_disk s2, ds_disk_cache := ds_disk_cache s2\<rparr>"
  have miss: "fst (get_directory (de_lru demo_dir_env) k (ds_cache ?s3)) = None" for k
    by (simp add: get_directory_def lock_or_recover_def demo_dir_env_def list_lru_def demo_dir_state_def)
  have i: "length (ds_pending demo_dir_state) = 0" by (simp add: demo_dir_state_def)
  show ?thesis
    using directory_after_restart[OF image demo_dir_hash s1(1) _ s2(2) fails _ _ miss, unfolded i, OF s2(1)] s1(1) s2(1) by force
qed

theorem directory_one_metric_witness:
  "\<exists>r s' m. analyze_directory_handler demo_dir_env demo_dir_world demo_dir_params None demo_dir_state = (r, s') \<and> ds_metrics s' = [m]"
proof -
  obtain r s' where "analyze_directory_handler demo_dir_env demo_dir_world demo_dir_params None demo_dir_state = (r, s')" by fastforce
  from directory_one_metric[OF demo_dir_hash this] this show ?thesis by (auto simp: demo_dir_state_def)
qed

end
