(* ===== verification/Session.thy ===== *)
theory Session
  imports Metrics
begin

text \<open>
  The session of the server, \<open>crates/aptu-coder/src/tools/server.rs\<close>: its identity and its counter of calls, set when a
  client is initialized and read by every call, and the events that frame a call. The counter of sessions is global to
  the process; the clock is given. Both the functions as they run alone and the interleaving of their steps.
\<close>

section \<open>The state and its operations\<close>

record session =
  ss_id :: "string option"
  ss_seq :: "32 word"

definition session_name :: "nat \<Rightarrow> 64 word \<Rightarrow> string" where
  "session_name millis counter = nat_str millis @ ''-'' @ nat_str (unat counter)"

definition clamp_millis :: "nat \<Rightarrow> nat" where
  "clamp_millis n = min n (2 ^ 64 - 1)"

definition on_initialized :: "nat \<Rightarrow> session \<times> 64 word \<Rightarrow> session \<times> 64 word" where
  "on_initialized millis x =
     (let (t, counter) = x in (t\<lparr>ss_id := Some (session_name (clamp_millis millis) counter), ss_seq := 0\<rparr>, counter + 1))"

text \<open>The receipt is made from the default event, not by the builder that asks the clock: its time is 0.\<close>

definition received_event :: "string \<Rightarrow> nat \<Rightarrow> string option \<Rightarrow> metric_event" where
  "received_event tool seq sid = (metric_event_new 0 tool ''received'' 0)\<lparr>mv_session_id := sid, mv_seq := Some seq\<rparr>"

text \<open>The number and the session's name under which an event is reported, and the new session.\<close>

definition take_number :: "session \<Rightarrow> (nat \<times> string option) \<times> session" where
  "take_number t = ((unat (ss_seq t), ss_id t), t\<lparr>ss_seq := ss_seq t + 1\<rparr>)"

definition emit_received_metric :: "string \<Rightarrow> session \<Rightarrow> (nat \<times> string option) \<times> session \<times> metric_event" where
  "emit_received_metric tool t =
     (let ((seq, sid), t) = take_number t in ((seq, sid), t, received_event tool seq sid))"

definition terminal_error_event ::
    "nat \<Rightarrow> nat \<Rightarrow> string \<Rightarrow> nat \<Rightarrow> string option \<Rightarrow> string \<Rightarrow> string option \<Rightarrow> metric_event" where
  "terminal_error_event ts dur tool seq sid path_arg subtype =
     (metric_event_new ts tool ''error'' dur)
       \<lparr>mv_error_type := Some ''invalid_params'', mv_error_subtype := subtype, mv_param_path_depth := path_component_count path_arg,
        mv_session_id := sid, mv_seq := Some seq\<rparr>"

definition read_event :: "nat \<Rightarrow> nat \<Rightarrow> string \<Rightarrow> nat \<Rightarrow> string option \<Rightarrow> metric_event" where
  "read_event ts dur result seq sid =
     (metric_event_new ts ''read_resource'' result dur)\<lparr>mv_session_id := sid, mv_seq := Some seq\<rparr>"

section \<open>One operation at a time\<close>

text \<open>An initialization, the receipt of a tool call, and the end of a read of a resource, which takes a number too.\<close>

datatype session_op = Initialized nat | Called string | Read nat nat string

fun run_ops :: "session_op list \<Rightarrow> session \<times> 64 word \<Rightarrow> metric_event list" where
  "run_ops [] x = []"
| "run_ops (Initialized millis # ops) x = run_ops ops (on_initialized millis x)"
| "run_ops (Called tool # ops) (t, c) = (let (_, t, e) = emit_received_metric tool t in e # run_ops ops (t, c))"
| "run_ops (Read ts dur result # ops) (t, c) =
     (let ((seq, sid), t) = take_number t in read_event ts dur result seq sid # run_ops ops (t, c))"

text \<open>What an operation other than an initialization reports.\<close>

fun numbered_event :: "session_op \<Rightarrow> nat \<Rightarrow> string option \<Rightarrow> metric_event" where
  "numbered_event (Read ts dur result) seq sid = read_event ts dur result seq sid"
| "numbered_event (Called tool) seq sid = received_event tool seq sid"
| "numbered_event (Initialized millis) seq sid = received_event [] seq sid"

lemma numbered_event_id [simp]:
  "mv_session_id (numbered_event op seq sid) = sid" "mv_seq (numbered_event op seq sid) = Some seq"
  by (cases op; simp add: read_event_def received_event_def)+

lemma run_ops_numbered:
  "(\<nexists>millis. op = Initialized millis) \<Longrightarrow>
   run_ops (op # ops) (t, c) = numbered_event op (unat (ss_seq t)) (ss_id t) # run_ops ops (t\<lparr>ss_seq := ss_seq t + 1\<rparr>, c)"
  by (cases op) (auto simp: emit_received_metric_def take_number_def)

lemma nat_str_no_dash: "CHR ''-'' \<notin> set (nat_str n)"
proof
  assume "CHR ''-'' \<in> set (nat_str n)"
  then have "is_digit CHR ''-''" using nat_str_digits[of n] by (auto simp: list_all_iff)
  then show False by (simp add: is_digit_def)
qed

lemma nat_str_inj: "nat_str m = nat_str n \<Longrightarrow> m = n"
  by (metis digits_value_nat_str)

lemma session_name_inj:
  assumes "session_name m c = session_name m' c'"
  shows "c = c'"
proof -
  have d: "dropWhile (\<lambda>x. x \<noteq> CHR ''-'') (nat_str k @ ''-'' @ s) = ''-'' @ s" for k s
    using nat_str_no_dash[of k] by (induction "nat_str k") (auto simp: dropWhile_append)
  have "dropWhile (\<lambda>x. x \<noteq> CHR ''-'') (session_name m c) = dropWhile (\<lambda>x. x \<noteq> CHR ''-'') (session_name m' c')"
    using assms by simp
  then have "nat_str (unat c) = nat_str (unat c')" unfolding session_name_def d by simp
  then show ?thesis using nat_str_inj word_eq_iff_unsigned by blast
qed

text \<open>What identifies a call.\<close>

definition call_id :: "metric_event \<Rightarrow> string option \<times> nat option" where
  "call_id e = (mv_session_id e, mv_seq e)"

definition later_name :: "64 word \<Rightarrow> nat \<Rightarrow> string option \<Rightarrow> bool" where
  "later_name c n s \<longleftrightarrow> (\<exists>m k. k < n \<and> s = Some (session_name m (c + of_nat k)))"

lemma later_name_Suc: "later_name (c + 1) n s \<Longrightarrow> later_name c (Suc n) s"
proof -
  assume "later_name (c + 1) n s"
  then obtain m k where "k < n" "s = Some (session_name m (c + 1 + of_nat k))" by (auto simp: later_name_def)
  then have "Suc k < Suc n" "s = Some (session_name m (c + of_nat (Suc k)))" by (simp_all add: algebra_simps)
  then show ?thesis unfolding later_name_def by blast
qed

lemma later_name_mono: "later_name c n s \<Longrightarrow> n \<le> n' \<Longrightarrow> later_name c n' s"
  unfolding later_name_def by (blast intro: less_le_trans)

lemma run_ops_ids:
  assumes "unat (ss_seq t) + length ops < 2 ^ 32" "\<not> later_name c (length ops) (ss_id t)"
  shows "distinct (map call_id (run_ops ops (t, c))) \<and>
    (\<forall>e\<in>set (run_ops ops (t, c)). (mv_session_id e = ss_id t \<and> (\<exists>n. mv_seq e = Some n \<and> unat (ss_seq t) \<le> n)) \<or>
       later_name c (length ops) (mv_session_id e))"
  using assms
proof (induction ops arbitrary: t c)
  case (Cons op ops)
  show ?case
  proof (cases "\<exists>millis. op = Initialized millis")
    case True
    then obtain millis where Initialized: "op = Initialized millis" by blast
    let ?name = "session_name (clamp_millis millis) c" and ?t = "t\<lparr>ss_id := Some (session_name (clamp_millis millis) c), ss_seq := 0\<rparr>"
    have "\<not> later_name (c + 1) (length ops) (Some ?name)"
    proof
      assume "later_name (c + 1) (length ops) (Some ?name)"
      then obtain m k where k: "k < length ops" "?name = session_name m (c + 1 + of_nat k)" by (auto simp: later_name_def)
      then have "c = c + 1 + of_nat k" using session_name_inj by blast
      then have "of_nat (Suc k) = (0 :: 64 word)" by (simp add: algebra_simps)
      moreover have "unat (of_nat (Suc k) :: 64 word) = Suc k" using k(1) Cons.prems(1) by (simp only: unat_of_nat) simp
      ultimately show False by simp
    qed
    then have ih: "distinct (map call_id (run_ops ops (?t, c + 1)))"
      "\<forall>e\<in>set (run_ops ops (?t, c + 1)). mv_session_id e = Some ?name \<or> later_name (c + 1) (length ops) (mv_session_id e)"
      using Cons.IH[of ?t "c + 1"] Cons.prems(1) by auto
    have "later_name c (length (op # ops)) (Some ?name)"
      unfolding later_name_def by (rule exI[of _ "clamp_millis millis"], rule exI[of _ 0]) simp
    then show ?thesis using ih later_name_Suc[of c "length ops"] by (auto simp: Initialized on_initialized_def)
  next
    case False
    let ?t = "t\<lparr>ss_seq := ss_seq t + 1\<rparr>" and ?e = "numbered_event op (unat (ss_seq t)) (ss_id t)"
    have s: "unat (ss_seq t + 1) = Suc (unat (ss_seq t))"
    proof -
      have "unat (ss_seq t) + unat (1 :: 32 word) < 2 ^ LENGTH(32)" using Cons.prems(1) by simp
      then show ?thesis by (subst (asm) unat_add_lem) simp
    qed
    have later: "later_name c (length (op # ops)) x" if "later_name c (length ops) x" for x
      using later_name_mono[OF that] by simp
    have ih: "distinct (map call_id (run_ops ops (?t, c)))"
      "\<forall>e\<in>set (run_ops ops (?t, c)). (mv_session_id e = ss_id t \<and> (\<exists>n. mv_seq e = Some n \<and> Suc (unat (ss_seq t)) \<le> n)) \<or>
         later_name c (length ops) (mv_session_id e)"
      using Cons.IH[of ?t c] Cons.prems later s by auto
    have "call_id ?e \<notin> call_id ` set (run_ops ops (?t, c))"
      using ih(2) Cons.prems(2) later by (fastforce simp: call_id_def)
    then show ?thesis using ih later False by (auto simp: run_ops_numbered)
  qed
qed simp

text \<open>
  C35. While calls and initializations run one at a time, no two receipts or reads of a process carry the same session and number,
  for fewer than 2 to the 32 of them from the start.
\<close>

theorem receipts_unique:
  assumes "length ops < 2 ^ 32"
  shows "distinct (map call_id (run_ops ops (\<lparr>ss_id = None, ss_seq = 0\<rparr>, c)))"
  using run_ops_ids[of "\<lparr>ss_id = None, ss_seq = 0\<rparr>" ops c] assms by (simp add: later_name_def)

theorem receipts_unique_witness:
  "distinct (map call_id (run_ops [Called ''f'', Initialized 5, Called ''f'', Read 3 0 ''ok''] (\<lparr>ss_id = None, ss_seq = 0\<rparr>, 7))) \<and>
   length (run_ops [Called ''f'', Initialized 5, Called ''f'', Read 3 0 ''ok''] (\<lparr>ss_id = None, ss_seq = 0\<rparr>, 7)) = 3"
  using receipts_unique[of "[Called ''f'', Initialized 5, Called ''f'', Read 3 0 ''ok'']" 7]
  by (simp add: emit_received_metric_def take_number_def on_initialized_def Let_def)

section \<open>Interleaved\<close>

text \<open>
  A call takes its number and then waits for the lock on the name; an initialization names the session and then sets the
  counter back. Other tasks run in between.
\<close>

datatype session_task = Numbered nat | Named

record session_state =
  st_session :: session
  st_counter :: "64 word"
  st_tasks :: "session_task list"
  st_sent :: "(string option \<times> nat) list"

inductive session_step :: "session_state \<Rightarrow> session_state \<Rightarrow> bool" where
  take_number:
    "session_step s (s\<lparr>st_session := (st_session s)\<lparr>ss_seq := ss_seq (st_session s) + 1\<rparr>,
       st_tasks := Numbered (unat (ss_seq (st_session s))) # st_tasks s\<rparr>)"
| read_name:
    "st_tasks s = ts @ Numbered n # ts' \<Longrightarrow>
     session_step s (s\<lparr>st_tasks := ts @ ts', st_sent := st_sent s @ [(ss_id (st_session s), n)]\<rparr>)"
| set_name:
    "session_step s (s\<lparr>st_session := (st_session s)\<lparr>ss_id := Some (session_name (clamp_millis millis) (st_counter s))\<rparr>,
       st_counter := st_counter s + 1, st_tasks := Named # st_tasks s\<rparr>)"
| reset_number:
    "st_tasks s = ts @ Named # ts' \<Longrightarrow>
     session_step s (s\<lparr>st_session := (st_session s)\<lparr>ss_seq := 0\<rparr>, st_tasks := ts @ ts'\<rparr>)"

inductive_cases read_name_cases [elim]: "session_step s s'"

definition session_start :: session_state where
  "session_start = \<lparr>st_session = \<lparr>ss_id = None, ss_seq = 0\<rparr>, st_counter = 0, st_tasks = [], st_sent = []\<rparr>"

text \<open>
  Between the two steps of an initialization a call can take a number under the new name that is given again after the
  counter is set back.
\<close>

lemma numbers_collide:
  "\<exists>s n x. session_step\<^sup>*\<^sup>* session_start s \<and> st_sent s = [(Some x, n), (Some x, n)]"
proof -
  let ?x = "session_name (clamp_millis 0) 0"
  let ?S = "\<lambda>i q ts sent. \<lparr>st_session = \<lparr>ss_id = i, ss_seq = q\<rparr>, st_counter = 1, st_tasks = ts, st_sent = sent\<rparr>"
  have 1: "session_step session_start (?S (Some ?x) 0 [Named] [])"
    using session_step.set_name[of session_start 0] by (simp add: session_start_def)
  have 2: "session_step (?S (Some ?x) 0 [Named] []) (?S (Some ?x) 1 [Numbered 0, Named] [])"
    using session_step.take_number[of "?S (Some ?x) 0 [Named] []"] by simp
  have 3: "session_step (?S (Some ?x) 1 [Numbered 0, Named] []) (?S (Some ?x) 1 [Named] [(Some ?x, 0)])"
    using session_step.read_name[of "?S (Some ?x) 1 [Numbered 0, Named] []" "[]" 0 "[Named]"] by simp
  have 4: "session_step (?S (Some ?x) 1 [Named] [(Some ?x, 0)]) (?S (Some ?x) 0 [] [(Some ?x, 0)])"
    using session_step.reset_number[of "?S (Some ?x) 1 [Named] [(Some ?x, 0)]" "[]" "[]"] by simp
  have 5: "session_step (?S (Some ?x) 0 [] [(Some ?x, 0)]) (?S (Some ?x) 1 [Numbered 0] [(Some ?x, 0)])"
    using session_step.take_number[of "?S (Some ?x) 0 [] [(Some ?x, 0)]"] by simp
  have 6: "session_step (?S (Some ?x) 1 [Numbered 0] [(Some ?x, 0)]) (?S (Some ?x) 1 [] [(Some ?x, 0), (Some ?x, 0)])"
    using session_step.read_name[of "?S (Some ?x) 1 [Numbered 0] [(Some ?x, 0)]" "[]" 0 "[]"] by simp
  have "session_step\<^sup>*\<^sup>* session_start (?S (Some ?x) 1 [] [(Some ?x, 0), (Some ?x, 0)])"
    using 1 2 3 4 5 6 by (meson converse_rtranclp_into_rtranclp rtranclp.rtrancl_refl)
  then show ?thesis by fastforce
qed

end
