(* ===== verification/SymbolTool.thy ===== *)
theory SymbolTool
  imports Focused Session Resources AnalyzeDirectory
begin

text \<open>
  The \<open>analyze_symbol\<close> tool, \<open>crates/aptu-coder/src/tools/analyze_symbol.rs\<close> and \<open>symbol_focused.rs\<close>, with its
  entry in \<open>lib.rs\<close>: the checks before the dispatch, the import lookup, the call graph behind two cache tiers with
  its retry as a summary, and the pages of callers, callees and definition and use sites. The environment of the
  analysis is the parameter of \<open>Focused\<close>, given once for the first run and once for the retry.
\<close>

section \<open>Parameters, causes of errors, metrics\<close>

record analyze_symbol_params =
  sp_path :: string
  sp_symbol :: string
  sp_match_mode :: "symbol_match_mode option"
  sp_max_depth :: "nat option"
  sp_cursor :: "string option"
  sp_summary :: "bool option"
  sp_impl_only :: "bool option"
  sp_mode :: "symbol_analysis_mode option"
  sp_git_ref :: "string option"

datatype symbol_subtype = PathIsFile | PathEmpty | SummaryCursorConflict | ModeParamConflict | ModeMissingSymbol
  | MaxDepthExceeded | BadCursor | GitRefFilterFailed | PaginationModeInvalid | PaginationPageSizeInvalid
  | PaginationDefUseInvalid | ImplOnlyRequiresRust | OutputTooLarge | SymbolMissing | SymbolMultipleCandidates

fun symbol_subtype_str :: "symbol_subtype \<Rightarrow> string" where
  "symbol_subtype_str PathIsFile = ''path_is_file''"
| "symbol_subtype_str PathEmpty = ''path_empty''"
| "symbol_subtype_str SummaryCursorConflict = ''summary_cursor_conflict''"
| "symbol_subtype_str ModeParamConflict = ''mode_param_conflict''"
| "symbol_subtype_str ModeMissingSymbol = ''mode_missing_symbol''"
| "symbol_subtype_str MaxDepthExceeded = ''max_depth_exceeded''"
| "symbol_subtype_str BadCursor = ''invalid_cursor''"
| "symbol_subtype_str GitRefFilterFailed = ''git_ref_filter_failed''"
| "symbol_subtype_str PaginationModeInvalid = ''pagination_mode_invalid''"
| "symbol_subtype_str PaginationPageSizeInvalid = ''pagination_page_size_invalid''"
| "symbol_subtype_str PaginationDefUseInvalid = ''pagination_def_use_invalid''"
| "symbol_subtype_str ImplOnlyRequiresRust = ''impl_only_requires_rust''"
| "symbol_subtype_str OutputTooLarge = ''output_too_large''"
| "symbol_subtype_str SymbolMissing = ''symbol_not_found''"
| "symbol_subtype_str SymbolMultipleCandidates = ''symbol_multiple_candidates''"

datatype symbol_error_kind = SpawnBlockingJoin | AnalysisFailed | PanicKind | HandlerInternal

fun symbol_error_kind_str :: "symbol_error_kind \<Rightarrow> string" where
  "symbol_error_kind_str SpawnBlockingJoin = ''spawn_blocking_join''"
| "symbol_error_kind_str AnalysisFailed = ''analysis_failed''"
| "symbol_error_kind_str PanicKind = ''panic''"
| "symbol_error_kind_str HandlerInternal = ''handler_internal''"

fun mode_name :: "symbol_analysis_mode \<Rightarrow> string" where
  "mode_name ModeCallGraph = ''call_graph''"
| "mode_name ModeImportLookup = ''import_lookup''"
| "mode_name ModeDefUse = ''def_use''"

text \<open>The lowercase debug form of a match mode.\<close>

fun match_mode_debug :: "symbol_match_mode \<Rightarrow> string" where
  "match_mode_debug Exact = ''exact''"
| "match_mode_debug Insensitive = ''insensitive''"
| "match_mode_debug PrefixMode = ''prefix''"
| "match_mode_debug ContainsMode = ''contains''"

record symbol_error_params =
  ep_match_mode :: "string option"
  ep_mode :: "string option"
  ep_impl_only :: bool
  ep_is_paginated :: bool
  ep_follow_depth :: "nat option"
  ep_git_ref_used :: bool
  ep_summary_mode :: bool
  ep_param_path_depth :: "nat option"
  ep_error_kind :: "symbol_error_kind option"

definition error_params_from :: "analyze_symbol_params \<Rightarrow> nat option \<Rightarrow> symbol_error_params" where
  "error_params_from params param_path_depth =
     \<lparr>ep_match_mode = map_option match_mode_debug (sp_match_mode params), ep_mode = map_option mode_name (sp_mode params),
      ep_impl_only = (sp_impl_only params = Some True), ep_is_paginated = (sp_cursor params \<noteq> None),
      ep_follow_depth = sp_max_depth params, ep_git_ref_used = (sp_git_ref params \<noteq> None),
      ep_summary_mode = (sp_summary params = Some True), ep_param_path_depth = param_path_depth, ep_error_kind = None\<rparr>"

definition error_params_none :: symbol_error_params where
  "error_params_none = \<lparr>ep_match_mode = None, ep_mode = None, ep_impl_only = False, ep_is_paginated = False,
     ep_follow_depth = None, ep_git_ref_used = False, ep_summary_mode = False, ep_param_path_depth = None, ep_error_kind = None\<rparr>"

text \<open>What the tool calls: the LRU map, the encodings, the hash, the parser for the import lookup.\<close>

record ('c, 'g) symbol_env =
  se_lru :: "(call_graph_cache_key, focused_output, 'c) lru_ops"
  se_graph_lru :: "(string, structural_graph, 'g) lru_ops"
  se_codec :: "focused_output disk_codec"
  se_blake3 :: "string \<Rightarrow> string"
  se_path_str :: "path \<Rightarrow> string"
  se_cursor :: cursor_codec
  se_lossy :: "string \<Rightarrow> string"
  se_extractor :: extractor

text \<open>
  What the world shows to one call. \<open>sw_focus\<close> is the environment of the first analysis and of the retry,
  \<open>sw_lookup_panic\<close> the text of a panic of the import lookup, \<open>sw_join_error\<close> that of a panic of the analysis;
  \<open>sw_ts\<close> and \<open>sw_dur\<close> give the time and the elapsed time of the n-th event.
\<close>

record symbol_world =
  sw_walker :: "path \<Rightarrow> nat option \<Rightarrow> walk_entry option list"
  sw_arrival :: "walk_entry option list \<Rightarrow> walk_entry list"
  sw_git :: "string list \<Rightarrow> spawn_error + cmd_output"
  sw_view :: file_view
  sw_is_file :: "path \<Rightarrow> bool"
  sw_focus :: "bool \<Rightarrow> focus_env"
  sw_lookup_panic :: "string option"
  sw_join_error :: string
  sw_ts :: "nat \<Rightarrow> nat"
  sw_dur :: "nat \<Rightarrow> nat"

record ('c, 'g) symbol_state =
  sy_calls :: "'c lru_state"
  sy_graphs :: "'g lru_state"
  sy_disk_cache :: disk_cache
  sy_disk :: disk
  sy_pending :: "(string \<times> focused_output) list"
  sy_metrics :: "metric_event list"

record symbol_call =
  sl_sid :: "string option"
  sl_seq :: nat
  sl_param_path :: string
  sl_max_depth :: "nat option"

datatype symbol_result = SymError error_data | SymPagination string | SymText string string

definition symbol_event :: "symbol_world \<Rightarrow> ('c, 'g) symbol_state \<Rightarrow> string \<Rightarrow> metric_event" where
  "symbol_event w s result =
     (let n = length (sy_metrics s) in metric_event_new (sw_ts w n) ''analyze_symbol'' result (sw_dur w n))"

definition sy_send :: "metric_event \<Rightarrow> ('c, 'g) symbol_state \<Rightarrow> ('c, 'g) symbol_state" where
  "sy_send e s = s\<lparr>sy_metrics := sy_metrics s @ [e]\<rparr>"

definition emit_error_metric ::
    "symbol_world \<Rightarrow> symbol_call \<Rightarrow> string \<Rightarrow> symbol_subtype option \<Rightarrow> symbol_error_params \<Rightarrow>
     ('c, 'g) symbol_state \<Rightarrow> ('c, 'g) symbol_state" where
  "emit_error_metric w call error_type subtype ep s =
     sy_send ((symbol_event w s ''error'')
       \<lparr>mv_error_type := Some error_type, mv_error_subtype := map_option symbol_subtype_str subtype,
        mv_error_kind := map_option symbol_error_kind_str (ep_error_kind ep), mv_session_id := sl_sid call,
        mv_seq := Some (sl_seq call), mv_match_mode := ep_match_mode ep, mv_mode := ep_mode ep, mv_impl_only := ep_impl_only ep,
        mv_is_paginated := ep_is_paginated ep, mv_follow_depth := ep_follow_depth ep, mv_git_ref_used := ep_git_ref_used ep,
        mv_summary_mode := ep_summary_mode ep,
        mv_param_path_depth := (case ep_param_path_depth ep of Some d \<Rightarrow> d | None \<Rightarrow> 0)\<rparr>) s"

definition err_invalid_params ::
    "symbol_world \<Rightarrow> symbol_call \<Rightarrow> string \<Rightarrow> string \<Rightarrow> symbol_subtype option \<Rightarrow> ('c, 'g) symbol_state \<Rightarrow>
     error_data \<times> ('c, 'g) symbol_state" where
  "err_invalid_params w call message hint subtype s =
     (error_new INVALID_PARAMS message ''validation'' False hint,
      emit_error_metric w call ''invalid_params'' subtype error_params_none s)"

definition error_type_str :: "error_data \<Rightarrow> string" where
  "error_type_str e =
     (case ed_code e of INVALID_PARAMS \<Rightarrow> ''invalid_params'' | INTERNAL_ERROR \<Rightarrow> ''internal_error'' | _ \<Rightarrow> ''unknown'')"

section \<open>Validation\<close>

definition validate_impl_only :: "walk_entry list \<Rightarrow> (error_data \<times> symbol_subtype) + unit" where
  "validate_impl_only entries =
     (if list_ex (\<lambda>e. \<not> we_is_dir e \<and> path_extension (we_path e) = Some ''rs'') entries then Inr ()
      else Inl (error_new INVALID_PARAMS
        ''impl_only=true requires Rust source files. No .rs files found in the given path. Use analyze_symbol without impl_only for cross-language analysis.''
        ''validation'' False ''remove impl_only or point to a directory containing .rs files'', ImplOnlyRequiresRust))"

definition is_blank :: "string \<Rightarrow> bool" where
  "is_blank s \<longleftrightarrow> trim_end s = []"

definition validate_mode_symbol :: "symbol_analysis_mode \<Rightarrow> string \<Rightarrow> (error_data \<times> symbol_subtype) + unit" where
  "validate_mode_symbol mode symbol =
     (if mode \<noteq> ModeCallGraph \<and> is_blank symbol
      then Inl (error_new INVALID_PARAMS (''mode='' @ mode_name mode @ '' requires symbol to be non-empty'') ''validation'' False
        ''set symbol to the module path or target symbol for the selected mode'', ModeMissingSymbol)
      else Inr ())"

definition resolve_mode :: "analyze_symbol_params \<Rightarrow> symbol_analysis_mode" where
  "resolve_mode params = (case sp_mode params of Some m \<Rightarrow> m | None \<Rightarrow> ModeCallGraph)"

definition MAX_TOOL_DEPTH :: nat where "MAX_TOOL_DEPTH = 3"

definition validate_top_level_preconditions ::
    "symbol_world \<Rightarrow> analyze_symbol_params \<Rightarrow> string option \<Rightarrow> (error_data \<times> symbol_subtype) + unit" where
  "validate_top_level_preconditions w params cursor =
     (if is_blank (sp_path params)
      then Inl (invalid ''path must be a non-empty directory path'' ''provide the directory path to analyze'', PathEmpty)
      else if sw_is_file w (parse_path (sp_path params))
      then Inl (invalid (quoted (sp_path params) @ '' is a file; analyze_symbol requires a directory path'')
        ''pass a directory path, not a file'', PathIsFile)
      else if summary_cursor_conflict (sp_summary params) cursor
      then Inl (invalid ''summary=true is incompatible with a pagination cursor; use one or the other''
        ''remove cursor or set summary=false'', SummaryCursorConflict)
      else if resolve_mode params = ModeImportLookup \<and>
          (sp_match_mode params \<noteq> None \<or> sp_max_depth params \<noteq> None \<or> sp_impl_only params \<noteq> None)
      then Inl (invalid
        ''mode=import_lookup rejects match_mode, max_depth, and impl_only; remove those parameters or use mode=call_graph''
        ''remove match_mode/max_depth/impl_only when mode=import_lookup'', ModeParamConflict)
      else case sp_max_depth params of
        None \<Rightarrow> Inr ()
      | Some depth \<Rightarrow>
          if depth > MAX_TOOL_DEPTH
          then Inl (invalid (''max_depth='' @ nat_str depth @ '' exceeds the maximum of '' @ nat_str MAX_TOOL_DEPTH)
            ''reduce max_depth to 3 or lower'', MaxDepthExceeded)
          else Inr ())"

section \<open>The entries of the directory\<close>

definition git_filtered ::
    "('c, 'g) symbol_env \<Rightarrow> symbol_world \<Rightarrow> path \<Rightarrow> walk_entry list \<Rightarrow> string option \<Rightarrow> error_data + walk_entry list" where
  "git_filtered E w p entries git_ref =
     (case git_ref of
        None \<Rightarrow> Inr entries
      | Some r \<Rightarrow>
          if r = [] then Inr entries
          else case changed_files_from_git_ref (sw_git w) (se_lossy E) (fv_canonicalize (sw_view w)) p r of
            Inl e \<Rightarrow> Inl (error_new INVALID_PARAMS (''git_ref filter failed: '' @ traversal_error_display e) ''resource'' False
              ''ensure git is installed and path is inside a git repository'')
          | Inr changed \<Rightarrow> Inr (filter_entries_by_git_ref (fv_canonicalize (sw_view w)) entries changed p))"

definition symbol_entries ::
    "('c, 'g) symbol_env \<Rightarrow> symbol_world \<Rightarrow> analyze_symbol_params \<Rightarrow> error_data + walk_entry list" where
  "symbol_entries E w params =
     (let root = parse_path (sp_path params) in
      git_filtered E w root (walk_directory (sw_walker w) (sw_arrival w) root (sp_max_depth params)) (sp_git_ref params))"

section \<open>The import lookup\<close>

definition ok_result_with_precomputed_hash :: "('c, 'g) symbol_env \<Rightarrow> string \<Rightarrow> string option \<Rightarrow> symbol_result" where
  "ok_result_with_precomputed_hash E final_text content_hash =
     SymText final_text (case content_hash of Some h \<Rightarrow> h | None \<Rightarrow> se_blake3 E final_text)"

text \<open>The ok event of both modes, without the fields of the caches.\<close>

definition ok_event ::
    "symbol_world \<Rightarrow> symbol_call \<Rightarrow> analyze_symbol_params \<Rightarrow> string \<Rightarrow> cache_tier \<Rightarrow> ('c, 'g) symbol_state \<Rightarrow> metric_event" where
  "ok_event w call params final_text tier s = (symbol_event w s ''ok'')
     \<lparr>mv_output_chars := length final_text, mv_param_path_depth := path_component_count (sl_param_path call),
      mv_max_depth := sl_max_depth call, mv_session_id := sl_sid call, mv_seq := Some (sl_seq call),
      mv_cache_hit := Some (is_hit tier), mv_cache_tier := Some (cache_tier_str tier),
      mv_match_mode := map_option match_mode_debug (sp_match_mode params), mv_follow_depth := sl_max_depth call,
      mv_mode := map_option mode_name (sp_mode params), mv_impl_only := (sp_impl_only params = Some True),
      mv_git_ref_used := (sp_git_ref params \<noteq> None), mv_is_paginated := (normalize_cursor (sp_cursor params) \<noteq> None),
      mv_summary_mode := (sp_summary params = Some True)\<rparr>"

definition handle_import_lookup ::
    "('c, 'g) symbol_env \<Rightarrow> symbol_world \<Rightarrow> symbol_call \<Rightarrow> analyze_symbol_params \<Rightarrow> ('c, 'g) symbol_state \<Rightarrow>
     symbol_result \<times> ('c, 'g) symbol_state" where
  "handle_import_lookup E w call params s =
     (let ep = error_params_from params (Some (path_component_count (sl_param_path call))) in
      case sw_lookup_panic w of
        Some m \<Rightarrow>
          (SymError (error_new INTERNAL_ERROR (''spawn_blocking failed: '' @ m) ''resource'' False ''internal error''),
           emit_error_metric w call ''internal_error'' None (ep\<lparr>ep_error_kind := Some SpawnBlockingJoin\<rparr>) s)
      | None \<Rightarrow>
          (case symbol_entries E w params of
             Inl e \<Rightarrow> (SymError e, emit_error_metric w call (error_type_str e) (Some GitRefFilterFailed) ep s)
           | Inr entries \<Rightarrow>
               let final_text = analyze_import_lookup (se_extractor E) (sw_view w) (parse_path (sp_path params)) (sp_symbol params) entries None
               in (ok_result_with_precomputed_hash E final_text None, sy_send (ok_event w call params final_text Miss s) s)))"

section \<open>The analysis, with its retry as a summary\<close>

fun focused_error_display :: "focused_error \<Rightarrow> string" where
  "focused_error_display FocusCancelled = ''Analysis cancelled''"
| "focused_error_display (FocusTimeout p micros) =
     ''parse timeout exceeded for '' @ path_display p @ '': '' @ nat_str micros @ '' microseconds''"
| "focused_error_display (FocusGraph e) = ''Graph error: '' @ graph_error_text e"
| "focused_error_display (FocusFormatter e) = ''Formatter error: Graph error: '' @ graph_error_text e"
| "focused_error_display (FocusTraversal e) = ''Traversal error: '' @ traversal_error_display e"

definition focus_config :: "analyze_symbol_params \<Rightarrow> bool \<Rightarrow> focused_config" where
  "focus_config params summarise =
     \<lparr>fc_focus = sp_symbol params, fc_match_mode = (case sp_match_mode params of Some m \<Rightarrow> m | None \<Rightarrow> Exact),
      fc_follow_depth = (case sp_max_depth params of Some d \<Rightarrow> d | None \<Rightarrow> 1), fc_limit = None, fc_use_summary = summarise,
      fc_impl_only = sp_impl_only params, fc_def_use = (sp_mode params = Some ModeDefUse), fc_timeout = None\<rparr>"

text \<open>One run of the analysis on the caches of the tool.\<close>

definition run_focus ::
    "('c, 'g) symbol_env \<Rightarrow> focus_env \<Rightarrow> analyze_symbol_params \<Rightarrow> bool \<Rightarrow> walk_entry list \<Rightarrow> ('c, 'g) symbol_state \<Rightarrow>
     (focused_error, focused_output) outcome \<times> ('c, 'g) symbol_state" where
  "run_focus E Z params summarise entries s =
     (let (r, f) = analyze_focused_entries Z (se_graph_lru E) (focus_config params summarise) (parse_path (sp_path params)) entries
                     \<lparr>fs_disk = sy_disk s, fs_cache = Some (sy_graphs s), fs_progress = 0\<rparr>
      in (r, s\<lparr>sy_disk := fs_disk f, sy_graphs := (case fs_cache f of Some g \<Rightarrow> g | None \<Rightarrow> sy_graphs s)\<rparr>))"

text \<open>A failed analysis: the metric and the error. A panic is caught by the task.\<close>

definition analysis_failure ::
    "symbol_world \<Rightarrow> symbol_call \<Rightarrow> analyze_symbol_params \<Rightarrow> focused_error option \<Rightarrow> ('c, 'g) symbol_state \<Rightarrow>
     error_data \<times> ('c, 'g) symbol_state" where
  "analysis_failure w call params failure s =
     (let ep = error_params_from params None in
      case failure of
        None \<Rightarrow> (plain_error INTERNAL_ERROR (''analysis task panicked: '' @ sw_join_error w),
          emit_error_metric w call ''internal_error'' None (ep\<lparr>ep_error_kind := Some PanicKind\<rparr>) s)
      | Some e \<Rightarrow>
          (case e of
             FocusGraph (SymbolNotFound _ _) \<Rightarrow>
               (error_new INVALID_PARAMS (focused_error_display e) ''validation'' False ''adjust match_mode or refine the symbol name'',
                emit_error_metric w call ''invalid_params'' (Some SymbolMissing) ep s)
           | FocusGraph (MultipleCandidates _ _) \<Rightarrow>
               (error_new INVALID_PARAMS (focused_error_display e) ''validation'' False
                  ''use match_mode=exact to target one of the listed candidates'',
                emit_error_metric w call ''invalid_params'' (Some SymbolMultipleCandidates) ep s)
           | _ \<Rightarrow>
               (plain_error INTERNAL_ERROR (''analysis failed: '' @ focused_error_display e),
                emit_error_metric w call ''internal_error'' None (ep\<lparr>ep_error_kind := Some AnalysisFailed\<rparr>) s)))"

definition exceeds_message :: "string \<Rightarrow> string \<Rightarrow> string" where
  "exceeds_message formatted advice =
     ''Output exceeds 50K chars ('' @ nat_str (length formatted) @ '' chars, ~'' @ nat_str (length formatted div 4) @ '' tokens). '' @ advice"

definition run_focused_with_auto_summary ::
    "('c, 'g) symbol_env \<Rightarrow> symbol_world \<Rightarrow> symbol_call \<Rightarrow> analyze_symbol_params \<Rightarrow> walk_entry list \<Rightarrow> ('c, 'g) symbol_state \<Rightarrow>
     (error_data + focused_output) \<times> ('c, 'g) symbol_state" where
  "run_focused_with_auto_summary E w call params entries s =
     (case run_focus E (sw_focus w False) params (sp_summary params = Some True) entries s of
        (Panic, s) \<Rightarrow> apfst Inl (analysis_failure w call params None s)
      | (Err e, s) \<Rightarrow> apfst Inl (analysis_failure w call params (Some e) s)
      | (Ok out, s) \<Rightarrow>
          if sp_summary params = None \<and> length (fo_formatted out) > SIZE_LIMIT
          then (case run_focus E (sw_focus w True) params True entries s of
              (Ok summary_out, s) \<Rightarrow> (Inr (out\<lparr>fo_formatted := fo_formatted summary_out\<rparr>), s)
            | (_, s) \<Rightarrow> apfst Inl (err_invalid_params w call
                (exceeds_message (fo_formatted out) ''Use summary=true or narrow your scope.'')
                ''use summary=true or narrow scope'' (Some OutputTooLarge) s))
          else if length (fo_formatted out) > SIZE_LIMIT \<and> sp_summary params = Some False
          then apfst Inl (err_invalid_params w call
            (exceeds_message (fo_formatted out) (''Use one of:'' @ [LF] @ ''- summary=true to get compact summary'' @ [LF] @
               ''- Narrow your scope (smaller directory, specific file)''))
            ''use summary=true or narrow scope'' (Some OutputTooLarge) s)
          else (Inr out, s))"

section \<open>The cache tiers\<close>

text \<open>What the disk keeps of an output: everything but the hash.\<close>

definition focused_image :: "focused_output \<Rightarrow> focused_output option" where
  "focused_image out = Some (out\<lparr>fo_content_hash := None\<rparr>)"

definition symbol_key :: "analyze_symbol_params \<Rightarrow> walk_entry list \<Rightarrow> call_graph_cache_key" where
  "symbol_key params entries =
     call_graph_key_from_entries (parse_path (sp_path params)) entries (sp_git_ref params)
       (case sp_max_depth params of Some d \<Rightarrow> d | None \<Rightarrow> 1) (case sp_match_mode params of Some m \<Rightarrow> m | None \<Rightarrow> Exact)
       (sp_impl_only params = Some True) None (sp_symbol params) (resolve_mode params)"

definition impl_only_note :: string where
  "impl_only_note = [LF] @ line ''NOTE: No impl-trait callers found. The symbol may be a plain function or struct, not a trait method. Remove impl_only to see all callers.''"

definition mark_impl_only :: "analyze_symbol_params \<Rightarrow> focused_output \<Rightarrow> focused_output" where
  "mark_impl_only params out =
     (if sp_impl_only params = Some True
      then out\<lparr>fo_formatted := filter_header (fo_impl_callers out) (fo_unfiltered_callers out) @ fo_formatted out @
             (if fo_impl_callers out = 0 then impl_only_note else [])\<rparr>
      else out)"

definition with_hash :: "('c, 'g) symbol_env \<Rightarrow> focused_output \<Rightarrow> focused_output" where
  "with_hash E out = out\<lparr>fo_content_hash := Some (se_blake3 E (fo_formatted out))\<rparr>"

definition handle_focused_mode ::
    "('c, 'g) symbol_env \<Rightarrow> symbol_world \<Rightarrow> symbol_call \<Rightarrow> analyze_symbol_params \<Rightarrow> ('c, 'g) symbol_state \<Rightarrow>
     (error_data, cache_tier \<times> focused_output) outcome \<times> ('c, 'g) symbol_state" where
  "handle_focused_mode E w call params s =
     (case symbol_entries E w params of
        Inl e \<Rightarrow> (Err e, emit_error_metric w call ''invalid_params'' (Some GitRefFilterFailed) (error_params_from params None) s)
      | Inr entries \<Rightarrow>
          (case (if sp_impl_only params = Some True then validate_impl_only entries else Inr ()) of
             Inl (e, subtype) \<Rightarrow> (Err e, emit_error_metric w call ''invalid_params'' (Some subtype) (error_params_from params None) s)
           | Inr _ \<Rightarrow>
               let cache_key = symbol_key params entries;
                   (cached, calls) = lru_get (se_lru E) cache_key (sy_calls s);
                   s = s\<lparr>sy_calls := calls\<rparr>
               in case cached of
                 Some out \<Rightarrow> (Ok (L1Memory, out), s)
               | None \<Rightarrow>
                   let disk_key = call_graph_disk_key (se_blake3 E) (se_path_str E) cache_key in
                   (case disk_get (se_codec E) ''analyze_symbol'' disk_key (sy_disk_cache s) (sy_disk s) of
                      None \<Rightarrow> (Panic, s)
                    | Some (Some out, d) \<Rightarrow>
                        let out = (if fo_content_hash out = None then with_hash E out else out)
                        in (Ok (L2Disk, out), s\<lparr>sy_disk := d, sy_calls := lru_put (se_lru E) cache_key out (sy_calls s)\<rparr>)
                    | Some (None, d) \<Rightarrow>
                        (case run_focused_with_auto_summary E w call params entries (s\<lparr>sy_disk := d\<rparr>) of
                           (Inl e, s) \<Rightarrow> (Err e, s)
                         | (Inr out, s) \<Rightarrow>
                             let out = with_hash E (mark_impl_only params out)
                             in (Ok (L1L2Miss, out), s\<lparr>sy_calls := lru_put (se_lru E) cache_key out (sy_calls s),
                                   sy_pending := sy_pending s @ [(disk_key, out)]\<rparr>)))))"

text \<open>The write behind the answer.\<close>

definition sy_pending_write ::
    "('c, 'g) symbol_env \<Rightarrow> symbol_world \<Rightarrow> string option \<Rightarrow> nat \<Rightarrow> ('c, 'g) symbol_state \<Rightarrow> ('c, 'g) symbol_state option" where
  "sy_pending_write E w sid i s =
     (if i \<ge> length (sy_pending s) then Some s
      else let (disk_key, out) = sy_pending s ! i;
               s = s\<lparr>sy_pending := take i (sy_pending s) @ drop (Suc i) (sy_pending s)\<rparr>
           in case disk_put (se_codec E) ''analyze_symbol'' disk_key out (sy_disk_cache s) (sy_disk s) of
                None \<Rightarrow> None
              | Some (c, d) \<Rightarrow>
                  let (failures, c) = drain_write_failures c; s = s\<lparr>sy_disk_cache := c, sy_disk := d\<rparr>
                  in Some (if failures > 0
                           then sy_send ((metric_event_new (sw_ts w (length (sy_metrics s))) ''analyze_symbol'' ''ok'' 0)
                             \<lparr>mv_session_id := sid, mv_cache_write_failure := Some True\<rparr>) s
                           else s))"

section \<open>Pages\<close>

text \<open>The subtype is absent when the failure is internal.\<close>

definition paginate_focus_chains ::
    "cursor_codec \<Rightarrow> chain list \<Rightarrow> pagination_mode \<Rightarrow> nat \<Rightarrow> nat \<Rightarrow>
     (error_data \<times> symbol_subtype option) + (chain list \<times> string option)" where
  "paginate_focus_chains codec chs mode offset page_size =
     (case paginate_slice codec chs offset page_size mode of
        Inl e \<Rightarrow> Inl (error_new INVALID_PARAMS (pagination_error_display e) ''validation'' False ''page_size must be at least 1'',
          Some PaginationPageSizeInvalid)
      | Inr page \<Rightarrow>
          if pr_next_cursor page = None \<and> offset = 0 then Inr (pr_items page, None)
          else case pr_next_cursor page of
            None \<Rightarrow> Inr (pr_items page, None)
          | Some raw_cursor \<Rightarrow>
              (case decode_cursor codec raw_cursor of
                 Inl e \<Rightarrow> Inl (error_new INTERNAL_ERROR (pagination_error_display e) ''transient'' True ''retry the request'', None)
               | Inr decoded \<Rightarrow>
                   (case encode_cursor codec \<lparr>cd_mode = mode, cd_offset = cd_offset decoded\<rparr> of
                      Inl e \<Rightarrow> Inl (error_new INTERNAL_ERROR (pagination_error_display e) ''transient'' True ''retry the request'', None)
                    | Inr c \<Rightarrow> Inr (pr_items page, Some c))))"

definition decode_call_graph_cursor ::
    "cursor_codec \<Rightarrow> analyze_symbol_params \<Rightarrow> (error_data \<times> symbol_subtype) + (nat \<times> pagination_mode)" where
  "decode_call_graph_cursor codec params =
     (let cursor = normalize_cursor (sp_cursor params);
          cursor_mode = (case cursor of None \<Rightarrow> PageCallers
            | Some c \<Rightarrow> (case decode_cursor codec c of Inr d \<Rightarrow> cd_mode d | Inl _ \<Rightarrow> PageCallers))
      in case decode_offset codec cursor of
           Inl e \<Rightarrow> Inl (e, BadCursor)
         | Inr offset \<Rightarrow> Inr (offset, cursor_mode))"

text \<open>A page of callers or callees, when there is something to page.\<close>

definition chain_page ::
    "('c, 'g) symbol_env \<Rightarrow> analyze_symbol_params \<Rightarrow> focused_output \<Rightarrow> pagination_mode \<Rightarrow> chain list \<Rightarrow> nat \<Rightarrow> chain list \<Rightarrow>
     string option \<Rightarrow> bool \<Rightarrow> (symbol_result \<times> symbol_subtype option, focused_output \<times> string option) outcome" where
  "chain_page E params out mode chs offset page nxt shown =
     (if \<not> shown then Ok (out, None)
      else case format_focused_paginated (se_path_str E) page (length chs) mode (sp_symbol params) (fo_prod_chains out)
             (fo_test_chains out) (fo_outgoing_chains out) (fo_def_count out) offset (Some (parse_path (sp_path params))) of
        None \<Rightarrow> Panic
      | Some t \<Rightarrow> Ok (out\<lparr>fo_formatted := t\<rparr>, nxt))"

definition apply_call_graph_pagination ::
    "('c, 'g) symbol_env \<Rightarrow> analyze_symbol_params \<Rightarrow> pagination_mode \<Rightarrow> nat \<Rightarrow> nat \<Rightarrow> bool \<Rightarrow> focused_output \<Rightarrow>
     (symbol_result \<times> symbol_subtype option, focused_output \<times> string option) outcome" where
  "apply_call_graph_pagination E params cursor_mode offset page_size summarise out =
     (case cursor_mode of
        PageCallers \<Rightarrow>
          (case paginate_focus_chains (se_cursor E) (fo_prod_chains out) PageCallers offset page_size of
             Inl (e, subtype) \<Rightarrow> Err (SymError e, subtype)
           | Inr (page, nxt) \<Rightarrow>
               chain_page E params out PageCallers (fo_prod_chains out) offset page nxt
                 (\<not> summarise \<and> (nxt \<noteq> None \<or> offset > 0 \<or> fo_outgoing_chains out \<noteq> [])))
      | PageCallees \<Rightarrow>
          (case paginate_focus_chains (se_cursor E) (fo_outgoing_chains out) PageCallees offset page_size of
             Inl (e, subtype) \<Rightarrow> Err (SymError e, subtype)
           | Inr (page, nxt) \<Rightarrow>
               chain_page E params out PageCallees (fo_outgoing_chains out) offset page nxt (nxt \<noteq> None \<or> offset > 0))
      | PageDefault \<Rightarrow>
          Err (SymError (error_new INVALID_PARAMS ''invalid cursor: unknown pagination mode'' ''validation'' False
            ''use a cursor returned by a previous analyze_symbol call''), Some PaginationModeInvalid)
      | PageDefUse \<Rightarrow>
          (case paginate_slice (se_cursor E) (fo_sites out) offset page_size PageDefUse of
             Inl e \<Rightarrow> Err (SymPagination (''Pagination error: '' @ pagination_error_display e), Some PaginationDefUseInvalid)
           | Inr r \<Rightarrow>
               (if summarise then Ok (out\<lparr>fo_sites := pr_items r\<rparr>, pr_next_cursor r)
                else case format_focused_paginated_defuse (pr_items r) (length (fo_sites out)) (sp_symbol params) offset
                       (Some (parse_path (sp_path params))) of
                  None \<Rightarrow> Panic
                | Some t \<Rightarrow> Ok (out\<lparr>fo_formatted := t, fo_sites := pr_items r\<rparr>, pr_next_cursor r))))"

section \<open>The handler\<close>

definition ANALYZE_SYMBOL_PAGE_SIZE :: nat where "ANALYZE_SYMBOL_PAGE_SIZE = 20"

text \<open>When one list is exhausted the cursor of the next one.\<close>

definition next_phase_cursor ::
    "cursor_codec \<Rightarrow> pagination_mode \<Rightarrow> bool \<Rightarrow> focused_output \<Rightarrow> string option \<Rightarrow> string option" where
  "next_phase_cursor codec cursor_mode summarise out nxt =
     (let nxt = (if nxt = None \<and> cursor_mode = PageCallers \<and> fo_outgoing_chains out \<noteq> [] \<and> \<not> summarise
                 then (case encode_cursor codec \<lparr>cd_mode = PageCallees, cd_offset = 0\<rparr> of Inr c \<Rightarrow> Some c | Inl _ \<Rightarrow> nxt)
                 else nxt)
      in if nxt = None \<and> cursor_mode \<in> {PageCallees, PageCallers} \<and> fo_sites out \<noteq> [] \<and> \<not> summarise
         then (case encode_cursor codec \<lparr>cd_mode = PageDefUse, cd_offset = 0\<rparr> of
             Inr c \<Rightarrow> if cursor_mode = PageCallees \<or> fo_outgoing_chains out = [] then Some c else nxt
           | Inl _ \<Rightarrow> nxt)
         else nxt)"

definition depth_warning :: "analyze_symbol_params \<Rightarrow> focused_output \<Rightarrow> focused_output" where
  "depth_warning params out =
     (let resolved_depth = (case sp_max_depth params of Some d \<Rightarrow> d | None \<Rightarrow> 1) in
      if resolved_depth > 2
      then out\<lparr>fo_formatted := line (''WARNING: max_depth='' @ nat_str resolved_depth @
             '' may produce very large output; output size grows exponentially with graph branching. Prefer 1-2.'') @ fo_formatted out\<rparr>
      else out)"

text \<open>What is answered with an output: the text and its hash, and the next cursor.\<close>

definition symbol_page ::
    "('c, 'g) symbol_env \<Rightarrow> analyze_symbol_params \<Rightarrow> focused_output \<Rightarrow>
     (symbol_result \<times> symbol_subtype option, symbol_result \<times> string option) outcome" where
  "symbol_page E params out =
     (case decode_call_graph_cursor (se_cursor E) params of
        Inl (e, subtype) \<Rightarrow> Err (SymError e, Some subtype)
      | Inr (offset, cursor_mode) \<Rightarrow>
          let summarise = (sp_summary params = Some True) in
          bind_outcome
            (apply_call_graph_pagination E params cursor_mode offset ANALYZE_SYMBOL_PAGE_SIZE summarise (depth_warning params out))
            (\<lambda>(out, nxt).
               let nxt = next_phase_cursor (se_cursor E) cursor_mode summarise out nxt in
               Ok (if nxt \<noteq> None
                   then ok_result_with_precomputed_hash E
                     (append_pagination_footer (fo_formatted out) nxt (normalize_cursor (sp_cursor params))) None
                   else ok_result_with_precomputed_hash E (fo_formatted out) (fo_content_hash out), nxt)))"

definition text_of :: "symbol_result \<Rightarrow> string" where
  "text_of r = (case r of SymText t _ \<Rightarrow> t | SymError e \<Rightarrow> ed_message e | SymPagination m \<Rightarrow> m)"

definition handle_call_graph ::
    "('c, 'g) symbol_env \<Rightarrow> symbol_world \<Rightarrow> symbol_call \<Rightarrow> analyze_symbol_params \<Rightarrow> ('c, 'g) symbol_state \<Rightarrow>
     (error_data, symbol_result) outcome \<times> ('c, 'g) symbol_state" where
  "handle_call_graph E w call params s =
     (let ep = error_params_from params (Some (path_component_count (sl_param_path call))) in
      case handle_focused_mode E w call params s of
        (Panic, s) \<Rightarrow> (Panic, s)
      | (Err e, s) \<Rightarrow>
          (Ok (SymError e),
           if error_type_str e \<noteq> ''invalid_params''
           then emit_error_metric w call (error_type_str e) None (ep\<lparr>ep_error_kind := Some HandlerInternal\<rparr>) s else s)
      | (Ok (tier, out), s) \<Rightarrow>
          (case symbol_page E params out of
             Panic \<Rightarrow> (Panic, s)
           | Err (r, subtype) \<Rightarrow>
               (Ok r,
                if subtype \<noteq> None then emit_error_metric w call ''invalid_params'' subtype ep s
                else emit_error_metric w call ''internal_error'' subtype (ep\<lparr>ep_error_kind := Some HandlerInternal\<rparr>) s)
           | Ok (r, _) \<Rightarrow>
               (Ok r, sy_send ((ok_event w call params (text_of r) tier s)
                  \<lparr>mv_l1_eviction_count := Some (unat (lru_eviction_count (sy_calls s))),
                   mv_l2_entry_count := Some (unat (fst (cache_stats (sy_disk_cache s)))),
                   mv_l2_size_bytes := Some (unat (snd (cache_stats (sy_disk_cache s))))\<rparr>) s)))"

definition analyze_symbol_handler ::
    "('c, 'g) symbol_env \<Rightarrow> symbol_world \<Rightarrow> symbol_call \<Rightarrow> analyze_symbol_params \<Rightarrow> ('c, 'g) symbol_state \<Rightarrow>
     (error_data, symbol_result) outcome \<times> ('c, 'g) symbol_state" where
  "analyze_symbol_handler E w call params s =
     (let refuse = (\<lambda>(e, subtype).
            (Ok (SymError e), emit_error_metric w call ''invalid_params'' (Some subtype) (error_params_from params None) s))
      in case validate_top_level_preconditions w params (normalize_cursor (sp_cursor params)) of
           Inl x \<Rightarrow> refuse x
         | Inr _ \<Rightarrow>
             (case validate_mode_symbol (resolve_mode params) (sp_symbol params) of
                Inl x \<Rightarrow> refuse x
              | Inr _ \<Rightarrow>
                  if resolve_mode params = ModeImportLookup then apfst Ok (handle_import_lookup E w call params s)
                  else handle_call_graph E w call params s))"

section \<open>The entry of the server\<close>

definition analyze_symbol ::
    "('c, 'g) symbol_env \<Rightarrow> os \<Rightarrow> symbol_world \<Rightarrow> analyze_symbol_params \<Rightarrow> session \<Rightarrow> ('c, 'g) symbol_state \<Rightarrow>
     (error_data, symbol_result) outcome \<times> session \<times> ('c, 'g) symbol_state" where
  "analyze_symbol E world w params t s =
     (let n = length (sy_metrics s);
          ((seq, sid), t, receipt) = emit_received_metric ''analyze_symbol'' t; s = sy_send receipt s in
      case validate_path world (sp_path params) True of
        Inl e \<Rightarrow>
          (Ok (SymError e), t,
           sy_send (terminal_error_event (sw_ts w (Suc n)) (sw_dur w (Suc n)) ''analyze_symbol'' seq sid (sp_path params) None) s)
      | Inr _ \<Rightarrow>
          let (r, s) = analyze_symbol_handler E w
                \<lparr>sl_sid = sid, sl_seq = seq, sl_param_path = sp_path params, sl_max_depth = sp_max_depth params\<rparr> params s
          in (r, t, s))"

end
