(* ===== verification/SymbolProps.thy ===== *)
theory SymbolProps
  imports SymbolTool AnalyzeDirectoryProps FocusedProps AnalyzeFileProps
begin

text \<open>The symbol tool: the events a call sends, its tiers, what the hash of an answer identifies, and the line about the filter.\<close>

section \<open>Events\<close>

definition sent :: "symbol_call \<Rightarrow> nat \<Rightarrow> ('c, 'g) symbol_state \<Rightarrow> ('c, 'g) symbol_state \<Rightarrow> bool" where
  "sent call n s s' \<longleftrightarrow>
     (\<exists>es. sy_metrics s' = sy_metrics s @ es \<and> length es = n \<and>
        (\<forall>e\<in>set es. mv_tool e = ''analyze_symbol'' \<and> mv_seq e = Some (sl_seq call) \<and> mv_session_id e = sl_sid call \<and>
           mv_result e \<in> {''ok'', ''error''}))"

lemma sent_none: "sy_metrics s' = sy_metrics s \<Longrightarrow> sent call 0 s s'"
  by (simp add: sent_def)

lemma sent_more: "sent call n s s1 \<Longrightarrow> sent call m s1 s2 \<Longrightarrow> sent call (n + m) s s2"
  unfolding sent_def by fastforce

lemma sent_error: "sy_metrics s1 = sy_metrics s \<Longrightarrow> sent call (Suc 0) s (emit_error_metric w call t sub ep s1)"
  by (simp add: sent_def emit_error_metric_def sy_send_def symbol_event_def metric_event_new_def Let_def)

lemma sent_ok:
  "sy_metrics s1 = sy_metrics s \<Longrightarrow> sent call (Suc 0) s (sy_send (ok_event w call params t tier s1) s1)"
  "sy_metrics s1 = sy_metrics s \<Longrightarrow> sent call (Suc 0) s (sy_send ((ok_event w call params t tier s1)
     \<lparr>mv_l1_eviction_count := a, mv_l2_entry_count := b, mv_l2_size_bytes := c\<rparr>) s1)"
  by (simp_all add: sent_def ok_event_def sy_send_def symbol_event_def metric_event_new_def Let_def)

lemma run_focus_metrics: "run_focus E Z params b entries s = (r, s') \<Longrightarrow> sy_metrics s' = sy_metrics s"
  by (auto simp: run_focus_def Let_def split: prod.splits)

lemma analysis_failure_sent:
  "analysis_failure w call params f s1 = (e, s') \<Longrightarrow> sy_metrics s1 = sy_metrics s \<Longrightarrow>
   sent call (Suc 0) s s' \<and> ed_code e \<in> {INVALID_PARAMS, INTERNAL_ERROR}"
  by (auto simp: analysis_failure_def Let_def plain_error_def intro!: sent_error
      split: option.splits focused_error.splits graph_error.splits)

lemma sent_invalid:
  "sy_metrics s1 = sy_metrics s \<Longrightarrow> err_invalid_params w call m h sub s1 = (e, s') \<Longrightarrow>
   sent call (Suc 0) s s' \<and> ed_code e \<in> {INVALID_PARAMS, INTERNAL_ERROR}"
  by (auto simp: err_invalid_params_def intro: sent_error)

lemma run_focused_sent:
  assumes "run_focused_with_auto_summary E w call params entries s = (r, s')"
  shows "case r of Inl e \<Rightarrow> sent call (Suc 0) s s' \<and> ed_code e \<in> {INVALID_PARAMS, INTERNAL_ERROR} | Inr _ \<Rightarrow> sent call 0 s s'"
proof -
  obtain o1 s1 where 1: "run_focus E (sw_focus w False) params (sp_summary params = Some True) entries s = (o1, s1)" by fastforce
  note m1 = run_focus_metrics[OF 1]
  obtain o2 s2 where 2: "run_focus E (sw_focus w True) params True entries s1 = (o2, s2)" by fastforce
  have m2: "sy_metrics s2 = sy_metrics s" using run_focus_metrics[OF 2] m1 by simp
  have fail: "apfst Inl x = (r, s') \<Longrightarrow> (\<And>e. x = (e, s') \<Longrightarrow> sent call (Suc 0) s s' \<and> ed_code e \<in> {INVALID_PARAMS, INTERNAL_ERROR}) \<Longrightarrow> ?thesis"
    for x by (cases x) auto
  note run = assms[unfolded run_focused_with_auto_summary_def 1 prod.case]
  show ?thesis
  proof (cases o1)
    case Panic
    show ?thesis by (rule fail[OF run[unfolded Panic outcome.case]]) (erule analysis_failure_sent[OF _ m1])
  next
    case (Err e)
    show ?thesis by (rule fail[OF run[unfolded Err outcome.case]]) (erule analysis_failure_sent[OF _ m1])
  next
    case (Ok out)
    note run = run[unfolded Ok outcome.case 2 prod.case]
    consider (retry) "sp_summary params = None \<and> length (fo_formatted out) > SIZE_LIMIT"
      | (large) "\<not> (sp_summary params = None \<and> length (fo_formatted out) > SIZE_LIMIT)" "length (fo_formatted out) > SIZE_LIMIT \<and> sp_summary params = Some False"
      | (fits) "\<not> (sp_summary params = None \<and> length (fo_formatted out) > SIZE_LIMIT)" "\<not> (length (fo_formatted out) > SIZE_LIMIT \<and> sp_summary params = Some False)"
      by blast
    then show ?thesis
    proof cases
      case retry
      note run = run[unfolded if_P[OF retry]]
      show ?thesis
      proof (cases "\<exists>v. o2 = Ok v")
        case True
        then show ?thesis using run m2 by (auto simp: sent_def)
      next
        case False
        then have "\<exists>m h sub. apfst Inl (err_invalid_params w call m h sub s2) = (r, s')" using run by (cases o2) auto
        then show ?thesis using sent_invalid[OF m2] by (elim exE) (rule fail)
      qed
    next
      case large
      note run = run[unfolded if_not_P[OF large(1)] if_P[OF large(2)]]
      show ?thesis by (rule fail[OF run]) (rule sent_invalid[OF m1])
    next
      case fits
      note run = run[unfolded if_not_P[OF fits(1)] if_not_P[OF fits(2)]]
      then show ?thesis using m1 by (auto simp: sent_def)
    qed
  qed
qed

lemma git_filtered_Inl: "git_filtered E w p es r = Inl e \<Longrightarrow> ed_code e = INVALID_PARAMS"
  by (auto simp: git_filtered_def split: option.splits if_splits sum.splits)

lemma focused_mode_sent:
  assumes "handle_focused_mode E w call params s = (r, s')"
  shows "case r of Panic \<Rightarrow> True | Err e \<Rightarrow> sent call (Suc 0) s s' \<and> ed_code e \<in> {INVALID_PARAMS, INTERNAL_ERROR}
    | Ok _ \<Rightarrow> sent call 0 s s'"
proof (cases "symbol_entries E w params")
  case (Inl e)
  then have "ed_code e = INVALID_PARAMS" by (auto simp: symbol_entries_def Let_def dest: git_filtered_Inl)
  then show ?thesis using assms Inl by (auto simp: handle_focused_mode_def intro!: sent_error)
next
  case (Inr entries)
  show ?thesis
  proof (cases "if sp_impl_only params = Some True then validate_impl_only entries else Inr ()")
    case (Inl x)
    then have "ed_code (fst x) = INVALID_PARAMS" by (auto simp: validate_impl_only_def split: if_splits)
    then show ?thesis using assms Inr Inl by (auto simp: handle_focused_mode_def intro!: sent_error split: prod.splits)
  next
    case i: (Inr u)
    obtain cached calls where l: "lru_get (se_lru E) (symbol_key params entries) (sy_calls s) = (cached, calls)" by fastforce
    show ?thesis
    proof (cases cached)
      case (Some out)
      then show ?thesis using assms by (auto simp: handle_focused_mode_def Inr i l Let_def intro!: sent_none)
    next
      case None
      let ?k = "call_graph_disk_key (se_blake3 E) (se_path_str E) (symbol_key params entries)"
      let ?s = "s\<lparr>sy_calls := calls\<rparr>"
      show ?thesis
      proof (cases "disk_get (se_codec E) ''analyze_symbol'' ?k (sy_disk_cache s) (sy_disk s)")
        case N: None
        then show ?thesis using assms by (auto simp: handle_focused_mode_def Inr i l None Let_def)
      next
        case (Some g)
        obtain st d where g: "g = (st, d)" by fastforce
        obtain r1 s1 where run: "run_focused_with_auto_summary E w call params entries (?s\<lparr>sy_disk := d\<rparr>) = (r1, s1)" by fastforce
        have "case r1 of Inl e \<Rightarrow> sent call (Suc 0) s s1 \<and> ed_code e \<in> {INVALID_PARAMS, INTERNAL_ERROR} | Inr _ \<Rightarrow> sent call 0 s s1"
          using run_focused_sent[OF run] by (auto simp: sent_def split: sum.splits)
        then show ?thesis using assms
          by (auto simp: handle_focused_mode_def Inr i l None Let_def Some g run sent_def split: option.splits sum.splits)
      qed
    qed
  qed
qed

section \<open>One page\<close>

lemma slice_Inr:
  assumes "codec_ok codec" "0 < n"
  obtains r where "paginate_slice codec items offset n mode = Inr r"
proof -
  have "\<exists>c. encode_cursor codec d = Inr c" for d using decode_encode[OF assms(1)] by blast
  then have "\<exists>r. paginate_slice codec items offset n mode = Inr r"
    using assms(2) by (auto simp: paginate_slice_def Let_def split: sum.split) (metis sum.distinct(1))+
  then show ?thesis using that by blast
qed

lemma slice_cursor:
  assumes "paginate_slice codec items offset n mode = Inr r" "pr_next_cursor r = Some c"
  obtains k where "encode_cursor codec \<lparr>cd_mode = mode, cd_offset = k\<rparr> = Inr c"
  using assms by (auto simp: paginate_slice_def Let_def split: if_splits sum.splits)

lemma focus_chains_Inr:
  assumes "codec_ok codec" "0 < n"
  shows "\<exists>r. paginate_slice codec chs offset n mode = Inr r \<and>
    paginate_focus_chains codec chs mode offset n = Inr (pr_items r, pr_next_cursor r)"
proof (rule slice_Inr[OF assms])
  fix r assume r: "paginate_slice codec chs offset n mode = Inr r"
  show ?thesis
  proof (cases "pr_next_cursor r")
    case None
    then show ?thesis by (simp add: paginate_focus_chains_def r)
  next
    case (Some c)
    obtain k where k: "encode_cursor codec \<lparr>cd_mode = mode, cd_offset = k\<rparr> = Inr c" by (rule slice_cursor[OF r Some])
    then have "decode_cursor codec c = Inr \<lparr>cd_mode = mode, cd_offset = k\<rparr>"
      using decode_encode[OF assms(1), of "\<lparr>cd_mode = mode, cd_offset = k\<rparr>"] by auto
    then show ?thesis using k by (simp add: paginate_focus_chains_def r Some)
  qed
qed

lemma chain_page_Ok:
  assumes "mode \<in> {PageCallers, PageCallees}"
  shows "\<exists>out' nxt'. chain_page E params out mode chs offset page nxt shown = Ok (out', nxt')"
proof -
  have "\<exists>t. format_focused_paginated ps page n mode symbol prod tst outg defs offset base = Some t" for ps n symbol prod tst outg defs base
    using assms by (auto simp: format_focused_paginated_def Let_def)
  then show ?thesis unfolding chain_page_def by (metis option.simps(5))
qed

lemma defuse_page_Some:
  obtains t where "format_focused_paginated_defuse sites n symbol offset base = Some t"
proof -
  obtain w r where "render_def_use_group sites ''WRITES'' is_write base = Some w"
    "render_def_use_group sites ''READS'' (\<lambda>s. du_kind s = DuRead) base = Some r"
    using render_def_use_group_Some by metis
  then show ?thesis using that by (simp add: format_focused_paginated_defuse_def Let_def split_beta)
qed

text \<open>With a working codec a page fails only for what the client sent.\<close>

lemma symbol_page_cases:
  assumes "codec_ok (se_cursor E)"
  shows "case symbol_page E params out of Panic \<Rightarrow> False | Ok (r, _) \<Rightarrow> (\<exists>t h. r = SymText t h)
    | Err (r, sub) \<Rightarrow> sub \<noteq> None \<and> (\<exists>e. r = SymError e \<and> ed_code e = INVALID_PARAMS)"
proof (cases "decode_call_graph_cursor (se_cursor E) params")
  case (Inl x)
  then show ?thesis
    by (auto simp: symbol_page_def decode_call_graph_cursor_def decode_offset_def Let_def split: sum.splits option.splits)
next
  case (Inr y)
  obtain offset mode where y: "y = (offset, mode)" by fastforce
  have n: "0 < ANALYZE_SYMBOL_PAGE_SIZE" by (simp add: ANALYZE_SYMBOL_PAGE_SIZE_def)
  let ?a = "apply_call_graph_pagination E params mode offset ANALYZE_SYMBOL_PAGE_SIZE (sp_summary params = Some True) (depth_warning params out)"
  have a: "(\<exists>out' nxt. ?a = Ok (out', nxt)) \<or> (\<exists>e. ?a = Err (SymError e, Some PaginationModeInvalid) \<and> ed_code e = INVALID_PARAMS)"
  proof (cases mode)
    case PageCallers
    obtain pg nx where "paginate_focus_chains (se_cursor E) (fo_prod_chains (depth_warning params out)) mode offset ANALYZE_SYMBOL_PAGE_SIZE =
        Inr (pg, nx)" using focus_chains_Inr[OF assms n, of "fo_prod_chains (depth_warning params out)" offset mode] by blast
    then show ?thesis using PageCallers by (simp add: apply_call_graph_pagination_def) (intro disjI1 chain_page_Ok, simp)
  next
    case PageCallees
    obtain pg nx where "paginate_focus_chains (se_cursor E) (fo_outgoing_chains (depth_warning params out)) mode offset ANALYZE_SYMBOL_PAGE_SIZE =
        Inr (pg, nx)" using focus_chains_Inr[OF assms n, of "fo_outgoing_chains (depth_warning params out)" offset mode] by blast
    then show ?thesis using PageCallees by (simp add: apply_call_graph_pagination_def) (intro disjI1 chain_page_Ok, simp)
  next
    case PageDefUse
    obtain r where "paginate_slice (se_cursor E) (fo_sites (depth_warning params out)) offset ANALYZE_SYMBOL_PAGE_SIZE PageDefUse = Inr r"
      by (rule slice_Inr[OF assms n])
    moreover obtain t where "format_focused_paginated_defuse (pr_items r) (length (fo_sites (depth_warning params out))) (sp_symbol params) offset
        (Some (parse_path (sp_path params))) = Some t" by (rule defuse_page_Some)
    ultimately show ?thesis using PageDefUse by (simp add: apply_call_graph_pagination_def)
  qed (simp add: apply_call_graph_pagination_def)
  then show ?thesis
    by (auto simp: symbol_page_def Inr y Let_def ok_result_with_precomputed_hash_def)
qed

section \<open>What a call sends\<close>

lemma call_graph_sent:
  assumes "codec_ok (se_cursor E)" "handle_call_graph E w call params s = (Ok r, s')"
  shows "sent call (if \<exists>e. r = SymError e \<and> ed_code e = INTERNAL_ERROR then 2 else 1) s s'"
proof -
  obtain f s1 where f: "handle_focused_mode E w call params s = (f, s1)" by fastforce
  note m = focused_mode_sent[OF f]
  show ?thesis
  proof (cases f)
    case Panic
    then show ?thesis using assms(2) by (simp add: handle_call_graph_def f Let_def)
  next
    case (Err e)
    then have e: "sent call (Suc 0) s s1" "ed_code e \<in> {INVALID_PARAMS, INTERNAL_ERROR}" "r = SymError e" using m assms(2)
      by (auto simp: handle_call_graph_def f Let_def split: if_splits)
    show ?thesis
    proof (cases "ed_code e = INTERNAL_ERROR")
      case True
      then have "sent call (Suc 0) s1 s'" using assms(2) Err
        by (auto simp: handle_call_graph_def f Let_def error_type_str_def intro: sent_error)
      from sent_more[OF e(1) this] show ?thesis using True e by (simp add: numeral_2_eq_2)
    next
      case False
      then have "s' = s1" using e assms(2) Err by (auto simp: handle_call_graph_def f Let_def error_type_str_def)
      then show ?thesis using e False by simp
    qed
  next
    case (Ok to)
    obtain tier out where to: "to = (tier, out)" by fastforce
    have m: "sent call 0 s s1" using m Ok by simp
    note pg = symbol_page_cases[OF assms(1), of params out]
    note run = assms(2)[unfolded handle_call_graph_def Let_def f prod.case Ok outcome.case to]
    show ?thesis
    proof (cases "symbol_page E params out")
      case Panic
      then show ?thesis using pg by simp
    next
      case (Err x)
      obtain r' sub where x: "x = (r', sub)" by fastforce
      have "r' = r" "sent call (Suc 0) s1 s'" "\<exists>e. r' = SymError e \<and> ed_code e = INVALID_PARAMS"
        using pg run by (auto simp: Err x intro: sent_error split: if_splits)
      then show ?thesis using sent_more[OF m] by auto
    next
      case (Ok x)
      obtain r' nx where x: "x = (r', nx)" by fastforce
      have "r' = r" "sent call (Suc 0) s1 s'" "\<exists>t h. r' = SymText t h"
        using pg run by (auto simp: Ok x intro: sent_ok(2))
      then show ?thesis using sent_more[OF m] by auto
    qed
  qed
qed

lemma handler_sent:
  assumes "codec_ok (se_cursor E)" "analyze_symbol_handler E w call params s = (Ok r, s')"
  shows "sent call (if resolve_mode params \<noteq> ModeImportLookup \<and> (\<exists>e. r = SymError e \<and> ed_code e = INTERNAL_ERROR) then 2 else 1) s s'"
proof -
  let ?refuse = "\<lambda>(e, subtype). (Ok (SymError e), emit_error_metric w call ''invalid_params'' (Some subtype) (error_params_from params None) s)"
  have refused: "sent call (if resolve_mode params \<noteq> ModeImportLookup \<and> (\<exists>e. r = SymError e \<and> ed_code e = INTERNAL_ERROR) then 2 else 1) s s'"
    if "?refuse x = (Ok r, s')" "ed_code (fst x) = INVALID_PARAMS" for x
    using that by (auto intro: sent_error split: prod.splits)
  show ?thesis
  proof (cases "validate_top_level_preconditions w params (normalize_cursor (sp_cursor params))")
    case (Inl x)
    then have "ed_code (fst x) = INVALID_PARAMS"
      by (auto simp: validate_top_level_preconditions_def invalid_def split: if_splits option.splits)
    then show ?thesis using assms(2) Inl by (intro refused[of x]) (simp_all add: analyze_symbol_handler_def Let_def)
  next
    case top: (Inr u)
    show ?thesis
    proof (cases "validate_mode_symbol (resolve_mode params) (sp_symbol params)")
      case (Inl x)
      then have "ed_code (fst x) = INVALID_PARAMS" by (auto simp: validate_mode_symbol_def split: if_splits)
      then show ?thesis using assms(2) top Inl by (intro refused[of x]) (simp_all add: analyze_symbol_handler_def Let_def)
    next
      case (Inr u')
      show ?thesis
      proof (cases "resolve_mode params = ModeImportLookup")
        case True
        have "sent call (Suc 0) s (snd (handle_import_lookup E w call params s))"
          by (simp add: handle_import_lookup_def Let_def sent_error sent_ok(1) split: option.split sum.split)
        moreover have "apfst Ok (handle_import_lookup E w call params s) = (Ok r :: (error_data, symbol_result) outcome, s')"
          using assms(2) by (simp add: analyze_symbol_handler_def Let_def top Inr if_P[OF True])
        then have "snd (handle_import_lookup E w call params s) = s'" by (metis snd_apfst snd_conv)
        ultimately show ?thesis using True by simp
      next
        case False
        then show ?thesis using assms(2) call_graph_sent[OF assms(1)] by (simp add: analyze_symbol_handler_def Let_def top Inr)
      qed
    qed
  qed
qed

text \<open>
  C11. Every call that does not panic takes the next number of the session and sends its receipt, at time 0, and then one event
  more under the same number and session; it sends two when the analysis failed for an internal reason, since both the
  analysis and the handler report it.
\<close>

theorem symbol_events:
  assumes "codec_ok (se_cursor E)" "analyze_symbol E world w params t s = (Ok r, t', s')"
  shows "\<exists>received es. sy_metrics s' = sy_metrics s @ received # es \<and> mv_result received = ''received'' \<and> mv_ts received = 0 \<and> ss_seq t' = ss_seq t + 1 \<and>
    length es = (if resolve_mode params \<noteq> ModeImportLookup \<and> (\<exists>e. r = SymError e \<and> ed_code e = INTERNAL_ERROR) then 2 else 1) \<and>
    (\<forall>e\<in>set (received # es). mv_seq e = Some (unat (ss_seq t)) \<and> mv_session_id e = ss_id t) \<and>
    (\<forall>e\<in>set es. mv_result e \<in> {''ok'', ''error''})"
proof -
  let ?call = "\<lparr>sl_sid = ss_id t, sl_seq = unat (ss_seq t), sl_param_path = sp_path params, sl_max_depth = sp_max_depth params\<rparr>"
  let ?n = "if resolve_mode params \<noteq> ModeImportLookup \<and> (\<exists>e. r = SymError e \<and> ed_code e = INTERNAL_ERROR) then 2 else 1"
  let ?e = "received_event ''analyze_symbol'' (unat (ss_seq t)) (ss_id t)"
  let ?t1 = "t\<lparr>ss_seq := ss_seq t + 1\<rparr>" and ?s1 = "sy_send ?e s"
  have 1: "emit_received_metric ''analyze_symbol'' t = ((unat (ss_seq t), ss_id t), ?t1, ?e)"
    by (simp add: emit_received_metric_def take_number_def)
  have s1: "\<exists>e. sy_metrics ?s1 = sy_metrics s @ [e] \<and> mv_result e = ''received'' \<and> mv_ts e = 0 \<and>
      mv_seq e = Some (unat (ss_seq t)) \<and> mv_session_id e = ss_id t"
    by (simp add: sy_send_def metric_event_new_def received_event_def)
  have "t' = ?t1 \<and> sent ?call ?n ?s1 s'"
  proof (cases "validate_path world (sp_path params) True")
    case (Inl e)
    then have "ed_code e = INVALID_PARAMS"
      by (auto simp: validate_path_def invalid_def split: option.splits sum.splits if_splits)
    then show ?thesis using assms(2) Inl
      by (auto simp: analyze_symbol_def Let_def 1 terminal_error_event_def sent_def sy_send_def metric_event_new_def)
  next
    case (Inr p)
    have "analyze_symbol_handler E w ?call params ?s1 = (Ok r, s')" "t' = ?t1"
      using assms(2) by (auto simp: analyze_symbol_def Let_def 1 Inr split: prod.splits)
    then show ?thesis using handler_sent[OF assms(1)] by simp
  qed
  then show ?thesis using s1 unfolding sent_def by auto
qed

section \<open>The tiers\<close>

definition call_cache_ok :: "(call_graph_cache_key, focused_output, 'c) lru_ops \<Rightarrow> 'c lru_state \<Rightarrow> bool" where
  "call_cache_ok L m \<longleftrightarrow> lru_documented L \<and> \<not> lc_poisoned (ls_cache m) \<and> 0 < op_cap L (lc_cache (ls_cache m))"

lemma call_cache_get:
  assumes "call_cache_ok L m" "lru_get L k m = (r, m')"
  shows "call_cache_ok L m' \<and> r = alookup k (entries_of L m) \<and> (\<forall>k'. alookup k' (entries_of L m') = alookup k' (entries_of L m))"
  using assms lru_get_entries[of L m k] by (auto simp: call_cache_ok_def)

lemma call_cache_put:
  assumes "call_cache_ok L m"
  shows "call_cache_ok L (lru_put L k v m) \<and> alookup k (entries_of L (lru_put L k v m)) = Some v"
  using assms lru_put_entries[of L m k v] by (simp add: call_cache_ok_def push_entry_def split: option.split)

lemma run_focus_calls: "sy_calls (snd (run_focus E Z params b entries s)) = sy_calls s"
  by (simp add: run_focus_def Let_def split: prod.split)

lemma analysis_failure_calls: "sy_calls (snd (analysis_failure w call params f s)) = sy_calls s"
  by (simp add: analysis_failure_def emit_error_metric_def sy_send_def Let_def
      split: option.split focused_error.split graph_error.split)

lemma err_invalid_params_calls: "sy_calls (snd (err_invalid_params w call m h sub s)) = sy_calls s"
  by (simp add: err_invalid_params_def emit_error_metric_def sy_send_def)

lemma run_focused_calls:
  assumes "run_focused_with_auto_summary E w call params entries s = (r, s')"
  shows "sy_calls s' = sy_calls s"
proof -
  obtain o1 s1 where 1: "run_focus E (sw_focus w False) params (sp_summary params = Some True) entries s = (o1, s1)" by fastforce
  obtain o2 s2 where 2: "run_focus E (sw_focus w True) params True entries s1 = (o2, s2)" by fastforce
  have m: "sy_calls s1 = sy_calls s" "sy_calls s2 = sy_calls s"
    using run_focus_calls[of E "sw_focus w False" params "sp_summary params = Some True" entries s]
      run_focus_calls[of E "sw_focus w True" params True entries s1] by (simp_all add: 1 2)
  have "sy_calls (snd (run_focused_with_auto_summary E w call params entries s)) = sy_calls s"
    by (simp add: run_focused_with_auto_summary_def 1 2 m analysis_failure_calls err_invalid_params_calls apfst_def map_prod_def split_beta
        split: outcome.split)
  then show ?thesis by (simp add: assms)
qed

lemma focused_mode_Ok:
  assumes "handle_focused_mode E w call params s = (Ok (tier, out), s1)"
  obtains entries m where "symbol_entries E w params = Inr entries"
    "sp_impl_only params = Some True \<Longrightarrow> validate_impl_only entries = Inr ()"
    "lru_get (se_lru E) (symbol_key params entries) (sy_calls s) = (if tier = L1Memory then Some out else None, m)"
    "sy_calls s1 = (if tier = L1Memory then m else lru_put (se_lru E) (symbol_key params entries) out m)"
    "tier = L1L2Miss \<Longrightarrow> \<exists>out0 s2 s3. run_focused_with_auto_summary E w call params entries s2 = (Inr out0, s3) \<and>
       out = with_hash E (mark_impl_only params out0)"
    "tier \<in> {L1Memory, L2Disk, L1L2Miss}"
proof -
  obtain entries where en: "symbol_entries E w params = Inr entries"
    using assms by (auto simp: handle_focused_mode_def split: sum.splits)
  have v: "(if sp_impl_only params = Some True then validate_impl_only entries else Inr ()) = Inr ()"
    using assms by (auto simp: handle_focused_mode_def en split: sum.splits prod.splits if_splits)
  obtain cached m where l: "lru_get (se_lru E) (symbol_key params entries) (sy_calls s) = (cached, m)" by fastforce
  note run = assms[unfolded handle_focused_mode_def en sum.case v Let_def l prod.case]
  show thesis
  proof (cases cached)
    case (Some o1)
    then show ?thesis using run v by (intro that[OF en]) (auto simp: l split: if_splits)
  next
    case None
    let ?k = "call_graph_disk_key (se_blake3 E) (se_path_str E) (symbol_key params entries)"
    note run = run[unfolded None option.case]
    obtain st d where g: "disk_get (se_codec E) ''analyze_symbol'' ?k (sy_disk_cache s) (sy_disk s) = Some (st, d)"
      using run by (cases "disk_get (se_codec E) ''analyze_symbol'' ?k (sy_disk_cache s) (sy_disk s)") auto
    show ?thesis
    proof (cases st)
      case (Some o1)
      then show ?thesis using run v g by (intro that[OF en]) (auto simp: l None split: if_splits)
    next
      case n: None
      obtain r1 s3 where r1: "run_focused_with_auto_summary E w call params entries (s\<lparr>sy_calls := m, sy_disk := d\<rparr>) = (r1, s3)" by fastforce
      then obtain o1 where o1: "r1 = Inr o1" using run g n by (cases r1) auto
      have c: "sy_calls s3 = m"
        using run_focused_calls[OF r1] by simp
      show ?thesis using run v g n r1 o1 c by (intro that[OF en]) (auto simp: l None split: if_splits)
    qed
  qed
qed

lemma focused_mode_hit:
  assumes "symbol_entries E w params = Inr entries" "sp_impl_only params = Some True \<Longrightarrow> validate_impl_only entries = Inr ()"
    "lru_get (se_lru E) (symbol_key params entries) (sy_calls s) = (Some out, m)"
  shows "handle_focused_mode E w call params s = (Ok (L1Memory, out), s\<lparr>sy_calls := m\<rparr>)"
  using assms by (simp add: handle_focused_mode_def Let_def)

lemma focused_mode_miss:
  assumes "symbol_entries E w params = Inr entries" "sp_impl_only params = Some True \<Longrightarrow> validate_impl_only entries = Inr ()"
    "lru_get (se_lru E) (symbol_key params entries) (sy_calls s) = (None, m)" "dc_disabled (sy_disk_cache s)"
    "run_focused_with_auto_summary E w call params entries (s\<lparr>sy_calls := m\<rparr>) = (Inr out, s1)"
  shows "\<exists>s2. handle_focused_mode E w call params s = (Ok (L1L2Miss, with_hash E (mark_impl_only params out)), s2)"
  using assms by (simp add: handle_focused_mode_def disk_get_def Let_def)

text \<open>
  C33. A repeated call answers from memory what the first call answered, whatever is asked of the summary and the page the
  second time: a report cut down to a summary is given to a client that refuses summaries.
\<close>

theorem symbol_second_call:
  assumes "call_cache_ok (se_lru E) (sy_calls s)" "handle_focused_mode E w call params s = (Ok (tier, out), s1)"
  shows "fst (handle_focused_mode E w call' (params\<lparr>sp_summary := b, sp_cursor := c\<rparr>) s1) = Ok (L1Memory, out)"
proof (rule focused_mode_Ok[OF assms(2)])
  fix entries m
  let ?k = "symbol_key params entries"
  assume en: "symbol_entries E w params = Inr entries"
    and v: "sp_impl_only params = Some True \<Longrightarrow> validate_impl_only entries = Inr ()"
    and l: "lru_get (se_lru E) ?k (sy_calls s) = (if tier = L1Memory then Some out else None, m)"
    and s1: "sy_calls s1 = (if tier = L1Memory then m else lru_put (se_lru E) ?k out m)"
  note g = call_cache_get[OF assms(1) l]
  have "call_cache_ok (se_lru E) (sy_calls s1) \<and> alookup ?k (entries_of (se_lru E) (sy_calls s1)) = Some out"
    using g call_cache_put[of "se_lru E" m ?k out] by (auto simp: s1 split: if_splits)
  then obtain m1 where "lru_get (se_lru E) ?k (sy_calls s1) = (Some out, m1)"
    using call_cache_get by (metis prod.exhaust_sel)
  moreover have "symbol_entries E w (params\<lparr>sp_summary := b, sp_cursor := c\<rparr>) = Inr entries"
    "symbol_key (params\<lparr>sp_summary := b, sp_cursor := c\<rparr>) entries = ?k"
    using en by (simp_all add: symbol_entries_def symbol_key_def resolve_mode_def)
  ultimately show ?thesis using v focused_mode_hit[of E w "params\<lparr>sp_summary := b, sp_cursor := c\<rparr>" entries s1 out m1 call'] by simp
qed

section \<open>Hashes\<close>

lemma pagination_keeps_hash:
  "apply_call_graph_pagination E params mode offset n b out = Ok (out', nxt) \<Longrightarrow> fo_content_hash out' = fo_content_hash out"
  by (auto simp: apply_call_graph_pagination_def chain_page_def
      split: pagination_mode.splits sum.splits if_splits option.splits)

lemma symbol_page_hash:
  assumes "symbol_page E params out = Ok (SymText t h, nxt)"
  shows "h = (if nxt = None then (case fo_content_hash out of Some h \<Rightarrow> h | None \<Rightarrow> se_blake3 E t) else se_blake3 E t)"
proof -
  obtain offset mode where d: "decode_call_graph_cursor (se_cursor E) params = Inr (offset, mode)"
    using assms by (auto simp: symbol_page_def split: sum.splits)
  obtain o' nx where a: "apply_call_graph_pagination E params mode offset ANALYZE_SYMBOL_PAGE_SIZE (sp_summary params = Some True)
      (depth_warning params out) = Ok (o', nx)"
    using assms by (auto simp: symbol_page_def d Let_def bind_outcome_Ok_iff)
  have "fo_content_hash o' = fo_content_hash out"
    using pagination_keeps_hash[OF a] by (simp add: depth_warning_def Let_def split: if_splits)
  then show ?thesis using assms
    by (auto simp: symbol_page_def d a Let_def ok_result_with_precomputed_hash_def append_pagination_footer_def split: if_splits option.splits)
qed

text \<open>
  An answer without a next cursor carries the hash of the stored report, whatever text it has: the last page of the
  callers, a page of callees or of sites, or the report behind its warning.
\<close>

theorem last_page_hash:
  assumes "handle_focused_mode E w call params s = (Ok (L1L2Miss, out), s1)" "symbol_page E params' out = Ok (SymText t h, None)"
  shows "h = se_blake3 E (fo_formatted out)"
proof (rule focused_mode_Ok[OF assms(1)])
  fix entries
  assume "L1L2Miss = L1L2Miss \<Longrightarrow> \<exists>out0 s2 s3. run_focused_with_auto_summary E w call params entries s2 = (Inr out0, s3) \<and>
       out = with_hash E (mark_impl_only params out0)"
  then have "fo_content_hash out = Some (se_blake3 E (fo_formatted out))" by (auto simp: with_hash_def)
  then show ?thesis using symbol_page_hash[OF assms(2)] by simp
qed

section \<open>The filter line\<close>

lemma focused_header:
  assumes "fst (analyze_focused_entries Z L c root entries s) = Ok out" "fc_impl_only c = Some True" "\<not> fc_def_use c" "\<not> fz_is_file Z root"
  shows "\<exists>n m t. fo_formatted out = filter_header n m @ t"
proof -
  obtain g where g: "focus_phases Z c root entries g = Ok out"
    using assms by (auto simp: analyze_focused_entries_def Let_def split: if_splits prod.splits sum.splits option.splits)
  then obtain symbol u i g' where r: "resolve_focus Z c g = Inr (symbol, u, i, g')"
    using assms(3) by (auto simp: focus_phases_def Let_def split: if_splits sum.splits)
  have "\<exists>d. compute_chains Z c g' symbol root u i [] = Ok d \<and> fo_formatted out = cd_formatted d"
    using g assms(3) by (auto simp: focus_phases_def r Let_def bind_outcome_Ok_iff split_beta split: if_splits)
  then show ?thesis using assms(2) by (auto simp: compute_chains_def Let_def split: sum.splits outcome.splits)
qed

lemma run_focus_header:
  assumes "run_focus E Z params b entries s = (Ok out, s')" "sp_impl_only params = Some True" "sp_mode params \<noteq> Some ModeDefUse" "\<And>p. \<not> fz_is_file Z p"
  shows "\<exists>n m t. fo_formatted out = filter_header n m @ t"
proof -
  let ?f = "\<lparr>fs_disk = sy_disk s, fs_cache = Some (sy_graphs s), fs_progress = 0\<rparr>"
  have "fst (analyze_focused_entries Z (se_graph_lru E) (focus_config params b) (parse_path (sp_path params)) entries ?f) = Ok out"
    using assms(1) by (auto simp: run_focus_def Let_def split: prod.splits)
  then show ?thesis by (rule focused_header) (use assms(2-4) in \<open>simp_all add: focus_config_def\<close>)
qed

lemma run_focused_header:
  assumes "run_focused_with_auto_summary E w call params entries s = (Inr out, s')"
    and p: "sp_impl_only params = Some True" "sp_mode params \<noteq> Some ModeDefUse" "\<And>retry p. \<not> fz_is_file (sw_focus w retry) p"
  shows "\<exists>n m t. fo_formatted out = filter_header n m @ t"
proof -
  obtain o1 s1 where 1: "run_focus E (sw_focus w False) params (sp_summary params = Some True) entries s = (o1, s1)" by fastforce
  obtain o2 s2 where 2: "run_focus E (sw_focus w True) params True entries s1 = (o2, s2)" by fastforce
  have no: "apfst Inl x \<noteq> (Inr out, s')" for x :: "error_data \<times> ('a, 'b) symbol_state" by (cases x) simp
  note run = assms(1)[unfolded run_focused_with_auto_summary_def 1 2 prod.case]
  obtain v where v: "o1 = Ok v" using run no by (cases o1) auto
  have "fo_formatted out = fo_formatted v \<or> (\<exists>v2. o2 = Ok v2 \<and> fo_formatted out = fo_formatted v2)"
    using run no unfolding v outcome.case by (cases o2) (auto split: if_splits)
  then show ?thesis using run_focus_header[OF 1[unfolded v] p] run_focus_header[of E "sw_focus w True" params True entries s1 _ s2] p 2 by metis
qed

text \<open>
  With \<open>impl_only\<close> the first answer for a symbol of the call graph begins with the line about the filter twice: the
  analysis has already written it when the handler adds it.
\<close>

theorem filter_line_twice:
  assumes "handle_focused_mode E w call params s = (Ok (L1L2Miss, out), s1)"
    "sp_impl_only params = Some True" "sp_mode params \<noteq> Some ModeDefUse" "\<And>retry p. \<not> fz_is_file (sw_focus w retry) p"
  shows "\<exists>n m n' m' t. fo_formatted out = filter_header n m @ filter_header n' m' @ t"
proof (rule focused_mode_Ok[OF assms(1)])
  fix entries
  assume "L1L2Miss = L1L2Miss \<Longrightarrow> \<exists>out0 s2 s3. run_focused_with_auto_summary E w call params entries s2 = (Inr out0, s3) \<and>
       out = with_hash E (mark_impl_only params out0)"
  then obtain out0 s2 s3 where run: "run_focused_with_auto_summary E w call params entries s2 = (Inr out0, s3)"
    and out: "out = with_hash E (mark_impl_only params out0)" by blast
  have "\<exists>n m t. fo_formatted out0 = filter_header n m @ t" by (rule run_focused_header[OF run assms(2-4)])
  then obtain n m t where "fo_formatted out0 = filter_header n m @ t" by blast
  then have "fo_formatted out = filter_header (fo_impl_callers out0) (fo_unfiltered_callers out0) @ filter_header n m @ t @
      (if fo_impl_callers out0 = 0 then impl_only_note else [])"
    using assms(2) by (simp add: out with_hash_def mark_impl_only_def)
  then show ?thesis by blast
qed

section \<open>Instances\<close>

text \<open>An empty directory, or one with a Rust file \<open>a.rs\<close> that defines \<open>f\<close> and a file that cannot be read.\<close>

definition demo_focus_output :: focused_output where
  "demo_focus_output = (empty_focus ''FOCUS'')\<lparr>fo_outgoing_chains := [[(''f'', [], 1)]], fo_content_hash := Some ''h''\<rparr>"

definition demo_symbol_env :: "(nat \<times> (call_graph_cache_key \<times> focused_output) list, nat \<times> (string \<times> structural_graph) list) symbol_env" where
  "demo_symbol_env = \<lparr>se_lru = list_lru, se_graph_lru = list_lru,
     se_codec = \<lparr>kd_to_vec = \<lambda>_. None, kd_from_slice = \<lambda>_. None, kd_compress = Some, kd_decompress = Some\<rparr>,
     se_blake3 = \<lambda>s. s, se_path_str = path_display, se_cursor = demo_codec, se_lossy = \<lambda>s. s, se_extractor = demo_extractor\<rparr>"

definition demo_symbol_world :: "walk_entry list \<Rightarrow> focus_env \<Rightarrow> symbol_world" where
  "demo_symbol_world es Z = \<lparr>sw_walker = \<lambda>_ _. [], sw_arrival = \<lambda>_. es, sw_git = \<lambda>_. Inl (NotOnPath []), sw_view = fz_view Z,
     sw_is_file = \<lambda>_. False, sw_focus = \<lambda>_. Z, sw_lookup_panic = None, sw_join_error = [], sw_ts = \<lambda>n. n, sw_dur = \<lambda>_. 0\<rparr>"

definition demo_symbol_state :: "(nat \<times> (call_graph_cache_key \<times> focused_output) list, nat \<times> (string \<times> structural_graph) list) symbol_state" where
  "demo_symbol_state = \<lparr>sy_calls = lru_new list_lru 4, sy_graphs = lru_new list_lru 4,
     sy_disk_cache = \<lparr>dc_base = [], dc_disabled = True, dc_write_failures = 0, dc_total_write_failures = 0, dc_entry_count = 0,
       dc_total_size_bytes = 0, dc_alerts = 0\<rparr>,
     sy_disk = demo_disk, sy_pending = [], sy_metrics = []\<rparr>"

definition demo_symbol_params :: analyze_symbol_params where
  "demo_symbol_params = \<lparr>sp_path = ''d'', sp_symbol = ''f'', sp_match_mode = None, sp_max_depth = None, sp_cursor = None,
     sp_summary = None, sp_impl_only = None, sp_mode = None, sp_git_ref = None\<rparr>"

definition demo_call :: symbol_call where
  "demo_call = \<lparr>sl_sid = None, sl_seq = 0, sl_param_path = ''d'', sl_max_depth = None\<rparr>"

definition single_file_env :: focus_env where
  "single_file_env = demo_focus_env\<lparr>fz_is_file := \<lambda>_. True\<rparr>"

lemma demo_walked: "walk_directory (\<lambda>_ _. []) (\<lambda>_. es) root None = finish_walk es"
  by (simp add: walk_directory_def)

theorem symbol_events_witness:
  "\<exists>r t' s' received e. analyze_symbol demo_symbol_env demo_os (demo_symbol_world [] single_file_env)
      (demo_symbol_params\<lparr>sp_mode := Some ModeImportLookup\<rparr>) \<lparr>ss_id = None, ss_seq = 7\<rparr> demo_symbol_state = (Ok r, t', s') \<and>
    sy_metrics s' = [received, e] \<and> mv_result received = ''received'' \<and> mv_seq e = Some 7"
proof -
  let ?p = "demo_symbol_params\<lparr>sp_mode := Some ModeImportLookup\<rparr>" and ?w = "demo_symbol_world [] single_file_env"
  have v: "\<exists>q. validate_path demo_os ''d'' True = Inr q"
  proof -
    have "\<not> isl (validate_path demo_os ''d'' True)" by code_simp
    then show ?thesis by (cases "validate_path demo_os ''d'' True") auto
  qed
  have b: "\<not> is_blank ''d''" "\<not> is_blank ''f''" unfolding is_blank_def by code_simp+
  obtain r t' s' where run: "analyze_symbol demo_symbol_env demo_os ?w ?p \<lparr>ss_id = None, ss_seq = 7\<rparr> demo_symbol_state = (Ok r, t', s')"
      "\<nexists>e. r = SymError e"
    using v b by (auto simp: analyze_symbol_def emit_received_metric_def take_number_def demo_symbol_params_def demo_symbol_world_def demo_symbol_env_def
        analyze_symbol_handler_def validate_top_level_preconditions_def validate_mode_symbol_def resolve_mode_def normalize_cursor_def
        summary_cursor_conflict_def handle_import_lookup_def symbol_entries_def git_filtered_def Let_def
        ok_result_with_precomputed_hash_def)
  have "codec_ok (se_cursor demo_symbol_env)" by (simp add: demo_symbol_env_def demo_codec_ok)
  from symbol_events[OF this run(1)] obtain received es where e: "sy_metrics s' = sy_metrics demo_symbol_state @ received # es"
    "mv_result received = ''received''" "length es = 1" "\<forall>e\<in>set es. mv_seq e = Some 7"
    by (auto simp: resolve_mode_def)
  then obtain e1 where "es = [e1]" by (auto simp: length_Suc_conv)
  then show ?thesis using run e by (auto simp: demo_symbol_state_def)
qed

theorem symbol_second_call_witness:
  "\<exists>s1. fst (handle_focused_mode demo_symbol_env (demo_symbol_world [] single_file_env) demo_call
     (demo_symbol_params\<lparr>sp_summary := Some False, sp_cursor := None\<rparr>) s1) = Ok (L1Memory, demo_focus_output)"
proof -
  let ?w = "demo_symbol_world [] single_file_env" and ?p = "demo_symbol_params\<lparr>sp_summary := Some True\<rparr>"
  let ?s = "demo_symbol_state\<lparr>sy_calls := lru_put list_lru (symbol_key ?p []) demo_focus_output (lru_new list_lru 4)\<rparr>"
  have L: "lru_documented (list_lru :: (call_graph_cache_key, focused_output, nat \<times> (call_graph_cache_key \<times> focused_output) list) lru_ops)"
    by (rule list_lru_documented)
  have n: "call_cache_ok list_lru (lru_new (list_lru :: (call_graph_cache_key, focused_output, nat \<times> (call_graph_cache_key \<times> focused_output) list) lru_ops) 4)"
    using L by (simp add: call_cache_ok_def lru_new_def list_lru_def)
  note put = call_cache_put[OF n, of "symbol_key ?p []" demo_focus_output]
  have ok: "call_cache_ok (se_lru demo_symbol_env) (sy_calls ?s)" using put by (simp add: demo_symbol_env_def)
  have en: "symbol_entries demo_symbol_env ?w ?p = Inr []"
    by (simp add: symbol_entries_def git_filtered_def demo_symbol_params_def demo_symbol_world_def demo_walked finish_walk_def)
  obtain m where m: "lru_get (se_lru demo_symbol_env) (symbol_key ?p []) (sy_calls ?s) = (Some demo_focus_output, m)"
    using put call_cache_get[OF ok] by (metis (no_types, lifting) demo_symbol_env_def prod.exhaust_sel symbol_env.select_convs(1) symbol_state.select_convs(1) symbol_state.surjective symbol_state.update_convs(1))
  have "handle_focused_mode demo_symbol_env ?w demo_call ?p ?s = (Ok (L1Memory, demo_focus_output), ?s\<lparr>sy_calls := m\<rparr>)"
    by (rule focused_mode_hit[OF en _ m]) (simp add: demo_symbol_params_def)
  from symbol_second_call[OF ok this, where call' = demo_call and b = "Some False" and c = None] show ?thesis by (intro exI) simp
qed

lemma single_file_run:
  assumes "sp_summary params = None" "symbol_entries demo_symbol_env (demo_symbol_world es single_file_env) params = Inr es'" "sp_impl_only params = None"
  shows "\<exists>out s1. handle_focused_mode demo_symbol_env (demo_symbol_world es single_file_env) demo_call params demo_symbol_state = (Ok (L1L2Miss, out), s1) \<and>
    fo_formatted out = line ''Single-file focus not supported. Please provide a directory path for cross-file call graph analysis.'' \<and>
    fo_outgoing_chains out = [] \<and> fo_sites out = [] \<and> fo_prod_chains out = []"
  using assms
  by (auto simp: handle_focused_mode_def demo_symbol_env_def demo_symbol_state_def lru_get_def lru_new_def lock_or_recover_def list_lru_def
      disk_get_def Let_def run_focused_with_auto_summary_def run_focus_def analyze_focused_entries_def single_file_env_def demo_focus_env_def
      demo_symbol_world_def empty_focus_def SIZE_LIMIT_def line_def with_hash_def mark_impl_only_def split: prod.split)

theorem last_page_hash_witness:
  "\<exists>out t h. symbol_page demo_symbol_env (demo_symbol_params\<lparr>sp_max_depth := Some 3\<rparr>) out = Ok (SymText t h, None) \<and>
     h = se_blake3 demo_symbol_env (fo_formatted out) \<and> t \<noteq> fo_formatted out"
proof -
  let ?p = "demo_symbol_params\<lparr>sp_max_depth := Some 3\<rparr>" and ?w = "demo_symbol_world [] single_file_env"
  have "symbol_entries demo_symbol_env ?w ?p = Inr []"
    by (simp add: symbol_entries_def git_filtered_def demo_symbol_params_def demo_symbol_world_def walk_directory_def finish_walk_def)
  then obtain out s1 where run: "handle_focused_mode demo_symbol_env ?w demo_call ?p demo_symbol_state = (Ok (L1L2Miss, out), s1)"
    and o: "fo_outgoing_chains out = []" "fo_sites out = []" "fo_prod_chains out = []"
    using single_file_run[of ?p "[]" "[]"] by (auto simp: demo_symbol_params_def)
  obtain h where pg: "symbol_page demo_symbol_env ?p out = Ok (SymText (fo_formatted (depth_warning ?p out)) h, None)"
    by (auto simp: symbol_page_def decode_call_graph_cursor_def normalize_cursor_def decode_offset_def demo_symbol_params_def Let_def
        apply_call_graph_pagination_def paginate_focus_chains_def paginate_slice_def ANALYZE_SYMBOL_PAGE_SIZE_def depth_warning_def o
        chain_page_def next_phase_cursor_def ok_result_with_precomputed_hash_def)
  have "fo_formatted (depth_warning ?p out) \<noteq> fo_formatted out"
    by (simp add: depth_warning_def demo_symbol_params_def line_def)
  then show ?thesis using last_page_hash[OF run pg] pg by blast
qed

text \<open>The analysis of the Rust file: one function, no calls.\<close>

definition rust_env :: focus_env where
  "rust_env = demo_focus_env\<lparr>fz_extract := \<lambda>_ _ _ _. Inr (empty_analysis\<lparr>sa_functions := [\<lparr>fi_name = ''f'', fi_line = 1, fi_end_line = 1,
       fi_parameters = [], fi_return_type = None\<rparr>]\<rparr>),
     fz_view := (fz_view demo_focus_env)\<lparr>fv_read := \<lambda>p. if p = [RootDir, Normal ''a.rs''] then Inr ''x'' else Inl ''denied''\<rparr>\<rparr>"

definition rust_world :: symbol_world where
  "rust_world = demo_symbol_world [demo_walk [''a.rs''], demo_walk [''b.rs'']] rust_env"

lemma defined_symbol_Ok:
  assumes "alookup (fc_focus c) (cg_definitions g) \<noteq> None" "fc_match_mode c = Exact" "fc_use_summary c" "\<not> fc_def_use c"
    "\<not> fz_cancelled Z 4" "\<not> fz_cancelled Z 5"
  shows "\<exists>out. focus_phases Z c root entries g = Ok out"
proof -
  obtain u i g' where r: "resolve_focus Z c g = Inr (fc_focus c, u, i, g')" "cg_definitions g' = cg_definitions g"
    using assms(1,2) by (auto simp: resolve_focus_def Let_def retain_impl_def)
  obtain inc outg where f: "find_incoming_chains g' (fc_focus c) (fc_follow_depth c) = Inr inc"
      "find_outgoing_chains g' (fc_focus c) (fc_follow_depth c) = Inr outg"
    using assms(1) r(2) by (auto simp: find_incoming_chains_def find_outgoing_chains_def find_chains_bfs_def Let_def)
  obtain d where "compute_chains Z c g' (fc_focus c) root u i [] = Ok d"
    using assms(3) by (auto simp: compute_chains_def f Let_def format_focused_summary_internal_def focused_prologue_def)
  then show ?thesis using assms(4-6) by (auto simp: focus_phases_def r Let_def split: prod.split)
qed

lemma rust_walk: "finish_walk [demo_walk [''a.rs''], demo_walk [''b.rs'']] = [demo_walk [''a.rs''], demo_walk [''b.rs'']]"
proof -
  have "sort_key we_path [demo_walk [''a.rs''], demo_walk [''b.rs'']] = [demo_walk [''a.rs''], demo_walk [''b.rs'']]" by code_simp
  then show ?thesis by (simp add: finish_walk_def MAX_WALK_ENTRIES_def)
qed

theorem filter_line_twice_witness:
  "\<exists>out n m n' m' t. fst (handle_focused_mode demo_symbol_env rust_world demo_call
      (demo_symbol_params\<lparr>sp_impl_only := Some True, sp_summary := Some True\<rparr>) demo_symbol_state) = Ok (L1L2Miss, out) \<and>
    fo_formatted out = filter_header n m @ filter_header n' m' @ t"
proof -
  let ?p = "demo_symbol_params\<lparr>sp_impl_only := Some True, sp_summary := Some True\<rparr>"
  let ?es = "[demo_walk [''a.rs''], demo_walk [''b.rs'']]" and ?c = "focus_config ?p True"
  let ?f = "\<lparr>fs_disk = sy_disk demo_symbol_state, fs_cache = Some (sy_graphs demo_symbol_state), fs_progress = 0\<rparr>"
  have en: "symbol_entries demo_symbol_env rust_world ?p = Inr ?es"
    by (simp add: symbol_entries_def git_filtered_def demo_symbol_params_def rust_world_def demo_symbol_world_def demo_walked rust_walk)
  have "path_extension [RootDir, Normal ''a.rs''] = Some ''rs''" by code_simp
  then have rs: "validate_impl_only ?es = Inr ()" by (simp add: validate_impl_only_def demo_walk_def)
  obtain sem where col: "collect_file_analysis rust_env ?c ?es = (2, Inr ([([RootDir, Normal ''a.rs''], sem)], [], [([RootDir, Normal ''a.rs''], [])]))"
      "map fi_name (sa_functions sem) = [''f'']" "sa_classes sem = []" "sa_calls sem = []" "sa_references sem = []"
    by (auto simp: collect_file_analysis_def rust_env_def demo_focus_env_def analyze_entry_def init_analysis_context_def demo_walk_def
        too_large_def MAX_FILE_SIZE_BYTES_def read_text_def utf8_valid_ascii Let_def List.map_filter_def locate_def set_locations_def empty_analysis_def)
  have key: "compute_cache_key rust_env (parse_path ''d'') ?es [([RootDir, Normal ''a.rs''], [])] = None"
    by (simp add: compute_cache_key_def init_analysis_context_def demo_walk_def rust_env_def demo_focus_env_def Let_def)
  have no: "\<not> fz_is_file rust_env q" "\<not> fz_cancelled rust_env k" for q k by (simp_all add: rust_env_def demo_focus_env_def)
  let ?g = "build_from_results (fz_lower rust_env) [([RootDir, Normal ''a.rs''], sem)] [] False"
  have "alookup (fc_focus ?c) (cg_definitions ?g) \<noteq> None"
    using col(2-5) akeys_apush[of "''f''" _ "[] :: (string \<times> (path \<times> nat) list) list"]
    by (auto simp: build_from_results_def build_lowercase_def add_calls_def add_definitions_def cg_new_def focus_config_def
        demo_symbol_params_def apush_def Let_def)
  then obtain out0 where "focus_phases rust_env ?c (parse_path ''d'') ?es ?g = Ok out0"
    using defined_symbol_Ok[of ?c ?g rust_env]
    by (auto simp: focus_config_def demo_symbol_params_def rust_env_def demo_focus_env_def)
  then have "fst (analyze_focused_entries rust_env list_lru ?c (parse_path ''d'') ?es ?f) = Ok out0"
    using col(1) key no by (simp add: analyze_focused_entries_def store_graph_def Let_def)
  then obtain f where af: "analyze_focused_entries rust_env list_lru ?c (parse_path ''d'') ?es ?f = (Ok out0, f)" by (metis prod.collapse)
  obtain m where m: "lru_get (se_lru demo_symbol_env) (symbol_key ?p ?es) (sy_calls demo_symbol_state) = (None, m)"
    by (simp add: lru_get_def lock_or_recover_def demo_symbol_state_def lru_new_def demo_symbol_env_def list_lru_def Let_def)
  have s: "sp_summary ?p = Some True" "sp_path ?p = ''d''" "sw_focus rust_world b = rust_env" "se_graph_lru demo_symbol_env = list_lru" for b
    by (simp_all add: demo_symbol_params_def rust_world_def demo_symbol_world_def demo_symbol_env_def)
  have dis: "dc_disabled (sy_disk_cache demo_symbol_state)" by (simp add: demo_symbol_state_def)
  obtain s1 where rf: "run_focused_with_auto_summary demo_symbol_env rust_world demo_call ?p ?es (demo_symbol_state\<lparr>sy_calls := m\<rparr>) = (Inr out0, s1)"
    by (simp add: run_focused_with_auto_summary_def run_focus_def s af Let_def del: symbol_state.update_convs)
  obtain out s2 where run: "handle_focused_mode demo_symbol_env rust_world demo_call ?p demo_symbol_state = (Ok (L1L2Miss, out), s2)"
    using focused_mode_miss[OF en rs m dis rf] by blast
  have "\<not> fz_is_file (sw_focus rust_world retry) p" for retry p
    by (simp add: rust_world_def demo_symbol_world_def rust_env_def demo_focus_env_def)
  then show ?thesis using filter_line_twice[OF run] run by (simp add: demo_symbol_params_def)
qed

end
