(* ===== verification/SymbolPages.thy ===== *)
theory SymbolPages
  imports SymbolProps
begin

text \<open>The pages of the symbol tool: a client that follows the cursors sees every page once and stops.\<close>

section \<open>The client that follows the cursors\<close>

text \<open>
  The client repeats its call with the cursor of each answer. Every call reads the same output, since a repeated call is
  answered from memory.
\<close>

fun follow_symbol ::
    "nat \<Rightarrow> ('c, 'g) symbol_env \<Rightarrow> analyze_symbol_params \<Rightarrow> focused_output \<Rightarrow> string option \<Rightarrow> symbol_result list option" where
  "follow_symbol 0 E params out cursor = None"
| "follow_symbol (Suc n) E params out cursor =
     (case symbol_page E (params\<lparr>sp_cursor := cursor\<rparr>) out of
        Ok (r, None) \<Rightarrow> Some [r]
      | Ok (r, Some c) \<Rightarrow> map_option (Cons r) (follow_symbol n E params out (Some c))
      | _ \<Rightarrow> None)"

text \<open>The pages of a list of \<open>n\<close> items, and the whole tour: callers (at least one page), callees, sites.\<close>

definition phase_pages :: "pagination_mode \<Rightarrow> nat \<Rightarrow> (pagination_mode \<times> nat) list" where
  "phase_pages mode n = map (\<lambda>i. (mode, 20 * i)) [0..<(n + 19) div 20]"

definition page_plan :: "focused_output \<Rightarrow> (pagination_mode \<times> nat) list" where
  "page_plan out =
     phase_pages PageCallers (max 1 (length (fo_prod_chains out))) @ phase_pages PageCallees (length (fo_outgoing_chains out)) @
     phase_pages PageDefUse (length (fo_sites out))"

text \<open>What a page shows. The report itself is shown when nothing has to be cut.\<close>

definition page_shows :: "('c, 'g) symbol_env \<Rightarrow> analyze_symbol_params \<Rightarrow> focused_output \<Rightarrow> pagination_mode \<times> nat \<Rightarrow> string option" where
  "page_shows E params out p =
     (let chain_text = (\<lambda>mode chs offset. format_focused_paginated (se_path_str E) (take 20 (drop offset chs)) (length chs) mode (sp_symbol params)
            (fo_prod_chains out) (fo_test_chains out) (fo_outgoing_chains out) (fo_def_count out) offset (Some (parse_path (sp_path params))));
          report = Some (fo_formatted (depth_warning params out))
      in case p of
        (PageCallers, offset) \<Rightarrow>
          if length (fo_prod_chains out) \<le> 20 \<and> fo_outgoing_chains out = [] then report
          else chain_text PageCallers (fo_prod_chains out) offset
      | (PageCallees, offset) \<Rightarrow>
          if length (fo_outgoing_chains out) \<le> 20 then report else chain_text PageCallees (fo_outgoing_chains out) offset
      | (_, offset) \<Rightarrow>
          format_focused_paginated_defuse (take 20 (drop offset (fo_sites out))) (length (fo_sites out)) (sp_symbol params) offset
            (Some (parse_path (sp_path params))))"

definition next_page :: "focused_output \<Rightarrow> pagination_mode \<times> nat \<Rightarrow> (pagination_mode \<times> nat) option" where
  "next_page out p =
     (let sites = (if fo_sites out \<noteq> [] then Some (PageDefUse, 0) else None) in
      case p of
        (PageCallers, offset) \<Rightarrow>
          if offset + 20 < length (fo_prod_chains out) then Some (PageCallers, offset + 20)
          else if fo_outgoing_chains out \<noteq> [] then Some (PageCallees, 0) else sites
      | (PageCallees, offset) \<Rightarrow>
          if offset + 20 < length (fo_outgoing_chains out) then Some (PageCallees, offset + 20) else sites
      | (_, offset) \<Rightarrow> if offset + 20 < length (fo_sites out) then Some (PageDefUse, offset + 20) else None)"

text \<open>A position of the tour, and the cursor that leads to it.\<close>

definition on_plan :: "focused_output \<Rightarrow> pagination_mode \<times> nat \<Rightarrow> bool" where
  "on_plan out p \<longleftrightarrow>
     (case p of
        (PageCallers, offset) \<Rightarrow> offset = 0 \<or> offset < length (fo_prod_chains out) \<and> 20 < length (fo_prod_chains out)
      | (PageCallees, offset) \<Rightarrow> offset = 0 \<or> offset < length (fo_outgoing_chains out) \<and> 20 < length (fo_outgoing_chains out)
      | (PageDefUse, offset) \<Rightarrow> True
      | _ \<Rightarrow> False)"

definition leads_to :: "cursor_codec \<Rightarrow> string option \<Rightarrow> pagination_mode \<times> nat \<Rightarrow> bool" where
  "leads_to codec cursor p \<longleftrightarrow>
     (cursor = None \<and> p = (PageCallers, 0)) \<or>
     (\<exists>c. cursor = Some c \<and> c \<noteq> [] \<and> decode_cursor codec c = Inr \<lparr>cd_mode = fst p, cd_offset = snd p\<rparr>)"

lemma leads_to_decode:
  "leads_to codec cursor (mode, offset) \<Longrightarrow> decode_call_graph_cursor codec (params\<lparr>sp_cursor := cursor\<rparr>) = Inr (offset, mode)"
  by (auto simp: leads_to_def decode_call_graph_cursor_def normalize_cursor_def decode_offset_def Let_def)

lemma leads_to_encode:
  assumes "codec_ok codec" "encode_cursor codec \<lparr>cd_mode = fst p, cd_offset = snd p\<rparr> = Inr c"
  shows "leads_to codec (Some c) p"
  using assms decode_encode[OF assms(1), of "\<lparr>cd_mode = fst p, cd_offset = snd p\<rparr>"] by (auto simp: leads_to_def)

text \<open>One page of a list in steps of twenty.\<close>

lemma slice_20:
  assumes "codec_ok codec" "length items \<le> usize_max"
  shows "\<exists>r. paginate_slice codec items offset 20 mode = Inr r \<and> pr_items r = take 20 (drop offset items) \<and>
    (if offset + 20 < length items
     then \<exists>c. pr_next_cursor r = Some c \<and> encode_cursor codec \<lparr>cd_mode = mode, cd_offset = offset + 20\<rparr> = Inr c
     else pr_next_cursor r = None)"
proof (rule slice_Inr[OF assms(1)])
  show "0 < (20 :: nat)" by simp
  fix r assume r: "paginate_slice codec items offset 20 mode = Inr r"
  have "min 20 MAX_PAGE_SIZE = 20" by (simp add: MAX_PAGE_SIZE_def)
  then show ?thesis using r paginate_slice_Inr[OF r assms(2)] by (cases "pr_next_cursor r") auto
qed

lemma chains_20:
  assumes "codec_ok codec" "length chs \<le> usize_max"
  shows "\<exists>nxt. paginate_focus_chains codec chs mode offset 20 = Inr (take 20 (drop offset chs), nxt) \<and>
    (if offset + 20 < length chs
     then \<exists>c. nxt = Some c \<and> encode_cursor codec \<lparr>cd_mode = mode, cd_offset = offset + 20\<rparr> = Inr c
     else nxt = None)"
  using slice_20[OF assms, of offset mode] focus_chains_Inr[OF assms(1), of 20 chs offset mode] by fastforce

lemma encode_total:
  assumes "codec_ok codec"
  obtains c where "encode_cursor codec d = Inr c"
  using decode_encode[OF assms] that by blast

lemma chain_page_20:
  assumes codec: "codec_ok (se_cursor E)" and len: "length chs \<le> usize_max" and mode: "mode \<in> {PageCallers, PageCallees}"
    and shown: "shown \<longleftrightarrow> \<not> (length chs \<le> 20 \<and> rest)" "offset + 20 < length chs \<Longrightarrow> shown"
  shows "\<exists>nxt o' nx t. paginate_focus_chains (se_cursor E) chs mode offset 20 = Inr (take 20 (drop offset chs), nxt) \<and>
    (nxt \<noteq> None \<longleftrightarrow> offset + 20 < length chs) \<and>
    chain_page E params o1 mode chs offset (take 20 (drop offset chs)) nxt shown = Ok (o', nx) \<and>
    fo_formatted o' = t \<and> fo_outgoing_chains o' = fo_outgoing_chains o1 \<and> fo_sites o' = fo_sites o1 \<and>
    (if shown then format_focused_paginated (se_path_str E) (take 20 (drop offset chs)) (length chs) mode (sp_symbol params)
        (fo_prod_chains o1) (fo_test_chains o1) (fo_outgoing_chains o1) (fo_def_count o1) offset (Some (parse_path (sp_path params))) = Some t
     else t = fo_formatted o1) \<and>
    (if offset + 20 < length chs then \<exists>c. nx = Some c \<and> leads_to (se_cursor E) (Some c) (mode, offset + 20) else nx = None)"
proof -
  obtain nxt where n: "paginate_focus_chains (se_cursor E) chs mode offset 20 = Inr (take 20 (drop offset chs), nxt)"
    "if offset + 20 < length chs then \<exists>c. nxt = Some c \<and> encode_cursor (se_cursor E) \<lparr>cd_mode = mode, cd_offset = offset + 20\<rparr> = Inr c
     else nxt = None"
    using chains_20[OF codec len] by blast
  then have c: "if offset + 20 < length chs then \<exists>c. nxt = Some c \<and> leads_to (se_cursor E) (Some c) (mode, offset + 20) else nxt = None"
    using leads_to_encode[OF codec, of "(mode, offset + 20)"] by (auto split: if_splits)
  have "\<exists>t. format_focused_paginated (se_path_str E) (take 20 (drop offset chs)) (length chs) mode (sp_symbol params)
      (fo_prod_chains o1) (fo_test_chains o1) (fo_outgoing_chains o1) (fo_def_count o1) offset (Some (parse_path (sp_path params))) = Some t"
    using mode by (auto simp: format_focused_paginated_def Let_def)
  then show ?thesis using n(1) c shown by (cases shown) (auto simp: chain_page_def split: if_splits)
qed

lemma page_step_phase:
  assumes codec: "codec_ok (se_cursor E)"
    and len: "length (fo_prod_chains out) \<le> usize_max" "length (fo_outgoing_chains out) \<le> usize_max" "length (fo_sites out) \<le> usize_max"
    and p: "on_plan out (mode, offset)"
  shows "\<exists>o' nx t. apply_call_graph_pagination E (params\<lparr>sp_cursor := cursor\<rparr>) mode offset 20 False (depth_warning params out) = Ok (o', nx) \<and>
    page_shows E params out (mode, offset) = Some t \<and> fo_formatted o' = t \<and>
    (case next_page out (mode, offset) of
       None \<Rightarrow> next_phase_cursor (se_cursor E) mode False o' nx = None
     | Some q \<Rightarrow> \<exists>c. next_phase_cursor (se_cursor E) mode False o' nx = Some c \<and> leads_to (se_cursor E) (Some c) q)"
proof -
  let ?o = "depth_warning params out"
  have o: "fo_prod_chains ?o = fo_prod_chains out" "fo_outgoing_chains ?o = fo_outgoing_chains out"
    "fo_sites ?o = fo_sites out" "fo_test_chains ?o = fo_test_chains out" "fo_def_count ?o = fo_def_count out"
    by (simp_all add: depth_warning_def Let_def)
  obtain ce where ce: "encode_cursor (se_cursor E) \<lparr>cd_mode = PageCallees, cd_offset = 0\<rparr> = Inr ce" by (rule encode_total[OF codec])
  obtain cu where cu: "encode_cursor (se_cursor E) \<lparr>cd_mode = PageDefUse, cd_offset = 0\<rparr> = Inr cu" by (rule encode_total[OF codec])
  have lead: "leads_to (se_cursor E) (Some ce) (PageCallees, 0)" "leads_to (se_cursor E) (Some cu) (PageDefUse, 0)"
    using leads_to_encode[OF codec, of "(PageCallees, 0)"] leads_to_encode[OF codec, of "(PageDefUse, 0)"] ce cu by simp_all
  show ?thesis
  proof (cases mode)
    case PageCallers
    obtain nxt o' nx t where s: "paginate_focus_chains (se_cursor E) (fo_prod_chains out) PageCallers offset 20 = Inr (take 20 (drop offset (fo_prod_chains out)), nxt)"
      "nxt \<noteq> None \<longleftrightarrow> offset + 20 < length (fo_prod_chains out)"
      "chain_page E (params\<lparr>sp_cursor := cursor\<rparr>) ?o PageCallers (fo_prod_chains out) offset (take 20 (drop offset (fo_prod_chains out))) nxt
         (\<not> (length (fo_prod_chains out) \<le> 20 \<and> fo_outgoing_chains out = [])) = Ok (o', nx)"
      "fo_formatted o' = t" "fo_outgoing_chains o' = fo_outgoing_chains out" "fo_sites o' = fo_sites out"
      "page_shows E params out (PageCallers, offset) = Some t"
      "if offset + 20 < length (fo_prod_chains out) then \<exists>c. nx = Some c \<and> leads_to (se_cursor E) (Some c) (PageCallers, offset + 20) else nx = None"
      using chain_page_20[OF codec len(1), of PageCallers "\<not> (length (fo_prod_chains out) \<le> 20 \<and> fo_outgoing_chains out = [])"
          "fo_outgoing_chains out = []" offset "params\<lparr>sp_cursor := cursor\<rparr>" ?o]
      by (fastforce simp: page_shows_def o Let_def split: if_splits)
    have "(nxt \<noteq> None \<or> offset > 0 \<or> fo_outgoing_chains out \<noteq> []) \<longleftrightarrow> \<not> (length (fo_prod_chains out) \<le> 20 \<and> fo_outgoing_chains out = [])"
      using p s(2) PageCallers by (auto simp: on_plan_def)
    then have "apply_call_graph_pagination E (params\<lparr>sp_cursor := cursor\<rparr>) PageCallers offset 20 False ?o = Ok (o', nx)"
      using s(1,3) by (simp add: apply_call_graph_pagination_def o)
    then show ?thesis using s PageCallers lead
      by (auto simp: next_page_def next_phase_cursor_def Let_def ce cu split: if_splits)
  next
    case PageCallees
    obtain nxt o' nx t where s: "paginate_focus_chains (se_cursor E) (fo_outgoing_chains out) PageCallees offset 20 = Inr (take 20 (drop offset (fo_outgoing_chains out)), nxt)"
      "nxt \<noteq> None \<longleftrightarrow> offset + 20 < length (fo_outgoing_chains out)"
      "chain_page E (params\<lparr>sp_cursor := cursor\<rparr>) ?o PageCallees (fo_outgoing_chains out) offset (take 20 (drop offset (fo_outgoing_chains out))) nxt
         (\<not> (length (fo_outgoing_chains out) \<le> 20 \<and> True)) = Ok (o', nx)"
      "fo_formatted o' = t" "fo_outgoing_chains o' = fo_outgoing_chains out" "fo_sites o' = fo_sites out"
      "page_shows E params out (PageCallees, offset) = Some t"
      "if offset + 20 < length (fo_outgoing_chains out) then \<exists>c. nx = Some c \<and> leads_to (se_cursor E) (Some c) (PageCallees, offset + 20) else nx = None"
      using chain_page_20[OF codec len(2), of PageCallees "\<not> (length (fo_outgoing_chains out) \<le> 20 \<and> True)" True offset "params\<lparr>sp_cursor := cursor\<rparr>" ?o]
      by (fastforce simp: page_shows_def o Let_def split: if_splits)
    have "(nxt \<noteq> None \<or> offset > 0) \<longleftrightarrow> \<not> (length (fo_outgoing_chains out) \<le> 20 \<and> True)"
      using p s(2) PageCallees by (auto simp: on_plan_def)
    then have "apply_call_graph_pagination E (params\<lparr>sp_cursor := cursor\<rparr>) PageCallees offset 20 False ?o = Ok (o', nx)"
      using s(1,3) by (simp add: apply_call_graph_pagination_def o)
    then show ?thesis using s PageCallees lead
      by (auto simp: next_page_def next_phase_cursor_def Let_def ce cu split: if_splits)
  next
    case PageDefUse
    obtain r where r: "paginate_slice (se_cursor E) (fo_sites out) offset 20 PageDefUse = Inr r" "pr_items r = take 20 (drop offset (fo_sites out))"
      "if offset + 20 < length (fo_sites out)
       then \<exists>c. pr_next_cursor r = Some c \<and> encode_cursor (se_cursor E) \<lparr>cd_mode = PageDefUse, cd_offset = offset + 20\<rparr> = Inr c
       else pr_next_cursor r = None"
      using slice_20[OF codec len(3), of offset PageDefUse] by blast
    obtain t where t: "format_focused_paginated_defuse (take 20 (drop offset (fo_sites out))) (length (fo_sites out)) (sp_symbol params) offset
        (Some (parse_path (sp_path params))) = Some t" by (rule defuse_page_Some)
    show ?thesis using r t PageDefUse leads_to_encode[OF codec, of "(PageDefUse, offset + 20)"]
      by (auto simp: apply_call_graph_pagination_def o page_shows_def next_page_def next_phase_cursor_def Let_def split: if_splits)
  next
    case PageDefault
    then show ?thesis using p by (simp add: on_plan_def)
  qed
qed

text \<open>The step: the page shown and the cursor of the next one.\<close>

lemma page_step:
  assumes codec: "codec_ok (se_cursor E)" and sum: "sp_summary params \<noteq> Some True"
    and len: "length (fo_prod_chains out) \<le> usize_max" "length (fo_outgoing_chains out) \<le> usize_max" "length (fo_sites out) \<le> usize_max"
    and p: "on_plan out p" "leads_to (se_cursor E) cursor p"
  shows "\<exists>r nxt t. symbol_page E (params\<lparr>sp_cursor := cursor\<rparr>) out = Ok (r, nxt) \<and> page_shows E params out p = Some t \<and>
    prefix t (text_of r) \<and>
    (case next_page out p of None \<Rightarrow> nxt = None \<and> text_of r = t | Some q \<Rightarrow> \<exists>c. nxt = Some c \<and> leads_to (se_cursor E) (Some c) q)"
proof -
  obtain mode offset where m: "p = (mode, offset)" by fastforce
  let ?q = "params\<lparr>sp_cursor := cursor\<rparr>" and ?o = "depth_warning params out"
  have o: "depth_warning ?q out = ?o" "fo_prod_chains ?o = fo_prod_chains out" "fo_outgoing_chains ?o = fo_outgoing_chains out"
    "fo_sites ?o = fo_sites out" "fo_test_chains ?o = fo_test_chains out" "fo_def_count ?o = fo_def_count out"
    by (simp_all add: depth_warning_def Let_def)
  have d: "decode_call_graph_cursor (se_cursor E) ?q = Inr (offset, mode)" using p(2) unfolding m by (rule leads_to_decode)
  let ?a = "apply_call_graph_pagination E ?q mode offset 20 False ?o"
  have "\<exists>o' nx t. ?a = Ok (o', nx) \<and> page_shows E params out p = Some t \<and> fo_formatted o' = t \<and>
      (case next_page out p of
         None \<Rightarrow> next_phase_cursor (se_cursor E) mode False o' nx = None
       | Some q \<Rightarrow> \<exists>c. next_phase_cursor (se_cursor E) mode False o' nx = Some c \<and> leads_to (se_cursor E) (Some c) q)"
    using p(1) unfolding m by (rule page_step_phase[OF codec len])
  then show ?thesis using sum
    by (auto simp: symbol_page_def d o Let_def ANALYZE_SYMBOL_PAGE_SIZE_def ok_result_with_precomputed_hash_def text_of_def
        append_pagination_footer_def split: option.splits)
qed

text \<open>A tour is a list in which every position leads to the following one and the last one to none.\<close>

definition tour :: "focused_output \<Rightarrow> (pagination_mode \<times> nat) list \<Rightarrow> bool" where
  "tour out ps \<longleftrightarrow> ps \<noteq> [] \<and> successively (\<lambda>p q. next_page out p = Some q) ps \<and> next_page out (last ps) = None"

lemma follow_tour:
  assumes codec: "codec_ok (se_cursor E)" and sum: "sp_summary params \<noteq> Some True"
    and len: "length (fo_prod_chains out) \<le> usize_max" "length (fo_outgoing_chains out) \<le> usize_max" "length (fo_sites out) \<le> usize_max"
  shows "tour out ps \<Longrightarrow> \<forall>p\<in>set ps. on_plan out p \<Longrightarrow> leads_to (se_cursor E) cursor (hd ps) \<Longrightarrow>
    \<exists>rs. follow_symbol (length ps) E params out cursor = Some rs \<and>
      list_all2 (\<lambda>p r. \<exists>t. page_shows E params out p = Some t \<and> prefix t (text_of r)) ps rs"
proof (induction ps arbitrary: cursor)
  case Nil
  then show ?case by (simp add: tour_def)
next
  case (Cons p ps)
  have on: "on_plan out p" using Cons.prems(2) by simp
  have at: "leads_to (se_cursor E) cursor p" using Cons.prems(3) by simp
  obtain r nxt t where s: "symbol_page E (params\<lparr>sp_cursor := cursor\<rparr>) out = Ok (r, nxt)" "page_shows E params out p = Some t" "prefix t (text_of r)"
    "case next_page out p of None \<Rightarrow> nxt = None \<and> text_of r = t | Some q \<Rightarrow> \<exists>c. nxt = Some c \<and> leads_to (se_cursor E) (Some c) q"
    using page_step[OF codec sum len on at] by blast
  show ?case
  proof (cases ps)
    case Nil
    then have "nxt = None" using Cons.prems(1) s(4) by (simp add: tour_def)
    then show ?thesis using s Nil by simp
  next
    case (Cons q qs)
    have "next_page out p = Some q" using Cons.prems(1) Cons by (simp add: tour_def)
    then obtain c where c: "nxt = Some c" "leads_to (se_cursor E) (Some c) (hd ps)" using s(4) Cons by auto
    have "tour out ps" using Cons.prems(1) Cons by (simp add: tour_def)
    then obtain rs where "follow_symbol (length ps) E params out (Some c) = Some rs"
      "list_all2 (\<lambda>p r. \<exists>t. page_shows E params out p = Some t \<and> prefix t (text_of r)) ps rs"
      using Cons.IH[OF _ _ c(2)] Cons.prems(2) by auto
    then show ?thesis using s c by auto
  qed
qed

lemma phase_pages_step:
  assumes "\<And>i. 20 * i + 20 < n \<Longrightarrow> next_page out (mode, 20 * i) = Some (mode, 20 * i + 20)"
  shows "successively (\<lambda>p q. next_page out p = Some q) (phase_pages mode n)"
proof -
  have "successively (\<lambda>i j. next_page out (mode, 20 * i) = Some (mode, 20 * j)) [0..<k]" if "k \<le> (n + 19) div 20" for k
    using that
  proof (induction k)
    case (Suc k)
    show ?case
    proof (cases k)
      case (Suc j)
      have "20 * j + 20 < n" using Suc.prems Suc by simp
      then show ?thesis using assms[of j] Suc.IH Suc.prems Suc by (simp add: successively_append_iff algebra_simps)
    qed simp
  qed simp
  then show ?thesis by (simp add: phase_pages_def successively_map)
qed

lemma phase_pages_ends:
  "0 < n \<Longrightarrow> phase_pages mode n \<noteq> [] \<and> hd (phase_pages mode n) = (mode, 0) \<and>
    last (phase_pages mode n) = (mode, 20 * ((n - 1) div 20)) \<and> 20 * ((n - 1) div 20) + 20 \<ge> n"
  by (auto simp: phase_pages_def hd_map last_map)

lemma phase_pages_none: "phase_pages mode 0 = []"
  by (simp add: phase_pages_def)

lemma plan_is_tour: "tour out (page_plan out) \<and> hd (page_plan out) = (PageCallers, 0)"
proof -
  let ?P = "\<lambda>p q. next_page out p = Some q"
  define A where "A = phase_pages PageCallers (max 1 (length (fo_prod_chains out)))"
  define B where "B = phase_pages PageCallees (length (fo_outgoing_chains out))"
  define C where "C = phase_pages PageDefUse (length (fo_sites out))"
  have s: "successively ?P A" "successively ?P B" "successively ?P C"
    unfolding A_def B_def C_def by (rule phase_pages_step, simp add: next_page_def Let_def)+
  have a: "A \<noteq> []" "hd A = (PageCallers, 0)" "next_page out (last A) =
      (if fo_outgoing_chains out \<noteq> [] then Some (PageCallees, 0) else if fo_sites out \<noteq> [] then Some (PageDefUse, 0) else None)"
    using phase_pages_ends[of "max 1 (length (fo_prod_chains out))" PageCallers] by (auto simp: A_def next_page_def Let_def)
  have b: "B \<noteq> [] \<and> hd B = (PageCallees, 0) \<and> next_page out (last B) = (if fo_sites out \<noteq> [] then Some (PageDefUse, 0) else None)"
    if "fo_outgoing_chains out \<noteq> []"
    using that phase_pages_ends[of "length (fo_outgoing_chains out)" PageCallees] by (auto simp: B_def next_page_def Let_def)
  have c: "C \<noteq> [] \<and> hd C = (PageDefUse, 0) \<and> next_page out (last C) = None" if "fo_sites out \<noteq> []"
    using that phase_pages_ends[of "length (fo_sites out)" PageDefUse] by (auto simp: C_def next_page_def Let_def)
  have n: "fo_outgoing_chains out = [] \<Longrightarrow> B = []" "fo_sites out = [] \<Longrightarrow> C = []" by (simp_all add: B_def C_def phase_pages_none)
  have "tour out (A @ B @ C)" using s a b c n
    by (cases "fo_outgoing_chains out = []"; cases "fo_sites out = []") (simp_all add: tour_def successively_append_iff)
  then show ?thesis using a by (simp add: page_plan_def A_def B_def C_def)
qed

lemma plan_on_plan: "p \<in> set (page_plan out) \<Longrightarrow> on_plan out p"
  by (auto simp: page_plan_def phase_pages_def on_plan_def)


definition paged_output :: focused_output where
  "paged_output = (empty_focus ''FOCUS'')\<lparr>fo_outgoing_chains := replicate 21 [(''g'', [], 1)],
     fo_sites := [\<lparr>du_kind = DuRead, du_symbol = ''f'', du_file = ''a.rs'', du_line = 1, du_column = 0, du_snippet = ''f()'', du_scope = None\<rparr>]\<rparr>"


end
