(* ===== verification/Anchors.thy ===== *)
theory Anchors
  imports Metrics Validation
begin

text \<open>
  Verification of citations: \<open>crates/aptu-coder-core/src/anchors.rs\<close> and the \<open>verify_anchors\<close> tool,
  \<open>crates/aptu-coder/src/tools/verify_anchors.rs\<close>. Regular expressions are a crate: compiling and matching are the
  parameter \<open>X\<close>. The order in which the map of paths is iterated is the parameter \<open>iter\<close>; the file system is
  \<open>os\<close> with the files that read as text. Every read of a file is recorded.
\<close>

section \<open>Anchors and verdicts\<close>

record anchor_item =
  an_path :: string
  an_line :: nat
  an_symbol :: "string option"

record anchor_result =
  ar_path :: string
  ar_line :: nat
  ar_symbol :: "string option"
  ar_exists :: bool
  ar_in_range :: bool
  ar_symbol_found :: "bool option"
  ar_window_line :: "nat option"

definition ANCHOR_WINDOW_LINES :: nat where "ANCHOR_WINDOW_LINES = 2"
definition MAX_ANCHORS :: nat where "MAX_ANCHORS = 100"

record 'r regex_crate =
  rx_escape :: "string \<Rightarrow> string"
  rx_new :: "string \<Rightarrow> 'r option"
  rx_match :: "'r \<Rightarrow> string \<Rightarrow> bool"

definition word_pattern :: "'r regex_crate \<Rightarrow> string \<Rightarrow> string" where
  "word_pattern X symb = [CHR 0x5C, CHR ''b''] @ rx_escape X symb @ [CHR 0x5C, CHR ''b'']"

text \<open>The position of the first match in the lines from \<open>lo\<close> on, counted from 1.\<close>

fun first_match :: "(string \<Rightarrow> bool) \<Rightarrow> string list \<Rightarrow> nat \<Rightarrow> nat option" where
  "first_match hit [] n = None"
| "first_match hit (l # ls) n = (if hit l then Some (n + 1) else first_match hit ls (n + 1))"

definition unverified :: "anchor_item \<Rightarrow> anchor_result" where
  "unverified a = \<lparr>ar_path = an_path a, ar_line = an_line a, ar_symbol = an_symbol a, ar_exists = False, ar_in_range = False,
     ar_symbol_found = None, ar_window_line = None\<rparr>"

definition search_window :: "'r regex_crate \<Rightarrow> 'r option \<Rightarrow> string list \<Rightarrow> nat \<Rightarrow> nat option" where
  "search_window X re ls n =
     (let lo = n - (1 + ANCHOR_WINDOW_LINES); hi = min (n + ANCHOR_WINDOW_LINES) (length ls) in
      case re of Some e \<Rightarrow> first_match (rx_match X e) (take (hi - lo) (drop lo ls)) lo | None \<Rightarrow> None)"

text \<open>An expression is compiled once for each symbol.\<close>

definition cached_regex ::
    "'r regex_crate \<Rightarrow> string \<Rightarrow> (string \<times> 'r option) list \<Rightarrow> 'r option \<times> (string \<times> 'r option) list" where
  "cached_regex X symb cache =
     (case alookup symb cache of
        Some re \<Rightarrow> (re, cache)
      | None \<Rightarrow> (let re = rx_new X (word_pattern X symb) in (re, ainsert symb re cache)))"

definition verify_grouped ::
    "'r regex_crate \<Rightarrow> anchor_item \<Rightarrow> string list option \<Rightarrow> (string \<times> 'r option) list \<Rightarrow>
     anchor_result \<times> (string \<times> 'r option) list" where
  "verify_grouped X a file_lines cache =
     (if an_line a = 0 then (unverified a, cache)
      else case file_lines of
        None \<Rightarrow> (unverified a, cache)
      | Some ls \<Rightarrow>
          let r = (unverified a)\<lparr>ar_exists := True, ar_in_range := (an_line a \<le> length ls)\<rparr> in
          case an_symbol a of
            None \<Rightarrow> (r, cache)
          | Some symb \<Rightarrow>
              if \<not> ar_in_range r then (r, cache)
              else
                let (re, cache) = cached_regex X symb cache
                in (case search_window X re ls (an_line a) of
                      Some k \<Rightarrow> (r\<lparr>ar_symbol_found := Some True, ar_window_line := Some k\<rparr>, cache)
                    | None \<Rightarrow> (r\<lparr>ar_symbol_found := Some False\<rparr>, cache)))"

section \<open>A batch\<close>

definition group_by_path :: "anchor_item list \<Rightarrow> (string \<times> nat list) list" where
  "group_by_path anchors = fold (\<lambda>(i, a). apush (an_path a) i) (enumerate 0 anchors) []"

definition canonical :: "os \<Rightarrow> path \<Rightarrow> path option" where
  "canonical w p = (case os_canonicalize w p of Inr q \<Rightarrow> Some q | Inl _ \<Rightarrow> None)"

text \<open>Where a path leads, when it stays under the root.\<close>

definition resolve_anchor :: "os \<Rightarrow> path \<Rightarrow> string \<Rightarrow> path option" where
  "resolve_anchor w root p =
     (case canonical w (path_join root (parse_path p)) of
        None \<Rightarrow> None
      | Some c \<Rightarrow>
          (case canonical w root of
             Some r \<Rightarrow> if path_starts_with c r then Some c else None
           | None \<Rightarrow> None))"

text \<open>The results so far, the expressions compiled and the files read.\<close>

record 'r batch =
  ba_results :: "anchor_result option list"
  ba_cache :: "(string \<times> 'r option) list"
  ba_reads :: "path list"

definition verify_index ::
    "'r regex_crate \<Rightarrow> anchor_item list \<Rightarrow> string list option \<Rightarrow> nat \<Rightarrow> 'r batch \<Rightarrow> 'r batch" where
  "verify_index X anchors file_lines i b =
     (let (r, cache) = verify_grouped X (anchors ! i) file_lines (ba_cache b)
      in b\<lparr>ba_results := (ba_results b)[i := Some r], ba_cache := cache\<rparr>)"

definition verify_path ::
    "'r regex_crate \<Rightarrow> os \<Rightarrow> (path \<Rightarrow> string option) \<Rightarrow> path \<Rightarrow> anchor_item list \<Rightarrow> string \<times> nat list \<Rightarrow> 'r batch \<Rightarrow> 'r batch" where
  "verify_path X w read root anchors g b =
     (let resolved = resolve_anchor w root (fst g);
          content = map_option str_lines (Option.bind resolved read);
          b = b\<lparr>ba_reads := ba_reads b @ (case resolved of Some c \<Rightarrow> [c] | None \<Rightarrow> [])\<rparr>
      in fold (verify_index X anchors content) (snd g) b)"

definition verify_anchors_with ::
    "'r regex_crate \<Rightarrow> os \<Rightarrow> (path \<Rightarrow> string option) \<Rightarrow> (string list \<Rightarrow> string list) \<Rightarrow> path \<Rightarrow> anchor_item list \<Rightarrow>
     anchor_result list \<times> path list" where
  "verify_anchors_with X w read iter root anchors =
     (let groups = group_by_path anchors;
          b = fold (\<lambda>p. verify_path X w read root anchors (p, lookups p groups)) (iter (map fst groups))
                \<lparr>ba_results = map (\<lambda>_. None) anchors, ba_cache = [], ba_reads = []\<rparr>
      in (List.map_filter id (ba_results b), ba_reads b))"

definition verify_anchors ::
    "'r regex_crate \<Rightarrow> os \<Rightarrow> (path \<Rightarrow> string option) \<Rightarrow> (string list \<Rightarrow> string list) \<Rightarrow> path \<Rightarrow> anchor_item list \<Rightarrow> anchor_result list" where
  "verify_anchors X w read iter root anchors = fst (verify_anchors_with X w read iter root anchors)"

section \<open>The tool\<close>

record verify_anchors_params =
  vp_workspace_root :: string
  vp_anchors :: "anchor_item list"

text \<open>What the tool calls; \<open>vw_panic\<close> is the text of a panic of the task, \<open>vw_json_error\<close> a failure of \<open>serde_json\<close>.\<close>

record 'r anchor_world =
  vw_regex :: "'r regex_crate"
  vw_os :: os
  vw_read :: "path \<Rightarrow> string option"
  vw_iter :: "string list \<Rightarrow> string list"
  vw_panic :: "string option"
  vw_json_error :: "string option"
  vw_ts :: "nat \<Rightarrow> nat"
  vw_dur :: "nat \<Rightarrow> nat"

record anchor_call =
  vc_sid :: "string option"
  vc_seq :: nat

datatype anchor_answer = AnchorError error_data | AnchorVerdicts string "anchor_result list"

definition anchor_event :: "'r anchor_world \<Rightarrow> anchor_call \<Rightarrow> string \<Rightarrow> metric_event list \<Rightarrow> metric_event" where
  "anchor_event w call result sent_events =
     (metric_event_new (vw_ts w (length sent_events)) ''verify_anchors'' result (vw_dur w (length sent_events)))
       \<lparr>mv_session_id := vc_sid call, mv_seq := Some (vc_seq call)\<rparr>"

definition anchor_fail ::
    "'r anchor_world \<Rightarrow> anchor_call \<Rightarrow> string \<Rightarrow> error_data \<Rightarrow> metric_event list \<Rightarrow> anchor_answer \<times> metric_event list" where
  "anchor_fail w call error_type e ms = (AnchorError e, ms @ [(anchor_event w call ''error'' ms)\<lparr>mv_error_type := Some error_type\<rparr>])"

definition validate_anchor :: "os \<Rightarrow> path \<Rightarrow> anchor_item \<Rightarrow> error_data + path" where
  "validate_anchor w root a =
     (case validate_path_relative_to w (an_path a) True root of
        Inl e \<Rightarrow> Inl e
      | Inr resolved \<Rightarrow>
          if path_starts_with resolved root then Inr resolved
          else Inl (error_new INVALID_PARAMS (''anchor path escapes the workspace root: '' @ an_path a) ''validation'' False
            ''provide anchor paths within the workspace root''))"

fun first_error :: "os \<Rightarrow> path \<Rightarrow> anchor_item list \<Rightarrow> error_data option" where
  "first_error w root [] = None"
| "first_error w root (a # as) = (case validate_anchor w root a of Inl e \<Rightarrow> Some e | Inr _ \<Rightarrow> first_error w root as)"

definition is_verified :: "anchor_result \<Rightarrow> bool" where
  "is_verified r \<longleftrightarrow> ar_exists r \<and> ar_in_range r \<and> ar_symbol_found r \<noteq> Some False"

definition verify_anchors_handler ::
    "'r anchor_world \<Rightarrow> anchor_call \<Rightarrow> verify_anchors_params \<Rightarrow> metric_event list \<Rightarrow> anchor_answer \<times> metric_event list" where
  "verify_anchors_handler w call params ms =
     (if length (vp_anchors params) > MAX_ANCHORS
      then anchor_fail w call ''invalid_params'' (error_new INVALID_PARAMS
        (''anchors exceeds the maximum of '' @ nat_str MAX_ANCHORS @ '' per call: got '' @ nat_str (length (vp_anchors params)))
        ''validation'' False ''split the batch into multiple verify_anchors calls'') ms
      else case (case canonical_cwd (vw_os w) of Inl e \<Rightarrow> Inl e
                 | Inr cwd \<Rightarrow> validate_path_relative_to (vw_os w) (vp_workspace_root params) True cwd) of
        Inl e \<Rightarrow> anchor_fail w call ''invalid_params'' e ms
      | Inr root \<Rightarrow>
          (case first_error (vw_os w) root (vp_anchors params) of
             Some e \<Rightarrow> anchor_fail w call ''invalid_params'' e ms
           | None \<Rightarrow>
               (case vw_panic w of
                  Some m \<Rightarrow> anchor_fail w call ''internal_error''
                    (error_new INTERNAL_ERROR (''anchor verification failed: '' @ m) ''internal'' False ''report this as a bug'') ms
                | None \<Rightarrow>
                    let results = verify_anchors (vw_regex w) (vw_os w) (vw_read w) (vw_iter w) root (vp_anchors params);
                        verified = length (filter is_verified results);
                        reply = ''Verified '' @ nat_str verified @ '' of '' @ nat_str (length results) @ '' anchors''
                    in (case vw_json_error w of
                          Some m \<Rightarrow> (AnchorError (error_new INTERNAL_ERROR (''serialization failed: '' @ m) ''internal'' False ''report this as a bug''), ms)
                        | None \<Rightarrow> (AnchorVerdicts reply results,
                            ms @ [(anchor_event w call ''ok'' ms)\<lparr>mv_output_chars := length reply\<rparr>])))))"

end
