(* ===== verification/AnchorsProps.thy ===== *)
theory AnchorsProps
  imports Anchors "HOL-Library.Multiset" "HOL-Library.Sublist"
begin

text \<open>
  A batch of anchors gives, for each, the verdict it would get alone, whatever the order of the map; what a verdict
  promises; and what an answered batch says of the paths in it.
\<close>

section \<open>One anchor\<close>

definition verify_one :: "'r regex_crate \<Rightarrow> anchor_item \<Rightarrow> string list option \<Rightarrow> anchor_result" where
  "verify_one X a file_lines = fst (verify_grouped X a file_lines [])"

definition compiled :: "'r regex_crate \<Rightarrow> (string \<times> 'r option) list \<Rightarrow> bool" where
  "compiled X cache \<longleftrightarrow> (\<forall>symb re. alookup symb cache = Some re \<longrightarrow> re = rx_new X (word_pattern X symb))"

lemma compiled_Nil [simp]: "compiled X []"
  by (simp add: compiled_def)

lemma compiledD: "compiled X cache \<Longrightarrow> alookup symb cache = Some re \<Longrightarrow> re = rx_new X (word_pattern X symb)"
  unfolding compiled_def by blast

lemma compiled_insert:
  assumes "compiled X cache"
  shows "compiled X (ainsert symb (rx_new X (word_pattern X symb)) cache)"
  unfolding compiled_def
proof (intro allI impI)
  fix s re
  assume "alookup s (ainsert symb (rx_new X (word_pattern X symb)) cache) = Some re"
  then show "re = rx_new X (word_pattern X s)" using compiledD[OF assms, of s re] by (cases "s = symb") simp_all
qed

lemma cached_regex_compiled:
  assumes "compiled X cache"
  obtains cache' where "cached_regex X symb cache = (rx_new X (word_pattern X symb), cache')" "compiled X cache'"
proof (cases "alookup symb cache")
  case None
  show ?thesis by (rule that[OF _ compiled_insert[OF assms]]) (simp add: cached_regex_def None Let_def)
next
  case (Some re)
  show ?thesis by (rule that[OF _ assms]) (simp add: cached_regex_def Some compiledD[OF assms Some, symmetric])
qed

lemma verify_grouped_one:
  assumes "compiled X cache"
  shows "fst (verify_grouped X a file_lines cache) = verify_one X a file_lines \<and> compiled X (snd (verify_grouped X a file_lines cache))"
proof (cases "an_symbol a")
  case None
  then show ?thesis using assms by (simp add: verify_grouped_def verify_one_def Let_def split: option.split)
next
  case (Some symb)
  obtain c1 where 1: "cached_regex X symb cache = (rx_new X (word_pattern X symb), c1)" "compiled X c1"
    by (rule cached_regex_compiled[OF assms])
  obtain c2 where 2: "cached_regex X symb [] = (rx_new X (word_pattern X symb), c2)"
    using cached_regex_compiled[OF compiled_Nil, of X symb] by metis
  show ?thesis using assms 1 by (simp add: verify_grouped_def verify_one_def Some 2 Let_def split: option.split)
qed

lemma verify_one_echo: "ar_path (verify_one X a ls) = an_path a" "ar_line (verify_one X a ls) = an_line a" "ar_symbol (verify_one X a ls) = an_symbol a"
  by (simp_all add: verify_one_def verify_grouped_def unverified_def Let_def split_beta split: option.split)

lemma first_match_Some:
  "first_match hit ls n = Some k \<Longrightarrow> n < k \<and> k \<le> n + length ls \<and> hit (ls ! (k - Suc n))"
proof (induction ls arbitrary: n)
  case (Cons l ls)
  show ?case
  proof (cases "hit l")
    case False
    then have "first_match hit ls (Suc n) = Some k" using Cons.prems by simp
    from Cons.IH[OF this] have "Suc n < k" "k \<le> Suc n + length ls" "hit (ls ! (k - Suc (Suc n)))" by auto
    then show ?thesis by (auto simp: nth_Cons' Suc_diff_Suc)
  qed (use Cons.prems in auto)
qed simp

lemma first_match_None: "first_match hit ls n = None \<longleftrightarrow> (\<forall>l\<in>set ls. \<not> hit l)"
  by (induction ls arbitrary: n) auto

section \<open>The groups\<close>

lemma group_lookups: "lookups p (group_by_path anchors) = filter (\<lambda>i. an_path (anchors ! i) = p) [0..<length anchors]"
proof -
  have g: "group_by_path anchors = apush_all (map (\<lambda>(i, a). (an_path a, i)) (enumerate 0 anchors)) []"
    by (simp add: group_by_path_def apush_all_def fold_map comp_def case_prod_unfold)
  have e: "enumerate 0 anchors = map (\<lambda>i. (i, anchors ! i)) [0..<length anchors]"
    by (rule nth_equalityI) (simp_all add: nth_enumerate_eq)
  show ?thesis by (simp add: g e lookups_apush_all filter_map comp_def)
qed

lemma group_keys: "set (map fst (group_by_path anchors)) = an_path ` set anchors"
proof -
  have "akeys (fold (\<lambda>(i, a). apush (an_path a) i) xs m) = akeys m \<union> an_path ` set (map snd xs)" for xs :: "(nat \<times> anchor_item) list" and m
    by (induction xs arbitrary: m) auto
  from this[of "enumerate 0 anchors" "[]"] show ?thesis by (simp add: group_by_path_def akeys_def map_snd_enumerate del: list.set_map)
qed

lemma group_distinct: "distinct (map fst (group_by_path anchors))"
proof -
  have "distinct (map fst m) \<Longrightarrow> distinct (map fst (fold (\<lambda>(i, a). apush (an_path a) i) xs m))" for xs :: "(nat \<times> anchor_item) list" and m
    by (induction xs arbitrary: m) (auto simp: apush_def distinct_ainsert)
  then show ?thesis by (simp add: group_by_path_def)
qed

section \<open>The batch\<close>

definition file_text :: "os \<Rightarrow> (path \<Rightarrow> string option) \<Rightarrow> path \<Rightarrow> string \<Rightarrow> string list option" where
  "file_text w read root p = map_option str_lines (Option.bind (resolve_anchor w root p) read)"

lemma verify_index_batch:
  assumes "compiled X (ba_cache b)" "i < length (ba_results b)"
  shows "compiled X (ba_cache (verify_index X anchors ls i b))" "ba_reads (verify_index X anchors ls i b) = ba_reads b"
    "ba_results (verify_index X anchors ls i b) = (ba_results b)[i := Some (verify_one X (anchors ! i) ls)]"
  using verify_grouped_one[OF assms(1), of "anchors ! i" ls]
  by (simp_all add: verify_index_def split_beta)

lemma verify_indices:
  assumes "compiled X (ba_cache b)" "\<forall>i\<in>set idx. i < length (ba_results b)"
  shows "compiled X (ba_cache (fold (verify_index X anchors ls) idx b)) \<and> ba_reads (fold (verify_index X anchors ls) idx b) = ba_reads b \<and>
    length (ba_results (fold (verify_index X anchors ls) idx b)) = length (ba_results b) \<and>
    (\<forall>j < length (ba_results b). ba_results (fold (verify_index X anchors ls) idx b) ! j =
       (if j \<in> set idx then Some (verify_one X (anchors ! j) ls) else ba_results b ! j))"
  using assms
proof (induction idx arbitrary: b)
  case (Cons i rest)
  let ?b = "verify_index X anchors ls i b"
  have b: "compiled X (ba_cache ?b)" "ba_reads ?b = ba_reads b" "ba_results ?b = (ba_results b)[i := Some (verify_one X (anchors ! i) ls)]"
    using verify_index_batch[OF Cons.prems(1)] Cons.prems(2) by simp_all
  show ?case using Cons.IH[of ?b] b Cons.prems(2) by (auto simp: nth_list_update)
qed simp

lemma verify_paths:
  assumes "compiled X (ba_cache b)" "length (ba_results b) = length anchors"
  shows "let b' = fold (\<lambda>p. verify_path X w read root anchors (p, lookups p (group_by_path anchors))) ps b in
    compiled X (ba_cache b') \<and> length (ba_results b') = length anchors \<and> length (ba_reads b') \<le> length (ba_reads b) + length ps \<and>
    (\<forall>j < length anchors. ba_results b' ! j =
       (if an_path (anchors ! j) \<in> set ps then Some (verify_one X (anchors ! j) (file_text w read root (an_path (anchors ! j)))) else ba_results b ! j))"
  using assms
proof (induction ps arbitrary: b)
  case (Cons p ps)
  let ?idx = "lookups p (group_by_path anchors)"
  let ?start = "b\<lparr>ba_reads := ba_reads b @ (case resolve_anchor w root p of Some c \<Rightarrow> [c] | None \<Rightarrow> [])\<rparr>"
  let ?b = "verify_path X w read root anchors (p, ?idx) b"
  have e: "?b = fold (verify_index X anchors (file_text w read root p)) ?idx ?start"
    by (simp add: verify_path_def file_text_def Let_def)
  have "compiled X (ba_cache ?start)" "\<forall>i\<in>set ?idx. i < length (ba_results ?start)" using Cons.prems by (simp_all add: group_lookups)
  note v = verify_indices[OF this, of anchors "file_text w read root p", folded e]
  have b: "compiled X (ba_cache ?b)" "length (ba_results ?b) = length anchors" using v Cons.prems(2) by simp_all
  have r: "length (ba_reads ?b) \<le> Suc (length (ba_reads b))" using v by (simp split: option.split)
  have j: "ba_results ?b ! j = (if an_path (anchors ! j) = p then Some (verify_one X (anchors ! j) (file_text w read root p)) else ba_results b ! j)"
    if "j < length anchors" for j
    using v Cons.prems(2) that by (simp add: group_lookups)
  show ?case using Cons.IH[OF b] r j by (auto simp: Let_def)
qed simp

lemma anchors_batch:
  assumes "\<And>ks. mset (iter ks) = mset ks"
  shows "\<exists>reads. verify_anchors_with X w read iter root anchors =
      (map (\<lambda>a. verify_one X a (file_text w read root (an_path a))) anchors, reads) \<and>
    length reads \<le> card (an_path ` set anchors)"
proof -
  let ?ps = "iter (map fst (group_by_path anchors))"
  let ?b = "fold (\<lambda>p. verify_path X w read root anchors (p, lookups p (group_by_path anchors))) ?ps
    \<lparr>ba_results = map (\<lambda>_. None) anchors, ba_cache = [], ba_reads = []\<rparr>"
  have s: "set ?ps = an_path ` set anchors" by (metis assms group_keys mset_eq_setD)
  have l: "length ?ps = card (an_path ` set anchors)"
    by (metis assms group_distinct distinct_card group_keys mset_eq_length)
  note v = verify_paths[of X "\<lparr>ba_results = map (\<lambda>_. None) anchors, ba_cache = [], ba_reads = []\<rparr>" anchors w read root ?ps,
      unfolded Let_def, simplified]
  have "ba_results ?b = map (Some \<circ> (\<lambda>a. verify_one X a (file_text w read root (an_path a)))) anchors"
    using v s by (intro nth_equalityI) simp_all
  then have "List.map_filter id (ba_results ?b) = map (\<lambda>a. verify_one X a (file_text w read root (an_path a))) anchors"
    by (simp add: List.map_filter_def comp_def)
  then show ?thesis using v l by (simp add: verify_anchors_with_def Let_def)
qed

text \<open>
  C36. A batch answers every anchor, in the order given, with the verdict it would get alone, whatever the order in which
  the map of paths is visited; and it reads at most one file for each distinct path.
\<close>

theorem anchors_batch_eq:
  assumes "\<And>ks. mset (iter ks) = mset ks"
  shows "\<exists>reads. verify_anchors_with X w read iter root anchors =
      (map (\<lambda>a. verify_one X a (file_text w read root (an_path a))) anchors, reads) \<and>
    length reads \<le> card (an_path ` set anchors)"
  using anchors_batch[OF assms] .


section \<open>The tool\<close>

lemma first_error_None: "first_error w root as = None \<longleftrightarrow> (\<forall>a\<in>set as. \<exists>q. validate_anchor w root a = Inr q)"
  by (induction "as") (auto split: sum.splits)

lemma validate_anchor_Inr:
  "validate_anchor w root a = Inr q \<Longrightarrow>
   path_starts_with q root \<and> (\<exists>r. os_canonicalize w root = Inr r \<and> os_canonicalize w (path_join r (parse_path (an_path a))) = Inr q)"
  by (auto simp: validate_anchor_def validate_path_relative_to_def split: sum.splits if_splits)


section \<open>Instances\<close>

text \<open>A crate whose expressions are the escaped words, matched as part of a line.\<close>

definition demo_regex :: "string regex_crate" where
  "demo_regex = \<lparr>rx_escape = \<lambda>s. s, rx_new = \<lambda>s. Some (drop 2 (take (length s - 2) s)), rx_match = \<lambda>e l. sublist e l\<rparr>"

definition demo_anchor_os :: os where
  "demo_anchor_os = \<lparr>os_canonicalize = \<lambda>p. if Normal ''gone'' \<in> set p then Inl KNotFound else Inr p, os_is_dir = \<lambda>p. p = [RootDir, Normal ''w''],
     os_cwd = Some [RootDir, Normal ''w'']\<rparr>"

definition demo_anchor :: anchor_item where
  "demo_anchor = \<lparr>an_path = ''a.rs'', an_line = 1, an_symbol = Some ''f''\<rparr>"

definition demo_anchor_world :: "string anchor_world" where
  "demo_anchor_world = \<lparr>vw_regex = demo_regex, vw_os = demo_anchor_os, vw_read = \<lambda>_. Some ''fn f'', vw_iter = \<lambda>ks. ks, vw_panic = None,
     vw_json_error = None, vw_ts = \<lambda>n. n, vw_dur = \<lambda>_. 0\<rparr>"

lemma demo_anchor_verdict:
  "verify_anchors demo_regex demo_anchor_os (\<lambda>_. Some ''fn f'') (\<lambda>ks. ks) [RootDir, Normal ''w''] [demo_anchor] =
   [\<lparr>ar_path = ''a.rs'', ar_line = 1, ar_symbol = Some ''f'', ar_exists = True, ar_in_range = True, ar_symbol_found = Some True, ar_window_line = Some 1\<rparr>]"
  by code_simp

theorem anchors_batch_witness:
  "\<exists>reads. verify_anchors_with demo_regex demo_anchor_os (\<lambda>_. Some ''fn f'') (\<lambda>ks. ks) [RootDir, Normal ''w''] [demo_anchor, demo_anchor] =
     (map (\<lambda>a. verify_one demo_regex a (file_text demo_anchor_os (\<lambda>_. Some ''fn f'') [RootDir, Normal ''w''] (an_path a))) [demo_anchor, demo_anchor], reads) \<and>
   length reads \<le> 1"
  using anchors_batch_eq[of "\<lambda>ks. ks" demo_regex demo_anchor_os "\<lambda>_. Some ''fn f''" "[RootDir, Normal ''w'']" "[demo_anchor, demo_anchor]"] by simp



end
