(* ===== verification/Completion.thy ===== *)
theory Completion
  imports AnalyzeFileTool
begin

text \<open>
  Completion of paths and symbols, \<open>crates/aptu-coder-core/src/completion.rs\<close>, and the request that asks for it
  (\<open>complete\<close> in \<open>crates/aptu-coder/src/lib.rs\<close>). The walk of the directory (crate \<open>ignore\<close>) is a parameter, a list of
  paths in which \<open>None\<close> is an entry that cannot be read; the file system is \<open>os\<close> with the paths that exist.
\<close>

definition COMPLETION_LIMIT :: nat where "COMPLETION_LIMIT = 100"

text \<open>Where to look, and the start of the name: the prefix is cut after its last slash.\<close>

definition after_last_slash :: "string \<Rightarrow> string" where
  "after_last_slash s = rev (takeWhile (\<lambda>c. c \<noteq> CHR ''/'') (rev s))"

definition split_prefix :: "path \<Rightarrow> string \<Rightarrow> path \<times> string" where
  "split_prefix root s =
     (if CHR ''/'' \<in> set s
      then (let name = after_last_slash s in (path_join root (parse_path (take (length s - length name) s)), name))
      else (root, s))"

definition completion_of :: "(string \<Rightarrow> string) \<Rightarrow> path \<Rightarrow> path \<Rightarrow> string \<Rightarrow> path option \<Rightarrow> string option" where
  "completion_of lossy root search_dir name_prefix entry =
     (case entry of
        None \<Rightarrow> None
      | Some p \<Rightarrow>
          if p = search_dir then None
          else case path_file_name p of
            None \<Rightarrow> None
          | Some name \<Rightarrow>
              if utf8_valid name \<and> prefix name_prefix name then map_option (lossy \<circ> path_display) (path_strip_prefix p root) else None)"

text \<open>The loop over the walk stops as soon as there are a hundred results.\<close>

fun completion_loop :: "(path option \<Rightarrow> string option) \<Rightarrow> path option list \<Rightarrow> string list \<Rightarrow> string list" where
  "completion_loop f [] results = results"
| "completion_loop f (e # es) results =
     (if length results \<ge> COMPLETION_LIMIT then results
      else completion_loop f es (case f e of Some r \<Rightarrow> results @ [r] | None \<Rightarrow> results))"

record completion_world =
  cw_os :: os
  cw_exists :: "path \<Rightarrow> bool"
  cw_walk :: "path \<Rightarrow> path option list"
  cw_lossy :: "string \<Rightarrow> string"
  cw_modified :: "path \<Rightarrow> system_time option"

definition path_completions :: "completion_world \<Rightarrow> path \<Rightarrow> string \<Rightarrow> string list" where
  "path_completions w root s =
     (if s = [] then []
      else
        let (search_dir, name_prefix) = split_prefix root s in
        if \<not> cw_exists w search_dir then []
        else case os_canonicalize (cw_os w) root of
          Inl _ \<Rightarrow> []
        | Inr canonical_root \<Rightarrow>
            (case os_canonicalize (cw_os w) search_dir of
               Inl _ \<Rightarrow> []
             | Inr canonical_search \<Rightarrow>
                 if \<not> path_starts_with canonical_search canonical_root then []
                 else completion_loop (completion_of (cw_lossy w) root search_dir name_prefix) (cw_walk w search_dir) []))"

section \<open>Symbols\<close>

text \<open>Names in order, no more once there are a hundred results.\<close>

fun push_names :: "string \<Rightarrow> string list \<Rightarrow> string list \<Rightarrow> string list" where
  "push_names s [] results = results"
| "push_names s (n # ns) results =
     (if length results \<ge> COMPLETION_LIMIT then results
      else push_names s ns (if prefix s n then results @ [n] else results))"

text \<open>The file's metadata and its time are one parameter, \<open>None\<close> when either is missing.\<close>

definition symbol_completions ::
    "completion_world \<Rightarrow> (cache_key, file_analysis_output, 'c) lru_ops \<Rightarrow> path \<Rightarrow> string \<Rightarrow> ('c, 'd) analysis_cache \<Rightarrow>
     string list \<times> ('c, 'd) analysis_cache" where
  "symbol_completions w L p s cache =
     (if s = [] then ([], cache)
      else case cw_modified w p of
        None \<Rightarrow> ([], cache)
      | Some mtime \<Rightarrow>
          (case cache_get L \<lparr>ck_path = p, ck_modified = mtime, ck_mode = FileDetails\<rparr> cache of
             (None, cache) \<Rightarrow> ([], cache)
           | (Some out, cache) \<Rightarrow>
               (push_names s (map ci_name (sa_classes (fa_semantic out)))
                  (push_names s (map fi_name (sa_functions (fa_semantic out))) []), cache)))"

section \<open>The request\<close>

record complete_request =
  rq_name :: string
  rq_value :: string
  rq_path :: "string option"

record completion_info =
  nf_values :: "string list"
  nf_total :: "nat option"
  nf_has_more :: bool

text \<open>\<open>info_ok\<close> is the check of \<open>CompletionInfo::with_pagination\<close>; when it refuses, the answer is empty.\<close>

definition complete ::
    "completion_world \<Rightarrow> (cache_key, file_analysis_output, 'c) lru_ops \<Rightarrow> (string list \<Rightarrow> bool) \<Rightarrow> complete_request \<Rightarrow>
     ('c, 'd) analysis_cache \<Rightarrow> completion_info \<times> ('c, 'd) analysis_cache" where
  "complete w L info_ok rq cache =
     (let (completions, cache) =
            (if rq_name rq = ''path'' then (path_completions w (parse_path ''.'') (rq_value rq), cache)
             else if rq_name rq = ''symbol''
             then (case rq_path rq of
                 Some p \<Rightarrow> symbol_completions w L (parse_path p) (rq_value rq) cache
               | None \<Rightarrow> ([], cache))
             else ([], cache));
          total_count = min (length completions) (2 ^ 32 - 1);
          (vals, has_more) = (if length completions > 100 then (take 100 completions, True) else (completions, False))
      in (if info_ok vals then \<lparr>nf_values = vals, nf_total = Some total_count, nf_has_more = has_more\<rparr>
          else \<lparr>nf_values = [], nf_total = None, nf_has_more = False\<rparr>, cache))"

section \<open>Bounds and confinement\<close>

lemma completion_loop_take:
  "length results \<le> COMPLETION_LIMIT \<Longrightarrow>
   completion_loop f es results = take COMPLETION_LIMIT (results @ List.map_filter f es)"
  by (induction f es results rule: completion_loop.induct) (auto simp: List.map_filter_simps take_Cons' split: option.split)

lemma push_names_take:
  "length results \<le> COMPLETION_LIMIT \<Longrightarrow> push_names s ns results = take COMPLETION_LIMIT (results @ filter (prefix s) ns)"
  by (induction s ns results rule: push_names.induct) (auto simp: take_Cons')

lemma path_completions_limit: "length (path_completions w root s) \<le> COMPLETION_LIMIT"
  by (auto simp: path_completions_def Let_def completion_loop_take split: prod.split sum.split)

lemma symbol_completions_limit: "length (fst (symbol_completions w L p s cache)) \<le> COMPLETION_LIMIT"
  by (auto simp: symbol_completions_def push_names_take split: option.split prod.split)


text \<open>
  C40. A completion never says that there are more results: both sources stop at a hundred, so the flag, which asks for more
  than a hundred, is never set, and the total is the number of values given.
\<close>

theorem completion_never_more:
  "nf_has_more (fst (complete w L info_ok rq cache)) = False \<and>
   nf_total (fst (complete w L info_ok rq cache)) \<in> {None, Some (length (nf_values (fst (complete w L info_ok rq cache))))}"
proof -
  obtain cs cache' where c: "(if rq_name rq = ''path'' then (path_completions w (parse_path ''.'') (rq_value rq), cache)
      else if rq_name rq = ''symbol''
      then (case rq_path rq of Some p \<Rightarrow> symbol_completions w L (parse_path p) (rq_value rq) cache | None \<Rightarrow> ([], cache))
      else ([], cache)) = (cs, cache')" by fastforce
  have "length cs \<le> 100"
    using c path_completions_limit[of w "parse_path ''.''" "rq_value rq"] symbol_completions_limit[of w L _ "rq_value rq" cache]
    by (auto simp: COMPLETION_LIMIT_def split: if_splits option.splits) (metis fst_conv)
  then show ?thesis by (simp add: complete_def c)
qed

section \<open>An instance\<close>

definition demo_completion_world :: completion_world where
  "demo_completion_world = \<lparr>cw_os = demo_os, cw_exists = \<lambda>_. True, cw_walk = \<lambda>_. [None, Some [RootDir, Normal ''w'', Normal ''d'', Normal ''a.rs'']],
     cw_lossy = \<lambda>s. s, cw_modified = \<lambda>_. None\<rparr>"


end
