(* ===== verification/Server.thy ===== *)
theory Server
  imports Session EditTool ExecRuntime Resources AnalyzeDirectory AnalyzeModule AnalyzeFileTool
begin

text \<open>
  The server, \<open>crates/aptu-coder/src/tools/server.rs\<close> and \<open>lib.rs\<close>: its state as it is built from the environment of
  the process, and the entries of the tools, which take a number of the session, refuse a path or run a handler. The
  environment, the login shell and the clock are parameters. The handlers report on their own, so an entry returns only
  the events it sends itself.
\<close>

section \<open>Start\<close>

record process_env =
  pe_var_os :: "string \<Rightarrow> string option"
  pe_is_executable :: "path \<Rightarrow> bool"
  pe_login_echo :: "string \<Rightarrow> string option"
  pe_lossy :: "string \<Rightarrow> string"

text \<open>\<open>std::env::var\<close> is an error for a value that is not UTF-8.\<close>

definition env_var :: "process_env \<Rightarrow> string \<Rightarrow> string option" where
  "env_var V name = (case pe_var_os V name of Some s \<Rightarrow> if utf8_valid s then Some s else None | None \<Rightarrow> None)"

definition xdg_data_home :: "process_env \<Rightarrow> path" where
  "xdg_data_home V =
     (case (env_var V ''XDG_DATA_HOME'', env_var V ''HOME'') of
        (Some (c # cs), _) \<Rightarrow> parse_path (c # cs)
      | (_, Some home) \<Rightarrow> path_join (path_join (parse_path home) (parse_path ''.local'')) (parse_path ''share'')
      | (_, None) \<Rightarrow> parse_path ''.'')"

definition analysis_cache_dir :: "process_env \<Rightarrow> path" where
  "analysis_cache_dir V =
     (case env_var V ''APTU_CODER_DISK_CACHE_DIR'' of
        Some dir \<Rightarrow> parse_path dir
      | None \<Rightarrow> path_join (path_join (xdg_data_home V) (parse_path ''aptu-coder'')) (parse_path ''analysis-cache''))"

definition snapshot_shell :: "process_env \<Rightarrow> string" where
  "snapshot_shell V =
     (case env_var V ''SHELL'' of
        Some (c # cs) \<Rightarrow> c # cs
      | _ \<Rightarrow>
          let s = resolve_shell \<lparr>sh_aptu_shell = env_var V ''APTU_SHELL'', sh_path = env_var V ''PATH'',
                    sh_is_executable = pe_is_executable V\<rparr>
          in if s = [] then ''/bin/sh'' else s)"

text \<open>The standard output of \<open>echo $PATH\<close> in a login shell, \<open>None\<close> when the shell does not start.\<close>

definition snapshot_path :: "process_env \<Rightarrow> string option" where
  "snapshot_path V =
     (case pe_login_echo V (snapshot_shell V) of
        None \<Rightarrow> env_var V ''PATH''
      | Some output \<Rightarrow> (let path_str = trim (pe_lossy V output) in if path_str = [] then env_var V ''PATH'' else Some path_str))"

record ('c, 'd, 'e, 'g) server =
  sv_cache :: "('c, 'd) analysis_cache"
  sv_disk_cache :: disk_cache
  sv_metrics :: "metric_event list"
  sv_session :: session
  sv_client_name :: "string option"
  sv_client_version :: "string option"
  sv_resolved_path :: "string option"
  sv_filter_table :: "compiled_rule list"
  sv_call_graphs :: "'e lru_state"
  sv_structural_graphs :: "'g lru_state"
  sv_failure_counts :: counters
  sv_graph_store :: graph_store

text \<open>
  The disk cache is created before the graph store, both in the same directory. \<open>project\<close> is the text of the project's
  filters, \<open>tools\<close> the schemas the startup event counts.
\<close>

definition build_analyzer ::
    "(cache_key, 'v, 'c) lru_ops \<Rightarrow> (directory_cache_key, 'w, 'd) lru_ops \<Rightarrow> ('k, 'x, 'e) lru_ops \<Rightarrow> ('l, 'y, 'g) lru_ops \<Rightarrow>
     (string \<Rightarrow> (string \<Rightarrow> bool) option) \<Rightarrow> (string \<Rightarrow> (nat \<times> filter_rule list) option) \<Rightarrow> process_env \<Rightarrow> string option \<Rightarrow>
     nat \<Rightarrow> (string \<times> string option \<times> string option) list \<Rightarrow> disk \<Rightarrow> ('c, 'd, 'e, 'g) server \<times> disk" where
  "build_analyzer L D S G re toml V project ts tools d =
     (let file_cap = (case Option.bind (env_var V ''APTU_CODER_FILE_CACHE_CAPACITY'') (parse_nat (2 ^ 64)) of Some n \<Rightarrow> n | None \<Rightarrow> 100);
          (disk_cache, d) = disk_cache_new (analysis_cache_dir V) (env_var V ''APTU_CODER_DISK_CACHE_DISABLED'' = Some ''1'') d;
          max_bytes = (case Option.bind (env_var V ''APTU_CODER_DISK_CACHE_MAX_BYTES'') (parse_nat (2 ^ 64)) of
             Some n \<Rightarrow> n | None \<Rightarrow> DEFAULT_MAX_DISK_CACHE_BYTES);
          (graph_store, d) = graph_store_with_max_bytes (analysis_cache_dir V) max_bytes d
      in (\<lparr>sv_cache = analysis_cache_new L D (env_var V ''APTU_CODER_DIR_CACHE_CAPACITY'') file_cap,
           sv_disk_cache = disk_cache, sv_metrics = [schema_surface_event ts tools], sv_session = \<lparr>ss_id = None, ss_seq = 0\<rparr>,
           sv_client_name = None, sv_client_version = None, sv_resolved_path = snapshot_path V,
           sv_filter_table = load_filter_table re toml project,
           sv_call_graphs = lru_new S (parse_cache_capacity (env_var V ''APTU_CODER_SYMBOL_CACHE_CAPACITY'') 32),
           sv_structural_graphs = lru_new G (parse_cache_capacity (env_var V ''APTU_CODER_STRUCTURAL_CACHE_CAPACITY'') 16),
           sv_failure_counts = [], sv_graph_store = graph_store\<rparr>, d))"

text \<open>What the client tells at the start of the protocol.\<close>

definition server_initialize :: "string \<Rightarrow> string \<Rightarrow> ('c, 'd, 'e, 'g) server \<Rightarrow> ('c, 'd, 'e, 'g) server" where
  "server_initialize name version sv = sv\<lparr>sv_client_name := Some name, sv_client_version := Some version\<rparr>"

section \<open>The entries of the tools\<close>

text \<open>When a refusal is sent and how long it took.\<close>

record shim_times =
  sh_refused :: nat
  sh_duration :: nat

definition analyze_directory_tool ::
    "'d directory_env \<Rightarrow> os \<Rightarrow> dir_world \<Rightarrow> shim_times \<Rightarrow> analyze_directory_params \<Rightarrow> session \<Rightarrow> ('c, 'd) directory_state \<Rightarrow>
     (error_data, dir_result) outcome \<times> metric_event list \<times> session \<times> ('c, 'd) directory_state" where
  "analyze_directory_tool E world w clk params t s =
     (let params = params\<lparr>dp_max_depth := (case dp_max_depth params of Some n \<Rightarrow> Some n | None \<Rightarrow> Some 3)\<rparr>;
          ((seq, sid), t, receipt) = emit_received_metric ''analyze_directory'' t in
      case validate_path world (dp_path params) True of
        Inl e \<Rightarrow>
          (Ok (DirError e), [receipt, terminal_error_event (sh_refused clk) (sh_duration clk) ''analyze_directory'' seq sid
             (dp_path params) None], t, s)
      | Inr _ \<Rightarrow>
          let (r, s) = analyze_directory_handler E w params (dp_max_depth params) s in (r, [receipt], t, s))"

definition analyze_file_tool where
  "analyze_file_tool E world v v' clk params t s =
     (let ((seq, sid), t, receipt) = emit_received_metric ''analyze_file'' t in
      case validate_path world (ap_path params) True of
        Inl e \<Rightarrow>
          (Ok (FileError e), [receipt, terminal_error_event (sh_refused clk) (sh_duration clk) ''analyze_file'' seq sid
             (ap_path params) (Some (path_error_subtype e))], t, s)
      | Inr _ \<Rightarrow> let (r, s) = analyze_file_handler E v v' params s in (r, [receipt], t, s))"

definition analyze_module_tool ::
    "module_env \<Rightarrow> os \<Rightarrow> file_view \<Rightarrow> file_view \<Rightarrow> shim_times \<Rightarrow> string \<Rightarrow> session \<Rightarrow> module_state \<Rightarrow>
     (error_data, module_result) outcome \<times> metric_event list \<times> session \<times> module_state" where
  "analyze_module_tool E world v v' clk p t s =
     (let ((seq, sid), t, receipt) = emit_received_metric ''analyze_module'' t in
      case validate_path world p True of
        Inl e \<Rightarrow>
          (Ok (ModuleError e), [receipt, terminal_error_event (sh_refused clk) (sh_duration clk) ''analyze_module'' seq sid
             p (Some (path_error_subtype e))], t, s)
      | Inr _ \<Rightarrow> let (r, s) = analyze_module_handler E v v' p s in (r, [receipt], t, s))"

section \<open>Reads of resources\<close>

fun rmcp_code :: "error_code \<Rightarrow> mcp_code" where
  "rmcp_code INVALID_PARAMS = Mcp_INVALID_PARAMS"
| "rmcp_code INTERNAL_ERROR = Mcp_INTERNAL_ERROR"
| "rmcp_code INVALID_REQUEST = Mcp_INVALID_REQUEST"
| "rmcp_code RESOURCE_NOT_FOUND = Mcp_RESOURCE_NOT_FOUND"

text \<open>The number is taken when the read is over; a panic ends the process before.\<close>

definition read_resource_tool ::
    "'j resource_env \<Rightarrow> graph_store \<Rightarrow> nat \<Rightarrow> nat \<Rightarrow> string \<Rightarrow> session \<Rightarrow> disk \<Rightarrow>
     (error_data, resource_contents) outcome \<times> metric_event list \<times> session \<times> disk" where
  "read_resource_tool E st ts duration_ms uri t d =
     (let (result, d) = read_resource E st uri d;
          ((seq, sid), t') = take_number t;
          event = (\<lambda>name. (read_event ts duration_ms name seq sid)
            \<lparr>mv_uri_kind := Some (classify_uri_kind (re_uri E) uri), mv_is_paginated := str_contains uri ''cursor=''\<rparr>)
      in case result of
           Panic \<Rightarrow> (Panic, [], t, d)
         | Ok contents \<Rightarrow>
             (result, [(event ''ok'')\<lparr>mv_output_chars := length (rc_text contents), mv_cache_tier := Some ''l2_disk''\<rparr>], t', d)
         | Err e \<Rightarrow>
             let (error_type, error_subtype) = classify_error_code (rmcp_code (ed_code e)) in
             (result, [(event ''error'')\<lparr>mv_error_type := Some error_type, mv_error_subtype := error_subtype,
                mv_cache_tier := (if ed_code e = RESOURCE_NOT_FOUND then Some ''miss'' else None)\<rparr>], t', d))"

end
