(* ===== verification/ServerProps.thy ===== *)
theory ServerProps
  imports Server FocusedProps
begin

text \<open>
  Properties of the server as it is built: where the graphs are written and read, and that the two stores that share a
  directory leave each other's entries alone.
\<close>

section \<open>Two readings of the environment\<close>

text \<open>The variables of the analysis are those of the server's process.\<close>

definition same_environment :: "process_env \<Rightarrow> focus_env \<Rightarrow> bool" where
  "same_environment V Z \<longleftrightarrow>
     fz_data_home Z = pe_var_os V ''XDG_DATA_HOME'' \<and> fz_home Z = pe_var_os V ''HOME'' \<and>
     fz_cache_dir Z = env_var V ''APTU_CODER_DISK_CACHE_DIR'' \<and> fz_cache_max Z = env_var V ''APTU_CODER_DISK_CACHE_MAX_BYTES''"

text \<open>Paths that differ only by components \<open>.\<close> name the same directory.\<close>

definition same_directory :: "path \<Rightarrow> path \<Rightarrow> bool" where
  "same_directory p q \<longleftrightarrow> filter (\<lambda>c. c \<noteq> CurDir) p = filter (\<lambda>c. c \<noteq> CurDir) q"

lemma build_analyzer_stores:
  assumes "build_analyzer L D S G re toml V project ts tools d = (sv, d')"
  shows "dc_base (sv_disk_cache sv) = analysis_cache_dir V" "gs_base_dir (sv_graph_store sv) = analysis_cache_dir V"
  using assms by (auto simp: build_analyzer_def disk_cache_new_def graph_store_with_max_bytes_def Let_def split: prod.splits if_splits)

lemma parse_fixed_names:
  "parse_path ''aptu-coder'' = [Normal ''aptu-coder'']" "parse_path ''analysis-cache'' = [Normal ''analysis-cache'']"
  "parse_path ''.local'' = [Normal ''.local'']" "parse_path ''share'' = [Normal ''share'']"
  "parse_path ''.local/share'' = [Normal ''.local'', Normal ''share'']" "parse_path ''.'' = [CurDir]" "parse_path [] = []"
  by code_simp+

lemma path_join_normal [simp]: "path_join p (Normal s # q) = p @ Normal s # q"
  by (simp add: path_join_def is_absolute_def)


section \<open>Two stores in one directory\<close>

datatype 'v store_op = GraphPut string structural_graph | GraphGet string | EntryPut "string \<times> string" 'v | EntryGet "string \<times> string"

primrec store_step :: "graph_codec \<Rightarrow> 'v disk_codec \<Rightarrow> graph_store \<Rightarrow> 'v store_op \<Rightarrow> disk_cache \<times> disk \<Rightarrow> (disk_cache \<times> disk) option" where
  "store_step K C st (GraphPut key g) x = map_option (Pair (fst x)) (graph_put K st key g (snd x))"
| "store_step K C st (GraphGet key) x = map_option (\<lambda>(_, d). (fst x, d)) (graph_get K st key (snd x))"
| "store_step K C st (EntryPut k v) x = disk_put C (fst k) (snd k) v (fst x) (snd x)"
| "store_step K C st (EntryGet k) x = map_option (\<lambda>(_, d). (fst x, d)) (disk_get C (fst k) (snd k) (fst x) (snd x))"

fun run_stores :: "graph_codec \<Rightarrow> 'v disk_codec \<Rightarrow> graph_store \<Rightarrow> 'v store_op list \<Rightarrow> disk_cache \<times> disk \<Rightarrow> (disk_cache \<times> disk) option" where
  "run_stores K C st [] x = Some x"
| "run_stores K C st (op # ops) x = Option.bind (store_step K C st op x) (run_stores K C st ops)"

text \<open>Keys as the callers compute them; a lookup of a graph takes any key of a request.\<close>

fun op_ok :: "'v store_op \<Rightarrow> bool" where
  "op_ok (GraphPut key _) = is_hash_hex key"
| "op_ok (GraphGet key) = (str_slice key 0 2 \<noteq> None)"
| "op_ok (EntryPut k _) = valid_key k"
| "op_ok (EntryGet k) = valid_key k"

fun writes_entry :: "string \<times> string \<Rightarrow> 'v store_op \<Rightarrow> bool" where
  "writes_entry k (EntryPut k' _) = (k' = k)"
| "writes_entry k _ = False"

lemma snap_extension: "path_extension (b @ [Normal (hex @ ''.json.snap'')]) = Some ''snap''" if "is_hash_hex hex"
  using that by (auto simp: path_extension_def path_file_name_def name_extension_def is_hash_hex_def Let_def append_eq_Cons_conv)

lemma stored_value_same:
  assumes "valid_key k" "dc_base c' = dc_base c"
    and "\<And>q. path_extension q = Some ''snap'' \<Longrightarrow> (\<And>dir. q \<noteq> lock_name dir) \<Longrightarrow> file_bytes d' q = file_bytes d q"
  shows "stored_value C c' d' k = stored_value C c d k"
proof -
  obtain p where p: "entry_path c (fst k) (snd k) = Some p" "entry_path c' (fst k) (snd k) = Some p" "path_extension p = Some ''snap''"
    using entry_path_shape[of "fst k" "snd k"] assms(1,2) snap_extension[of "snd k"]
    by (simp add: valid_key_def del: append.simps) (metis append_Cons append_Nil append_assoc)
  then show ?thesis using assms(3)[OF p(3) entry_not_lock[OF assms(1) p(1)]] by (simp add: stored_value_def)
qed

lemma file_bytes_touch: "file_bytes (touch_mtime p d) q = file_bytes d q"
proof -
  have "map_option fst (alookup q (map (\<lambda>(q, b, t). (q, b, if q = p then Some u else t)) xs)) = map_option fst (alookup q xs)"
    for u :: system_time and xs :: "(path \<times> string \<times> system_time option) list"
    by (induction xs) auto
  then show ?thesis by (simp add: touch_mtime_def file_bytes_def)
qed

text \<open>Neither operation of the graph store changes a file that is neither a lock nor a graph.\<close>

lemma graph_get_keeps:
  assumes "str_slice key 0 2 \<noteq> None"
  shows "\<exists>r d'. graph_get K st key d = Some (r, d') \<and> (\<forall>q. (\<forall>dir. q \<noteq> lock_name dir) \<longrightarrow> file_bytes d' q = file_bytes d q)"
proof -
  obtain p where p: "graph_entry_path st key = Some p" using assms by (auto simp: graph_entry_path_def)
  show ?thesis
  proof (cases "path_parent p")
    case (Some dir)
    obtain l d1 where l: "lock_shared (lock_name dir) d = (l, d1)" by fastforce
    show ?thesis
      using p Some l lock_shared_facts(1)[OF l]
      by (auto simp: graph_get_def lock_shard_shared_def file_bytes_touch split: option.splits)
  qed (use p in \<open>simp add: graph_get_def\<close>)
qed

lemma graph_put_keeps:
  assumes "is_hash_hex key"
  shows "\<exists>d'. graph_put K st key g d = Some d' \<and>
    (\<forall>q. (\<forall>dir. q \<noteq> lock_name dir) \<and> path_extension q = Some ''snap'' \<longrightarrow> file_bytes d' q = file_bytes d q)"
proof (cases "gk_to_vec K (sg_graph g)")
  case (Some payload)
  let ?dir = "gs_base_dir st @ [Normal (take 2 key)]" and ?b = "u32_to_le_bytes FORMAT_VERSION @ payload"
  let ?p = "?dir @ [Normal (key @ ''.bin'')]"
  have p: "graph_entry_path st key = Some ?p" "path_parent ?p = Some ?dir" "path_extension ?p = Some ''bin''"
    using graph_entry_path_shape[OF assms, of st] bin_extension[OF assms, of ?dir] by (auto simp: path_parent_def butlast_append)
  obtain m d1 where m: "disk_create_dir_all ?dir d = (m, d1)" by fastforce
  obtain w d2 where w: "write_entry_atomically ?dir ?p ?b d1 = (w, d2)" by fastforce
  have keeps: "file_bytes d1 q = file_bytes d q" for q
    using disk_create_dir_all_facts(1)[OF m] by (simp add: file_bytes_def)
  have q: "q \<noteq> ?p" if "path_extension q = Some ''snap''" for q using p(3) that by auto
  have "file_bytes d2 q = file_bytes d1 q" if "\<forall>dir. q \<noteq> lock_name dir" "path_extension q = Some ''snap''" for q
    using write_entry_facts(1)[OF w, of q] that q by simp
  then show ?thesis
    using Some p(1,2) m w evict_other_files keeps by (simp add: graph_put_def Let_def del: append_assoc)
qed (simp add: graph_put_def)

lemma store_step_keeps:
  assumes "op_ok op" "valid_key k" "\<not> writes_entry k op"
  shows "\<exists>c' d'. store_step K C st op (c, d) = Some (c', d') \<and> dc_base c' = dc_base c \<and>
    stored_value C c' d' k = stored_value C c d k"
proof (cases op)
  case (GraphPut key g)
  then obtain d' where d': "graph_put K st key g d = Some d'"
      "\<forall>q. (\<forall>dir. q \<noteq> lock_name dir) \<and> path_extension q = Some ''snap'' \<longrightarrow> file_bytes d' q = file_bytes d q"
    using graph_put_keeps[of key K st g d] assms(1) by (metis op_ok.simps(1))
  then have "stored_value C c d' k = stored_value C c d k" by (intro stored_value_same[OF assms(2) refl]) blast
  then show ?thesis using d' GraphPut by simp
next
  case (GraphGet key)
  then obtain r d' where d': "graph_get K st key d = Some (r, d')"
      "\<forall>q. (\<forall>dir. q \<noteq> lock_name dir) \<longrightarrow> file_bytes d' q = file_bytes d q"
    using graph_get_keeps[of key K st d] assms(1) by (metis op_ok.simps(2))
  then have "stored_value C c d' k = stored_value C c d k" by (intro stored_value_same[OF assms(2) refl]) blast
  then show ?thesis using d' GraphGet by simp
next
  case (EntryPut k' v)
  have k': "valid_key k'" "k' \<noteq> k" using assms EntryPut by auto
  show ?thesis
  proof (rule disk_put_facts[OF k'(1), of C v c d])
    fix c' d' ok
    assume r: "disk_put C (fst k') (snd k') v c d = Some (c', d')" "dc_base c' = dc_base c"
      "\<And>q. q \<noteq> lock_name (dc_base c @ [Normal (fst k'), Normal (take 2 (snd k'))]) \<Longrightarrow>
        file_bytes d' q = (if ok \<and> entry_path c (fst k') (snd k') = Some q then serialize_entry C v else file_bytes d q)"
    obtain p where p: "entry_path c (fst k) (snd k) = Some p" using entry_path_shape[of "fst k" "snd k" c] assms(2) by auto
    have "entry_path c (fst k') (snd k') \<noteq> Some p" using entry_path_inject[OF k'(1) assms(2), of c] p k'(2) by auto
    moreover have "entry_path c' (fst k) (snd k) = Some p"
      using p entry_path_shape[of "fst k" "snd k"] assms(2) r(2) by simp
    ultimately have "stored_value C c' d' k = stored_value C c d k"
      using r(3)[OF entry_not_lock[OF assms(2) p]] p by (simp add: stored_value_def)
    then show ?thesis using r(1,2) EntryPut by simp
  qed
next
  case (EntryGet k')
  show ?thesis
  proof (rule disk_get_facts[of k' C c d])
    fix r d'
    assume g: "disk_get C (fst k') (snd k') c d = Some (r, d')"
      and q: "\<And>q. q \<noteq> lock_name (dc_base c @ [Normal (fst k'), Normal (take 2 (snd k'))]) \<Longrightarrow> file_bytes d' q = file_bytes d q"
    have "stored_value C c d' k = stored_value C c d k"
      by (rule stored_value_cong[OF refl assms(2)]) (rule q)
    then show ?thesis using g EntryGet by simp
  qed (use assms(1) EntryGet in simp)
qed

text \<open>
  C34. The disk cache and the graph store share a directory. Whatever sequence of lookups and stores runs on the two, and
  whatever the size limit evicts or the system refuses, no operation panics and an entry of the disk cache keeps the value
  last stored under its key.
\<close>

theorem entries_survive_graphs:
  assumes "valid_key k" "\<And>op. op \<in> set ops \<Longrightarrow> op_ok op \<and> \<not> writes_entry k op"
  shows "\<exists>c' d'. run_stores K C st ops (c, d) = Some (c', d') \<and> stored_value C c' d' k = stored_value C c d k"
  using assms(2)
proof (induction ops arbitrary: c d)
  case (Cons op ops)
  obtain c1 d1 where 1: "store_step K C st op (c, d) = Some (c1, d1)" "stored_value C c1 d1 k = stored_value C c d k"
    using store_step_keeps[OF _ assms(1), of op K C st c d] Cons.prems by auto
  show ?case using Cons.IH[of c1 d1] Cons.prems 1 by simp
qed simp

section \<open>Instances\<close>

definition demo_process :: process_env where
  "demo_process = \<lparr>pe_var_os = (\<lambda>n. if n = ''XDG_DATA_HOME'' then Some [] else if n = ''HOME'' then Some ''/h'' else None),
     pe_is_executable = \<lambda>_. False, pe_login_echo = \<lambda>_. Some ''/bin'', pe_lossy = id\<rparr>"

definition demo_writer :: focus_env where
  "demo_writer = demo_focus_env\<lparr>fz_data_home := Some [], fz_home := Some ''/h''\<rparr>"

definition demo_server :: "(nat \<times> (cache_key \<times> unit) list, nat \<times> (directory_cache_key \<times> unit) list,
    nat \<times> (nat \<times> unit) list, nat \<times> (nat \<times> unit) list) server" where
  "demo_server = fst (build_analyzer list_lru list_lru list_lru list_lru (\<lambda>_. None) (\<lambda>_. None) demo_process None 0 [] demo_disk)"


theorem entries_survive_witness:
  "\<exists>c' d'. run_stores demo_graph_codec plain_codec demo_store
       [GraphPut demo_hex (build_from_analysis demo_entries), GraphGet demo_hex, EntryGet (''analyze_module'', demo_hex)] (demo_cache, demo_graph_disk) = Some (c', d') \<and>
     stored_value plain_codec c' d' (''analyze_file'', demo_hex) = stored_value plain_codec demo_cache demo_graph_disk (''analyze_file'', demo_hex)"
proof (rule entries_survive_graphs)
  have h: "is_hash_hex demo_hex" using demo_hex_valid by (simp add: valid_key_def)
  then show "valid_key (''analyze_file'', demo_hex)" by (simp add: valid_key_def plain_name_def)
  fix op :: "string store_op"
  assume "op \<in> set [GraphPut demo_hex (build_from_analysis demo_entries), GraphGet demo_hex, EntryGet (''analyze_module'', demo_hex)]"
  then show "op_ok op \<and> \<not> writes_entry (''analyze_file'', demo_hex) op"
    using h hash_hex_slice[OF h] by (auto simp: valid_key_def plain_name_def)
qed

end
