(* ===== verification/Spec2Isabelle.thy ===== *)
theory Spec2Isabelle
  imports EditToolProps BlastRadius FormatterProps AnalyzeFileProps ShellProps ExecToolProps ExecCapture FocusedProps SummaryProps MetricsProps EditOverwriteProps AnalyzeDirectoryProps
    SymbolPages AnchorsProps Completion ServerProps
begin

text \<open>
  \<^bold>\<open>The program.\<close> \<open>aptu-coder\<close> is a server of the Model Context Protocol that answers questions about source
  code and edits files for a coding agent. The crate \<open>aptu-coder-core\<close> analyses: it walks directories, parses files with
  \<open>tree-sitter\<close>, builds call graphs and structural graphs, formats reports, caches them and edits text. The crate
  \<open>aptu-coder\<close> serves: it validates paths, runs one handler per tool, runs shell commands behind a guard, keeps resources
  readable by address, and writes metrics. A handler resolves the path, looks into the memory cache and the disk cache,
  runs the core on a miss, renders a page or a summary, and sends one event to the metrics. The release profile aborts on
  a panic, so every panic of a slice, an index or an arithmetic check ends the server; \<open>Panic\<close> and the outer \<open>None\<close> of the
  definitions stand for it.

  \<^bold>\<open>Conventions.\<close> Strings are lists of UTF-8 bytes (\<open>RustStr\<close>), so that slicing can fail as it does in Rust; paths are
  lists of components (\<open>Path\<close>); fallible functions return \<open>outcome\<close>, a sum or an option; a handler threads a record of its
  shared state and returns it. Integers are unbounded where the code cannot come near their width, and words where it
  matters: the dates of the metrics and the counters of the disk cache. Maps of the code are association lists with one
  entry per key; where the code iterates over a hash map the order is a parameter.

  \<^bold>\<open>What is a parameter.\<close> Code that is not under \<open>src/\<close>: the syntax trees and queries of \<open>tree-sitter\<close> (\<open>extractor\<close>,
  \<open>module_elements\<close>), \<open>serde_json\<close>, \<open>postcard\<close> and \<open>snap\<close> (\<open>disk_codec\<close>, \<open>graph_codec\<close>), \<open>blake3\<close>, \<open>base64\<close>
  (\<open>cursor_codec\<close>), \<open>lru\<close> (\<open>lru_ops\<close>), \<open>regex\<close> and \<open>toml\<close>, the \<open>ignore\<close> walker, the \<open>git\<close> and shell processes, the
  clock and the environment. The laws a theorem needs of them are hypotheses or locale assumptions with instances. The operating
  system is a value: \<open>os\<close> canonicalizes, \<open>fs\<close> and \<open>disk\<close> hold files and say which calls are refused, \<open>file_view\<close> is what
  one reader sees, and an operation that reads twice takes two views.
\<close>

text \<open>
  \<^bold>\<open>Editing.\<close> \<open>Edit\<close>, \<open>EditSpans\<close>, \<open>EditTrim\<close> and \<open>EditBatch\<close> model \<open>core/src/edit.rs\<close>: atomic writes, the matching of
  a block with normalised line ends and its fallback without trailing blanks, the splicing of one replacement, of all and of a batch.
  The theorems say what the file holds after each success, that failures change nothing, which errors occur and that the byte
  arithmetic never leaves a character boundary. \<open>Validation\<close> models \<open>validation.rs\<close>; \<open>EditTool\<close> and \<open>EditOverwrite\<close>
  model the handlers \<open>tools/edit_replace.rs\<close> and \<open>tools/edit_overwrite.rs\<close>, with the circuit breaker they share.

  \<^bold>\<open>Graphs.\<close> \<open>Types\<close>, \<open>Bfs\<close>, \<open>CallGraph\<close>, \<open>Structural\<close> and \<open>BlastRadius\<close> model \<open>graph/call_graph.rs\<close> and
  \<open>graph/structural.rs\<close>: the chains found are exactly those the edges give up to the depth, resolution with an index is
  resolution by search, and the traversals return exactly what is in reach. Breadth-first search stops by a measure on the nodes not
  yet seen, so no fuel is used. \<open>GraphStore\<close> is \<open>graph/store.rs\<close>: round trip and eviction.

  \<^bold>\<open>Reports.\<close> \<open>FileAnalysis\<close>, \<open>Formatter\<close>, \<open>Summary\<close>, \<open>Focused\<close> model \<open>analyze.rs\<close>, \<open>formatter/\<close>,
  \<open>module_lookup.rs\<close>, \<open>lang.rs\<close>, \<open>test_detection.rs\<close> and \<open>analyze_focused.rs\<close>; \<open>Traversal\<close> and \<open>Pagination\<close>
  model \<open>traversal.rs\<close> and \<open>pagination.rs\<close>. \<open>AnalyzeFileTool\<close>, \<open>AnalyzeModule\<close> and \<open>AnalyzeDirectory\<close> are the
  handlers of the same names under \<open>tools/\<close>, over the caches \<open>Cache\<close> (\<open>cache.rs\<close>) and \<open>DiskCache\<close> (\<open>cache_disk.rs\<close>,
  \<open>file_lock.rs\<close>). The theorems state what each tier may answer, what a second call and a call after a restart answer, and
  that each call sends one metric that agrees with its answer.

  \<^bold>\<open>Commands.\<close> \<open>ShellScan\<close> models the guard against here-documents (\<open>shell_scan.rs\<close>, \<open>heredoc_validation.rs\<close>),
  \<open>Filters\<close> the output filters (\<open>filters.rs\<close>, \<open>ansi.rs\<close>), \<open>ExecRuntime\<close> the runs with their limits and captures
  (\<open>exec_runtime.rs\<close>), \<open>ExecCommand\<close> the handler, \<open>Resources\<close> what can be read back (\<open>tools/resources.rs\<close>). The theorems
  say that output reported as complete is complete, that a linked capture reads back as what was written, and which commands the
  guard accepts. Timing enters as the outcome of each wait.

  \<^bold>\<open>Symbols.\<close> \<open>SymbolTool\<close> models the tool \<open>analyze_symbol\<close> from its entry in \<open>lib.rs\<close> to its metric
  (\<open>tools/analyze_symbol.rs\<close>, \<open>tools/symbol_focused.rs\<close>) over the analysis of \<open>Focused\<close> and the tiers of \<open>Cache\<close> and
  \<open>DiskCache\<close>. \<open>SymbolProps\<close> says which events a call sends and what a repeated call answers, \<open>SymbolPages\<close> that a client
  who follows the cursors stops and has seen every page; the number of pages is computed from the lists and is the fuel of
  the client. \<open>Anchors\<close> models \<open>anchors.rs\<close> and \<open>tools/verify_anchors.rs\<close>, \<open>Completion\<close> models \<open>completion.rs\<close>
  and the request \<open>complete\<close>; the theorems give the verdict of each anchor and confine the completions.

  \<^bold>\<open>The server.\<close> \<open>Session\<close> models the numbers and names under which calls are reported (\<open>tools/server.rs\<close>), one operation
  at a time and as a relation in which the steps of several tasks interleave. \<open>Server\<close> models \<open>build_analyzer\<close>, the state it
  builds from the environment, the entries of the analysis tools and \<open>read_resource\<close> (\<open>lib.rs\<close>). \<open>ServerProps\<close> composes
  it with the stores: which directories they use, and that the disk cache keeps its entries whatever the graph store does in the
  directory they share.

  \<^bold>\<open>Metrics.\<close> \<open>Metrics\<close> models \<open>metrics.rs\<close> and \<open>metrics_export.rs\<close>: the pipeline is a sequence of sends and writer
  rounds in any order, with the invariant that nothing is lost uncounted or reordered; \<open>Calendar\<close> and \<open>MetricsDates\<close>
  show that the 32-bit date arithmetic is the calendar's up to the year 9999.

  \<^bold>\<open>The shape of the library.\<close> \<open>Prelude\<close>, \<open>RustStr\<close>, \<open>StrOps\<close>, \<open>Path\<close> and \<open>PathOrder\<close> hold the vocabulary. A theory
  \<open>XProps\<close> holds the theorems on \<open>X\<close>. The contracts between components are locales interpreted where they are provided:
  the LRU crate and the file cache in \<open>CacheProps\<close>, the codecs and keyed stores of the disk in \<open>DiskCacheProps\<close>. Loops
  are structural recursions or have a measure; none uses fuel.

  \<^bold>\<open>Not modelled.\<close> What walks \<open>tree-sitter\<close> syntax trees (\<open>parser.rs\<close> in the main, \<open>parser_elements.rs\<close>,
  \<open>languages/\<close>), since the trees are third-party values; the JSON schemas; process start, signals, tracing and the
  OpenTelemetry exporters (\<open>main.rs\<close>, \<open>otel.rs\<close>), which are input and output; the dispatch of the protocol,
  which the \<open>rmcp\<close> macros generate; \<open>config.rs\<close>, whose values no handler reads, and \<open>shell_write.rs\<close>, a re-export.
\<close>

end
